(* ===== verification/Rust_Text.thy ===== *)
theory Rust_Text
  imports Prelude
begin

text \<open>
  The part of Rust's \<open>str\<close>, \<open>char\<close> and Unix \<open>Path\<close> the source uses. A string is the list
  of its Unicode scalar values, so \<open>chars().count()\<close> is the length of the list and \<open>take(n)\<close>
  of the characters is \<open>take n\<close>; no operation modelled here depends on byte offsets other
  than to slice at a position that a search returned.
\<close>

section \<open>Characters and literals\<close>

type_synonym rchar = nat
type_synonym rstring = "rchar list"

text \<open>An ASCII literal of the source, and the characters the source names.\<close>

definition lit :: "string \<Rightarrow> rstring" where
  "lit s = map of_char s"

definition ellipsis :: rchar where "ellipsis = 0x2026"

definition ascii_in :: "string \<Rightarrow> rchar \<Rightarrow> bool" where
  "ascii_in s c \<longleftrightarrow> c \<in> set (lit s)"

text \<open>\<open>char::is_whitespace\<close>: the Unicode property \<open>White_Space\<close>.\<close>

definition is_whitespace :: "rchar \<Rightarrow> bool" where
  "is_whitespace c \<longleftrightarrow>
     9 \<le> c \<and> c \<le> 13 \<or> c = 0x20 \<or> c = 0x85 \<or> c = 0xA0 \<or> c = 0x1680 \<or>
     0x2000 \<le> c \<and> c \<le> 0x200A \<or> c = 0x2028 \<or> c = 0x2029 \<or> c = 0x202F \<or> c = 0x205F \<or> c = 0x3000"

definition is_ascii_digit :: "rchar \<Rightarrow> bool" where
  "is_ascii_digit c \<longleftrightarrow> 48 \<le> c \<and> c \<le> 57"

definition is_ascii_uppercase :: "rchar \<Rightarrow> bool" where
  "is_ascii_uppercase c \<longleftrightarrow> 65 \<le> c \<and> c \<le> 90"

definition is_ascii_lowercase :: "rchar \<Rightarrow> bool" where
  "is_ascii_lowercase c \<longleftrightarrow> 97 \<le> c \<and> c \<le> 122"

definition is_ascii_alphanumeric :: "rchar \<Rightarrow> bool" where
  "is_ascii_alphanumeric c \<longleftrightarrow> is_ascii_digit c \<or> is_ascii_uppercase c \<or> is_ascii_lowercase c"

definition ascii_lower :: "rchar \<Rightarrow> rchar" where
  "ascii_lower c = (if is_ascii_uppercase c then c + 32 else c)"

definition to_ascii_lowercase :: "rstring \<Rightarrow> rstring" where
  "to_ascii_lowercase s = map ascii_lower s"

definition eq_ignore_ascii_case :: "rstring \<Rightarrow> rstring \<Rightarrow> bool" where
  "eq_ignore_ascii_case a b \<longleftrightarrow> to_ascii_lowercase a = to_ascii_lowercase b"

section \<open>Trimming\<close>

definition trim_start :: "rstring \<Rightarrow> rstring" where
  "trim_start s = dropWhile is_whitespace s"

definition trim_end :: "rstring \<Rightarrow> rstring" where
  "trim_end s = rev (dropWhile is_whitespace (rev s))"

definition trim :: "rstring \<Rightarrow> rstring" where
  "trim s = trim_end (trim_start s)"

definition trim_matches :: "(rchar \<Rightarrow> bool) \<Rightarrow> rstring \<Rightarrow> rstring" where
  "trim_matches P s = rev (dropWhile P (rev (dropWhile P s)))"

definition trim_start_matches :: "(rchar \<Rightarrow> bool) \<Rightarrow> rstring \<Rightarrow> rstring" where
  "trim_start_matches P s = dropWhile P s"

lemma trim_Nil [simp]: "trim [] = []"
  by (simp add: trim_def trim_end_def trim_start_def)

lemma trim_empty_iff: "trim s = [] \<longleftrightarrow> (\<forall>c\<in>set s. is_whitespace c)"
proof -
  have "(\<forall>c\<in>set (dropWhile is_whitespace s). is_whitespace c) \<longleftrightarrow> (\<forall>c\<in>set s. is_whitespace c)"
    by (induction s) auto
  then show ?thesis
    by (simp add: trim_def trim_end_def trim_start_def dropWhile_eq_Nil_conv)
qed

lemma trim_nonempty_hd: "trim s \<noteq> [] \<Longrightarrow> \<not> is_whitespace (hd (trim s))"
proof -
  assume ne: "trim s \<noteq> []"
  define t where "t = dropWhile is_whitespace s"
  have "\<not> is_whitespace (hd t)" if "t \<noteq> []"
    using that unfolding t_def by (metis hd_dropWhile)
  moreover have "hd (trim s) = hd t" and "t \<noteq> []"
  proof -
    obtain w where w: "rev t = w @ dropWhile is_whitespace (rev t)"
      by (metis takeWhile_dropWhile_id)
    then have "t = trim s @ rev w"
      unfolding trim_def trim_end_def trim_start_def t_def [symmetric]
      by (metis rev_append rev_rev_ident)
    with ne show "hd (trim s) = hd t" and "t \<noteq> []" by (metis hd_append2) (use ne \<open>t = trim s @ rev w\<close> in auto)
  qed
  ultimately show ?thesis by simp
qed

lemma trim_nonempty_last: "trim s \<noteq> [] \<Longrightarrow> \<not> is_whitespace (last (trim s))"
  unfolding trim_def trim_end_def trim_start_def
  by (metis hd_dropWhile last_rev rev_is_Nil_conv)

lemma dropWhile_hd_false: "xs = [] \<or> \<not> P (hd xs) \<Longrightarrow> dropWhile P xs = xs"
  by (cases xs) auto

lemma trim_trim [simp]: "trim (trim s) = trim s"
proof (cases "trim s = []")
  case True
  then show ?thesis by simp
next
  case False
  have "trim_start (trim s) = trim s"
    unfolding trim_start_def by (rule dropWhile_hd_false) (simp add: trim_nonempty_hd False)
  moreover have "trim_end (trim s) = trim s"
    unfolding trim_end_def using trim_nonempty_last [OF False] False
    by (simp add: dropWhile_hd_false hd_rev)
  ultimately show ?thesis unfolding trim_def [of "trim s"] by simp
qed

lemma length_trim: "length (trim s) \<le> length s"
  unfolding trim_def trim_end_def trim_start_def
  by (metis length_dropWhile_le length_rev le_trans)

section \<open>Prefixes and searching\<close>

fun strip_prefix :: "rstring \<Rightarrow> rstring \<Rightarrow> rstring option" where
  "strip_prefix [] s = Some s"
| "strip_prefix (p # ps) [] = None"
| "strip_prefix (p # ps) (c # cs) = (if p = c then strip_prefix ps cs else None)"

definition starts_with :: "rstring \<Rightarrow> rstring \<Rightarrow> bool" where
  "starts_with p s \<longleftrightarrow> strip_prefix p s \<noteq> None"

definition strip_suffix :: "rstring \<Rightarrow> rstring \<Rightarrow> rstring option" where
  "strip_suffix p s = map_option rev (strip_prefix (rev p) (rev s))"

lemma strip_prefix_Some: "strip_prefix p s = Some r \<longleftrightarrow> s = p @ r"
  by (induction p s rule: strip_prefix.induct) auto

lemma starts_with_iff: "starts_with p s \<longleftrightarrow> (\<exists>r. s = p @ r)"
  by (auto simp: starts_with_def strip_prefix_Some)

lemma strip_suffix_Some: "strip_suffix p s = Some r \<longleftrightarrow> s = r @ p"
proof -
  have "strip_suffix p s = Some r \<longleftrightarrow> rev s = rev p @ rev r"
    unfolding strip_suffix_def by (auto simp: strip_prefix_Some)
  then show ?thesis by (metis rev_append rev_rev_ident)
qed

text \<open>\<open>find(needle)\<close>: the position of the first occurrence.\<close>

fun find_str :: "rstring \<Rightarrow> rstring \<Rightarrow> nat option" where
  "find_str n [] = (if n = [] then Some 0 else None)"
| "find_str n (c # cs) = (if starts_with n (c # cs) then Some 0 else map_option Suc (find_str n cs))"

definition contains_str :: "rstring \<Rightarrow> rstring \<Rightarrow> bool" where
  "contains_str n s \<longleftrightarrow> find_str n s \<noteq> None"

text \<open>\<open>rfind(needle)\<close>: the position of the last occurrence.\<close>

definition rfind_str :: "rstring \<Rightarrow> rstring \<Rightarrow> nat option" where
  "rfind_str n s = map_option (\<lambda>i. length s - length n - i) (find_str (rev n) (rev s))"

lemma find_str_Some: "find_str n s = Some i \<Longrightarrow> i \<le> length s \<and> starts_with n (drop i s)"
  by (induction s arbitrary: i) (auto split: if_splits simp: starts_with_def)

lemma find_str_split: "find_str n s = Some i \<Longrightarrow> \<exists>r. s = take i s @ n @ r"
proof -
  assume "find_str n s = Some i"
  then have "starts_with n (drop i s)" by (simp add: find_str_Some)
  then obtain r where "drop i s = n @ r" by (auto simp: starts_with_iff)
  then show ?thesis by (metis append_take_drop_id)
qed

section \<open>Splitting and joining\<close>

text \<open>\<open>split(p)\<close>: one more piece than separators.\<close>

fun split_pred :: "(rchar \<Rightarrow> bool) \<Rightarrow> rstring \<Rightarrow> rstring list" where
  "split_pred P [] = [[]]"
| "split_pred P (c # cs) =
     (if P c then [] # split_pred P cs
      else (case split_pred P cs of [] \<Rightarrow> [[c]] | w # ws \<Rightarrow> (c # w) # ws))"

definition split_char :: "rchar \<Rightarrow> rstring \<Rightarrow> rstring list" where
  "split_char d s = split_pred (\<lambda>c. c = d) s"

definition split_whitespace :: "rstring \<Rightarrow> rstring list" where
  "split_whitespace s = filter (\<lambda>w. w \<noteq> []) (split_pred is_whitespace s)"

text \<open>
  \<open>lines()\<close>: pieces ended by a line feed, a last piece without one if it is not empty; a
  carriage return is dropped only in front of a line feed.
\<close>

definition strip_cr :: "rstring \<Rightarrow> rstring" where
  "strip_cr s = unwrap_or (strip_suffix [13] s) s"

definition lines :: "rstring \<Rightarrow> rstring list" where
  "lines s = (let ps = split_char 10 s in
     map strip_cr (butlast ps) @ (if last ps = [] then [] else [last ps]))"

fun join :: "rstring \<Rightarrow> rstring list \<Rightarrow> rstring" where
  "join sep [] = []"
| "join sep [w] = w"
| "join sep (w # v # ws) = w @ sep @ join sep (v # ws)"

text \<open>\<open>split_once(c)\<close>, \<open>rsplit(p).next()\<close> for a set of characters and for a string.\<close>

definition split_once_char :: "rchar \<Rightarrow> rstring \<Rightarrow> (rstring \<times> rstring) option" where
  "split_once_char d s =
     (if d \<in> set s then Some (takeWhile (\<lambda>c. c \<noteq> d) s, tl (dropWhile (\<lambda>c. c \<noteq> d) s)) else None)"

definition rsplit_next_pred :: "(rchar \<Rightarrow> bool) \<Rightarrow> rstring \<Rightarrow> rstring" where
  "rsplit_next_pred P s = rev (takeWhile (\<lambda>c. \<not> P c) (rev s))"

definition rsplit_next_str :: "rstring \<Rightarrow> rstring \<Rightarrow> rstring" where
  "rsplit_next_str n s = (case rfind_str n s of None \<Rightarrow> s | Some i \<Rightarrow> drop (i + length n) s)"

definition rsplit_once_str :: "rstring \<Rightarrow> rstring \<Rightarrow> (rstring \<times> rstring) option" where
  "rsplit_once_str n s =
     map_option (\<lambda>i. (take i s, drop (i + length n) s)) (rfind_str n s)"

lemma split_pred_nonempty [simp]: "split_pred P s \<noteq> []"
  by (induction s) (auto split: list.splits)

lemma split_pred_no_sep: "w \<in> set (split_pred P s) \<Longrightarrow> c \<in> set w \<Longrightarrow> \<not> P c"
  by (induction s arbitrary: w) (force split: if_splits list.splits)+

lemma split_pred_set: "w \<in> set (split_pred P s) \<Longrightarrow> set w \<subseteq> set s"
  by (induction s arbitrary: w) (force split: if_splits list.splits)+

lemma split_whitespace_word:
  "w \<in> set (split_whitespace s) \<Longrightarrow> w \<noteq> [] \<and> (\<forall>c\<in>set w. \<not> is_whitespace c)"
  using split_pred_no_sep by (auto simp: split_whitespace_def)

lemma strip_cr_set: "set (strip_cr s) \<subseteq> set s"
proof (cases "strip_suffix [13] s")
  case None
  then show ?thesis by (simp add: strip_cr_def)
next
  case (Some r)
  then have "s = r @ [13]" by (simp add: strip_suffix_Some)
  with Some show ?thesis by (auto simp: strip_cr_def)
qed

lemma lines_no_newline: "l \<in> set (lines s) \<Longrightarrow> 10 \<notin> set l"
proof -
  assume "l \<in> set (lines s)"
  then have "(\<exists>p\<in>set (split_char 10 s). l = strip_cr p) \<or> l = last (split_char 10 s)"
    by (auto simp: lines_def Let_def dest: in_set_butlastD split: if_splits)
  moreover have "last (split_char 10 s) \<in> set (split_char 10 s)"
    by (rule last_in_set) (simp add: split_char_def)
  ultimately obtain p where p: "p \<in> set (split_char 10 s)" and "l = strip_cr p \<or> l = p"
    by blast
  then have "set l \<subseteq> set p" using strip_cr_set by blast
  moreover have "10 \<notin> set p"
    using p split_pred_no_sep [of p "\<lambda>c. c = 10"] by (auto simp: split_char_def)
  ultimately show ?thesis by blast
qed

lemma lines_Nil [simp]: "lines [] = []"
  by (simp add: lines_def split_char_def)

lemma split_pred_sep: "\<forall>c\<in>set w. \<not> P c \<Longrightarrow> P d \<Longrightarrow> split_pred P (w @ d # s) = w # split_pred P s"
  by (induction w) auto

text \<open>The lines of a text written line by line are those lines.\<close>

definition unlines :: "rstring list \<Rightarrow> rstring" where
  "unlines ls = concat (map (\<lambda>l. l @ [10]) ls)"

definition is_line :: "rstring \<Rightarrow> bool" where
  "is_line l \<longleftrightarrow> 10 \<notin> set l \<and> (l \<noteq> [] \<longrightarrow> last l \<noteq> 13)"

lemma unlines_simps [simp]: "unlines [] = []" "unlines (l # ls) = l @ 10 # unlines ls"
  "unlines (ls @ ms) = unlines ls @ unlines ms"
  by (simp_all add: unlines_def)

lemma unlines_eq_Nil [simp]: "unlines ls = [] \<longleftrightarrow> ls = []"
  by (cases ls) auto

lemma strip_cr_line: "is_line l \<Longrightarrow> strip_cr l = l"
proof (cases "strip_suffix [13] l")
  case None
  then show ?thesis by (simp add: strip_cr_def)
next
  case (Some r)
  assume "is_line l"
  with Some show ?thesis by (auto simp: strip_suffix_Some is_line_def)
qed

lemma split_char_unlines: "\<forall>l\<in>set ls. is_line l \<Longrightarrow> split_char 10 (unlines ls) = ls @ [[]]"
proof (induction ls)
  case Nil
  then show ?case by (simp add: split_char_def)
next
  case (Cons l ls)
  then have "\<forall>c\<in>set l. \<not> c = 10" by (auto simp: is_line_def)
  from split_pred_sep [OF this, of 10 "unlines ls"] Cons show ?case by (simp add: split_char_def)
qed

lemma lines_unlines: "\<forall>l\<in>set ls. is_line l \<Longrightarrow> lines (unlines ls) = ls"
  by (simp add: lines_def split_char_unlines map_idI strip_cr_line)

text \<open>\<open>format!("{n}")\<close> of an unsigned integer.\<close>

fun dec :: "nat \<Rightarrow> rstring" where
  "dec n = (if n < 10 then [48 + n] else dec (n div 10) @ [48 + n mod 10])"

declare dec.simps [simp del]

lemma dec_digits: "c \<in> set (dec n) \<Longrightarrow> is_ascii_digit c"
proof (induction n rule: dec.induct)
  case (1 n)
  show ?case
  proof (cases "n < 10")
    case True
    with "1.prems" show ?thesis by (simp add: dec.simps [of n] is_ascii_digit_def)
  next
    case False
    with "1.prems" "1.IH" show ?thesis
      by (auto simp: dec.simps [of n] is_ascii_digit_def split: if_splits)
  qed
qed

section \<open>Unix paths\<close>

datatype path_component = RootDir | CurDir | ParentDir | Normal rstring

definition component_of :: "rstring \<Rightarrow> path_component" where
  "component_of s = (if s = lit ''..'' then ParentDir else Normal s)"

text \<open>
  \<open>Path::components\<close>: repeated and trailing separators and every \<open>.\<close> but a leading one are
  dropped.
\<close>

definition components :: "rstring \<Rightarrow> path_component list" where
  "components p =
     (let parts = filter (\<lambda>w. w \<noteq> [] \<and> w \<noteq> lit ''.'') (split_char 47 p)
      in (if starts_with (lit ''/'') p then [RootDir]
          else if p = lit ''.'' \<or> starts_with (lit ''./'') p then [CurDir] else [])
         @ map component_of parts)"

definition file_name :: "rstring \<Rightarrow> rstring option" where
  "file_name p = (case last_opt (components p) of Some (Normal s) \<Rightarrow> Some s | _ \<Rightarrow> None)"

text \<open>\<open>Path::extension\<close>: what follows the last dot of the file name, unless that dot comes first.\<close>

definition path_extension :: "rstring \<Rightarrow> rstring option" where
  "path_extension p =
     (case file_name p of
        None \<Rightarrow> None
      | Some f \<Rightarrow>
          if 46 \<in> set f \<and> length (rsplit_next_pred (\<lambda>c. c = 46) f) + 1 < length f
          then Some (rsplit_next_pred (\<lambda>c. c = 46) f) else None)"

definition path_starts_with :: "rstring \<Rightarrow> rstring \<Rightarrow> bool" where
  "path_starts_with p base \<longleftrightarrow> prefix (components base) (components p)"

end
