(* ===== verification/Json_Value.thy ===== *)
theory Json_Value
  imports Rust_Text
begin

text \<open>
  The view of \<open>serde_json::Value\<close> the source matches on, and the functions of the program's
  dependencies that its definitions call. \<open>lib\<close> collects the latter as parameters: the JSON
  reader and writers, the localisation table behind \<open>tr!\<close>, and the line differ of the
  \<open>similar\<close> crate.
\<close>

section \<open>JSON values\<close>

text \<open>
  A number is what the program can observe of it: its \<open>as_u64\<close> and its printed form. An object
  is its entries in iteration order.
\<close>

datatype json =
    JNull
  | JBool bool
  | JNumber "u64 option" rstring
  | JString rstring
  | JArray "json list"
  | JObject "(rstring \<times> json) list"

fun as_str :: "json \<Rightarrow> rstring option" where
  "as_str (JString s) = Some s"
| "as_str _ = None"

fun as_u64 :: "json \<Rightarrow> u64 option" where
  "as_u64 (JNumber n _) = n"
| "as_u64 _ = None"

fun as_array :: "json \<Rightarrow> json list option" where
  "as_array (JArray xs) = Some xs"
| "as_array _ = None"

fun as_object :: "json \<Rightarrow> (rstring \<times> json) list option" where
  "as_object (JObject m) = Some m"
| "as_object _ = None"

definition is_null :: "json \<Rightarrow> bool" where "is_null v \<longleftrightarrow> v = JNull"
definition is_array :: "json \<Rightarrow> bool" where "is_array v \<longleftrightarrow> as_array v \<noteq> None"
definition is_string :: "json \<Rightarrow> bool" where "is_string v \<longleftrightarrow> as_str v \<noteq> None"

text \<open>\<open>Map::get\<close>, \<open>Map::contains_key\<close> and \<open>Value::get\<close> with a string literal as the key.\<close>

definition obj_get :: "(rstring \<times> json) list \<Rightarrow> string \<Rightarrow> json option" where
  "obj_get m k = map_of m (lit k)"

definition obj_has :: "(rstring \<times> json) list \<Rightarrow> string \<Rightarrow> bool" where
  "obj_has m k \<longleftrightarrow> obj_get m k \<noteq> None"

definition value_get :: "json \<Rightarrow> string \<Rightarrow> json option" where
  "value_get v k = Option.bind (as_object v) (\<lambda>m. obj_get m k)"

definition obj_str :: "(rstring \<times> json) list \<Rightarrow> string \<Rightarrow> rstring option" where
  "obj_str m k = Option.bind (obj_get m k) as_str"

lemma map_of_size: "map_of m k = Some (v :: json) \<Longrightarrow> size v < Suc (size_list (size_prod (\<lambda>_. 0) size) m)"
proof (induction m)
  case Nil
  then show ?case by simp
next
  case (Cons p m)
  then show ?case by (cases p) (auto split: if_splits)
qed

lemma obj_get_size: "obj_get m k = Some v \<Longrightarrow> size v < size (JObject m)"
  using map_of_size [of m "lit k" v] by (simp add: obj_get_def)

section \<open>What the program takes from its dependencies\<close>

datatype change_tag = TagEqual | TagDelete | TagInsert

text \<open>
  \<open>lib_diff n old new\<close> is \<open>TextDiff::from_slices(old, new).grouped_ops(n)\<close> with every operation
  replaced by the list of its changes, as \<open>iter_changes\<close> yields them.
\<close>

record lib =
  lib_from_str :: "rstring \<Rightarrow> json option"
  lib_pretty :: "json \<Rightarrow> rstring option"
  lib_display :: "json \<Rightarrow> rstring"
  lib_tr :: "rstring \<Rightarrow> rstring"
  lib_diff :: "nat \<Rightarrow> rstring list \<Rightarrow> rstring list \<Rightarrow> (change_tag \<times> rstring) list list list"

definition tr :: "lib \<Rightarrow> string \<Rightarrow> rstring" where
  "tr L k = lib_tr L (lit k)"

text \<open>
  A concrete instance for closed evaluations: no text is JSON, localisation returns its key,
  and a diff is one group that deletes every old line and inserts every new one.
\<close>

definition plain_lib :: lib where
  "plain_lib = \<lparr>
     lib_from_str = (\<lambda>_. None), lib_pretty = (\<lambda>_. None), lib_display = (\<lambda>_. []),
     lib_tr = (\<lambda>k. k),
     lib_diff = (\<lambda>_ old new. [[map (Pair TagDelete) old, map (Pair TagInsert) new]]) \<rparr>"

end
