(* ===== verification/Provider_Model.thy ===== *)
theory Provider_Model
  imports Json_Value
begin

text \<open>
  Providers, access modes, model catalogs and projects: the first part of
  \<open>crates/shidou-protocol/src/model.rs\<close>. A \<open>PathBuf\<close> is the string of its Unix path.
\<close>

section \<open>Providers\<close>

datatype provider_kind =
  Amp | Claude | Codex | Cursor | DeepSeek | Fx | OpenCode | Grok | Kimi | OhMyPi | Pi

definition provider_default :: provider_kind where
  "provider_default = Codex"

definition provider_all :: "provider_kind list" where
  "provider_all = [Amp, Claude, Codex, Cursor, DeepSeek, Fx, OpenCode, Grok, Kimi, OhMyPi, Pi]"

fun provider_kind_id :: "provider_kind \<Rightarrow> rstring" where
  "provider_kind_id Amp = lit ''amp''"
| "provider_kind_id Claude = lit ''claude''"
| "provider_kind_id Codex = lit ''codex''"
| "provider_kind_id Cursor = lit ''cursor''"
| "provider_kind_id DeepSeek = lit ''deepseek''"
| "provider_kind_id Fx = lit ''fx''"
| "provider_kind_id OpenCode = lit ''opencode''"
| "provider_kind_id Grok = lit ''grok''"
| "provider_kind_id Kimi = lit ''kimi''"
| "provider_kind_id OhMyPi = lit ''ohmypi''"
| "provider_kind_id Pi = lit ''pi''"

fun provider_display_name :: "provider_kind \<Rightarrow> rstring" where
  "provider_display_name Amp = lit ''Amp''"
| "provider_display_name Claude = lit ''Claude Code''"
| "provider_display_name Codex = lit ''Codex CLI''"
| "provider_display_name Cursor = lit ''Cursor CLI''"
| "provider_display_name DeepSeek = lit ''DeepSeek Harness''"
| "provider_display_name Fx = lit ''Fx''"
| "provider_display_name OpenCode = lit ''OpenCode''"
| "provider_display_name Grok = lit ''Grok Build''"
| "provider_display_name Kimi = lit ''Kimi Code''"
| "provider_display_name OhMyPi = lit ''Oh My Pi''"
| "provider_display_name Pi = lit ''Pi''"

fun provider_short_name :: "provider_kind \<Rightarrow> rstring" where
  "provider_short_name Amp = lit ''Amp''"
| "provider_short_name Claude = lit ''Claude''"
| "provider_short_name Codex = lit ''Codex''"
| "provider_short_name Cursor = lit ''Cursor''"
| "provider_short_name DeepSeek = lit ''DeepSeek''"
| "provider_short_name Fx = lit ''Fx''"
| "provider_short_name OpenCode = lit ''OpenCode''"
| "provider_short_name Grok = lit ''Grok''"
| "provider_short_name Kimi = lit ''Kimi''"
| "provider_short_name OhMyPi = lit ''Oh My Pi''"
| "provider_short_name Pi = lit ''Pi''"

fun provider_command :: "provider_kind \<Rightarrow> rstring" where
  "provider_command Amp = lit ''amp''"
| "provider_command Claude = lit ''claude''"
| "provider_command Codex = lit ''codex''"
| "provider_command Cursor = lit ''cursor-agent''"
| "provider_command DeepSeek = lit ''dsh''"
| "provider_command Fx = lit ''fx''"
| "provider_command OpenCode = lit ''opencode''"
| "provider_command Grok = lit ''grok''"
| "provider_command Kimi = lit ''kimi''"
| "provider_command OhMyPi = lit ''omp''"
| "provider_command Pi = lit ''pi''"

definition supports_conversation_rollback :: "provider_kind \<Rightarrow> bool" where
  "supports_conversation_rollback p \<longleftrightarrow>
     List.member [Amp, Claude, Codex, Cursor, DeepSeek, OpenCode, Grok, OhMyPi, Pi] p"

definition supports_conversation_fork :: "provider_kind \<Rightarrow> bool" where
  "supports_conversation_fork p \<longleftrightarrow>
     List.member [Amp, Claude, Codex, Cursor, DeepSeek, OpenCode, Grok, OhMyPi, Pi] p"

definition supports_model_discovery :: "provider_kind \<Rightarrow> bool" where
  "supports_model_discovery p \<longleftrightarrow>
     List.member [Codex, Cursor, DeepSeek, Fx, OpenCode, Grok, Kimi, OhMyPi, Pi] p"

section \<open>Resume cursors\<close>

datatype provider_resume_cursor =
    Amp_Cursor rstring "rstring option"
  | Claude_Cursor rstring "rstring option"
  | Codex_Cursor rstring
  | Cursor_Cursor rstring "rstring option"
  | OpenCode_Cursor rstring
  | DeepSeek_Cursor rstring
  | Fx_Cursor rstring
  | Grok_Cursor rstring
  | Kimi_Cursor rstring
  | OhMyPi_Cursor rstring "rstring option"
  | Pi_Cursor rstring "rstring option"

fun from_session_id :: "provider_kind \<Rightarrow> rstring \<Rightarrow> provider_resume_cursor" where
  "from_session_id Amp nid = Amp_Cursor nid None"
| "from_session_id Claude nid = Claude_Cursor nid None"
| "from_session_id Codex nid = Codex_Cursor nid"
| "from_session_id Cursor nid = Cursor_Cursor nid None"
| "from_session_id DeepSeek nid = DeepSeek_Cursor nid"
| "from_session_id Fx nid = Fx_Cursor nid"
| "from_session_id OpenCode nid = OpenCode_Cursor nid"
| "from_session_id Grok nid = Grok_Cursor nid"
| "from_session_id Kimi nid = Kimi_Cursor nid"
| "from_session_id OhMyPi nid = OhMyPi_Cursor nid None"
| "from_session_id Pi nid = Pi_Cursor nid None"

fun cursor_provider :: "provider_resume_cursor \<Rightarrow> provider_kind" where
  "cursor_provider (Amp_Cursor _ _) = Amp"
| "cursor_provider (Claude_Cursor _ _) = Claude"
| "cursor_provider (Codex_Cursor _) = Codex"
| "cursor_provider (Cursor_Cursor _ _) = Cursor"
| "cursor_provider (DeepSeek_Cursor _) = DeepSeek"
| "cursor_provider (Fx_Cursor _) = Fx"
| "cursor_provider (OpenCode_Cursor _) = OpenCode"
| "cursor_provider (Grok_Cursor _) = Grok"
| "cursor_provider (Kimi_Cursor _) = Kimi"
| "cursor_provider (OhMyPi_Cursor _ _) = OhMyPi"
| "cursor_provider (Pi_Cursor _ _) = Pi"

fun native_id :: "provider_resume_cursor \<Rightarrow> rstring" where
  "native_id (Amp_Cursor thread_id _) = thread_id"
| "native_id (Claude_Cursor session_id _) = session_id"
| "native_id (Cursor_Cursor session_id _) = session_id"
| "native_id (DeepSeek_Cursor session_id) = session_id"
| "native_id (Fx_Cursor session_id) = session_id"
| "native_id (OpenCode_Cursor session_id) = session_id"
| "native_id (Grok_Cursor session_id) = session_id"
| "native_id (Kimi_Cursor session_id) = session_id"
| "native_id (OhMyPi_Cursor session_id _) = session_id"
| "native_id (Pi_Cursor session_id _) = session_id"
| "native_id (Codex_Cursor thread_id) = thread_id"

lemma cursor_provider_from_session_id [simp]: "cursor_provider (from_session_id p nid) = p"
  by (cases p) simp_all

lemma native_id_from_session_id [simp]: "native_id (from_session_id p nid) = nid"
  by (cases p) simp_all

section \<open>Access and interaction modes\<close>

datatype runtime_mode = Mode_Plan | Ask | AutoAcceptEdits | Auto | FullAccess

definition runtime_mode_default :: runtime_mode where
  "runtime_mode_default = FullAccess"

definition access_options :: "runtime_mode list" where
  "access_options = [Ask, AutoAcceptEdits, Auto, FullAccess]"

fun runtime_mode_label :: "lib \<Rightarrow> runtime_mode \<Rightarrow> rstring" where
  "runtime_mode_label L Mode_Plan = tr L ''mode.plan''"
| "runtime_mode_label L Ask = tr L ''mode.supervised''"
| "runtime_mode_label L AutoAcceptEdits = tr L ''mode.auto_accept_edits''"
| "runtime_mode_label L Auto = tr L ''mode.auto''"
| "runtime_mode_label L FullAccess = tr L ''mode.full_access''"

fun runtime_mode_description :: "lib \<Rightarrow> runtime_mode \<Rightarrow> rstring" where
  "runtime_mode_description L Mode_Plan = tr L ''mode.plan_description''"
| "runtime_mode_description L Ask = tr L ''mode.supervised_description''"
| "runtime_mode_description L AutoAcceptEdits = tr L ''mode.auto_accept_edits_description''"
| "runtime_mode_description L Auto = tr L ''mode.auto_description''"
| "runtime_mode_description L FullAccess = tr L ''mode.full_access_description''"

fun runtime_mode_icon :: "runtime_mode \<Rightarrow> rstring" where
  "runtime_mode_icon Mode_Plan = lit ''icons/lock.svg''"
| "runtime_mode_icon Ask = lit ''icons/lock.svg''"
| "runtime_mode_icon AutoAcceptEdits = lit ''icons/pencil.svg''"
| "runtime_mode_icon Auto = lit ''icons/sparkle.svg''"
| "runtime_mode_icon FullAccess = lit ''icons/lock-open.svg''"

datatype interaction_mode = Interaction_Build | Interaction_Plan

fun interaction_mode_label :: "lib \<Rightarrow> interaction_mode \<Rightarrow> rstring" where
  "interaction_mode_label L Interaction_Build = tr L ''mode.build''"
| "interaction_mode_label L Interaction_Plan = tr L ''mode.plan''"

section \<open>Model catalogs\<close>

record provider_model_option =
  mo_id :: rstring
  mo_label :: rstring
  mo_description :: "rstring option"

definition provider_model_option_new :: "rstring \<Rightarrow> rstring \<Rightarrow> provider_model_option" where
  "provider_model_option_new nid label = \<lparr>mo_id = nid, mo_label = label, mo_description = None\<rparr>"

definition provider_model_option_description ::
    "provider_model_option \<Rightarrow> rstring \<Rightarrow> provider_model_option" where
  "provider_model_option_description self description =
     (if trim description \<noteq> [] then self\<lparr>mo_description := Some description\<rparr> else self)"

record provider_model =
  pm_id :: rstring
  pm_name :: rstring
  pm_sub_provider :: "rstring option"
  pm_is_default :: bool
  pm_reasoning_efforts :: "provider_model_option list"
  pm_default_reasoning_effort :: "rstring option"
  pm_service_tiers :: "provider_model_option list"
  pm_default_service_tier :: "rstring option"
  pm_context_windows :: "provider_model_option list"
  pm_default_context_window :: "rstring option"

record favorite_model =
  fm_provider :: provider_kind
  fm_model :: rstring

record provider_agent_preset =
  ap_id :: rstring
  ap_name :: rstring
  ap_description :: "rstring option"
  ap_is_default :: bool
  ap_is_custom :: bool

definition agent_preset_new :: "rstring \<Rightarrow> rstring \<Rightarrow> provider_agent_preset" where
  "agent_preset_new nid name =
     \<lparr>ap_id = nid, ap_name = name, ap_description = None, ap_is_default = False,
      ap_is_custom = False\<rparr>"

definition agent_preset_description ::
    "provider_agent_preset \<Rightarrow> rstring \<Rightarrow> provider_agent_preset" where
  "agent_preset_description self description =
     (if trim description \<noteq> [] then self\<lparr>ap_description := Some description\<rparr> else self)"

definition agent_preset_default :: "provider_agent_preset \<Rightarrow> provider_agent_preset" where
  "agent_preset_default self = self\<lparr>ap_is_default := True\<rparr>"

definition agent_preset_display_name :: "lib \<Rightarrow> provider_agent_preset \<Rightarrow> rstring" where
  "agent_preset_display_name L self =
     (if \<not> ap_is_custom self \<and> ap_id self = lit ''standard'' then tr L ''agent_preset.standard''
      else if \<not> ap_is_custom self \<and> ap_id self = lit ''code'' then tr L ''agent_preset.code''
      else if \<not> ap_is_custom self \<and> ap_id self = lit ''minimal'' then tr L ''agent_preset.minimal''
      else if \<not> ap_is_custom self \<and> ap_id self = lit ''cordis'' then tr L ''agent_preset.creator''
      else ap_name self)"

definition agent_preset_display_description ::
    "lib \<Rightarrow> provider_agent_preset \<Rightarrow> rstring option" where
  "agent_preset_display_description L self =
     (if \<not> ap_is_custom self \<and> ap_id self = lit ''standard''
      then Some (tr L ''agent_preset.standard_description'')
      else if \<not> ap_is_custom self \<and> ap_id self = lit ''code''
      then Some (tr L ''agent_preset.code_description'')
      else if \<not> ap_is_custom self \<and> ap_id self = lit ''minimal''
      then Some (tr L ''agent_preset.minimal_description'')
      else if \<not> ap_is_custom self \<and> ap_id self = lit ''cordis''
      then Some (tr L ''agent_preset.creator_description'')
      else ap_description self)"

definition provider_model_new :: "rstring \<Rightarrow> rstring \<Rightarrow> provider_model" where
  "provider_model_new nid name =
     \<lparr>pm_id = nid, pm_name = name, pm_sub_provider = None, pm_is_default = False,
      pm_reasoning_efforts = [], pm_default_reasoning_effort = None,
      pm_service_tiers = [], pm_default_service_tier = None,
      pm_context_windows = [], pm_default_context_window = None\<rparr>"

definition provider_model_default :: "provider_model \<Rightarrow> provider_model" where
  "provider_model_default self = self\<lparr>pm_is_default := True\<rparr>"

definition provider_model_sub_provider :: "provider_model \<Rightarrow> rstring \<Rightarrow> provider_model" where
  "provider_model_sub_provider self sub_provider = self\<lparr>pm_sub_provider := Some sub_provider\<rparr>"

definition provider_model_reasoning ::
    "provider_model \<Rightarrow> provider_model_option list \<Rightarrow> rstring \<Rightarrow> provider_model" where
  "provider_model_reasoning self efforts dflt =
     self\<lparr>pm_reasoning_efforts := efforts, pm_default_reasoning_effort := Some dflt\<rparr>"

definition provider_model_service_tiers ::
    "provider_model \<Rightarrow> provider_model_option list \<Rightarrow> rstring \<Rightarrow> provider_model" where
  "provider_model_service_tiers self tiers dflt =
     self\<lparr>pm_service_tiers := tiers, pm_default_service_tier := Some dflt\<rparr>"

definition provider_model_context_windows ::
    "provider_model \<Rightarrow> provider_model_option list \<Rightarrow> rstring \<Rightarrow> provider_model" where
  "provider_model_context_windows self windows dflt =
     self\<lparr>pm_context_windows := windows, pm_default_context_window := Some dflt\<rparr>"

record provider_probe =
  pp_provider :: provider_kind
  pp_installed :: bool
  pp_path :: "rstring option"
  pp_models :: "provider_model list"
  pp_agent_presets :: "provider_agent_preset list"

definition preferred_model :: "provider_probe \<Rightarrow> provider_model option" where
  "preferred_model self =
     opt_or (find pm_is_default (pp_models self)) (first_opt (pp_models self))"

definition preferred_agent_preset :: "provider_probe \<Rightarrow> provider_agent_preset option" where
  "preferred_agent_preset self =
     opt_or (find ap_is_default (pp_agent_presets self)) (first_opt (pp_agent_presets self))"

section \<open>The version a provider CLI prints\<close>

definition cli_version_token :: "rstring \<Rightarrow> rstring" where
  "cli_version_token token =
     trim_matches (\<lambda>c. \<not> (is_ascii_alphanumeric c \<or> c = 46 \<or> c = 45))
       (trim_start_matches (\<lambda>c. c = 118) token)"

definition is_cli_version :: "rstring \<Rightarrow> bool" where
  "is_cli_version token =
     (case split_char 46 token of
        major # minor # _ \<Rightarrow>
          major \<noteq> [] \<and> list_all is_ascii_digit major \<and>
          (case minor of [] \<Rightarrow> False | c # _ \<Rightarrow> is_ascii_digit c)
      | _ \<Rightarrow> False)"

definition parse_cli_version :: "rstring \<Rightarrow> rstring option" where
  "parse_cli_version output =
     (case find (\<lambda>line. trim line \<noteq> []) (lines output) of
        None \<Rightarrow> None
      | Some line \<Rightarrow> find is_cli_version (map cli_version_token (split_whitespace line)))"

section \<open>Projects and workspaces\<close>

datatype project_workspace_default = Default_Local | Default_NewWorktree

datatype session_workspace =
    Local
  | NewWorktree "rstring option"
  | Worktree rstring rstring

fun workspace_of_default :: "project_workspace_default \<Rightarrow> session_workspace" where
  "workspace_of_default Default_Local = Local"
| "workspace_of_default Default_NewWorktree = NewWorktree None"

record project =
  p_id :: uuid
  p_name :: rstring
  p_path :: rstring
  p_created_at :: u64
  p_workspace_default :: project_workspace_default

fun workspace_is_local :: "session_workspace \<Rightarrow> bool" where
  "workspace_is_local Local = True"
| "workspace_is_local _ = False"

fun workspace_is_worktree :: "session_workspace \<Rightarrow> bool" where
  "workspace_is_worktree (NewWorktree _) = True"
| "workspace_is_worktree (Worktree _ _) = True"
| "workspace_is_worktree Local = False"

fun workspace_path :: "session_workspace \<Rightarrow> rstring option" where
  "workspace_path (Worktree path _) = Some path"
| "workspace_path Local = None"
| "workspace_path (NewWorktree _) = None"

definition project_from_path :: "uuid \<Rightarrow> u64 \<Rightarrow> rstring \<Rightarrow> project" where
  "project_from_path nid now path =
     \<lparr>p_id = nid, p_name = unwrap_or (opt_filter (\<lambda>v. v \<noteq> []) (file_name path)) (lit ''Project''),
      p_path = path, p_created_at = now, p_workspace_default = Default_Local\<rparr>"

end
