(* ===== verification/Session_Types.thy ===== *)
theory Session_Types
  imports Provider_Model
begin

text \<open>
  The data of a session (\<open>crates/shidou-protocol/src/model.rs\<close>): messages, turns, checkpoints,
  transcript blocks and activities, background work, and the driver events a runtime emits.
\<close>

section \<open>Status values\<close>

datatype session_status = Idle | Connecting | Working | Waiting | Session_Failed

fun status_is_busy :: "session_status \<Rightarrow> bool" where
  "status_is_busy Connecting = True"
| "status_is_busy Working = True"
| "status_is_busy Waiting = True"
| "status_is_busy _ = False"

datatype turn_status = Running | Completed | Turn_Failed | Interrupted

datatype checkpoint_status = Ready | Unavailable | Checkpoint_Error

datatype message_role = User | Assistant | System

section \<open>Messages\<close>

record message_attachment =
  ma_path :: rstring
  ma_mention :: rstring
  ma_name :: rstring
  ma_is_dir :: bool
  ma_is_image :: bool
  ma_blob_reference :: "rstring option"

record message =
  m_id :: uuid
  m_turn_id :: "uuid option"
  m_role :: message_role
  m_content :: rstring
  m_display_content :: "rstring option"
  m_attachments :: "message_attachment list"
  m_created_at :: u64
  m_streaming :: bool

definition message_new :: "uuid \<Rightarrow> u64 \<Rightarrow> message_role \<Rightarrow> rstring \<Rightarrow> message" where
  "message_new mid now role content =
     \<lparr>m_id = mid, m_turn_id = None, m_role = role, m_content = content, m_display_content = None,
      m_attachments = [], m_created_at = now, m_streaming = False\<rparr>"

definition message_new_for_turn ::
    "uuid \<Rightarrow> u64 \<Rightarrow> message_role \<Rightarrow> rstring \<Rightarrow> uuid \<Rightarrow> message" where
  "message_new_for_turn mid now role content turn_id =
     (message_new mid now role content)\<lparr>m_turn_id := Some turn_id\<rparr>"

definition message_with_presentation ::
    "message \<Rightarrow> rstring option \<Rightarrow> message_attachment list \<Rightarrow> message" where
  "message_with_presentation self display_content attachments =
     self\<lparr>m_display_content := display_content, m_attachments := attachments\<rparr>"

definition message_visible_content :: "message \<Rightarrow> rstring" where
  "message_visible_content self = unwrap_or (m_display_content self) (m_content self)"

record queued_message =
  q_id :: uuid
  q_content :: rstring
  q_display_content :: "rstring option"
  q_attachments :: "message_attachment list"
  q_created_at :: u64

definition queued_message_new :: "uuid \<Rightarrow> u64 \<Rightarrow> rstring \<Rightarrow> queued_message" where
  "queued_message_new qid now content =
     \<lparr>q_id = qid, q_content = content, q_display_content = None, q_attachments = [],
      q_created_at = now\<rparr>"

definition queued_message_with_presentation ::
    "uuid \<Rightarrow> u64 \<Rightarrow> rstring \<Rightarrow> rstring option \<Rightarrow> message_attachment list \<Rightarrow> queued_message" where
  "queued_message_with_presentation qid now content display_content attachments =
     (queued_message_new qid now content)
       \<lparr>q_display_content := display_content, q_attachments := attachments\<rparr>"

definition queued_message_visible_content :: "queued_message \<Rightarrow> rstring" where
  "queued_message_visible_content self = unwrap_or (q_display_content self) (q_content self)"

section \<open>Turns and checkpoints\<close>

record checkpoint_file =
  cf_path :: rstring
  cf_additions :: u64
  cf_deletions :: u64

record checkpoint =
  cp_turn_count :: nat
  cp_git_ref :: rstring
  cp_status :: checkpoint_status
  cp_files :: "checkpoint_file list"
  cp_additions :: u64
  cp_deletions :: u64
  cp_created_at :: u64

text \<open>The totals are sums of \<open>u64\<close> values: they wrap in a release build.\<close>

definition refresh_totals :: "checkpoint \<Rightarrow> checkpoint" where
  "refresh_totals self =
     self\<lparr>cp_additions := sum_list (map cf_additions (cp_files self)),
          cp_deletions := sum_list (map cf_deletions (cp_files self))\<rparr>"

definition totals_are_current :: "checkpoint \<Rightarrow> bool" where
  "totals_are_current self \<longleftrightarrow>
     cp_additions self = sum_list (map cf_additions (cp_files self)) \<and>
     cp_deletions self = sum_list (map cf_deletions (cp_files self))"

record agent_turn =
  t_id :: uuid
  t_turn_count :: nat
  t_status :: turn_status
  t_provider_turn_started :: bool
  t_provider_resume_at :: "rstring option"
  t_started_at :: u64
  t_completed_at :: "u64 option"
  t_checkpoint :: "checkpoint option"

record context_usage =
  cu_tokens :: u64
  cu_window :: "u64 option"

record runtime_event_cursor =
  rc_runtime_id :: uuid
  rc_epoch :: uuid
  rc_sequence :: u64

section \<open>Activities\<close>

datatype activity_kind =
  Reasoning | Command | FileChange | FileRead | FileSearch | FileList | Search | Activity_Plan | Tool

text \<open>
  The name a tool is classified by: the last segment after a double underscore and then after
  a colon, dot or slash, lower-cased and without underscores.
\<close>

definition tool_name_normalized :: "rstring \<Rightarrow> rstring" where
  "tool_name_normalized name =
     map (\<lambda>c. if c = 45 \<or> c = 32 then 95 else c) (to_ascii_lowercase (trim name))"

definition tool_name_compact :: "rstring \<Rightarrow> rstring" where
  "tool_name_compact name =
     filter (\<lambda>c. c \<noteq> 95)
       (rsplit_next_pred (\<lambda>c. c = 58 \<or> c = 46 \<or> c = 47)
         (rsplit_next_str (lit ''__'') (tool_name_normalized name)))"

definition lits :: "string list \<Rightarrow> rstring \<Rightarrow> bool" where
  "lits names s \<longleftrightarrow> list_ex (\<lambda>n. lit n = s) names"

definition activity_kind_from_tool_name :: "rstring \<Rightarrow> activity_kind" where
  "activity_kind_from_tool_name name =
    (let compact = tool_name_compact name in
     if lits [''todo'', ''todowrite'', ''updateplan'', ''plan''] compact then Activity_Plan
     else if lits [''bash'', ''command'', ''execute'', ''executecommand'', ''commandexecution'',
        ''runcommand'', ''runterminalcommand'', ''shell'', ''shellcommand'', ''terminal''] compact
     then Command
     else if lits [''applypatch'', ''create'', ''createfile'', ''delete'', ''deletefile'', ''edit'',
        ''filechange'', ''fileedit'', ''editfile'', ''move'', ''movefile'', ''multiedit'',
        ''notebookedit'', ''patch'', ''rename'', ''renamefile'', ''replace'', ''savefile'',
        ''strreplace'', ''write'', ''writefile''] compact
     then FileChange
     else if lits [''read'', ''fileread'', ''readfile'', ''readtextfile'', ''viewfile''] compact
     then FileRead
     else if lits [''filesearch'', ''find'', ''findfiles'', ''glob'', ''grep'', ''ripgrep'',
        ''searchfiles'', ''searchinfiles''] compact
     then FileSearch
     else if lits [''directorylist'', ''filelist'', ''list'', ''listdirectory'', ''listfiles'',
        ''ls'', ''readdir''] compact
     then FileList
     else if lits [''search'', ''searchtool'', ''webfetch'', ''websearch''] compact
     then Search
     else Tool)"

datatype file_change_status = Added | Modified | Deleted

record activity_file_change =
  fc_path :: rstring
  fc_additions :: "u64 option"
  fc_deletions :: "u64 option"
  fc_status :: "file_change_status option"
  fc_diff :: "rstring option"

definition file_change_display_name :: "activity_file_change \<Rightarrow> rstring" where
  "file_change_display_name self =
     unwrap_or (opt_filter (\<lambda>name. name \<noteq> []) (file_name (fc_path self))) (fc_path self)"

record reasoning_block =
  rb_content :: rstring
  rb_started_at_ms :: u64
  rb_finished_at_ms :: u64

record activity_item =
  a_id :: uuid
  a_source_id :: "rstring option"
  a_kind :: activity_kind
  a_title :: rstring
  a_detail :: "rstring option"
  a_arguments :: "rstring option"
  a_output :: "rstring option"
  a_image_urls :: "rstring list"
  a_failed :: bool
  a_complete :: bool
  a_file_changes :: "activity_file_change list"
  a_display_target :: "rstring option"
  a_display_description :: "rstring option"
  a_reasoning :: "reasoning_block option"

record transcript_block =
  b_after_message :: nat
  b_turn_id :: "uuid option"
  b_activities :: "activity_item list"

section \<open>Background work\<close>

datatype background_work_kind = Process | Monitor | Subagent

datatype background_work_status =
  Starting | Work_Running | Monitoring | Stopping | Work_Completed | Work_Failed | Stopped | Lost

definition work_is_live :: "background_work_status \<Rightarrow> bool" where
  "work_is_live s \<longleftrightarrow> List.member [Starting, Work_Running, Monitoring, Stopping] s"

definition work_is_stoppable :: "background_work_status \<Rightarrow> bool" where
  "work_is_stoppable s \<longleftrightarrow> List.member [Starting, Work_Running, Monitoring] s"

record background_work_key =
  bk_kind :: background_work_kind
  bk_provider_id :: rstring

record background_work_item =
  bw_key :: background_work_key
  bw_title :: rstring
  bw_detail :: "rstring option"
  bw_command :: "rstring option"
  bw_cwd :: "rstring option"
  bw_output :: "rstring option"
  bw_output_truncated :: bool
  bw_started_at_ms :: u64
  bw_updated_at_ms :: u64
  bw_duration_ms :: "u64 option"
  bw_exit_code :: "32 word option"
  bw_background :: bool
  bw_can_stop :: bool
  bw_control_id :: "rstring option"
  bw_origin_activity_id :: "rstring option"
  bw_role :: "rstring option"
  bw_model :: "rstring option"
  bw_parent_id :: "rstring option"
  bw_status :: background_work_status

definition background_work_item_new ::
    "u64 \<Rightarrow> background_work_kind \<Rightarrow> rstring \<Rightarrow> rstring \<Rightarrow> background_work_status \<Rightarrow>
     background_work_item" where
  "background_work_item_new now kind provider_id title status =
     \<lparr>bw_key = \<lparr>bk_kind = kind, bk_provider_id = provider_id\<rparr>, bw_title = title,
      bw_detail = None, bw_command = None, bw_cwd = None, bw_output = None,
      bw_output_truncated = False, bw_started_at_ms = now, bw_updated_at_ms = now,
      bw_duration_ms = None, bw_exit_code = None, bw_background = False, bw_can_stop = False,
      bw_control_id = None, bw_origin_activity_id = None, bw_role = None, bw_model = None,
      bw_parent_id = None, bw_status = status\<rparr>"

datatype background_work_event =
    Upsert background_work_item
  | OutputDelta background_work_key rstring
  | ReconcileProcesses "background_work_item list"
  | ReconcileLive "background_work_item list"
  | StopRequested background_work_key
  | StopFailed background_work_key rstring

section \<open>Commands, permissions and questions\<close>

record reported_command =
  cmd_name :: rstring
  cmd_description :: rstring

datatype reported_command_repr = Repr_Name rstring | Repr_Full rstring rstring

fun reported_command_of_repr :: "reported_command_repr \<Rightarrow> reported_command" where
  "reported_command_of_repr (Repr_Name name) = \<lparr>cmd_name = name, cmd_description = []\<rparr>"
| "reported_command_of_repr (Repr_Full name description) =
     \<lparr>cmd_name = name, cmd_description = description\<rparr>"

record permission_option =
  po_id :: rstring
  po_label :: rstring
  po_allow :: bool

record user_input_option =
  uo_label :: rstring
  uo_description :: "rstring option"

record user_input_question =
  uq_id :: rstring
  uq_header :: rstring
  uq_question :: rstring
  uq_options :: "user_input_option list"
  uq_multi_select :: bool

section \<open>Computer use and plan usage, as the events carry them\<close>

record computer_target =
  ct_window_id :: "32 word"
  ct_bundle_id :: rstring
  ct_team_id :: "rstring option"
  ct_app_name :: rstring
  ct_window_title :: rstring
  ct_width :: "32 word"
  ct_height :: "32 word"

datatype computer_use_phase = AwaitingApproval | Computer_Running | Computer_Failed

record computer_use_state =
  cs_target :: "computer_target option"
  cs_phase :: computer_use_phase
  cs_visible :: bool
  cs_image_url :: "rstring option"

text \<open>The percentage is an \<open>f64\<close>, carried as its bit pattern.\<close>

record plan_window =
  pw_label :: rstring
  pw_percent :: u64
  pw_resets_at :: "64 word option"

record plan_usage =
  pu_plan_label :: "rstring option"
  pu_windows :: "plan_window list"

section \<open>Driver events\<close>

datatype driver_event =
    RuntimeEventCursorAdvanced runtime_event_cursor
  | Connected "provider_resume_cursor option"
  | AgentPresetSelected "rstring option"
  | AutoTitleUpdated "rstring option"
  | AvailableCommands "reported_command list"
  | TurnAccepted uuid agent_turn "message list"
  | TurnStarted
  | TextDelta rstring
  | ReasoningDelta rstring
  | Activity "rstring option" activity_kind rstring "rstring option" bool
  | RichActivity activity_item
  | BackgroundWork background_work_event
  | Permission rstring rstring rstring "permission_option list"
  | UserInputRequested rstring "user_input_question list"
  | InteractionResolved rstring
  | ComputerUseUpdated computer_use_state
  | SteerAccepted rstring
  | SteerRejected rstring rstring
  | UsageUpdated "u64 option" "u64 option"
  | PlanUsageUpdated plan_usage
  | TurnFinished bool "rstring option"
  | Error rstring
  | ProcessExited

section \<open>Sessions\<close>

record agent_session =
  s_id :: uuid
  s_title :: rstring
  s_auto_title :: "rstring option"
  s_project_id :: uuid
  s_workspace :: session_workspace
  s_provider :: provider_kind
  s_model :: "rstring option"
  s_runtime_mode :: runtime_mode
  s_interaction_mode :: interaction_mode
  s_reasoning_effort :: "rstring option"
  s_service_tier :: "rstring option"
  s_context_window :: "rstring option"
  s_agent_preset :: "rstring option"
  s_status :: session_status
  s_created_at :: u64
  s_updated_at :: u64
  s_last_reply_at :: "u64 option"
  s_archived_at :: "u64 option"
  s_parent_task_id :: "uuid option"
  s_provider_cursor :: "provider_resume_cursor option"
  s_available_commands :: "reported_command list"
  s_context_usage :: "context_usage option"
  s_runtime_event_cursor :: "runtime_event_cursor option"
  s_provider_session_id :: "rstring option"
  s_messages :: "message list"
  s_transcript_blocks :: "transcript_block list"
  s_turns :: "agent_turn list"
  s_queued_messages :: "queued_message list"
  s_detail_loaded :: bool

end
