(* ===== verification/Protocol.thy ===== *)
theory Protocol
  imports Session_Types Json_Value
begin

text \<open>
  The messages clients and daemon exchange (\<open>crates/shidou-protocol/src/protocol.rs\<close>). A field
  whose Rust type no modelled operation looks into (settings, drafts, catalogs, workspace
  operations) is carried as its JSON value, bytes as a list of 8-bit words.
\<close>

section \<open>Requests\<close>

type_synonym bytes = "8 word list"

record wire_start_options =
  ws_provider :: rstring
  ws_binary :: rstring
  ws_cwd :: rstring
  ws_mode :: rstring
  ws_interaction_mode :: rstring
  ws_model :: "rstring option"
  ws_reasoning_effort :: "rstring option"
  ws_service_tier :: "rstring option"
  ws_context_window :: "rstring option"
  ws_agent_preset :: "rstring option"
  ws_computer_use_enabled :: bool
  ws_provider_cursor :: "json option"

record wire_session_options =
  wo_mode :: rstring
  wo_interaction_mode :: rstring
  wo_model :: "rstring option"
  wo_reasoning_effort :: "rstring option"
  wo_service_tier :: "rstring option"
  wo_context_window :: "rstring option"

record wire_computer_tool_request =
  wt_call_id :: rstring
  wt_tool :: rstring
  wt_arguments :: json

datatype (plugins only: size) command =
    Cmd_AttachSession
  | Cmd_Start wire_start_options
  | Cmd_Prompt rstring uuid
  | Cmd_Steer rstring
  | Cmd_Cancel
  | Cmd_CancelComputerUse
  | Cmd_RefreshBackgroundWork
  | Cmd_StopBackgroundWork json rstring
  | Cmd_Respond rstring rstring
  | Cmd_RespondUserInput rstring json
  | Cmd_RunComputerTool wire_computer_tool_request
  | Cmd_RejectComputerTool wire_computer_tool_request rstring
  | Cmd_ApplyOptions wire_session_options
  | Cmd_Compact "rstring option"
  | Cmd_Rollback nat
  | Cmd_Fork nat
  | Cmd_GetSettings
  | Cmd_UpdateSettings json
  | Cmd_ProbeProvider provider_kind "rstring option" bool bool
  | Cmd_FetchPlanUsage provider_kind "rstring option" "rstring option"
  | Cmd_ProbeComputerPermissions bool
  | Cmd_LoadUsageHistory json "rstring list"
  | Cmd_LoadSkills "(rstring \<times> rstring) list"
  | Cmd_SetSkillsEnabled "rstring list" bool
  | Cmd_TrashSkills "rstring list"
  | Cmd_LoadTaskState
  | Cmd_SaveTaskState "project list" "uuid list" "agent_session list"
  | Cmd_RemoveSession
  | Cmd_RemoveQueuedMessage uuid
  | Cmd_CreateChildTask uuid "provider_kind option" "rstring option" "runtime_mode option"
      "rstring option" "interaction_mode option" "rstring option"
  | Cmd_ListProviderModels "provider_kind option"
  | Cmd_ReadTaskSummary
  | Cmd_ListChildTasks
  | Cmd_ArchiveSession bool
  | Cmd_RemoveProject uuid
  | Cmd_HydrateSession uuid
  | Cmd_SearchSessionMessages rstring nat
  | Cmd_LoadComposerDrafts
  | Cmd_SaveComposerDrafts json u64
  | Cmd_ApplyComposerDraftChanges json
  | Cmd_StoreBlob rstring bytes
  | Cmd_ImportAttachment rstring json
  | Cmd_ImportPathAttachment rstring
  | Cmd_ImportPathAttachments "rstring list"
  | Cmd_ReadBlob rstring
  | Cmd_ReadAttachment rstring rstring
  | Cmd_SweepBlobs
  | Cmd_ForkSessionFromResponse nat
  | Cmd_RewindSessionToMessage nat
  | Cmd_ForkProviderSession json
  | Cmd_Workspace json
  | Cmd_OpenTerminal rstring "16 word" "16 word"
  | Cmd_WriteTerminal bytes
  | Cmd_ResizeTerminal "16 word" "16 word"
  | Cmd_CloseTerminal
  | Cmd_CloseSession

record request =
  q_request_id :: uuid
  q_session_id :: uuid
  q_runtime_id :: uuid
  q_command :: command

record replay_cursor =
  rp_session_id :: uuid
  rp_runtime_id :: uuid
  rp_epoch :: uuid
  rp_sequence :: u64

datatype client_message =
    Client_Hello "32 word" rstring uuid "replay_cursor list"
  | Client_Request request
  | Client_Shutdown

section \<open>Events and responses\<close>

record wire_driver_event =
  we_kind :: rstring
  we_payload :: json

record sequenced_event =
  se_session_id :: uuid
  se_runtime_id :: uuid
  se_epoch :: uuid
  se_sequence :: u64
  se_event :: wire_driver_event

datatype rpc_error_kind = Refused

record rpc_error =
  re_message :: rstring
  re_kind :: "rpc_error_kind option"

definition rpc_error_refused :: "rstring \<Rightarrow> rpc_error" where
  "rpc_error_refused message = \<lparr>re_message = message, re_kind = Some Refused\<rparr>"

definition rpc_error_is_refusal :: "rpc_error \<Rightarrow> bool" where
  "rpc_error_is_refusal self \<longleftrightarrow> re_kind self = Some Refused"

text \<open>A backend's error is a typed one, which keeps its kind, or plain text.\<close>

datatype backend_error = Typed_Error rpc_error | Plain_Error rstring

fun rpc_error_from :: "backend_error \<Rightarrow> rpc_error" where
  "rpc_error_from (Typed_Error e) = e"
| "rpc_error_from (Plain_Error message) = \<lparr>re_message = message, re_kind = None\<rparr>"

record task_summary =
  ts_id :: uuid
  ts_title :: rstring
  ts_provider :: provider_kind
  ts_status :: session_status
  ts_parent_task_id :: "uuid option"
  ts_turn_count :: nat
  ts_last_turn_finished :: bool
  ts_last_assistant_message :: "rstring option"

datatype (plugins only: size) response_payload =
    Pay_Ack
  | Pay_SessionRuntime "uuid option" bool
  | Pay_Started bool
  | Pay_OptionsApplied bool
  | Pay_Cursor "json option"
  | Pay_Settings json
  | Pay_ProviderProbe json "rstring option"
  | Pay_PlanUsage "plan_usage option"
  | Pay_ComputerPermissions json
  | Pay_UsageHistory json
  | Pay_SkillsCatalog json
  | Pay_TaskState "project list" "agent_session list" rstring "rstring option"
  | Pay_ChildTaskCreated agent_session wire_start_options
  | Pay_TaskSummary task_summary
  | Pay_TaskSummaries "task_summary list"
  | Pay_ProviderModels provider_kind "provider_model list"
  | Pay_TaskStateSaved "agent_session list"
  | Pay_Session "agent_session option"
  | Pay_SessionMessageMatches json
  | Pay_ComposerDrafts json
  | Pay_BlobStored rstring rstring
  | Pay_AttachmentStored json
  | Pay_AttachmentsStored json
  | Pay_BlobData bytes
  | Pay_ProviderSessionForked json
  | Pay_SessionForked agent_session "rstring option"
  | Pay_SessionRewound agent_session "rstring option"
  | Pay_Workspace json

datatype response_outcome = Outcome_Ok response_payload | Outcome_Error rpc_error

fun outcome_is_ok :: "response_outcome \<Rightarrow> bool" where
  "outcome_is_ok (Outcome_Ok _) = True"
| "outcome_is_ok (Outcome_Error _) = False"

datatype (plugins only: size) server_message =
    Msg_Hello "32 word" rstring
  | Msg_Rejected rstring
  | Msg_Response uuid response_outcome
  | Msg_Event sequenced_event
  | Msg_ReplayGap uuid uuid uuid u64
  | Msg_TaskStateChanged u64
  | Msg_ShuttingDown

section \<open>Commands by what they touch\<close>

text \<open>Commands the actor of a session's runtime executes in order (\<open>command_targets_runtime\<close>).\<close>

fun command_targets_runtime :: "command \<Rightarrow> bool" where
  "command_targets_runtime Cmd_AttachSession = True"
| "command_targets_runtime (Cmd_Start _) = True"
| "command_targets_runtime (Cmd_Prompt _ _) = True"
| "command_targets_runtime (Cmd_Steer _) = True"
| "command_targets_runtime Cmd_Cancel = True"
| "command_targets_runtime Cmd_CancelComputerUse = True"
| "command_targets_runtime Cmd_RefreshBackgroundWork = True"
| "command_targets_runtime (Cmd_StopBackgroundWork _ _) = True"
| "command_targets_runtime (Cmd_Respond _ _) = True"
| "command_targets_runtime (Cmd_RespondUserInput _ _) = True"
| "command_targets_runtime (Cmd_RunComputerTool _) = True"
| "command_targets_runtime (Cmd_RejectComputerTool _ _) = True"
| "command_targets_runtime (Cmd_ApplyOptions _) = True"
| "command_targets_runtime (Cmd_Compact _) = True"
| "command_targets_runtime (Cmd_Rollback _) = True"
| "command_targets_runtime (Cmd_Fork _) = True"
| "command_targets_runtime (Cmd_ForkSessionFromResponse _) = True"
| "command_targets_runtime (Cmd_RewindSessionToMessage _) = True"
| "command_targets_runtime (Cmd_OpenTerminal _ _ _) = True"
| "command_targets_runtime (Cmd_WriteTerminal _) = True"
| "command_targets_runtime (Cmd_ResizeTerminal _ _) = True"
| "command_targets_runtime Cmd_CloseTerminal = True"
| "command_targets_runtime Cmd_CloseSession = True"
| "command_targets_runtime Cmd_RemoveSession = True"
| "command_targets_runtime (Cmd_RemoveQueuedMessage _) = True"
| "command_targets_runtime _ = False"

fun starts_runtime :: "command \<Rightarrow> bool" where
  "starts_runtime (Cmd_Start _) = True"
| "starts_runtime (Cmd_OpenTerminal _ _ _) = True"
| "starts_runtime _ = False"

fun closes_runtime :: "command \<Rightarrow> bool" where
  "closes_runtime Cmd_CloseSession = True"
| "closes_runtime Cmd_CloseTerminal = True"
| "closes_runtime Cmd_RemoveSession = True"
| "closes_runtime _ = False"

fun removes_session :: "command \<Rightarrow> bool" where
  "removes_session Cmd_RemoveSession = True"
| "removes_session _ = False"

fun resolved_interaction :: "command \<Rightarrow> rstring option" where
  "resolved_interaction (Cmd_Respond request_id _) = Some request_id"
| "resolved_interaction (Cmd_RespondUserInput request_id _) = Some request_id"
| "resolved_interaction _ = None"

datatype task_catalog_action =
    Action_None
  | Action_Load
  | Action_Save "project list"
  | Action_Changed

fun task_catalog_action_of :: "command \<Rightarrow> task_catalog_action" where
  "task_catalog_action_of Cmd_LoadTaskState = Action_Load"
| "task_catalog_action_of (Cmd_SaveTaskState projects _ _) = Action_Save projects"
| "task_catalog_action_of Cmd_RemoveSession = Action_Changed"
| "task_catalog_action_of (Cmd_ArchiveSession _) = Action_Changed"
| "task_catalog_action_of (Cmd_CreateChildTask _ _ _ _ _ _ _) = Action_Changed"
| "task_catalog_action_of (Cmd_RemoveProject _) = Action_Changed"
| "task_catalog_action_of (Cmd_ForkSessionFromResponse _) = Action_Changed"
| "task_catalog_action_of (Cmd_RewindSessionToMessage _) = Action_Changed"
| "task_catalog_action_of _ = Action_None"

text \<open>
  What a Task Credential allows (\<open>authorize_scoped_request\<close>): the request, with the parent of a
  new child forced to the credential's own task, or a refusal. \<open>task_parent\<close> is the backend's.
\<close>

definition scoped_refusal :: rpc_error where
  "scoped_refusal = rpc_error_refused
     (lit ''this task credential may only create, prompt, and read its own child tasks'')"

definition authorize_scoped_request ::
    "(uuid \<Rightarrow> uuid option) \<Rightarrow> uuid \<Rightarrow> request \<Rightarrow> rpc_error + request" where
  "authorize_scoped_request task_parent scope req =
     (let is_child = (\<lambda>task_id. task_parent task_id = Some scope);
          allow = (\<lambda>b. if b then Inr req else Inl scoped_refusal) in
      case q_command req of
        Cmd_CreateChildTask _ provider model mode effort imode title \<Rightarrow>
          Inr (req\<lparr>q_command := Cmd_CreateChildTask scope provider model mode effort imode title\<rparr>)
      | Cmd_ListChildTasks \<Rightarrow> allow (q_session_id req = scope)
      | Cmd_ListProviderModels _ \<Rightarrow> allow (q_session_id req = scope)
      | Cmd_ReadTaskSummary \<Rightarrow> allow (q_session_id req = scope \<or> is_child (q_session_id req))
      | Cmd_HydrateSession session_id \<Rightarrow> allow (is_child session_id)
      | Cmd_AttachSession \<Rightarrow> allow (is_child (q_session_id req))
      | Cmd_Start _ \<Rightarrow> allow (is_child (q_session_id req))
      | Cmd_Prompt _ _ \<Rightarrow> allow (is_child (q_session_id req))
      | Cmd_Cancel \<Rightarrow> allow (is_child (q_session_id req))
      | _ \<Rightarrow> Inl scoped_refusal)"

section \<open>Properties\<close>

text \<open>The tasks a request reads or changes.\<close>

definition request_targets :: "request \<Rightarrow> uuid set" where
  "request_targets req = (case q_command req of
       Cmd_CreateChildTask parent _ _ _ _ _ _ \<Rightarrow> {parent}
     | Cmd_HydrateSession session_id \<Rightarrow> {session_id}
     | _ \<Rightarrow> {q_session_id req})"

definition changes_task :: "command \<Rightarrow> bool" where
  "changes_task c \<longleftrightarrow> (case c of
       Cmd_ListChildTasks \<Rightarrow> False | Cmd_ListProviderModels _ \<Rightarrow> False
     | Cmd_ReadTaskSummary \<Rightarrow> False | Cmd_HydrateSession _ \<Rightarrow> False
     | Cmd_AttachSession \<Rightarrow> False | Cmd_CreateChildTask _ _ _ _ _ _ _ \<Rightarrow> False | _ \<Rightarrow> True)"

text \<open>
  A request a Task Credential lets through reaches only the credential's own task or one of
  its direct children, and one that drives a task (starts, prompts or cancels it) only a child;
  a child it creates is its own, whatever parent the caller named.
\<close>

theorem scoped_request_confined:
  assumes "authorize_scoped_request task_parent scope req = Inr req'"
  shows "(\<forall>t\<in>request_targets req'. t = scope \<or> task_parent t = Some scope) \<and>
    (changes_task (q_command req') \<longrightarrow> (\<forall>t\<in>request_targets req'. task_parent t = Some scope)) \<and>
    q_session_id req' = q_session_id req \<and> q_runtime_id req' = q_runtime_id req"
  using assms
  by (cases "q_command req")
    (auto simp: authorize_scoped_request_def request_targets_def changes_task_def split: if_splits)

theorem scoped_request_confined_witness:
  "\<exists>req'. authorize_scoped_request (\<lambda>_. None) 5
      \<lparr>q_request_id = 1, q_session_id = 5, q_runtime_id = 0,
       q_command = Cmd_CreateChildTask 9 None None None None None None\<rparr> = Inr req' \<and>
    request_targets req' = {5}"
proof -
  let ?req = "\<lparr>q_request_id = 1, q_session_id = 5, q_runtime_id = 0,
       q_command = Cmd_CreateChildTask 9 None None None None None None\<rparr>"
  obtain req' where e: "authorize_scoped_request (\<lambda>_. None) 5 ?req = Inr req'"
    by (simp add: authorize_scoped_request_def)
  with scoped_request_confined [OF e] show ?thesis
    by (auto simp: authorize_scoped_request_def request_targets_def)
qed

end
