(* ===== verification/Interfaces.thy ===== *)
theory Interfaces
  imports Prelude
begin

text \<open>
  The two contracts several components share. A \<open>keyed_vector\<close> is a \<open>Vec\<close> that an operation
  keeps unique by a key: it changes the first element with the new element's key or pushes
  the new element. An \<open>event_fold\<close> is a state that absorbs admissible events and keeps an
  invariant; an \<open>observed_fold\<close> moves forward in an order on states as well.
\<close>

section \<open>Vectors kept unique by a key\<close>

locale keyed_vector =
  fixes key :: "'a \<Rightarrow> 'k"
    and combine :: "'a \<Rightarrow> 'a \<Rightarrow> 'a"
    and put :: "'a list \<Rightarrow> 'a \<Rightarrow> 'a list"
  assumes combine_key: "key old = key new \<Longrightarrow> key (combine old new) = key new"
    and put_present: "key new \<in> key ` set xs \<Longrightarrow>
      put xs new = update_first (\<lambda>y. key y = key new) (\<lambda>y. combine y new) xs"
    and put_absent: "key new \<notin> key ` set xs \<Longrightarrow> put xs new = xs @ [new]"
begin

lemma keys_put:
  "map key (put xs x) =
     (if key x \<in> set (map key xs) then map key xs else map key xs @ [key x])"
proof (cases "key x \<in> key ` set xs")
  case True
  have "map key (update_first (\<lambda>y. key y = key x) (\<lambda>y. combine y x) xs) = map key xs"
    by (rule map_update_first) (simp add: combine_key)
  with True show ?thesis by (simp add: put_present)
next
  case False
  then show ?thesis by (simp add: put_absent)
qed

lemma distinct_put: "distinct (map key xs) \<Longrightarrow> distinct (map key (put xs x))"
  by (simp add: keys_put)

lemma set_keys_put: "set (map key (put xs x)) = insert (key x) (set (map key xs))"
  by (auto simp: keys_put)

lemma distinct_puts: "distinct (map key xs) \<Longrightarrow> distinct (map key (foldl put xs ys))"
  by (induction ys arbitrary: xs) (simp_all add: distinct_put)

lemma set_keys_puts: "set (map key (foldl put xs ys)) = set (map key xs) \<union> set (map key ys)"
  using set_keys_put by (induction ys arbitrary: xs) auto

lemma keys_puts_prefix: "prefix (map key xs) (map key (foldl put xs ys))"
proof (induction ys arbitrary: xs)
  case Nil
  then show ?case by simp
next
  case (Cons y ys)
  have "prefix (map key xs) (map key (put xs y))" by (simp add: keys_put)
  moreover have "prefix (map key (put xs y)) (map key (foldl put (put xs y) ys))"
    by (rule Cons.IH)
  ultimately show ?case using prefix_order.trans by fastforce
qed

lemma put_other:
  assumes "k \<noteq> key x"
  shows "filter (\<lambda>y. key y = k) (put xs x) = filter (\<lambda>y. key y = k) xs"
proof (cases "key x \<in> key ` set xs")
  case True
  have "filter (\<lambda>y. key y = k) (update_first (\<lambda>y. key y = key x) (\<lambda>y. combine y x) xs) =
      filter (\<lambda>y. key y = k) xs"
    using assms by (induction xs) (auto simp: combine_key)
  with True show ?thesis by (simp add: put_present)
next
  case False
  with assms show ?thesis by (simp add: put_absent)
qed

end

section \<open>States that absorb events\<close>

text \<open>A run in which every event is admissible in the state that receives it.\<close>

fun admissible :: "('s \<Rightarrow> 'e \<Rightarrow> bool) \<Rightarrow> ('s \<Rightarrow> 'e \<Rightarrow> 's) \<Rightarrow> 's \<Rightarrow> 'e list \<Rightarrow> bool" where
  "admissible ok step s [] = True"
| "admissible ok step s (e # es) = (ok s e \<and> admissible ok step (step s e) es)"

lemma admissible_append:
  "admissible ok step s (es @ fs) \<longleftrightarrow>
     admissible ok step s es \<and> admissible ok step (foldl step s es) fs"
  by (induction es arbitrary: s) auto

lemma admissible_True [simp]: "admissible (\<lambda>_ _. True) step s es"
  by (induction es arbitrary: s) auto

locale event_fold =
  fixes step :: "'s \<Rightarrow> 'e \<Rightarrow> 's"
    and inv :: "'s \<Rightarrow> bool"
    and ok :: "'s \<Rightarrow> 'e \<Rightarrow> bool"
  assumes step_inv: "inv s \<Longrightarrow> ok s e \<Longrightarrow> inv (step s e)"
begin

lemma run_inv: "inv s \<Longrightarrow> admissible ok step s es \<Longrightarrow> inv (foldl step s es)"
  by (induction es arbitrary: s) (auto intro: step_inv)

end

locale observed_fold = event_fold +
  fixes le :: "'s \<Rightarrow> 's \<Rightarrow> bool"
  assumes le_refl: "le s s"
    and le_trans: "le s t \<Longrightarrow> le t u \<Longrightarrow> le s u"
    and step_le: "inv s \<Longrightarrow> ok s e \<Longrightarrow> le s (step s e)"
begin

lemma run_le: "inv s \<Longrightarrow> admissible ok step s es \<Longrightarrow> le s (foldl step s es)"
proof (induction es arbitrary: s)
  case Nil
  then show ?case by (simp add: le_refl)
next
  case (Cons e es)
  then have "le s (step s e)" and "le (step s e) (foldl step (step s e) es)"
    by (auto intro: step_le step_inv)
  then show ?case by (simp add: le_trans [of s "step s e"])
qed

lemma run_le_append:
  "inv s \<Longrightarrow> admissible ok step s (es @ fs) \<Longrightarrow> le (foldl step s es) (foldl step s (es @ fs))"
  by (simp add: admissible_append run_le run_inv)

end

end
