(* ===== verification/Replay_Hub.thy ===== *)
theory Replay_Hub
  imports Protocol Interfaces
begin

text \<open>
  The daemon's event hub (\<open>crates/shidou-core/src/server.rs\<close>, \<open>impl Hub\<close>): one journal of
  sequenced events per session runtime, the connected subscribers with what was sent to each, the
  catalog the clients hold snapshots of, and the cache of responses. A hash map is a map, a
  channel the list of messages sent into it together with whether the receiver is still there.
\<close>

section \<open>State\<close>

definition MAX_REPLAY_EVENTS_PER_SESSION :: nat where
  "MAX_REPLAY_EVENTS_PER_SESSION = 4096"

definition MAX_CACHED_RESPONSES :: nat where
  "MAX_CACHED_RESPONSES = 2048"

record subscriber =
  sub_received :: "server_message list"
  sub_open :: bool

record project_catalog_entry =
  pce_name :: rstring
  pce_path :: rstring
  pce_created_at :: u64

record session_catalog_entry =
  sce_title :: rstring
  sce_auto_title :: "rstring option"
  sce_project_id :: uuid
  sce_provider :: provider_kind
  sce_model :: "rstring option"
  sce_status :: session_status
  sce_created_at :: u64
  sce_last_reply_at :: "u64 option"

type_synonym runtime_key = "uuid \<times> uuid"

record hub_state =
  h_epoch :: uuid
  h_replay_limit :: nat
  h_next_subscriber_id :: u64
  h_task_state_revision :: u64
  h_subscribers :: "u64 \<rightharpoonup> subscriber"
  h_active_runtimes :: "uuid \<rightharpoonup> uuid"
  h_next_sequences :: "runtime_key \<rightharpoonup> u64"
  h_journal :: "runtime_key \<rightharpoonup> sequenced_event list"
  h_responses :: "(uuid \<times> response_outcome) list"
  h_catalog_projects :: "uuid \<rightharpoonup> project_catalog_entry"
  h_catalog_sessions :: "uuid \<rightharpoonup> session_catalog_entry"

definition hub_new :: "uuid \<Rightarrow> nat \<Rightarrow> hub_state" where
  "hub_new epoch replay_limit =
     \<lparr>h_epoch = epoch, h_replay_limit = max replay_limit 1, h_next_subscriber_id = 0,
      h_task_state_revision = 0, h_subscribers = Map.empty, h_active_runtimes = Map.empty,
      h_next_sequences = Map.empty, h_journal = Map.empty, h_responses = [],
      h_catalog_projects = Map.empty, h_catalog_sessions = Map.empty\<rparr>"

definition project_catalog_entry_from :: "project \<Rightarrow> project_catalog_entry" where
  "project_catalog_entry_from p =
     \<lparr>pce_name = p_name p, pce_path = p_path p, pce_created_at = p_created_at p\<rparr>"

definition session_catalog_entry_from :: "agent_session \<Rightarrow> session_catalog_entry" where
  "session_catalog_entry_from s =
     \<lparr>sce_title = s_title s, sce_auto_title = s_auto_title s, sce_project_id = s_project_id s,
      sce_provider = s_provider s, sce_model = s_model s, sce_status = s_status s,
      sce_created_at = s_created_at s, sce_last_reply_at = s_last_reply_at s\<rparr>"

section \<open>Sending\<close>

text \<open>\<open>Sender::send\<close> fails exactly when the receiver is gone.\<close>

definition send_to :: "server_message \<Rightarrow> subscriber \<Rightarrow> subscriber option" where
  "send_to message s =
     (if sub_open s then Some (s\<lparr>sub_received := sub_received s @ [message]\<rparr>) else None)"

definition broadcast :: "server_message \<Rightarrow> hub_state \<Rightarrow> hub_state" where
  "broadcast message hub =
     hub\<lparr>h_subscribers := (\<lambda>i. Option.bind (h_subscribers hub i) (send_to message))\<rparr>"

definition broadcast_task_state_changed :: "u64 option \<Rightarrow> hub_state \<Rightarrow> hub_state" where
  "broadcast_task_state_changed source hub =
     (let revision = saturating_add_u64 (h_task_state_revision hub) 1 in
      hub\<lparr>h_task_state_revision := revision,
          h_subscribers := (\<lambda>i. if Some i = source then h_subscribers hub i
            else Option.bind (h_subscribers hub i) (send_to (Msg_TaskStateChanged revision)))\<rparr>)"

section \<open>Runtimes\<close>

definition forget_session :: "uuid \<Rightarrow> (runtime_key \<rightharpoonup> 'a) \<Rightarrow> (runtime_key \<rightharpoonup> 'a)" where
  "forget_session session_id m = (\<lambda>k. if fst k = session_id then None else m k)"

definition begin_runtime :: "uuid \<Rightarrow> uuid \<Rightarrow> hub_state \<Rightarrow> hub_state" where
  "begin_runtime session_id runtime_id hub =
     hub\<lparr>h_active_runtimes := (h_active_runtimes hub)(session_id \<mapsto> runtime_id),
         h_next_sequences := forget_session session_id (h_next_sequences hub),
         h_journal := forget_session session_id (h_journal hub)\<rparr>"

definition end_runtime :: "uuid \<Rightarrow> uuid option \<Rightarrow> hub_state \<Rightarrow> hub_state" where
  "end_runtime session_id runtime_id hub =
     (if \<not> (case runtime_id of None \<Rightarrow> True
            | Some r \<Rightarrow> h_active_runtimes hub session_id = Some r)
      then hub
      else hub\<lparr>h_active_runtimes := (h_active_runtimes hub)(session_id := None),
         h_next_sequences := forget_session session_id (h_next_sequences hub),
         h_journal := forget_session session_id (h_journal hub)\<rparr>)"

text \<open>
  The critical section of \<open>emit\<close> that numbers an event and journals it; \<open>None\<close> is the return
  when the runtime is not the session's active one.
\<close>

definition emit_sequence ::
    "uuid \<Rightarrow> uuid \<Rightarrow> wire_driver_event \<Rightarrow> bool \<Rightarrow> hub_state \<Rightarrow> (hub_state \<times> sequenced_event) option" where
  "emit_sequence session_id runtime_id event replayable hub =
     (if h_active_runtimes hub session_id \<noteq> Some runtime_id then None
      else
        let key = (session_id, runtime_id);
            sequence = saturating_add_u64 (unwrap_or (h_next_sequences hub key) 0) 1;
            event = \<lparr>se_session_id = session_id, se_runtime_id = runtime_id,
              se_epoch = h_epoch hub, se_sequence = sequence, se_event = event\<rparr>;
            hub = hub\<lparr>h_next_sequences := (h_next_sequences hub)(key \<mapsto> sequence)\<rparr>;
            hub = (if replayable
              then let journal = unwrap_or (h_journal hub key) [] @ [event] in
                hub\<lparr>h_journal := (h_journal hub)
                  (key \<mapsto> drop (length journal - h_replay_limit hub) journal)\<rparr>
              else hub) in
        Some (hub, event))"

text \<open>
  \<open>emit\<close> as a whole: number the event, let the backend reduce it (its answer is whether the
  catalog changed, \<open>None\<close> an error, which is only logged), then tell the subscribers. The
  backend's \<open>handle_runtime_event\<close> acts on the backend's own state, the second component.
\<close>

definition emit ::
    "(sequenced_event \<Rightarrow> 'b \<Rightarrow> bool option \<times> 'b) option \<Rightarrow> uuid \<Rightarrow> uuid \<Rightarrow> wire_driver_event \<Rightarrow> bool \<Rightarrow>
     hub_state \<times> 'b \<Rightarrow> hub_state \<times> 'b" where
  "emit backend session_id runtime_id event replayable st =
     (case emit_sequence session_id runtime_id event replayable (fst st) of
        None \<Rightarrow> st
      | Some (hub, event) \<Rightarrow>
          let (task_catalog_changed, b) = (case (replayable, backend) of
                (True, Some handle_runtime_event) \<Rightarrow>
                  (case handle_runtime_event event (snd st) of
                     (outcome, b) \<Rightarrow> (unwrap_or outcome False, b))
              | _ \<Rightarrow> (False, snd st));
              hub = broadcast (Msg_Event event) hub in
          (if task_catalog_changed then broadcast_task_state_changed None hub else hub, b))"

section \<open>Subscribers\<close>

definition resume_sequence :: "uuid \<Rightarrow> replay_cursor list \<Rightarrow> runtime_key \<Rightarrow> u64" where
  "resume_sequence epoch resume_from key =
     unwrap_or (map_option rp_sequence (List.find (\<lambda>cursor. rp_session_id cursor = fst key \<and>
       rp_runtime_id cursor = snd key \<and> rp_epoch cursor = epoch) resume_from)) 0"

text \<open>What a new subscriber is sent for one runtime's journal.\<close>

definition replay_messages ::
    "uuid \<Rightarrow> replay_cursor list \<Rightarrow> runtime_key \<Rightarrow> sequenced_event list \<Rightarrow> server_message list" where
  "replay_messages epoch resume_from key events =
     (let sequence = resume_sequence epoch resume_from key in
      (case first_opt events of
         Some front \<Rightarrow>
           if sequence + 1 < se_sequence front
           then [Msg_ReplayGap (fst key) (snd key) epoch (se_sequence front)] else []
       | None \<Rightarrow> []) @
      map Msg_Event (filter (\<lambda>event. sequence < se_sequence event) events))"

text \<open>
  The journals are visited in the iteration order of the hash map, an argument: every runtime
  with a journal, each once.
\<close>

definition hub_subscribe ::
    "runtime_key list \<Rightarrow> replay_cursor list \<Rightarrow> hub_state \<Rightarrow> hub_state \<times> u64" where
  "hub_subscribe order resume_from hub =
     (let i = h_next_subscriber_id hub;
          received = concat (map (\<lambda>key. replay_messages (h_epoch hub) resume_from key
            (unwrap_or (h_journal hub key) [])) order) in
      (hub\<lparr>h_next_subscriber_id := saturating_add_u64 i 1,
           h_subscribers := (h_subscribers hub)(i \<mapsto> \<lparr>sub_received = received, sub_open = True\<rparr>)\<rparr>,
       i))"

definition hub_unsubscribe :: "u64 \<Rightarrow> hub_state \<Rightarrow> hub_state" where
  "hub_unsubscribe i hub = hub\<lparr>h_subscribers := (h_subscribers hub)(i := None)\<rparr>"

section \<open>The catalog\<close>

definition task_state_changed :: "u64 \<Rightarrow> hub_state \<Rightarrow> hub_state" where
  "task_state_changed source hub = broadcast_task_state_changed (Some source) hub"

definition replace_task_catalog :: "project list \<Rightarrow> agent_session list \<Rightarrow> hub_state \<Rightarrow> hub_state" where
  "replace_task_catalog projects sessions hub =
     hub\<lparr>h_catalog_projects := map_of (rev (map (\<lambda>p. (p_id p, project_catalog_entry_from p)) projects)),
         h_catalog_sessions := map_of (rev (map (\<lambda>s. (s_id s, session_catalog_entry_from s)) sessions))\<rparr>"

text \<open>\<open>insert\<close> returns the previous entry; a new entry or a different one is a change.\<close>

definition catalog_insert ::
    "('k \<rightharpoonup> 'e) \<times> bool \<Rightarrow> 'k \<times> 'e \<Rightarrow> ('k \<rightharpoonup> 'e) \<times> bool" where
  "catalog_insert st entry = (case (st, entry) of ((catalog, changed), (k, next_entry)) \<Rightarrow>
     (catalog(k \<mapsto> next_entry), changed \<or> catalog k \<noteq> Some next_entry))"

definition task_state_saved ::
    "u64 \<Rightarrow> project list \<Rightarrow> agent_session list \<Rightarrow> hub_state \<Rightarrow> hub_state" where
  "task_state_saved source projects sessions hub =
     (let (catalog_projects, changed) = foldl catalog_insert (h_catalog_projects hub, False)
            (map (\<lambda>p. (p_id p, project_catalog_entry_from p)) projects);
          (catalog_sessions, changed) = foldl catalog_insert (h_catalog_sessions hub, changed)
            (map (\<lambda>s. (s_id s, session_catalog_entry_from s)) sessions);
          hub = hub\<lparr>h_catalog_projects := catalog_projects, h_catalog_sessions := catalog_sessions\<rparr> in
      if changed then broadcast_task_state_changed (Some source) hub else hub)"

section \<open>Responses\<close>

definition cached_response :: "uuid \<Rightarrow> hub_state \<Rightarrow> response_outcome option" where
  "cached_response request_id hub =
     find_map (\<lambda>(cached_id, outcome). if cached_id = request_id then Some outcome else None)
       (rev (h_responses hub))"

definition cache_response :: "uuid \<Rightarrow> response_outcome \<Rightarrow> hub_state \<Rightarrow> hub_state" where
  "cache_response request_id outcome hub =
     (let responses = h_responses hub @ [(request_id, outcome)] in
      hub\<lparr>h_responses := drop (length responses - MAX_CACHED_RESPONSES) responses\<rparr>)"

section \<open>The journals\<close>

text \<open>
  What every journal of the active runtimes is: the newest events of its runtime, contiguous,
  numbered up to the last sequence handed out and at most the replay limit of them.
\<close>

definition sequenced_as :: "uuid \<Rightarrow> runtime_key \<Rightarrow> nat \<Rightarrow> sequenced_event list \<Rightarrow> bool" where
  "sequenced_as epoch key k evs \<longleftrightarrow>
     (\<forall>i<length evs. unat (se_sequence (evs ! i)) = k + i + 1 \<and>
        se_session_id (evs ! i) = fst key \<and> se_runtime_id (evs ! i) = snd key \<and>
        se_epoch (evs ! i) = epoch)"

lemma sequenced_as_drop: "sequenced_as e key k evs \<Longrightarrow> sequenced_as e key (k + d) (drop d evs)"
  by (auto simp: sequenced_as_def add.assoc)

lemma sequenced_as_snoc:
  "sequenced_as e key k (evs @ [ev]) \<longleftrightarrow> sequenced_as e key k evs \<and>
     unat (se_sequence ev) = k + length evs + 1 \<and> se_session_id ev = fst key \<and>
     se_runtime_id ev = snd key \<and> se_epoch ev = e"
  by (auto simp: sequenced_as_def nth_append less_Suc_eq)

lemma unat_saturating_succ:
  "unat (x :: u64) < 2 ^ 64 - 1 \<Longrightarrow> unat (saturating_add_u64 x 1) = unat x + 1"
  by (simp add: unat_saturating_add_u64)

end
