(* ===== verification/Mailbox.thy ===== *)
theory Mailbox
  imports Replay_Hub
begin

text \<open>
  How the daemon executes requests (\<open>crates/shidou-core/src/server.rs\<close>): a request that targets
  a runtime goes through the mailbox of its session, one worker thread per session that handles
  requests in order and retires when the session has no runtime and nothing is queued; every
  other request is handled on its own. The backend is the interface the source gives it.
\<close>

section \<open>The backend\<close>

text \<open>
  What \<open>handle\<close> sends through its event sink while it runs is listed with its result, each
  event with whether it is replayable.
\<close>

record 'b backend =
  be_handle :: "request \<Rightarrow> 'b \<Rightarrow> (backend_error + response_payload) \<times> (wire_driver_event \<times> bool) list \<times> 'b"
  be_handle_runtime_event :: "sequenced_event \<Rightarrow> 'b \<Rightarrow> bool option \<times> 'b"
  be_runtime_ended :: "uuid \<Rightarrow> uuid \<Rightarrow> 'b \<Rightarrow> 'b"
  be_session_has_active_turn :: "uuid \<Rightarrow> 'b \<Rightarrow> bool"

type_synonym 'b server = "hub_state \<times> 'b"

text \<open>\<open>EventSink::send\<close> and \<open>send_ephemeral\<close>.\<close>

definition sink_send :: "'b backend \<Rightarrow> uuid \<Rightarrow> uuid \<Rightarrow> wire_driver_event \<Rightarrow> 'b server \<Rightarrow> 'b server" where
  "sink_send B session_id runtime_id event =
     emit (Some (be_handle_runtime_event B)) session_id runtime_id event True"

definition sink_send_ephemeral :: "uuid \<Rightarrow> uuid \<Rightarrow> wire_driver_event \<Rightarrow> 'b server \<Rightarrow> 'b server" where
  "sink_send_ephemeral session_id runtime_id event = emit None session_id runtime_id event False"

section \<open>One request\<close>

record dispatched_request =
  d_request :: request
  d_source_subscriber_id :: u64

text \<open>A response goes into the channel of the connection that asked, if it is still there.\<close>

definition send_response :: "u64 \<Rightarrow> uuid \<Rightarrow> response_outcome \<Rightarrow> hub_state \<Rightarrow> hub_state" where
  "send_response outgoing request_id outcome hub =
     (case Option.bind (h_subscribers hub outgoing) (send_to (Msg_Response request_id outcome)) of
        Some s \<Rightarrow> hub\<lparr>h_subscribers := (h_subscribers hub)(outgoing \<mapsto> s)\<rparr>
      | None \<Rightarrow> hub)"

definition execute_request ::
    "'b backend \<Rightarrow> request \<Rightarrow> 'b server \<Rightarrow> response_outcome \<times> 'b server" where
  "execute_request B req sv =
     (let session_id = q_session_id req; runtime_id = q_runtime_id req; (hub, b) = sv;
          hub = (if starts_runtime (q_command req) then begin_runtime session_id runtime_id hub else hub);
          (result, events, b) = be_handle B req b;
          sv = foldl (\<lambda>sv (event, replayable). if replayable
              then sink_send B session_id runtime_id event sv
              else sink_send_ephemeral session_id runtime_id event sv) (hub, b) events;
          outcome = (case result of Inr payload \<Rightarrow> Outcome_Ok payload
            | Inl error \<Rightarrow> Outcome_Error (rpc_error_from error)) in
      (outcome, if q_request_id req \<noteq> 0
         then (cache_response (q_request_id req) outcome (fst sv), snd sv) else sv))"

definition apply_catalog_action ::
    "task_catalog_action \<Rightarrow> response_outcome \<Rightarrow> u64 \<Rightarrow> hub_state \<Rightarrow> hub_state" where
  "apply_catalog_action action outcome source hub = (case (action, outcome) of
       (Action_Load, Outcome_Ok (Pay_TaskState projects sessions _ _)) \<Rightarrow>
         replace_task_catalog projects sessions hub
     | (Action_Save projects, Outcome_Ok (Pay_TaskStateSaved sessions)) \<Rightarrow>
         task_state_saved source projects sessions hub
     | (Action_Changed, Outcome_Ok _) \<Rightarrow> task_state_changed source hub
     | _ \<Rightarrow> hub)"

definition handle_request ::
    "'b backend \<Rightarrow> dispatched_request \<Rightarrow> 'b server \<Rightarrow> (response_outcome \<times> bool) \<times> 'b server" where
  "handle_request B dispatched sv =
     (let req = d_request dispatched; source = d_source_subscriber_id dispatched;
          request_id = q_request_id req; notification = (request_id = 0);
          ((outcome, executed), (hub, b)) =
            (case if notification then None else cached_response request_id (fst sv) of
               Some cached \<Rightarrow> ((cached, False), sv)
             | None \<Rightarrow> (case execute_request B req sv of (outcome, sv) \<Rightarrow> ((outcome, True), sv)));
          hub = (if executed \<and> starts_runtime (q_command req) \<and> \<not> outcome_is_ok outcome
            then end_runtime (q_session_id req) (Some (q_runtime_id req)) hub else hub);
          hub = (if executed
            then apply_catalog_action (task_catalog_action_of (q_command req)) outcome source hub else hub);
          hub = (if notification then hub else send_response source request_id outcome hub) in
      ((outcome, executed), (hub, b)))"

definition send_dispatch_error :: "uuid \<Rightarrow> u64 \<Rightarrow> rstring \<Rightarrow> hub_state \<Rightarrow> hub_state" where
  "send_dispatch_error request_id outgoing message hub =
     (if request_id = 0 then hub
      else
        let outcome = unwrap_or (cached_response request_id hub)
              (Outcome_Error \<lparr>re_message = message, re_kind = None\<rparr>);
            hub = cache_response request_id outcome hub in
        send_response outgoing request_id outcome hub)"

section \<open>A session's mailbox\<close>

definition settle_interrupted_turn :: "'b backend \<Rightarrow> uuid \<Rightarrow> uuid \<Rightarrow> 'b server \<Rightarrow> 'b server" where
  "settle_interrupted_turn B session_id runtime_id sv =
     (if \<not> be_session_has_active_turn B session_id (snd sv) then sv
      else sink_send B session_id runtime_id
        \<lparr>we_kind = lit ''turnFinished'', we_payload = JObject [(lit ''success'', JBool False)]\<rparr> sv)"

fun attached_runtime :: "response_outcome \<Rightarrow> uuid option" where
  "attached_runtime (Outcome_Ok (Pay_SessionRuntime (Some r) _)) = Some r"
| "attached_runtime _ = None"

fun is_session_runtime :: "response_outcome \<Rightarrow> bool" where
  "is_session_runtime (Outcome_Ok (Pay_SessionRuntime _ _)) = True"
| "is_session_runtime _ = False"

text \<open>One turn of the loop of \<open>run_runtime_mailbox\<close>: the request, then the runtime the mailbox holds.\<close>

definition mailbox_turn ::
    "'b backend \<Rightarrow> uuid \<Rightarrow> dispatched_request \<Rightarrow> uuid option \<Rightarrow> 'b server \<Rightarrow> uuid option \<times> 'b server" where
  "mailbox_turn B session_id dispatched active_runtime_id sv =
     (let req = d_request dispatched; runtime_id = q_runtime_id req; cmd = q_command req;
          ((outcome, executed), sv) = handle_request B dispatched sv in
      if \<not> executed then (active_runtime_id, sv)
      else
        let sv = (case resolved_interaction cmd of
                Some request_id \<Rightarrow> if outcome_is_ok outcome
                  then sink_send B session_id runtime_id
                    \<lparr>we_kind = lit ''interactionResolved'',
                     we_payload = JObject [(lit ''requestId'', JString request_id)]\<rparr> sv
                  else sv
              | None \<Rightarrow> sv) in
        if starts_runtime cmd then (if outcome_is_ok outcome then Some runtime_id else None, sv)
        else case attached_runtime outcome of
          Some attached_runtime_id \<Rightarrow> (Some attached_runtime_id, sv)
        | None \<Rightarrow>
          if closes_runtime cmd then
            if (removes_session cmd \<or> active_runtime_id = Some runtime_id) \<and> outcome_is_ok outcome
            then
              let sv = settle_interrupted_turn B session_id runtime_id sv;
                  hub = end_runtime session_id (if removes_session cmd then None else Some runtime_id) (fst sv) in
              (None, (hub, be_runtime_ended B session_id runtime_id (snd sv)))
            else (active_runtime_id, sv)
          else if active_runtime_id = None \<and> \<not> is_session_runtime outcome \<and> outcome_is_ok outcome
          then (Some runtime_id, sv)
          else (active_runtime_id, sv))"

section \<open>Mailboxes and their workers\<close>

text \<open>
  Where a worker is: waiting on its channel, about to handle a request, or about to take the
  registry's lock because the session has no runtime; \<open>Gone\<close> is a thread that returned, whose
  channel no longer accepts requests.
\<close>

datatype worker_phase = Receiving | Handling dispatched_request | Retiring | Gone

record mailbox_worker =
  mw_session :: uuid
  mw_active :: "uuid option"
  mw_phase :: worker_phase

record 'b mailboxes =
  mx_server :: "'b server"
  mx_registry :: "uuid \<rightharpoonup> uuid"
  mx_queues :: "uuid \<Rightarrow> dispatched_request list"
  mx_workers :: "uuid \<rightharpoonup> mailbox_worker"

text \<open>\<open>fresh\<close> is the new mailbox's id; the worker thread is started at once.\<close>

definition dispatch_runtime :: "uuid \<Rightarrow> dispatched_request \<Rightarrow> 'b mailboxes \<Rightarrow> 'b mailboxes" where
  "dispatch_runtime fresh dispatched mx =
     (let session_id = q_session_id (d_request dispatched) in
      case Option.bind (mx_registry mx session_id) (\<lambda>m.
          if map_option mw_phase (mx_workers mx m) \<notin> {None, Some Gone} then Some m else None) of
        Some m \<Rightarrow> mx\<lparr>mx_queues := (mx_queues mx)(m := mx_queues mx m @ [dispatched])\<rparr>
      | None \<Rightarrow> mx\<lparr>mx_registry := (mx_registry mx)(session_id \<mapsto> fresh),
          mx_queues := (mx_queues mx)(fresh := [dispatched]),
          mx_workers := (mx_workers mx)
            (fresh \<mapsto> \<lparr>mw_session = session_id, mw_active = None, mw_phase = Receiving\<rparr>)\<rparr>)"

text \<open>A waiting worker receives the next request of its channel.\<close>

definition worker_receive :: "uuid \<Rightarrow> 'b mailboxes \<Rightarrow> 'b mailboxes option" where
  "worker_receive m mx = (case (mx_workers mx m, mx_queues mx m) of
       (Some w, dispatched # rest) \<Rightarrow>
         if mw_phase w = Receiving
         then Some (mx\<lparr>mx_queues := (mx_queues mx)(m := rest),
           mx_workers := (mx_workers mx)(m \<mapsto> w\<lparr>mw_phase := Handling dispatched\<rparr>)\<rparr>)
         else None
     | _ \<Rightarrow> None)"

definition worker_handle :: "'b backend \<Rightarrow> uuid \<Rightarrow> 'b mailboxes \<Rightarrow> 'b mailboxes option" where
  "worker_handle B m mx = (case mx_workers mx m of
       Some w \<Rightarrow> (case mw_phase w of
           Handling dispatched \<Rightarrow>
             (case mailbox_turn B (mw_session w) dispatched (mw_active w) (mx_server mx) of
                (active, sv) \<Rightarrow> Some (mx\<lparr>mx_server := sv, mx_workers := (mx_workers mx)(m \<mapsto>
                  w\<lparr>mw_active := active, mw_phase := if active = None then Retiring else Receiving\<rparr>)\<rparr>))
         | _ \<Rightarrow> None)
     | None \<Rightarrow> None)"

text \<open>\<open>take_queued_request_or_retire\<close>, under the lock the dispatcher sends under.\<close>

definition worker_retire :: "uuid \<Rightarrow> 'b mailboxes \<Rightarrow> 'b mailboxes option" where
  "worker_retire m mx = (case mx_workers mx m of
       Some w \<Rightarrow>
         if mw_phase w \<noteq> Retiring then None
         else (case mx_queues mx m of
             dispatched # rest \<Rightarrow> Some (mx\<lparr>mx_queues := (mx_queues mx)(m := rest),
               mx_workers := (mx_workers mx)(m \<mapsto> w\<lparr>mw_phase := Handling dispatched\<rparr>)\<rparr>)
           | [] \<Rightarrow> Some (mx\<lparr>
               mx_registry := (if mx_registry mx (mw_session w) = Some m
                 then (mx_registry mx)(mw_session w := None) else mx_registry mx),
               mx_workers := (mx_workers mx)(m \<mapsto> w\<lparr>mw_phase := Gone\<rparr>)\<rparr>))
     | None \<Rightarrow> None)"

section \<open>Interleavings\<close>

text \<open>
  The dispatcher and every worker run concurrently. A step is what one of them does under the
  lock of the registry, one receive, or the handling of one request. Beside the daemon's state
  the requests dispatched to every session and those handled are recorded.
\<close>

record 'b mailbox_config =
  mb_state :: "'b mailboxes"
  mb_dispatched :: "uuid \<Rightarrow> dispatched_request list"
  mb_handled :: "uuid \<Rightarrow> dispatched_request list"

definition request_session :: "dispatched_request \<Rightarrow> uuid" where
  "request_session d = q_session_id (d_request d)"

inductive mailbox_step :: "'b backend \<Rightarrow> 'b mailbox_config \<Rightarrow> 'b mailbox_config \<Rightarrow> bool"
  for B :: "'b backend" where
  Dispatch: "command_targets_runtime (q_command (d_request d)) \<Longrightarrow>
    mx_workers (mb_state c) fresh = None \<Longrightarrow>
    mailbox_step B c (c\<lparr>mb_state := dispatch_runtime fresh d (mb_state c),
      mb_dispatched := (mb_dispatched c)(request_session d := mb_dispatched c (request_session d) @ [d])\<rparr>)"
| Independent: "\<not> command_targets_runtime (q_command (d_request d)) \<Longrightarrow>
    mailbox_step B c (c\<lparr>mb_state := (mb_state c)\<lparr>mx_server :=
      snd (handle_request B d (mx_server (mb_state c)))\<rparr>\<rparr>)"
| Receive: "worker_receive m (mb_state c) = Some mx \<Longrightarrow> mailbox_step B c (c\<lparr>mb_state := mx\<rparr>)"
| Handle: "mx_workers (mb_state c) m = Some w \<Longrightarrow> mw_phase w = Handling d \<Longrightarrow>
    worker_handle B m (mb_state c) = Some mx \<Longrightarrow>
    mailbox_step B c (c\<lparr>mb_state := mx,
      mb_handled := (mb_handled c)(mw_session w := mb_handled c (mw_session w) @ [d])\<rparr>)"
| Retire: "worker_retire m (mb_state c) = Some mx \<Longrightarrow> mailbox_step B c (c\<lparr>mb_state := mx\<rparr>)"

definition mailbox_start :: "'b server \<Rightarrow> 'b mailbox_config" where
  "mailbox_start sv = \<lparr>mb_state = \<lparr>mx_server = sv, mx_registry = Map.empty, mx_queues = (\<lambda>_. []),
     mx_workers = Map.empty\<rparr>, mb_dispatched = (\<lambda>_. []), mb_handled = (\<lambda>_. [])\<rparr>"

definition mailbox_reachable :: "'b backend \<Rightarrow> 'b server \<Rightarrow> 'b mailbox_config \<Rightarrow> bool" where
  "mailbox_reachable B sv c = (mailbox_step B)\<^sup>*\<^sup>* (mailbox_start sv) c"

section \<open>The invariant\<close>

fun held :: "worker_phase \<Rightarrow> dispatched_request list" where
  "held (Handling d) = [d]"
| "held _ = []"

definition mailbox_alive :: "'b mailboxes \<Rightarrow> uuid \<Rightarrow> uuid \<Rightarrow> bool" where
  "mailbox_alive mx s m \<longleftrightarrow>
     (\<exists>w. mx_workers mx m = Some w \<and> mw_session w = s \<and> mw_phase w \<noteq> Gone)"

text \<open>What a session's mailbox still has to handle: the request in hand, then the queue.\<close>

definition mailbox_pending :: "'b mailboxes \<Rightarrow> uuid \<Rightarrow> dispatched_request list" where
  "mailbox_pending mx s = (case mx_registry mx s of None \<Rightarrow> []
     | Some m \<Rightarrow> (case mx_workers mx m of None \<Rightarrow> [] | Some w \<Rightarrow> held (mw_phase w)) @ mx_queues mx m)"

definition mailbox_inv :: "'b mailbox_config \<Rightarrow> bool" where
  "mailbox_inv c \<longleftrightarrow>
     (\<forall>s m. mailbox_alive (mb_state c) s m \<longleftrightarrow> mx_registry (mb_state c) s = Some m) \<and>
     (\<forall>s. mb_dispatched c s = mb_handled c s @ mailbox_pending (mb_state c) s)"

lemma mailbox_invD:
  assumes "mailbox_inv c"
  shows "mailbox_alive (mb_state c) s m \<longleftrightarrow> mx_registry (mb_state c) s = Some m"
    "mb_dispatched c s = mb_handled c s @ mailbox_pending (mb_state c) s"
  using assms unfolding mailbox_inv_def by blast+

text \<open>
  A worker's step changes only its own mailbox: its queue and its phase, which stays alive.
\<close>

lemma mailbox_inv_worker:
  assumes inv: "mailbox_inv c" and w: "mx_workers (mb_state c) m = Some w" "mw_phase w \<noteq> Gone"
    and w': "mw_session w' = mw_session w" "mw_phase w' \<noteq> Gone"
    and reg: "mx_registry mx = mx_registry (mb_state c)"
    and wk: "mx_workers mx = (mx_workers (mb_state c))(m \<mapsto> w')"
    and q: "mx_queues mx = (mx_queues (mb_state c))(m := queue)"
    and pend: "handled @ held (mw_phase w') @ queue = held (mw_phase w) @ mx_queues (mb_state c) m"
  shows "mailbox_inv (c\<lparr>mb_state := mx,
    mb_handled := (mb_handled c)(mw_session w := mb_handled c (mw_session w) @ handled)\<rparr>)"
  unfolding mailbox_inv_def
proof (intro conjI allI)
  fix s k
  have "mailbox_alive mx s k = mailbox_alive (mb_state c) s k"
    using w w' by (auto simp: mailbox_alive_def wk)
  with mailbox_invD(1) [OF inv, of s k] reg
  show "mailbox_alive (mb_state (c\<lparr>mb_state := mx, mb_handled := (mb_handled c)(mw_session w :=
      mb_handled c (mw_session w) @ handled)\<rparr>)) s k =
    (mx_registry (mb_state (c\<lparr>mb_state := mx, mb_handled := (mb_handled c)(mw_session w :=
      mb_handled c (mw_session w) @ handled)\<rparr>)) s = Some k)" by simp
next
  fix s
  have r: "mx_registry (mb_state c) (mw_session w) = Some m"
    using w mailbox_invD(1) [OF inv, of "mw_session w" m] by (auto simp: mailbox_alive_def)
  have "mb_dispatched c s =
      (if s = mw_session w then mb_handled c s @ handled else mb_handled c s) @ mailbox_pending mx s"
  proof (cases "s = mw_session w")
    case True
    with mailbox_invD(2) [OF inv, of s] r w(1) pend show ?thesis
      by (simp add: mailbox_pending_def reg wk q)
  next
    case False
    have "mx_registry (mb_state c) s \<noteq> Some m"
      using False w mailbox_invD(1) [OF inv, of s m] by (auto simp: mailbox_alive_def)
    with False mailbox_invD(2) [OF inv, of s] show ?thesis
      by (auto simp: mailbox_pending_def reg wk q split: option.splits)
  qed
  then show "mb_dispatched (c\<lparr>mb_state := mx, mb_handled := (mb_handled c)(mw_session w :=
        mb_handled c (mw_session w) @ handled)\<rparr>) s =
      mb_handled (c\<lparr>mb_state := mx, mb_handled := (mb_handled c)(mw_session w :=
        mb_handled c (mw_session w) @ handled)\<rparr>) s @
      mailbox_pending (mb_state (c\<lparr>mb_state := mx, mb_handled := (mb_handled c)(mw_session w :=
        mb_handled c (mw_session w) @ handled)\<rparr>)) s" by simp
qed

lemma mailbox_inv_worker_quiet:
  assumes "mailbox_inv c" "mx_workers (mb_state c) m = Some w" "mw_phase w \<noteq> Gone"
    "mw_session w' = mw_session w" "mw_phase w' \<noteq> Gone" "mx_registry mx = mx_registry (mb_state c)"
    "mx_workers mx = (mx_workers (mb_state c))(m \<mapsto> w')" "mx_queues mx = (mx_queues (mb_state c))(m := queue)"
    "held (mw_phase w') @ queue = held (mw_phase w) @ mx_queues (mb_state c) m"
  shows "mailbox_inv (c\<lparr>mb_state := mx\<rparr>)"
  using mailbox_inv_worker [OF assms(1-8), of "[]"] assms(9) by simp

lemma mailbox_inv_receive:
  assumes "mailbox_inv c" "worker_receive m (mb_state c) = Some mx"
  shows "mailbox_inv (c\<lparr>mb_state := mx\<rparr>)"
proof -
  from assms(2) obtain w d rest where "mx_workers (mb_state c) m = Some w"
    "mx_queues (mb_state c) m = d # rest" "mw_phase w = Receiving"
    "mx = (mb_state c)\<lparr>mx_queues := (mx_queues (mb_state c))(m := rest),
      mx_workers := (mx_workers (mb_state c))(m \<mapsto> w\<lparr>mw_phase := Handling d\<rparr>)\<rparr>"
    by (auto simp: worker_receive_def split: option.splits list.splits if_splits)
  then show ?thesis
    by (intro mailbox_inv_worker_quiet [OF assms(1), where m = m and w = w and
        w' = "w\<lparr>mw_phase := Handling d\<rparr>" and queue = rest]) simp_all
qed

lemma mailbox_inv_handle:
  assumes "mailbox_inv c" "mx_workers (mb_state c) m = Some w" "mw_phase w = Handling d"
    "worker_handle B m (mb_state c) = Some mx"
  shows "mailbox_inv (c\<lparr>mb_state := mx,
    mb_handled := (mb_handled c)(mw_session w := mb_handled c (mw_session w) @ [d])\<rparr>)"
proof -
  obtain active sv where "mailbox_turn B (mw_session w) d (mw_active w) (mx_server (mb_state c)) = (active, sv)"
    by (cases "mailbox_turn B (mw_session w) d (mw_active w) (mx_server (mb_state c))")
  with assms(2-4) have "mx = (mb_state c)\<lparr>mx_server := sv, mx_workers := (mx_workers (mb_state c))
      (m \<mapsto> w\<lparr>mw_active := active, mw_phase := if active = None then Retiring else Receiving\<rparr>)\<rparr>"
    by (simp add: worker_handle_def)
  note mx = this
  have "mx_queues mx = (mx_queues (mb_state c))(m := mx_queues (mb_state c) m)" by (simp add: mx)
  from mailbox_inv_worker [OF assms(1,2) _ _ _ _ _ this, where w' = "w\<lparr>mw_active := active,
      mw_phase := if active = None then Retiring else Receiving\<rparr>" and handled = "[d]"] assms(3)
  show ?thesis by (simp add: mx)
qed

lemma mailbox_inv_retire:
  assumes inv: "mailbox_inv c" and r: "worker_retire m (mb_state c) = Some mx"
  shows "mailbox_inv (c\<lparr>mb_state := mx\<rparr>)"
proof -
  from r obtain w where w: "mx_workers (mb_state c) m = Some w" "mw_phase w = Retiring"
    by (auto simp: worker_retire_def split: option.splits if_splits)
  show ?thesis
  proof (cases "mx_queues (mb_state c) m")
    case (Cons d rest)
    with w r show ?thesis
      by (intro mailbox_inv_worker_quiet [OF inv, where m = m and w = w and
          w' = "w\<lparr>mw_phase := Handling d\<rparr>" and queue = rest]) (auto simp: worker_retire_def)
  next
    case Nil
    have reg: "mx_registry (mb_state c) (mw_session w) = Some m"
      using w mailbox_invD(1) [OF inv, of "mw_session w" m] by (auto simp: mailbox_alive_def)
    with w r Nil have mx: "mx = (mb_state c)\<lparr>
        mx_registry := (mx_registry (mb_state c))(mw_session w := None),
        mx_workers := (mx_workers (mb_state c))(m \<mapsto> w\<lparr>mw_phase := Gone\<rparr>)\<rparr>"
      by (simp add: worker_retire_def)
    have other: "mx_registry (mb_state c) s \<noteq> Some m" if "s \<noteq> mw_session w" for s
      using that w mailbox_invD(1) [OF inv, of s m] by (auto simp: mailbox_alive_def)
    show ?thesis
      unfolding mailbox_inv_def
    proof (intro conjI allI)
      fix s k
      have "mailbox_alive mx s k \<longleftrightarrow> mailbox_alive (mb_state c) s k \<and> k \<noteq> m"
        by (auto simp: mailbox_alive_def mx)
      with mailbox_invD(1) [OF inv, of s k] other [of s] reg
      show "mailbox_alive (mb_state (c\<lparr>mb_state := mx\<rparr>)) s k =
          (mx_registry (mb_state (c\<lparr>mb_state := mx\<rparr>)) s = Some k)" by (auto simp: mx)
    next
      fix s
      have "mailbox_pending mx s = mailbox_pending (mb_state c) s"
        using other [of s] reg w Nil by (auto simp: mailbox_pending_def mx split: option.splits)
      with mailbox_invD(2) [OF inv, of s]
      show "mb_dispatched (c\<lparr>mb_state := mx\<rparr>) s = mb_handled (c\<lparr>mb_state := mx\<rparr>) s @
          mailbox_pending (mb_state (c\<lparr>mb_state := mx\<rparr>)) s" by simp
    qed
  qed
qed

lemma mailbox_inv_dispatch:
  assumes inv: "mailbox_inv c" and fresh: "mx_workers (mb_state c) fresh = None"
  shows "mailbox_inv (c\<lparr>mb_state := dispatch_runtime fresh d (mb_state c),
    mb_dispatched := (mb_dispatched c)(request_session d := mb_dispatched c (request_session d) @ [d])\<rparr>)"
proof -
  let ?mx = "mb_state c" and ?s = "request_session d"
  have alive: "mailbox_alive ?mx s m \<longleftrightarrow> mx_registry ?mx s = Some m" for s m
    using inv by (rule mailbox_invD)
  have pend: "mb_dispatched c s = mb_handled c s @ mailbox_pending ?mx s" for s
    using inv by (rule mailbox_invD)
  show ?thesis
  proof (cases "mx_registry ?mx ?s")
    case (Some m)
    then obtain w where w: "mx_workers ?mx m = Some w" "mw_session w = ?s" "mw_phase w \<noteq> Gone"
      using alive [of ?s m] by (auto simp: mailbox_alive_def)
    have d: "dispatch_runtime fresh d ?mx = ?mx\<lparr>mx_queues := (mx_queues ?mx)(m := mx_queues ?mx m @ [d])\<rparr>"
      using Some w by (simp add: dispatch_runtime_def request_session_def Let_def)
    have other: "mx_registry ?mx s \<noteq> Some m" if "s \<noteq> ?s" for s
      using that w alive [of s m] by (auto simp: mailbox_alive_def)
    have "mailbox_alive (dispatch_runtime fresh d ?mx) s k \<longleftrightarrow> mailbox_alive ?mx s k" for s k
      by (simp add: d mailbox_alive_def)
    moreover have "mailbox_pending (dispatch_runtime fresh d ?mx) s =
        mailbox_pending ?mx s @ (if s = ?s then [d] else [])" for s
      using other [of s] Some w by (auto simp: mailbox_pending_def d split: option.splits)
    moreover have "mx_registry (dispatch_runtime fresh d ?mx) = mx_registry ?mx" by (simp add: d)
    ultimately show ?thesis using alive pend unfolding mailbox_inv_def by simp
  next
    case None
    have d: "dispatch_runtime fresh d ?mx = ?mx\<lparr>mx_registry := (mx_registry ?mx)(?s \<mapsto> fresh),
        mx_queues := (mx_queues ?mx)(fresh := [d]), mx_workers := (mx_workers ?mx)
          (fresh \<mapsto> \<lparr>mw_session = ?s, mw_active = None, mw_phase = Receiving\<rparr>)\<rparr>"
      using None by (simp add: dispatch_runtime_def request_session_def Let_def)
    have new: "mx_registry ?mx s \<noteq> Some fresh" for s
      using fresh alive [of s fresh] by (auto simp: mailbox_alive_def)
    have dead: "\<not> mailbox_alive ?mx ?s k" for k using None alive [of ?s k] by simp
    have "mailbox_alive (dispatch_runtime fresh d ?mx) s k \<longleftrightarrow>
        (if k = fresh then s = ?s else mailbox_alive ?mx s k)" for s k
      by (auto simp: d mailbox_alive_def)
    moreover have "mailbox_pending (dispatch_runtime fresh d ?mx) s =
        mailbox_pending ?mx s @ (if s = ?s then [d] else [])" for s
      using new [of s] None by (auto simp: mailbox_pending_def d split: option.splits)
    moreover have "mx_registry (dispatch_runtime fresh d ?mx) = (mx_registry ?mx)(?s \<mapsto> fresh)"
      by (simp add: d)
    ultimately show ?thesis using alive pend new dead unfolding mailbox_inv_def by auto
  qed
qed

lemma mailbox_server_frame:
  "mailbox_alive (mx\<lparr>mx_server := sv\<rparr>) s m = mailbox_alive mx s m"
  "mailbox_pending (mx\<lparr>mx_server := sv\<rparr>) s = mailbox_pending mx s"
  by (auto simp: mailbox_alive_def mailbox_pending_def split: option.splits)

lemma mailbox_inv_step: "mailbox_step B c c' \<Longrightarrow> mailbox_inv c \<Longrightarrow> mailbox_inv c'"
proof (induction rule: mailbox_step.induct)
  case (Independent d c)
  then show ?case by (simp add: mailbox_inv_def mailbox_server_frame)
qed (simp_all add: mailbox_inv_dispatch mailbox_inv_receive mailbox_inv_handle mailbox_inv_retire)

lemma mailbox_inv_reachable: "mailbox_reachable B sv c \<Longrightarrow> mailbox_inv c"
  unfolding mailbox_reachable_def
proof (induction rule: rtranclp_induct)
  case base
  show ?case
    by (simp add: mailbox_start_def mailbox_inv_def mailbox_alive_def mailbox_pending_def)
qed (rule mailbox_inv_step)

section \<open>Progress\<close>

text \<open>A worker with something pending handles it after at most one other step.\<close>

lemma mailbox_handles:
  assumes "mx_workers (mb_state c) m = Some w" "mw_phase w = Handling d"
  shows "\<exists>c'. mailbox_step B c c' \<and> mb_handled c' = (mb_handled c)(mw_session w := mb_handled c (mw_session w) @ [d])"
proof -
  obtain mx where "worker_handle B m (mb_state c) = Some mx"
    using assms
    by (cases "mailbox_turn B (mw_session w) d (mw_active w) (mx_server (mb_state c))")
      (simp add: worker_handle_def)
  from mailbox_step.Handle [OF assms this] show ?thesis by (intro exI conjI) auto
qed

lemma mailbox_takes:
  assumes "mx_workers (mb_state c) m = Some w" "mw_phase w = Receiving \<or> mw_phase w = Retiring"
    "mx_queues (mb_state c) m = d # rest"
  shows "\<exists>mx. mailbox_step B c (c\<lparr>mb_state := mx\<rparr>) \<and>
    mx_workers mx m = Some (w\<lparr>mw_phase := Handling d\<rparr>)"
  using assms(2)
proof
  assume "mw_phase w = Receiving"
  with assms have "worker_receive m (mb_state c) = Some ((mb_state c)\<lparr>mx_queues := (mx_queues (mb_state c))(m := rest),
      mx_workers := (mx_workers (mb_state c))(m \<mapsto> w\<lparr>mw_phase := Handling d\<rparr>)\<rparr>)"
    by (simp add: worker_receive_def)
  from mailbox_step.Receive [OF this] show ?thesis by (intro exI conjI) (assumption, simp)
next
  assume "mw_phase w = Retiring"
  with assms have "worker_retire m (mb_state c) = Some ((mb_state c)\<lparr>mx_queues := (mx_queues (mb_state c))(m := rest),
      mx_workers := (mx_workers (mb_state c))(m \<mapsto> w\<lparr>mw_phase := Handling d\<rparr>)\<rparr>)"
    by (simp add: worker_retire_def)
  from mailbox_step.Retire [OF this] show ?thesis by (intro exI conjI) (assumption, simp)
qed

section \<open>Repeated requests\<close>

lemma cached_response_cache: "cached_response q (cache_response q outcome hub) = Some outcome"
proof -
  have "length (h_responses hub @ [(q, outcome)]) - MAX_CACHED_RESPONSES \<le> length (h_responses hub)"
    by (simp add: MAX_CACHED_RESPONSES_def)
  then show ?thesis by (simp add: cached_response_def cache_response_def)
qed

lemma cached_response_cong: "h_responses hub' = h_responses hub \<Longrightarrow> cached_response q hub' = cached_response q hub"
  by (simp add: cached_response_def)

lemma responses_frame [frame_simps]:
  "h_responses (end_runtime s r hub) = h_responses hub"
  "h_responses (send_response i q outcome hub) = h_responses hub"
  "h_responses (broadcast_task_state_changed src hub) = h_responses hub"
  by (simp_all add: end_runtime_def send_response_def broadcast_task_state_changed_def Let_def
    split: option.splits)

lemma responses_catalog [frame_simps]: "h_responses (apply_catalog_action a outcome src hub) = h_responses hub"
  by (auto simp: apply_catalog_action_def replace_task_catalog_def task_state_saved_def
    task_state_changed_def frame_simps Let_def
    split: task_catalog_action.splits response_outcome.splits response_payload.splits prod.splits)

lemma execute_request_cached:
  "execute_request B req sv = (outcome, sv') \<Longrightarrow> q_request_id req \<noteq> 0 \<Longrightarrow>
   cached_response (q_request_id req) (fst sv') = Some outcome"
  by (auto simp: execute_request_def Let_def cached_response_cache split: prod.splits)

text \<open>A request whose response is cached is answered from the cache, and that is all.\<close>

lemma handle_cached:
  assumes "cached_response (q_request_id (d_request d)) (fst sv) = Some outcome"
    "q_request_id (d_request d) \<noteq> 0"
  shows "handle_request B d sv = ((outcome, False),
    (send_response (d_source_subscriber_id d) (q_request_id (d_request d)) outcome (fst sv), snd sv))"
  using assms by (cases sv) (simp add: handle_request_def Let_def)

lemma handle_request_caches:
  assumes "handle_request B d sv = ((outcome, executed), sv')" "q_request_id (d_request d) \<noteq> 0"
  shows "cached_response (q_request_id (d_request d)) (fst sv') = Some outcome"
proof (cases "cached_response (q_request_id (d_request d)) (fst sv)")
  case (Some cached)
  with assms handle_cached [OF this assms(2), of B] show ?thesis
    by (auto simp: cached_response_def frame_simps)
next
  case None
  obtain o1 sv1 where e: "execute_request B (d_request d) sv = (o1, sv1)" by (metis surj_pair)
  from assms None e have "outcome = o1" "h_responses (fst sv') = h_responses (fst sv1)"
    by (cases sv1; auto simp: handle_request_def Let_def frame_simps)+
  with execute_request_cached [OF e assms(2)] show ?thesis by (simp add: cached_response_def)
qed

section \<open>Properties\<close>

text \<open>
  C14: however the dispatcher and the workers interleave, the requests dispatched to a session
  are handled in the order they were dispatched and none is lost or handled twice: those handled
  are followed by exactly those its mailbox still holds, and a session never has two workers.
\<close>

theorem requests_handled_in_order:
  assumes "mailbox_reachable B sv c"
  shows "mb_dispatched c s = mb_handled c s @ mailbox_pending (mb_state c) s \<and>
    (mailbox_alive (mb_state c) s m \<and> mailbox_alive (mb_state c) s m' \<longrightarrow> m = m')"
  using mailbox_inv_reachable [OF assms] by (auto simp: mailbox_invD(1) mailbox_invD(2) [of c s])



text \<open>A backend that acknowledges everything, and a prompt handled by a session's mailbox.\<close>

definition demo_backend :: "nat backend" where
  "demo_backend = \<lparr>be_handle = (\<lambda>_ n. (Inr Pay_Ack, [], n + 1)), be_handle_runtime_event = (\<lambda>_ n. (None, n)),
     be_runtime_ended = (\<lambda>_ _ n. n), be_session_has_active_turn = (\<lambda>_ _. False)\<rparr>"

definition demo_request :: dispatched_request where
  "demo_request = \<lparr>d_request = \<lparr>q_request_id = 3, q_session_id = 1, q_runtime_id = 2,
     q_command = Cmd_Prompt (lit ''hi'') 4\<rparr>, d_source_subscriber_id = 0\<rparr>"

definition demo_dispatched :: "nat mailbox_config" where
  "demo_dispatched = (let c = mailbox_start (hub_new 7 3, 0) in
     c\<lparr>mb_state := dispatch_runtime 9 demo_request (mb_state c),
       mb_dispatched := (mb_dispatched c)(request_session demo_request :=
         mb_dispatched c (request_session demo_request) @ [demo_request])\<rparr>)"

lemma demo_dispatched_reachable: "mailbox_reachable demo_backend (hub_new 7 3, 0) demo_dispatched"
proof -
  have "mailbox_step demo_backend (mailbox_start (hub_new 7 3, 0)) demo_dispatched"
    unfolding demo_dispatched_def Let_def
    by (rule mailbox_step.Dispatch) (simp_all add: demo_request_def mailbox_start_def)
  then show ?thesis unfolding mailbox_reachable_def by blast
qed

lemma demo_dispatched_pending: "mailbox_pending (mb_state demo_dispatched) 1 = [demo_request]"
  by (simp add: demo_dispatched_def mailbox_start_def dispatch_runtime_def demo_request_def
    mailbox_pending_def Let_def)

theorem requests_handled_in_order_witness:
  "mb_dispatched demo_dispatched 1 = mb_handled demo_dispatched 1 @ [demo_request]"
  using requests_handled_in_order [OF demo_dispatched_reachable, of 1 9 9] demo_dispatched_pending by simp



end
