(* ===== verification/Session.thy ===== *)
theory Session
  imports Session_Types Interfaces
begin

text \<open>
  The operations of \<open>AgentSession\<close> (\<open>crates/shidou-protocol/src/model.rs\<close>) on titles, turns and
  messages. Identifiers drawn by \<open>Uuid::new_v4\<close> and readings of the clock are arguments, in the
  order the source takes them; an operation that draws one identifier per turn or message takes
  the whole stream of identifiers.
\<close>

section \<open>Construction and projections\<close>

definition default_title :: rstring where
  "default_title = lit ''New task''"

definition session_new :: "uuid \<Rightarrow> u64 \<Rightarrow> uuid \<Rightarrow> provider_kind \<Rightarrow> agent_session" where
  "session_new sid now project_id provider =
     \<lparr>s_id = sid, s_title = default_title, s_auto_title = None, s_project_id = project_id,
      s_workspace = Local, s_provider = provider, s_model = None, s_runtime_mode = FullAccess,
      s_interaction_mode = Interaction_Build, s_reasoning_effort = None, s_service_tier = None,
      s_context_window = None, s_agent_preset = None, s_status = Idle, s_created_at = now,
      s_updated_at = now, s_last_reply_at = None, s_archived_at = None, s_parent_task_id = None,
      s_provider_cursor = None, s_available_commands = [], s_context_usage = None,
      s_runtime_event_cursor = None, s_provider_session_id = None, s_messages = [],
      s_transcript_blocks = [], s_turns = [], s_queued_messages = [], s_detail_loaded = True\<rparr>"

definition list_projection :: "agent_session \<Rightarrow> agent_session" where
  "list_projection self =
     \<lparr>s_id = s_id self, s_title = s_title self, s_auto_title = s_auto_title self,
      s_project_id = s_project_id self, s_workspace = Local, s_provider = s_provider self,
      s_model = s_model self, s_runtime_mode = runtime_mode_default,
      s_interaction_mode = Interaction_Build, s_reasoning_effort = None, s_service_tier = None,
      s_context_window = None, s_agent_preset = None, s_status = s_status self,
      s_created_at = s_created_at self, s_updated_at = s_updated_at self,
      s_last_reply_at = s_last_reply_at self, s_archived_at = s_archived_at self,
      s_parent_task_id = s_parent_task_id self, s_provider_cursor = None,
      s_available_commands = [], s_context_usage = None, s_runtime_event_cursor = None,
      s_provider_session_id = None, s_messages = [], s_transcript_blocks = [], s_turns = [],
      s_queued_messages = [], s_detail_loaded = False\<rparr>"

definition session_is_busy :: "agent_session \<Rightarrow> bool" where
  "session_is_busy self = status_is_busy (s_status self)"

definition has_started :: "agent_session \<Rightarrow> bool" where
  "has_started self \<longleftrightarrow> \<not> s_detail_loaded self \<or> s_turns self \<noteq> [] \<or> s_messages self \<noteq> [] \<or>
     s_provider_cursor self \<noteq> None"

definition backfill_last_reply_at :: "agent_session \<Rightarrow> agent_session" where
  "backfill_last_reply_at self =
     (if s_last_reply_at self \<noteq> None then self
      else self\<lparr>s_last_reply_at :=
        opt_filter (\<lambda>_. has_started self)
          (map_option (\<lambda>turn. unwrap_or (t_completed_at turn) (t_started_at turn))
            (last_opt (s_turns self)))\<rparr>)"

section \<open>Titles\<close>

definition display_title :: "agent_session \<Rightarrow> rstring" where
  "display_title self =
     (if s_title self \<noteq> default_title \<and> trim (s_title self) \<noteq> [] then s_title self
      else unwrap_or (opt_filter (\<lambda>title. trim title \<noteq> []) (s_auto_title self)) default_title)"

definition set_title :: "u64 \<Rightarrow> rstring \<Rightarrow> agent_session \<Rightarrow> agent_session \<times> bool" where
  "set_title now title self =
     (let title = trim title in
      if title = [] \<or> s_title self = title then (self, False)
      else (self\<lparr>s_title := title, s_updated_at := now\<rparr>, True))"

definition prompt_title :: "rstring \<Rightarrow> rstring" where
  "prompt_title prompt =
     (let title = join (lit '' '') (take 7 (split_whitespace prompt)) in
      if 54 < length title then take 53 title @ [ellipsis] else title)"

definition set_title_from_prompt :: "rstring \<Rightarrow> agent_session \<Rightarrow> agent_session" where
  "set_title_from_prompt prompt self =
     (if 1 < length (s_messages self) \<or> s_title self \<noteq> default_title \<or> s_auto_title self \<noteq> None
      then self
      else if join (lit '' '') (take 7 (split_whitespace prompt)) = [] then self
      else self\<lparr>s_auto_title := Some (prompt_title prompt)\<rparr>)"

definition set_auto_title ::
    "u64 \<Rightarrow> rstring option \<Rightarrow> agent_session \<Rightarrow> agent_session \<times> bool" where
  "set_auto_title now title self =
     (let title = Option.bind title (\<lambda>t. if trim t \<noteq> [] then Some (trim t) else None) in
      if s_auto_title self = title then (self, False)
      else (self\<lparr>s_auto_title := title, s_updated_at := now\<rparr>, True))"

definition can_choose_model :: "provider_kind \<Rightarrow> agent_session \<Rightarrow> bool" where
  "can_choose_model provider self \<longleftrightarrow>
     \<not> status_is_busy (s_status self) \<and> (s_messages self = [] \<or> s_provider self = provider)"

section \<open>Turns\<close>

definition is_running :: "agent_turn \<Rightarrow> bool" where
  "is_running turn \<longleftrightarrow> t_status turn = Running"

definition active_turn_id :: "agent_session \<Rightarrow> uuid option" where
  "active_turn_id self = map_option t_id (opt_filter is_running (last_opt (s_turns self)))"

definition begin_turn_with_presentation ::
    "uuid \<Rightarrow> uuid \<Rightarrow> u64 \<Rightarrow> u64 \<Rightarrow> rstring \<Rightarrow> rstring option \<Rightarrow> message_attachment list \<Rightarrow>
     agent_session \<Rightarrow> agent_session" where
  "begin_turn_with_presentation tid mid now message_now prompt display_content attachments self =
     self\<lparr>s_turns := s_turns self @
            [\<lparr>t_id = tid, t_turn_count = length (s_turns self) + 1, t_status = Running,
              t_provider_turn_started = False, t_provider_resume_at = None, t_started_at = now,
              t_completed_at = None, t_checkpoint = None\<rparr>],
          s_messages := s_messages self @
            [message_with_presentation (message_new_for_turn mid message_now User prompt tid)
               display_content attachments],
          s_last_reply_at := Some now\<rparr>"

definition begin_turn ::
    "uuid \<Rightarrow> uuid \<Rightarrow> u64 \<Rightarrow> u64 \<Rightarrow> rstring \<Rightarrow> agent_session \<Rightarrow> agent_session" where
  "begin_turn tid mid now message_now prompt self =
     begin_turn_with_presentation tid mid now message_now prompt None [] self"

definition unwind_unstarted_turn :: "uuid \<Rightarrow> agent_session \<Rightarrow> agent_session" where
  "unwind_unstarted_turn turn_id self =
     (let unstarted = (case last_opt (s_turns self) of
          None \<Rightarrow> False
        | Some turn \<Rightarrow> t_id turn = turn_id \<and> t_status turn = Running \<and>
            \<not> t_provider_turn_started turn) in
      if \<not> unstarted then self
      else let self = self\<lparr>s_turns := butlast (s_turns self),
             s_messages := filter (\<lambda>m. m_turn_id m \<noteq> Some turn_id) (s_messages self)\<rparr> in
        if s_messages self = [] then self\<lparr>s_auto_title := None\<rparr> else self)"

definition mark_active_turn_provider_started :: "agent_session \<Rightarrow> agent_session" where
  "mark_active_turn_provider_started self =
     self\<lparr>s_turns := map_last (\<lambda>turn. if is_running turn
        then turn\<lparr>t_provider_turn_started := True\<rparr> else turn) (s_turns self)\<rparr>"

definition mark_active_turn_provider_resume_at :: "rstring \<Rightarrow> agent_session \<Rightarrow> agent_session" where
  "mark_active_turn_provider_resume_at message_id self =
     self\<lparr>s_turns := map_last (\<lambda>turn. if is_running turn
        then turn\<lparr>t_provider_resume_at := Some message_id\<rparr> else turn) (s_turns self)\<rparr>"

definition provider_turns_after :: "nat \<Rightarrow> agent_session \<Rightarrow> nat" where
  "provider_turns_after turn_count self =
     length (filter t_provider_turn_started (drop turn_count (s_turns self)))"

definition finish_active_turn ::
    "u64 \<Rightarrow> turn_status \<Rightarrow> agent_session \<Rightarrow> agent_session \<times> (uuid \<times> nat) option" where
  "finish_active_turn now status self =
     (case opt_filter is_running (last_opt (s_turns self)) of
        None \<Rightarrow> (self, None)
      | Some turn \<Rightarrow>
          (self\<lparr>s_turns := map_last (\<lambda>t. t\<lparr>t_status := status, t_completed_at := Some now\<rparr>)
                  (s_turns self),
                s_last_reply_at := Some now\<rparr>,
           Some (t_id turn, t_turn_count turn)))"

definition push_message ::
    "uuid \<Rightarrow> u64 \<Rightarrow> message_role \<Rightarrow> rstring \<Rightarrow> agent_session \<Rightarrow> agent_session" where
  "push_message mid now role content self =
     self\<lparr>s_messages := s_messages self @
        [case active_turn_id self of
           Some turn_id \<Rightarrow> message_new_for_turn mid now role content turn_id
         | None \<Rightarrow> message_new mid now role content]\<rparr>"

definition push_user_message_with_presentation ::
    "uuid \<Rightarrow> u64 \<Rightarrow> rstring \<Rightarrow> rstring option \<Rightarrow> message_attachment list \<Rightarrow> agent_session \<Rightarrow>
     agent_session" where
  "push_user_message_with_presentation mid now content display_content attachments self =
     self\<lparr>s_messages := s_messages self @
        [message_with_presentation
           (case active_turn_id self of
              Some turn_id \<Rightarrow> message_new_for_turn mid now User content turn_id
            | None \<Rightarrow> message_new mid now User content)
           display_content attachments]\<rparr>"

section \<open>Truncation and forks\<close>

definition owned_by :: "uuid set \<Rightarrow> uuid option \<Rightarrow> bool" where
  "owned_by retained turn_id = (case turn_id of None \<Rightarrow> True | Some i \<Rightarrow> i \<in> retained)"

definition truncate_after_turn :: "u64 \<Rightarrow> nat \<Rightarrow> agent_session \<Rightarrow> agent_session" where
  "truncate_after_turn now turn_count self =
     (let retained = set (map t_id (take turn_count (s_turns self)));
          messages = filter (\<lambda>m. owned_by retained (m_turn_id m)) (s_messages self) in
      self\<lparr>s_turns := take turn_count (s_turns self),
           s_messages := messages,
           s_transcript_blocks :=
             map (\<lambda>b. b\<lparr>b_after_message := min (b_after_message b) (length messages)\<rparr>)
               (filter (\<lambda>b. owned_by retained (b_turn_id b)) (s_transcript_blocks self)),
           s_updated_at := now\<rparr>)"

text \<open>
  A fork draws one identifier for itself, one per retained turn and one per retained message, in
  this order. \<open>turn_ids[&turn.id]\<close> cannot panic: every turn's identifier is a key of the map.
\<close>

definition fork_turn_ids :: "(nat \<Rightarrow> uuid) \<Rightarrow> agent_turn list \<Rightarrow> uuid \<Rightarrow> uuid option" where
  "fork_turn_ids fresh turns =
     map_of (rev (zip (map t_id turns) (map (\<lambda>i. fresh (Suc i)) [0..<length turns])))"

definition fork_through_turn ::
    "(nat \<Rightarrow> uuid) \<Rightarrow> u64 \<Rightarrow> u64 \<Rightarrow> nat \<Rightarrow> provider_resume_cursor \<Rightarrow> rstring \<Rightarrow> agent_session \<Rightarrow>
     agent_session option" where
  "fork_through_turn fresh truncate_now now turn_count provider_cursor fork_title self =
     (if turn_count = 0 \<or> length (s_turns self) < turn_count then None
      else
        let fork = truncate_after_turn truncate_now turn_count self;
            turn_ids = fork_turn_ids fresh (s_turns fork);
            n = length (s_turns fork) in
        Some (fork\<lparr>
          s_turns := map (\<lambda>t. t\<lparr>t_id := unwrap_or (turn_ids (t_id t)) (t_id t)\<rparr>) (s_turns fork),
          s_messages := map (\<lambda>(i, m). m\<lparr>m_id := fresh (Suc n + i),
              m_turn_id := Option.bind (m_turn_id m) turn_ids, m_streaming := False\<rparr>)
            (enumerate 0 (s_messages fork)),
          s_transcript_blocks := map (\<lambda>b. b\<lparr>b_turn_id := Option.bind (b_turn_id b) turn_ids\<rparr>)
            (s_transcript_blocks fork),
          s_id := fresh 0,
          s_title := default_title,
          s_auto_title := Some fork_title,
          s_status := Idle,
          s_created_at := now,
          s_updated_at := now,
          s_provider_cursor := Some provider_cursor,
          s_provider_session_id := None,
          s_queued_messages := []\<rparr>))"

section \<open>Well-formed sessions\<close>

text \<open>
  What every operation keeps: identifiers of turns and of messages are unique, only the newest
  turn may be running, every reference to a turn resolves, and transcript blocks are anchored
  inside the message list in its order.
\<close>

definition turn_ids :: "agent_session \<Rightarrow> uuid list" where
  "turn_ids s = map t_id (s_turns s)"

definition message_ids :: "agent_session \<Rightarrow> uuid list" where
  "message_ids s = map m_id (s_messages s)"

definition turns_ok :: "agent_turn list \<Rightarrow> bool" where
  "turns_ok ts \<longleftrightarrow> distinct (map t_id ts) \<and> (\<forall>t\<in>set (butlast ts). \<not> is_running t)"

definition blocks_ok :: "uuid set \<Rightarrow> nat \<Rightarrow> transcript_block list \<Rightarrow> bool" where
  "blocks_ok ids n bs \<longleftrightarrow> sorted (map b_after_message bs) \<and>
     (\<forall>b\<in>set bs. b_after_message b \<le> n \<and> owned_by ids (b_turn_id b))"

definition messages_ok :: "uuid set \<Rightarrow> message list \<Rightarrow> bool" where
  "messages_ok ids ms \<longleftrightarrow> distinct (map m_id ms) \<and> (\<forall>m\<in>set ms. owned_by ids (m_turn_id m))"

definition wf_session :: "agent_session \<Rightarrow> bool" where
  "wf_session s \<longleftrightarrow> turns_ok (s_turns s) \<and> messages_ok (set (turn_ids s)) (s_messages s) \<and>
     blocks_ok (set (turn_ids s)) (length (s_messages s)) (s_transcript_blocks s)"

lemma owned_by_simps [simp]: "owned_by I None" "owned_by I (Some i) \<longleftrightarrow> i \<in> I"
  by (simp_all add: owned_by_def)

lemma owned_by_mono: "owned_by I x \<Longrightarrow> I \<subseteq> J \<Longrightarrow> owned_by J x"
  by (cases x) auto

lemma wf_sessionD:
  assumes "wf_session s"
  shows "turns_ok (s_turns s)" "messages_ok (set (turn_ids s)) (s_messages s)"
    "blocks_ok (set (turn_ids s)) (length (s_messages s)) (s_transcript_blocks s)"
  using assms by (simp_all add: wf_session_def)

lemma turns_ok_distinct: "turns_ok ts \<Longrightarrow> distinct (map t_id ts)"
  by (simp add: turns_ok_def)

lemma turns_ok_take: "turns_ok ts \<Longrightarrow> turns_ok (take n ts)"
proof -
  assume ok: "turns_ok ts"
  have "set (butlast (take n ts)) \<subseteq> set (butlast ts)"
  proof (cases "n < length ts")
    case True
    then have "take (n - 1) ts = take (n - 1) (butlast ts)" by (simp add: butlast_conv_take)
    then show ?thesis using True by (simp add: butlast_take set_take_subset)
  qed simp
  with ok show ?thesis by (auto simp: turns_ok_def distinct_map_filter take_map [symmetric])
qed

lemma turns_ok_map_last:
  assumes "turns_ok ts" and "\<And>t. t_id (f t) = t_id t"
  shows "turns_ok (map_last f ts)"
  using assms by (cases ts rule: rev_cases) (auto simp: turns_ok_def)

lemma turns_ok_snoc:
  "turns_ok ts \<Longrightarrow> t_id t \<notin> set (map t_id ts) \<Longrightarrow> opt_filter is_running (last_opt ts) = None \<Longrightarrow>
   turns_ok (ts @ [t])"
  by (cases ts rule: rev_cases) (auto simp: turns_ok_def butlast_append split: if_splits)

lemma messages_ok_snoc:
  "messages_ok I ms \<Longrightarrow> I \<subseteq> J \<Longrightarrow> m_id m \<notin> set (map m_id ms) \<Longrightarrow> owned_by J (m_turn_id m) \<Longrightarrow>
   messages_ok J (ms @ [m])"
  by (auto simp: messages_ok_def intro: owned_by_mono)

lemma blocks_ok_mono: "blocks_ok I n bs \<Longrightarrow> I \<subseteq> J \<Longrightarrow> n \<le> k \<Longrightarrow> blocks_ok J k bs"
  by (auto simp: blocks_ok_def intro: owned_by_mono order_trans)

lemma active_turn_id_in: "active_turn_id s = Some i \<Longrightarrow> i \<in> set (turn_ids s)"
  by (auto simp: active_turn_id_def turn_ids_def opt_filter_eq_Some last_opt_eq_Some)

lemma active_turn_id_None:
  "active_turn_id s = None \<longleftrightarrow> opt_filter is_running (last_opt (s_turns s)) = None"
  by (simp add: active_turn_id_def)

subsection \<open>The operations keep sessions well formed\<close>

lemma wf_session_new [inv_intros]: "wf_session (session_new sid now project_id provider)"
  by (simp add: wf_session_def turns_ok_def messages_ok_def blocks_ok_def session_new_def turn_ids_def)

lemma wf_begin_turn_with_presentation [inv_intros]:
  assumes "wf_session s" "active_turn_id s = None"
    and "tid \<notin> set (turn_ids s)" "mid \<notin> set (message_ids s)"
  shows "wf_session (begin_turn_with_presentation tid mid now mnow prompt dc atts s)"
  using assms unfolding wf_session_def begin_turn_with_presentation_def
  by (auto intro!: turns_ok_snoc messages_ok_snoc [of "set (turn_ids s)"]
      elim!: blocks_ok_mono
      simp: active_turn_id_None turn_ids_def message_ids_def message_with_presentation_def
        message_new_for_turn_def message_new_def)

lemma wf_push_message [inv_intros]:
  assumes "wf_session s" "mid \<notin> set (message_ids s)"
  shows "wf_session (push_message mid now role content s)"
  using assms unfolding wf_session_def push_message_def
  by (auto intro!: messages_ok_snoc [of "set (turn_ids s)"] elim!: blocks_ok_mono
      dest: active_turn_id_in
      simp: turn_ids_def message_ids_def message_new_for_turn_def message_new_def
      split: option.splits)

lemma wf_push_user_message [inv_intros]:
  assumes "wf_session s" "mid \<notin> set (message_ids s)"
  shows "wf_session (push_user_message_with_presentation mid now content dc atts s)"
  using assms unfolding wf_session_def push_user_message_with_presentation_def
  by (auto intro!: messages_ok_snoc [of "set (turn_ids s)"] elim!: blocks_ok_mono
      dest: active_turn_id_in
      simp: turn_ids_def message_ids_def message_new_for_turn_def message_new_def
        message_with_presentation_def
      split: option.splits)

lemma wf_map_last_turn:
  assumes "wf_session s" and "\<And>t. t_id (f t) = t_id t"
  shows "wf_session (s\<lparr>s_turns := map_last f (s_turns s)\<rparr>)"
proof -
  have "map t_id (map_last f (s_turns s)) = map t_id (s_turns s)"
    by (rule map_map_last) (rule assms(2))
  with assms show ?thesis
    by (simp add: wf_session_def turn_ids_def turns_ok_map_last)
qed

lemma wf_mark_started [inv_intros]:
  "wf_session s \<Longrightarrow> wf_session (mark_active_turn_provider_started s)"
  unfolding mark_active_turn_provider_started_def by (rule wf_map_last_turn) auto

lemma wf_mark_resume_at [inv_intros]:
  "wf_session s \<Longrightarrow> wf_session (mark_active_turn_provider_resume_at i s)"
  unfolding mark_active_turn_provider_resume_at_def by (rule wf_map_last_turn) auto

lemma wf_session_frame:
  assumes "s_turns s' = s_turns s" "s_messages s' = s_messages s"
    "s_transcript_blocks s' = s_transcript_blocks s"
  shows "wf_session s' = wf_session s"
  using assms by (simp add: wf_session_def turn_ids_def)

lemma wf_finish_active_turn [inv_intros]:
  assumes "wf_session s"
  shows "wf_session (fst (finish_active_turn now st s))"
proof (cases "opt_filter is_running (last_opt (s_turns s))")
  case None
  with assms show ?thesis by (simp add: finish_active_turn_def)
next
  case (Some turn)
  have "wf_session (s\<lparr>s_turns :=
      map_last (\<lambda>t. t\<lparr>t_status := st, t_completed_at := Some now\<rparr>) (s_turns s)\<rparr>)"
    by (rule wf_map_last_turn [OF assms]) simp
  with Some show ?thesis
    by (simp add: finish_active_turn_def wf_session_def turn_ids_def)
qed

lemma wf_truncate [inv_intros]:
  assumes wf: "wf_session s"
  shows "wf_session (truncate_after_turn now n s)"
proof -
  let ?R = "set (map t_id (take n (s_turns s)))"
  let ?M = "filter (\<lambda>m. owned_by ?R (m_turn_id m)) (s_messages s)"
  let ?B = "filter (\<lambda>b. owned_by ?R (b_turn_id b)) (s_transcript_blocks s)"
  have "turns_ok (take n (s_turns s))" using wf by (simp add: wf_session_def turns_ok_take)
  moreover have "messages_ok ?R ?M"
    using wf by (auto simp: wf_session_def messages_ok_def intro: distinct_map_filter)
  moreover have "sorted (map (\<lambda>b. min (b_after_message b) (length ?M)) ?B)"
  proof -
    have "sorted (map b_after_message ?B)"
      using wf by (simp add: wf_session_def blocks_ok_def sorted_filter)
    then have "sorted (map (\<lambda>k. min k (length ?M)) (map b_after_message ?B))"
      by (induction ?B) (auto simp: sorted_map sorted_wrt_map elim!: sorted_wrt_mono_rel [rotated])
    then show ?thesis by (simp add: comp_def)
  qed
  ultimately show ?thesis
    by (auto simp: wf_session_def truncate_after_turn_def Let_def turn_ids_def blocks_ok_def comp_def)
qed

section \<open>Properties\<close>

lemma display_title_default_nonblank: "trim default_title \<noteq> []"
  by (simp add: default_title_def lit_def trim_empty_iff is_whitespace_def)

text \<open>Whatever a session holds, the title it displays is never blank.\<close>

theorem display_title_nonblank: "trim (display_title s) \<noteq> []"
  by (cases "s_auto_title s") (auto simp: display_title_def display_title_default_nonblank)

text \<open>
  A title the user sets is displayed as typed (without surrounding white space) and stays
  displayed whatever titles the provider reports afterwards, unless it is the default title.
\<close>

theorem user_title_wins:
  assumes "set_title now title s = (s', changed)" and "trim title \<noteq> []"
    and "trim title \<noteq> default_title"
  shows "display_title (foldl (\<lambda>u (t, auto). fst (set_auto_title t auto u)) s' reports) = trim title"
proof -
  have "s_title s' = trim title"
    using assms by (auto simp: set_title_def Let_def split: if_splits)
  then have "s_title (foldl (\<lambda>u (t, auto). fst (set_auto_title t auto u)) s' reports) = trim title"
  proof (induction reports arbitrary: s')
    case Nil
    then show ?case by simp
  next
    case (Cons r reports)
    have "s_title (fst (set_auto_title t a s')) = s_title s'" for t a
      by (simp add: set_auto_title_def Let_def)
    with Cons show ?case by (cases r) simp
  qed
  with assms show ?thesis by (simp add: display_title_def)
qed

theorem user_title_wins_witness:
  "display_title (foldl (\<lambda>u (t, auto). fst (set_auto_title t auto u))
     (fst (set_title 1 (lit '' Fix it '') (session_new 1 0 2 Codex))) [(2, Some (lit ''Other''))]) = lit ''Fix it''"
proof -
  let ?p = "set_title 1 (lit '' Fix it '') (session_new 1 0 2 Codex)"
  have t: "trim (lit '' Fix it '') = lit ''Fix it''"
    by (simp add: lit_def trim_def trim_start_def trim_end_def is_whitespace_def)
  have "trim (lit '' Fix it '') \<noteq> []" "trim (lit '' Fix it '') \<noteq> default_title"
    unfolding t by (simp_all add: lit_def default_title_def)
  from user_title_wins [OF prod.collapse [symmetric] this, of 1 "session_new 1 0 2 Codex"
      "[(2, Some (lit ''Other''))]"]
  show ?thesis unfolding t .
qed

lemma join_space_word:
  "ws \<noteq> [] \<Longrightarrow> (\<And>w. w \<in> set ws \<Longrightarrow> w \<noteq> [] \<and> (\<forall>c\<in>set w. \<not> is_whitespace c)) \<Longrightarrow>
   join (lit '' '') ws \<noteq> [] \<and> \<not> is_whitespace (hd (join (lit '' '') ws)) \<and>
   (\<forall>c\<in>set (join (lit '' '') ws). is_whitespace c \<longrightarrow> c = 32)"
proof (induction "lit '' ''" ws rule: join.induct)
  case (3 w v ws)
  have w: "w \<noteq> []" "\<forall>c\<in>set w. \<not> is_whitespace c" using "3.prems"(2) [of w] by auto
  then have "\<not> is_whitespace (hd w)" by simp
  with w 3 show ?case by (auto simp: hd_append lit_def)
qed (auto simp: hd_in_set)

text \<open>
  The title derived from a first prompt is one line of at most 54 characters (the last one an
  ellipsis when words were cut), never blank, and is what the session then displays.
\<close>

theorem prompt_title_displayed:
  assumes "s_auto_title s = None"
    and "s_auto_title (set_title_from_prompt prompt s) = Some title"
  shows "length title \<le> 54 \<and> (\<forall>c\<in>set title. is_whitespace c \<longrightarrow> c = 32) \<and>
     display_title (set_title_from_prompt prompt s) = title"
proof -
  let ?ws = "take 7 (split_whitespace prompt)"
  let ?j = "join (lit '' '') ?ws"
  from assms have dt: "s_title s = default_title" and ne: "?j \<noteq> []"
    and t: "title = prompt_title prompt"
    by (auto simp: set_title_from_prompt_def split: if_splits)
  from ne have "?ws \<noteq> []" by (metis join.simps(1))
  moreover have "w \<noteq> [] \<and> (\<forall>c\<in>set w. \<not> is_whitespace c)" if "w \<in> set ?ws" for w
    using that by (metis in_set_takeD split_whitespace_word)
  ultimately have j: "\<not> is_whitespace (hd ?j)" "\<forall>c\<in>set ?j. is_whitespace c \<longrightarrow> c = 32"
    using join_space_word [of ?ws] by auto
  have ws: "\<forall>c\<in>set title. is_whitespace c \<longrightarrow> c = 32"
    using j(2) unfolding t prompt_title_def Let_def
    by (auto dest!: in_set_takeD simp: ellipsis_def is_whitespace_def)
  have "title \<noteq> []" and "hd title = hd ?j"
    using ne unfolding t prompt_title_def Let_def by (auto simp: hd_append)
  with j(1) have "trim title \<noteq> []" by (metis hd_in_set trim_empty_iff)
  moreover have "s_title (set_title_from_prompt prompt s) = default_title"
    using dt by (simp add: set_title_from_prompt_def)
  ultimately have "display_title (set_title_from_prompt prompt s) = title"
    using assms(2) by (simp add: display_title_def)
  moreover have "length title \<le> 54"
    unfolding t prompt_title_def Let_def by auto
  ultimately show ?thesis using ws by blast
qed

theorem prompt_title_displayed_witness:
  "display_title (set_title_from_prompt (lit ''fix the  bug'') (session_new 1 0 2 Codex)) = lit ''fix the bug''"
proof -
  have 1: "s_auto_title (session_new 1 0 2 Codex) = None" by (simp add: session_new_def)
  have j: "join (lit '' '') (take 7 (split_whitespace (lit ''fix the  bug''))) = lit ''fix the bug''"
    by (simp add: lit_def split_whitespace_def is_whitespace_def)
  moreover have "prompt_title (lit ''fix the  bug'') = lit ''fix the bug''"
    unfolding prompt_title_def j by (simp add: lit_def)
  moreover have "lit ''fix the bug'' \<noteq> []" by (simp add: lit_def)
  ultimately have 2: "s_auto_title (set_title_from_prompt (lit ''fix the  bug'') (session_new 1 0 2 Codex)) =
      Some (lit ''fix the bug'')"
    by (simp add: set_title_from_prompt_def session_new_def)
  from prompt_title_displayed [OF 1 2] show ?thesis by simp
qed

text \<open>
  Beginning a turn and unwinding it before the provider started gives the session back, but
  for the submission time and for the title of a session that had no message.
\<close>

theorem unwind_begin_turn:
  assumes "\<forall>m\<in>set (s_messages s). m_turn_id m \<noteq> Some tid"
  shows "unwind_unstarted_turn tid
      (begin_turn_with_presentation tid mid now message_now prompt dc atts s) =
    s\<lparr>s_last_reply_at := Some now,
      s_auto_title := (if s_messages s = [] then None else s_auto_title s)\<rparr>"
proof -
  have "filter (\<lambda>m. m_turn_id m \<noteq> Some tid) (s_messages s) = s_messages s"
    using assms by (simp add: filter_id_conv)
  then show ?thesis
    by (simp add: unwind_unstarted_turn_def begin_turn_with_presentation_def Let_def
        message_with_presentation_def message_new_for_turn_def)
qed

theorem unwind_begin_turn_witness:
  "unwind_unstarted_turn 5 (begin_turn_with_presentation 5 6 7 7 (lit ''hi'') None [] (session_new 1 0 2 Codex)) =
    (session_new 1 0 2 Codex)\<lparr>s_last_reply_at := Some 7, s_auto_title := None\<rparr>"
  using unwind_begin_turn [of "session_new 1 0 2 Codex" 5 6 7 7 "lit ''hi''" None "[]"]
  by (simp add: session_new_def)

lemma filter_owned_owned:
  "I \<subseteq> J \<Longrightarrow> filter (\<lambda>x. owned_by I (f x)) (filter (\<lambda>x. owned_by J (f x)) xs) =
   filter (\<lambda>x. owned_by I (f x)) xs"
  by (induction xs) (auto dest: owned_by_mono)

lemma clamp_owned_owned:
  "I \<subseteq> J \<Longrightarrow> k \<le> l \<Longrightarrow>
   map (\<lambda>b. b\<lparr>b_after_message := min (b_after_message b) k\<rparr>)
     (filter (\<lambda>b. owned_by I (b_turn_id b))
       (map (\<lambda>b. b\<lparr>b_after_message := min (b_after_message b) l\<rparr>)
         (filter (\<lambda>b. owned_by J (b_turn_id b)) xs))) =
   map (\<lambda>b. b\<lparr>b_after_message := min (b_after_message b) k\<rparr>)
     (filter (\<lambda>b. owned_by I (b_turn_id b)) xs)"
  by (induction xs) (auto dest: owned_by_mono)

text \<open>
  Rewinding a transcript twice is rewinding it once to the smaller turn count, whatever the
  session holds.
\<close>

theorem truncate_truncate:
  "truncate_after_turn t2 n (truncate_after_turn t1 m s) = truncate_after_turn t2 (min n m) s"
proof -
  let ?Rm = "set (map t_id (take m (s_turns s)))"
  let ?R = "set (map t_id (take (min n m) (s_turns s)))"
  have "set (take (min n m) (s_turns s)) \<subseteq> set (take m (s_turns s))"
    by (rule set_take_subset_set_take) simp
  then have sub: "?R \<subseteq> ?Rm" by auto
  have ms: "filter (\<lambda>x. owned_by ?R (m_turn_id x)) (filter (\<lambda>x. owned_by ?Rm (m_turn_id x)) xs) =
      filter (\<lambda>x. owned_by ?R (m_turn_id x)) xs" for xs
    by (rule filter_owned_owned [OF sub])
  have "length (filter (\<lambda>x. owned_by ?R (m_turn_id x)) (s_messages s)) \<le>
      length (filter (\<lambda>x. owned_by ?Rm (m_turn_id x)) (s_messages s))"
    using length_filter_le [of _ "filter (\<lambda>x. owned_by ?Rm (m_turn_id x)) (s_messages s)"]
    by (metis ms)
  then show ?thesis
    unfolding truncate_after_turn_def Let_def 
    by (simp add: ms clamp_owned_owned [OF sub] del: set_map filter_filter)
qed

subsection \<open>Forks\<close>

lemma fork_turn_ids_nth:
  assumes "distinct (map t_id ts)" "i < length ts"
  shows "fork_turn_ids fresh ts (t_id (ts ! i)) = Some (fresh (Suc i))"
proof -
  let ?z = "zip (map t_id ts) (map (\<lambda>i. fresh (Suc i)) [0..<length ts])"
  have "distinct (map fst (rev ?z))" using assms by (simp add: rev_map [symmetric])
  moreover have "(t_id (ts ! i), fresh (Suc i)) \<in> set (rev ?z)"
    using assms by (auto simp: set_zip intro!: exI [of _ i])
  ultimately show ?thesis unfolding fork_turn_ids_def by (rule map_of_is_SomeI)
qed

lemma fork_turn_ids_dom: "x \<notin> set (map t_id ts) \<Longrightarrow> fork_turn_ids fresh ts x = None"
  unfolding fork_turn_ids_def by (auto simp: map_of_eq_None_iff dest: set_zip_leftD)

lemma fork_turn_ids_turns:
  assumes "distinct (map t_id ts)"
  shows "map (\<lambda>t. unwrap_or (fork_turn_ids fresh ts (t_id t)) (t_id t)) ts =
    map (\<lambda>i. fresh (Suc i)) [0..<length ts]"
  by (rule nth_equalityI) (simp_all add: fork_turn_ids_nth assms)

lemma fork_turn_ids_owned:
  assumes "distinct (map t_id ts)" "owned_by (set (map t_id ts)) x"
  shows "owned_by ((\<lambda>i. fresh (Suc i)) ` {0..<length ts}) (Option.bind x (fork_turn_ids fresh ts))"
proof (cases x)
  case (Some i)
  with assms(2) obtain k where "k < length ts" "i = t_id (ts ! k)"
    by (auto simp: in_set_conv_nth)
  with Some show ?thesis by (simp add: fork_turn_ids_nth assms(1))
qed simp

lemma fork_turn_ids_eq:
  assumes "distinct (map t_id ts)" "inj_on fresh {..length ts}" "k < length ts" "owned_by (set (map t_id ts)) x"
  shows "Option.bind x (fork_turn_ids fresh ts) = Some (fresh (Suc k)) \<longleftrightarrow> x = Some (t_id (ts ! k))"
proof (cases x)
  case (Some i)
  with assms(4) obtain j where "j < length ts" "i = t_id (ts ! j)"
    by (auto simp: in_set_conv_nth)
  with Some assms show ?thesis
    by (auto simp: fork_turn_ids_nth inj_on_eq_iff nth_eq_iff_index_eq distinct_map dest: inj_onD)
qed simp

lemma fork_through_turn_Some:
  "fork_through_turn fresh t1 t2 n c title s = Some f \<Longrightarrow> 0 < n \<and> n \<le> length (s_turns s)"
  by (auto simp: fork_through_turn_def split: if_splits)

text \<open>
  C39: a fork through a turn is refused exactly when there is no such turn; otherwise it is a
  well-formed, idle session of its own that holds that many turns under fresh identifiers, with
  nothing streaming and no queued follow-up, resuming from the given provider cursor.
\<close>

theorem fork_through_turn_wf:
  assumes wf: "wf_session s" and fresh: "inj_on fresh {..n + length (s_messages s)}"
  shows "case fork_through_turn fresh t1 t2 n c title s of
      None \<Rightarrow> n = 0 \<or> length (s_turns s) < n
    | Some f \<Rightarrow> 0 < n \<and> n \<le> length (s_turns s) \<and> wf_session f \<and> length (s_turns f) = n \<and>
        s_status f = Idle \<and> s_id f = fresh 0 \<and> turn_ids f = map fresh [1..<n + 1] \<and>
        (\<forall>m\<in>set (s_messages f). \<not> m_streaming m) \<and> s_queued_messages f = [] \<and>
        s_provider_cursor f = Some c"
proof (cases "n = 0 \<or> length (s_turns s) < n")
  case True
  then show ?thesis by (auto simp: fork_through_turn_def)
next
  case False
  define g where "g = truncate_after_turn t1 n s"
  define ids where "ids = fork_turn_ids fresh (s_turns g)"
  have wg: "wf_session g" unfolding g_def by (rule wf_truncate [OF wf])
  then have dt: "distinct (map t_id (s_turns g))" by (simp add: wf_session_def turns_ok_def)
  have gl: "length (s_messages g) \<le> length (s_messages s)"
    by (simp add: g_def truncate_after_turn_def Let_def)
  have len: "length (s_turns g) = n" using False by (simp add: g_def truncate_after_turn_def Let_def)
  obtain f where f: "fork_through_turn fresh t1 t2 n c title s = Some f"
    using False by (simp add: fork_through_turn_def Let_def)
  have ts: "s_turns f = map (\<lambda>t. t\<lparr>t_id := unwrap_or (ids (t_id t)) (t_id t)\<rparr>) (s_turns g)"
    and ms: "s_messages f = map (\<lambda>(i, m). m\<lparr>m_id := fresh (Suc n + i),
        m_turn_id := Option.bind (m_turn_id m) ids, m_streaming := False\<rparr>) (enumerate 0 (s_messages g))"
    and bs: "s_transcript_blocks f =
        map (\<lambda>b. b\<lparr>b_turn_id := Option.bind (b_turn_id b) ids\<rparr>) (s_transcript_blocks g)"
    and rest: "s_status f = Idle" "s_id f = fresh 0" "s_queued_messages f = []"
      "s_provider_cursor f = Some c"
    using f False len
    by (auto simp: fork_through_turn_def Let_def g_def [symmetric] ids_def [symmetric])
  have tids: "turn_ids f = map fresh [1..<n + 1]"
    using fork_turn_ids_turns [OF dt, of fresh] len
    by (simp add: turn_ids_def ts comp_def ids_def map_Suc_upt [symmetric] del: upt_Suc)
  have own: "owned_by (set (turn_ids f)) (Option.bind x ids)"
    if "owned_by (set (turn_ids g)) x" for x
  proof -
    have "(\<lambda>i. fresh (Suc i)) ` {0..<n} = fresh ` Suc ` {0..<n}" by (rule image_image [symmetric])
    also have "\<dots> = fresh ` {1..<n + 1}" by (simp only: image_Suc_atLeastLessThan) simp
    also have "\<dots> = set (turn_ids f)" by (simp add: tids del: upt_Suc)
    finally have "(\<lambda>i. fresh (Suc i)) ` {0..<n} = set (turn_ids f)" .
    then show ?thesis
      using fork_turn_ids_owned [OF dt, of x fresh] that len by (simp add: ids_def turn_ids_def)
  qed
  have "turns_ok (s_turns f)"
  proof -
    have "distinct (turn_ids f)"
      unfolding tids distinct_map by (auto intro: inj_on_subset [OF fresh] simp del: upt_Suc)
    then have "distinct (map t_id (s_turns f))" by (simp add: turn_ids_def)
    moreover have "\<not> is_running t" if "t \<in> set (butlast (s_turns f))" for t
      using that wg by (auto simp: ts map_butlast [symmetric] wf_session_def turns_ok_def is_running_def)
    ultimately show ?thesis by (simp add: turns_ok_def)
  qed
  moreover have "messages_ok (set (turn_ids f)) (s_messages f)"
  proof -
    have "map m_id (s_messages f) = map (\<lambda>i. fresh (Suc n + i)) [0..<length (s_messages g)]"
      by (rule nth_equalityI) (simp_all add: ms nth_enumerate_eq)
    moreover have "distinct (map (\<lambda>i. fresh (Suc n + i)) [0..<length (s_messages g)])"
      unfolding distinct_map
      using gl by (auto intro!: inj_onI dest!: inj_onD [OF fresh])
    ultimately have "distinct (map m_id (s_messages f))" by (simp only:)
    moreover have "owned_by (set (turn_ids f)) (m_turn_id m)" if "m \<in> set (s_messages f)" for m
      using that wg own
      by (auto simp: ms wf_session_def messages_ok_def in_set_enumerate_eq)
    ultimately show ?thesis by (simp add: messages_ok_def)
  qed
  moreover have "blocks_ok (set (turn_ids f)) (length (s_messages f)) (s_transcript_blocks f)"
    using wg own by (auto simp: bs ms wf_session_def blocks_ok_def comp_def)
  ultimately have "wf_session f" by (simp add: wf_session_def)
  moreover have "\<forall>m\<in>set (s_messages f). \<not> m_streaming m" by (auto simp: ms)
  moreover have "length (s_turns f) = n" by (simp add: ts len)
  ultimately show ?thesis using f False rest tids by simp
qed

lemma filter_map_enumerate:
  assumes "\<And>i m. m \<in> set ms \<Longrightarrow> P (h (i, m)) = Q m" and "\<And>i m. c (h (i, m)) = d m"
  shows "map c (filter P (map h (enumerate k ms))) = map d (filter Q ms)"
  using assms(1) by (induction ms arbitrary: k) (auto simp: assms(2))

text \<open>
  A fork keeps the conversation: the messages of its k-th turn are those of the source's k-th
  turn, in order, with their roles and texts.
\<close>

theorem fork_keeps_conversation:
  assumes wf: "wf_session s" and fresh: "inj_on fresh {..n + length (s_messages s)}"
    and f: "fork_through_turn fresh t1 t2 n c title s = Some f" and k: "k < n"
  shows "map (\<lambda>m. (m_role m, m_content m))
      (filter (\<lambda>m. m_turn_id m = Some (t_id (s_turns f ! k))) (s_messages f)) =
    map (\<lambda>m. (m_role m, m_content m))
      (filter (\<lambda>m. m_turn_id m = Some (t_id (s_turns s ! k))) (s_messages s))"
proof -
  define g where "g = truncate_after_turn t1 n s"
  define ids where "ids = fork_turn_ids fresh (s_turns g)"
  have n: "n \<le> length (s_turns s)" using fork_through_turn_Some [OF f] by simp
  then have gt: "s_turns g = take n (s_turns s)" and len: "length (s_turns g) = n"
    by (simp_all add: g_def truncate_after_turn_def Let_def)
  have wg: "wf_session g" unfolding g_def by (rule wf_truncate [OF wf])
  then have dt: "distinct (map t_id (s_turns g))" by (simp add: wf_session_def turns_ok_def)
  have ft: "t_id (s_turns f ! k) = fresh (Suc k)"
    using f k len dt by (auto simp: fork_through_turn_def Let_def g_def [symmetric]
        fork_turn_ids_nth split: if_splits)
  have ms: "s_messages f = map (\<lambda>(i, m). m\<lparr>m_id := fresh (Suc n + i),
        m_turn_id := Option.bind (m_turn_id m) ids, m_streaming := False\<rparr>) (enumerate 0 (s_messages g))"
    using f len by (auto simp: fork_through_turn_def Let_def g_def [symmetric] ids_def [symmetric]
        split: if_splits)
  have "Option.bind (m_turn_id m) ids = Some (fresh (Suc k)) \<longleftrightarrow>
      m_turn_id m = Some (t_id (s_turns s ! k))" if "m \<in> set (s_messages g)" for m
    using fork_turn_ids_eq [OF dt _ _, of fresh k "m_turn_id m"] inj_on_subset [OF fresh] that wg k len
    by (auto simp: ids_def gt wf_session_def messages_ok_def turn_ids_def)
  then have "map (\<lambda>m. (m_role m, m_content m))
      (filter (\<lambda>m. m_turn_id m = Some (t_id (s_turns f ! k))) (s_messages f)) =
    map (\<lambda>m. (m_role m, m_content m))
      (filter (\<lambda>m. m_turn_id m = Some (t_id (s_turns s ! k))) (s_messages g))"
    unfolding ms ft by (intro filter_map_enumerate) auto
  also have "filter (\<lambda>m. m_turn_id m = Some (t_id (s_turns s ! k))) (s_messages g) =
      filter (\<lambda>m. m_turn_id m = Some (t_id (s_turns s ! k))) (s_messages s)"
  proof -
    have "t_id (s_turns s ! k) \<in> set (map t_id (take n (s_turns s)))"
      using k n by (auto simp: in_set_conv_nth intro!: exI [of _ k] image_eqI [of _ _ "s_turns s ! k"])
    then show ?thesis
      by (auto simp: g_def truncate_after_turn_def Let_def intro!: filter_cong)
  qed
  finally show ?thesis .
qed

text \<open>A session with one turn and one message to fork.\<close>

definition demo_fork_source :: agent_session where
  "demo_fork_source = begin_turn 5 6 7 7 (lit ''hi'') (session_new 1 0 2 Codex)"

lemma demo_fork_source_wf: "wf_session demo_fork_source"
  by (simp add: demo_fork_source_def begin_turn_def begin_turn_with_presentation_def session_new_def
    wf_session_def turns_ok_def messages_ok_def blocks_ok_def message_with_presentation_def
    message_new_for_turn_def message_new_def turn_ids_def)

lemma demo_fresh: "inj_on (\<lambda>i. of_nat i + 100 :: uuid) {..1 + length (s_messages demo_fork_source)}"
proof -
  have "{..1 + length (s_messages demo_fork_source)} = {0, 1, 2}"
    by (auto simp: demo_fork_source_def begin_turn_def begin_turn_with_presentation_def session_new_def)
  then show ?thesis by simp
qed

theorem fork_through_turn_wf_witness:
  "\<exists>f. fork_through_turn (\<lambda>i. of_nat i + 100) 8 9 1 (Codex_Cursor (lit ''c'')) (lit ''Fork'') demo_fork_source = Some f \<and>
    wf_session f \<and> turn_ids f = [101]"
  using fork_through_turn_wf [OF demo_fork_source_wf demo_fresh, where ?t1.0 = 8 and ?t2.0 = 9 and
      c = "Codex_Cursor (lit ''c'')" and title = "lit ''Fork''"]
  by (auto simp: demo_fork_source_def begin_turn_def begin_turn_with_presentation_def session_new_def
    split: option.splits)

theorem fork_keeps_conversation_witness:
  "\<exists>f. fork_through_turn (\<lambda>i. of_nat i + 100) 8 9 1 (Codex_Cursor (lit ''c'')) (lit ''Fork'') demo_fork_source = Some f \<and>
    map (\<lambda>m. (m_role m, m_content m))
      (filter (\<lambda>m. m_turn_id m = Some (t_id (s_turns f ! 0))) (s_messages f)) = [(User, lit ''hi'')]"
proof -
  obtain f where f: "fork_through_turn (\<lambda>i. of_nat i + 100) 8 9 1 (Codex_Cursor (lit ''c'')) (lit ''Fork'')
      demo_fork_source = Some f"
    by (simp add: fork_through_turn_def demo_fork_source_def begin_turn_def
      begin_turn_with_presentation_def session_new_def Let_def)
  from fork_keeps_conversation [OF demo_fork_source_wf demo_fresh f, of 0] f show ?thesis
    by (simp add: demo_fork_source_def begin_turn_def begin_turn_with_presentation_def session_new_def
      message_with_presentation_def message_new_for_turn_def message_new_def)
qed

end
