(* ===== verification/Orchestration.thy ===== *)
theory Orchestration
  imports Session Protocol "HOL-Library.AList"
begin

text \<open>
  Agent-driven orchestration (\<open>crates/shidou-core/src/orchestration.rs\<close>): the registry of task
  credentials, the instructions an agent receives, the test that decides which shell commands
  run without the user's permission, the access mode of a child task and the summary a parent
  reads. The path of the bundled executable is a parameter \<open>cli\<close> (\<open>cli_executable_path\<close> asks the
  environment and the file system), a fresh token is an argument of \<open>mint\<close>, and the text of a
  task id is a parameter.
\<close>

section \<open>Task credentials\<close>

definition daemon_address_env :: rstring where "daemon_address_env = lit ''SHIDOU_DAEMON_ADDRESS''"
definition task_token_env :: rstring where "task_token_env = lit ''SHIDOU_TASK_TOKEN''"
definition task_id_env :: rstring where "task_id_env = lit ''SHIDOU_TASK_ID''"
definition cli_path_env :: rstring where "cli_path_env = lit ''SHIDOU_CLI''"
definition cli_command :: rstring where "cli_command = lit ''shidou''"
definition max_active_children :: nat where "max_active_children = 8"

record task_credential =
  tc_address :: rstring
  tc_token :: rstring
  tc_task_id :: uuid
  tc_subtasks_enabled :: bool

text \<open>The hash map of tokens, as an association list with distinct keys.\<close>

type_synonym credential_registry = "(rstring \<times> uuid) list"

definition revoke :: "uuid \<Rightarrow> credential_registry \<Rightarrow> credential_registry" where
  "revoke task_id tokens = filter (\<lambda>(_, bound). bound \<noteq> task_id) tokens"

definition mint ::
    "rstring \<Rightarrow> uuid \<Rightarrow> rstring \<Rightarrow> credential_registry \<Rightarrow> credential_registry \<times> task_credential" where
  "mint token task_id address tokens =
     (AList.update token task_id (filter (\<lambda>(_, bound). bound \<noteq> task_id) tokens),
      \<lparr>tc_address = address, tc_token = token, tc_task_id = task_id, tc_subtasks_enabled = True\<rparr>)"

definition task_for_token :: "rstring \<Rightarrow> credential_registry \<Rightarrow> uuid option" where
  "task_for_token token tokens = map_of tokens token"

definition has_credential :: "uuid \<Rightarrow> credential_registry \<Rightarrow> bool" where
  "has_credential task_id tokens \<longleftrightarrow> list_ex (\<lambda>(_, bound). bound = task_id) tokens"

definition credential_environment ::
    "rstring option \<Rightarrow> (uuid \<Rightarrow> rstring) \<Rightarrow> task_credential \<Rightarrow> (rstring \<times> rstring) list" where
  "credential_environment cli uuid_text credential =
     [(daemon_address_env, tc_address credential), (task_token_env, tc_token credential),
      (task_id_env, uuid_text (tc_task_id credential))] @
     (case cli of None \<Rightarrow> [] | Some path \<Rightarrow> [(cli_path_env, path)])"

section \<open>What the agent is told\<close>

definition agent_instructions ::
    "rstring option \<Rightarrow> (uuid \<Rightarrow> rstring) \<Rightarrow> task_credential \<Rightarrow> bool \<Rightarrow> rstring" where
  "agent_instructions cli uuid_text credential inline_credential =
    (let cli_text = unwrap_or cli cli_command;
         task = uuid_text (tc_task_id credential);
         invocation =
     (if inline_credential then
      lit ''Your shell does not carry the connection details, so prefix every call exactly like '' @
      lit ''this (all on one line, nothing else on the line):'' @ [10] @ lit ''`'' @
      daemon_address_env @ lit ''='' @ tc_address credential @ lit '' '' @ task_token_env @ lit ''='' @
      tc_token credential @ lit '' '' @ task_id_env @ lit ''='' @ task @ lit '' '' @ cli_text @
      lit '' task '' @ [ellipsis] @ lit ''`'' @ [10] @ lit ''Below, `shidou task '' @ [ellipsis] @
      lit ''` stands for that full form.''
      else
      lit ''The `shidou` executable is at `'' @ cli_text @ lit ''` and on PATH.'')
     in if \<not> tc_subtasks_enabled credential then
      lit ''You are running inside a Shidou task (id '' @ task @
      lit ''). Creating child tasks is disabled. You can still manage your existing child '' @
      lit ''tasks. '' @ invocation @ [10] @ lit ''Commands:'' @ [10] @
      lit ''- `shidou task list` lists your existing child tasks.'' @ [10] @
      lit ''- `shidou task read <task-id>` prints the child's status and last message without '' @
      lit ''waiting.'' @ [10] @
      lit ''- `shidou task wait <task-id> [--timeout <seconds>]` waits for the child's current '' @
      lit ''turn to settle and prints its final message.'' @ [10] @
      lit ''- `shidou task send <task-id> '' @ [34] @ lit ''<prompt>'' @ [34] @
      lit '' [--wait]` sends a follow-up to an existing child.'' @ [10] @
      lit ''Run each call as a single plain command: no `&&`, `;`, pipes, or redirection on the '' @
      lit ''same line, or it will need the user's approval. If a child is waiting for user '' @
      lit ''input or permission, tell the user rather than polling forever.''
     else
      lit ''You are running inside a Shidou task (id '' @ task @
      lit ''). Shidou can run other coding-agent tasks for you in the same project; they appear '' @
      lit ''in the user's sidebar under this task. Use this only for work that is genuinely '' @
      lit ''separable and worth a fresh context. '' @ invocation @ [10] @ lit ''Commands:'' @ [10] @
      lit ''- `shidou task new '' @ [34] @ lit ''<prompt>'' @ [34] @
      lit '' [--provider <name>] [--model <id>] [--effort <level>] [--mode <mode>] [--plan] '' @
      lit ''[--title '' @ [34] @ lit ''<title>'' @ [34] @
      lit ''] [--wait]` creates a child task, sends the prompt, prints the task id. `--wait` '' @
      lit ''blocks until the turn settles and prints the child's final message. Without '' @
      lit ''`--model` the child uses your provider and model.'' @ [10] @
      lit ''- `shidou task models [--provider <name>]` lists the model ids and effort levels a '' @
      lit ''provider offers. Run it before choosing `--model` or `--effort`; the daemon rejects '' @
      lit ''ids it does not know.'' @ [10] @ lit ''- `shidou task send <task-id> '' @ [34] @
      lit ''<prompt>'' @ [34] @ lit '' [--wait]` sends a follow-up to a child.'' @ [10] @
      lit ''- `shidou task wait <task-id> [--timeout <seconds>]` blocks until the child's '' @
      lit ''current turn settles, then prints its final message.'' @ [10] @
      lit ''- `shidou task read <task-id>` prints the child's status and last message without '' @
      lit ''waiting.'' @ [10] @ lit ''- `shidou task list` lists your child tasks.'' @ [10] @
      lit ''Run each call as a single plain command: no `&&`, `;`, pipes, or redirection on the '' @
      lit ''same line, or it will need the user's approval. Children start with your permission '' @
      lit ''level or lower, never higher. A child can stop to ask the user for permission; '' @
      lit ''`wait` returns then with status `waiting`, so tell the user rather than polling '' @
      lit ''forever. Children do not see this conversation: put everything they need in the '' @
      lit ''prompt. Child tasks cannot create tasks of their own, and you may have at most '' @
      dec max_active_children @ lit '' unfinished children at once.'')"

definition feature_state_prompt :: "rstring \<Rightarrow> bool \<Rightarrow> bool \<Rightarrow> bool \<Rightarrow> rstring" where
  "feature_state_prompt prompt subtasks_enabled computer_use_enabled has_task_credential =
    (if starts_with (lit ''/'') (trim_start prompt) then prompt else
     let subtasks =
     (if subtasks_enabled \<and> has_task_credential then
      lit ''Subtasks are enabled. You may create children with `shidou task new '' @ [34] @
      lit ''<prompt>'' @ [34] @
      lit ''` using this runtime's Shidou CLI connection instructions, or manage existing '' @
      lit ''children. Delegate only genuinely separable work. At most 8 unfinished children are '' @
      lit ''allowed.''
      else if subtasks_enabled then
      lit ''Subtasks are enabled, but this runtime has no Task Credential. Do not use '' @
      lit ''credentials from earlier runtime starts. Parent tasks need their runtime to start '' @
      lit ''again to obtain access; child tasks cannot create children. Continue the work '' @
      lit ''directly.''
      else
      lit ''Subtasks are disabled. Do not create or delegate to new child tasks, even if '' @
      lit ''earlier instructions advertise that capability. Continue the work directly. You may '' @
      lit ''still list, read, wait for, and send follow-ups to existing children using your '' @
      lit ''Task Credential.'');
       computer_use =
     (if computer_use_enabled then
      lit ''Computer Use is enabled. Use only the tools actually installed in this runtime; '' @
      lit ''enabling this setting does not install missing tools until the runtime next starts.''
      else
      lit ''Computer Use is disabled. Do not call Shidou Computer Use tools, even if earlier '' @
      lit ''instructions advertise them. Continue without computer interaction.'')
     in
      lit ''<shidou-feature-state>'' @ [10] @
      lit ''Current Shidou settings (supersede earlier feature availability instructions):'' @ [10] @
      subtasks @ [10] @ computer_use @ [10] @ lit ''</shidou-feature-state>'' @ [10] @ [10] @ prompt)"

text \<open>The preamble is taken by the first prompt; the state is what is still pending.\<close>

definition first_prompt_preamble_new ::
    "rstring option \<Rightarrow> (uuid \<Rightarrow> rstring) \<Rightarrow> task_credential option \<Rightarrow> bool \<Rightarrow> rstring option" where
  "first_prompt_preamble_new cli uuid_text credential inline_credential =
     map_option (\<lambda>c. agent_instructions cli uuid_text c inline_credential) credential"

definition first_prompt_preamble_apply ::
    "rstring \<Rightarrow> rstring option \<Rightarrow> rstring \<times> rstring option" where
  "first_prompt_preamble_apply prompt pending =
     ((case pending of Some instructions \<Rightarrow>
      lit ''<shidou-orchestration>'' @ [10] @ instructions @ [10] @ lit ''</shidou-orchestration>'' @
      [10] @ [10] @ prompt
       | None \<Rightarrow> prompt), None)"

section \<open>Which shell commands are the CLI\<close>

definition is_credential_assignment :: "rstring \<Rightarrow> bool" where
  "is_credential_assignment word = (case split_once_char 61 word of
     None \<Rightarrow> False
   | Some (name, val) \<Rightarrow>
       starts_with (lit ''SHIDOU_'') name \<and>
       list_all (\<lambda>c. is_ascii_uppercase c \<or> c = 95) name \<and>
       val \<noteq> [] \<and> \<not> list_ex (\<lambda>c. c = 96 \<or> c = 36 \<or> c = 34 \<or> c = 39) val)"

lemma is_credential_assignment_nonempty: "is_credential_assignment w \<Longrightarrow> w \<noteq> []"
  by (auto simp: is_credential_assignment_def split_once_char_def)

definition first_word :: "rstring \<Rightarrow> rstring" where
  "first_word s = takeWhile (\<lambda>c. \<not> is_whitespace c) s"

definition after_word :: "rstring \<Rightarrow> rstring" where
  "after_word s = dropWhile (\<lambda>c. \<not> is_whitespace c) s"

function strip_credential_assignments :: "rstring \<Rightarrow> rstring" where
  "strip_credential_assignments s =
     (if \<not> is_credential_assignment (first_word s) then s
      else strip_credential_assignments (trim_start (after_word s)))"
  by pat_completeness auto

lemma trim_start_shorter: "length (trim_start s) \<le> length s"
  by (simp add: trim_start_def length_dropWhile_le)

lemma after_word_shorter: "first_word s \<noteq> [] \<Longrightarrow> length (after_word s) < length s"
  unfolding first_word_def after_word_def
  by (metis length_append length_greater_0_conv less_add_same_cancel2 takeWhile_dropWhile_id)

termination strip_credential_assignments
  by (relation "measure length")
    (auto dest!: is_credential_assignment_nonempty after_word_shorter
      intro: le_less_trans [OF trim_start_shorter])

declare strip_credential_assignments.simps [simp del]

fun simple_command_scan :: "bool \<Rightarrow> bool \<Rightarrow> bool \<Rightarrow> rstring \<Rightarrow> bool" where
  "simple_command_scan in_single in_double escaped [] \<longleftrightarrow>
     \<not> in_single \<and> \<not> in_double \<and> \<not> escaped"
| "simple_command_scan in_single in_double escaped (c # cs) =
     (if escaped then simple_command_scan in_single in_double False cs
      else if c = 92 \<and> \<not> in_single then simple_command_scan in_single in_double True cs
      else if c = 39 \<and> \<not> in_double then simple_command_scan (\<not> in_single) in_double False cs
      else if c = 34 \<and> \<not> in_single then simple_command_scan in_single (\<not> in_double) False cs
      else if (c = 36 \<or> c = 96) \<and> \<not> in_single then False
      else if (c \<in> set [59, 124, 38, 60, 62, 40, 41, 10, 13]) \<and> \<not> in_single \<and> \<not> in_double then False
      else simple_command_scan in_single in_double False cs)"

definition is_single_simple_command :: "rstring \<Rightarrow> bool" where
  "is_single_simple_command command = simple_command_scan False False False command"

definition is_cli_invocation :: "rstring option \<Rightarrow> rstring \<Rightarrow> bool" where
  "is_cli_invocation cli command =
    (let trimmed = strip_credential_assignments (trim command);
         starts_with_cli = (starts_with (cli_command @ lit '' task '') trimmed \<or>
           (case cli of None \<Rightarrow> False
            | Some path \<Rightarrow> list_ex (\<lambda>candidate. starts_with candidate trimmed)
                [path @ lit '' task '', [34] @ path @ [34] @ lit '' task '',
                 [39] @ path @ [39] @ lit '' task '']))
     in starts_with_cli \<and> is_single_simple_command trimmed)"

fun is_cli_invocation_value :: "rstring option \<Rightarrow> json \<Rightarrow> bool" where
  "is_cli_invocation_value cli (JString line) = is_cli_invocation cli line"
| "is_cli_invocation_value cli (JArray ws) =
     (case dropWhile is_credential_assignment (List.map_filter as_str ws) of
        [] \<Rightarrow> False
      | program # rest \<Rightarrow>
          (program = cli_command \<or> cli = Some program) \<and> first_opt rest = Some (lit ''task''))"
| "is_cli_invocation_value cli _ = False"

section \<open>Child tasks\<close>

fun permissiveness :: "runtime_mode \<Rightarrow> nat" where
  "permissiveness Mode_Plan = 0"
| "permissiveness Ask = 0"
| "permissiveness AutoAcceptEdits = 1"
| "permissiveness Auto = 2"
| "permissiveness FullAccess = 3"

definition child_runtime_mode :: "runtime_mode \<Rightarrow> runtime_mode option \<Rightarrow> runtime_mode" where
  "child_runtime_mode parent requested =
    (let parent = (if parent = Mode_Plan then Ask else parent) in
     case requested of
       Some requested \<Rightarrow>
         (if permissiveness requested < permissiveness parent then
            (if requested = Mode_Plan then Ask else requested)
          else parent)
     | None \<Rightarrow> parent)"

definition task_summary_of :: "agent_session \<Rightarrow> task_summary" where
  "task_summary_of session =
    (let last_turn = last_opt (s_turns session);
         last_assistant_message = opt_filter (\<lambda>content. content \<noteq> [])
           (map_option (\<lambda>m. trim (m_content m))
             (find (\<lambda>m. m_role m = Assistant \<and> \<not> m_streaming m)
               (filter (\<lambda>m. case last_turn of None \<Rightarrow> True | Some t \<Rightarrow> m_turn_id m = Some (t_id t))
                 (rev (s_messages session)))))
     in \<lparr>ts_id = s_id session, ts_title = display_title session, ts_provider = s_provider session,
         ts_status = s_status session, ts_parent_task_id = s_parent_task_id session,
         ts_turn_count = length (s_turns session),
         ts_last_turn_finished = (case last_turn of None \<Rightarrow> True | Some t \<Rightarrow> t_status t \<noteq> Running),
         ts_last_assistant_message = last_assistant_message\<rparr>)"

section \<open>The shell grammar a simple command follows\<close>

text \<open>
  The reference for \<open>is_single_simple_command\<close>: the POSIX quoting rules as a grammar. Inside
  double quotes any character but a double quote, a dollar sign and a backquote stands for
  itself and a backslash takes the next one with it; outside quotes the operators and the line
  ends are excluded too.
\<close>

definition expands :: "rchar \<Rightarrow> bool" where
  "expands c \<longleftrightarrow> c = 36 \<or> c = 96"

definition shell_operator :: "rchar \<Rightarrow> bool" where
  "shell_operator c \<longleftrightarrow> c \<in> set [59, 124, 38, 60, 62, 40, 41, 10, 13]"

inductive double_quoted :: "rstring \<Rightarrow> bool" where
  dq_end: "double_quoted []"
| dq_plain: "c \<noteq> 92 \<Longrightarrow> c \<noteq> 34 \<Longrightarrow> \<not> expands c \<Longrightarrow> double_quoted q \<Longrightarrow> double_quoted (c # q)"
| dq_escape: "double_quoted q \<Longrightarrow> double_quoted (92 # c # q)"

inductive simple_command :: "rstring \<Rightarrow> bool" where
  sc_end: "simple_command []"
| sc_plain: "c \<noteq> 92 \<Longrightarrow> c \<noteq> 34 \<Longrightarrow> c \<noteq> 39 \<Longrightarrow> \<not> expands c \<Longrightarrow> \<not> shell_operator c \<Longrightarrow>
    simple_command s \<Longrightarrow> simple_command (c # s)"
| sc_escape: "simple_command s \<Longrightarrow> simple_command (92 # c # s)"
| sc_single: "39 \<notin> set q \<Longrightarrow> simple_command s \<Longrightarrow> simple_command (39 # q @ 39 # s)"
| sc_double: "double_quoted q \<Longrightarrow> simple_command s \<Longrightarrow> simple_command (34 # q @ 34 # s)"

inductive_cases double_quotedE: "double_quoted (c # q)"
inductive_cases simple_commandE: "simple_command (c # s)"

lemma scan_single: "39 \<notin> set q \<Longrightarrow>
    simple_command_scan True False False (q @ 39 # s) = simple_command_scan False False False s"
  by (induction q) auto

lemma scan_double: "double_quoted q \<Longrightarrow>
    simple_command_scan False True False (q @ 34 # s) = simple_command_scan False False False s"
  by (induction rule: double_quoted.induct) (auto simp: expands_def)

lemma simple_command_scans: "simple_command s \<Longrightarrow> simple_command_scan False False False s"
  by (induction rule: simple_command.induct)
    (auto simp: expands_def shell_operator_def scan_single scan_double)

lemma scan_single_split: "simple_command_scan True False False s \<Longrightarrow>
    \<exists>q r. s = q @ 39 # r \<and> 39 \<notin> set q \<and> simple_command_scan False False False r"
proof (induction s)
  case (Cons c s)
  show ?case
  proof (cases "c = 39")
    case True
    with Cons.prems show ?thesis by (intro exI [of _ "[]"] exI [of _ s]) simp
  next
    case False
    with Cons obtain q r where "s = q @ 39 # r" "39 \<notin> set q" "simple_command_scan False False False r"
      by auto
    with False show ?thesis by (intro exI [of _ "c # q"] exI [of _ r]) simp
  qed
qed simp

lemma scan_double_split: "simple_command_scan False True e s \<Longrightarrow>
    \<exists>q r. s = q @ 34 # r \<and> double_quoted (if e then 92 # q else q) \<and>
      simple_command_scan False False False r"
proof (induction s arbitrary: e)
  case (Cons c s)
  note step = Cons.IH
  show ?case
  proof (cases e)
    case True
    with Cons.prems have "simple_command_scan False True False s" by simp
    from step [OF this] obtain q r where "s = q @ 34 # r" "double_quoted q"
        "simple_command_scan False False False r" by auto
    with True show ?thesis by (intro exI [of _ "c # q"] exI [of _ r]) (simp add: dq_escape)
  next
    case e: False
    consider "c = 92" | "c = 34" | "c \<noteq> 92" "c \<noteq> 34" by blast
    then show ?thesis
    proof cases
      case 1
      with Cons.prems e have "simple_command_scan False True True s" by simp
      from step [OF this] 1 e show ?thesis
        by (clarsimp simp: Cons_eq_append_conv) metis
    next
      case 2
      with Cons.prems e show ?thesis
        by (intro exI [of _ "[]"] exI [of _ s]) (simp add: dq_end)
    next
      case 3
      with Cons.prems e have "simple_command_scan False True False s" and x: "\<not> expands c"
        by (auto simp: expands_def split: if_splits)
      from step [OF this(1)] obtain q r where "s = q @ 34 # r" "double_quoted q"
          "simple_command_scan False False False r" by auto
      with e 3 x show ?thesis by (intro exI [of _ "c # q"] exI [of _ r]) (simp add: dq_plain)
    qed
  qed
qed simp

lemma scans_simple_command: "simple_command_scan False False False s \<Longrightarrow> simple_command s"
proof (induction "length s" arbitrary: s rule: less_induct)
  case less
  show ?case
  proof (cases s)
    case Nil
    then show ?thesis by (simp add: sc_end)
  next
    case (Cons c cs)
    note scan = less.prems [unfolded Cons]
    consider "c = 92" | "c = 39" | "c = 34" | "c \<noteq> 92" "c \<noteq> 39" "c \<noteq> 34" by blast
    then show ?thesis
    proof cases
      case 1
      with scan obtain d ds where "cs = d # ds" "simple_command_scan False False False ds"
        by (cases cs) auto
      with less.hyps [of ds] Cons 1 show ?thesis by (simp add: sc_escape)
    next
      case 2
      with scan have "simple_command_scan True False False cs" by simp
      from scan_single_split [OF this] obtain q r where "cs = q @ 39 # r" "39 \<notin> set q"
          "simple_command_scan False False False r" by blast
      with less.hyps [of r] Cons 2 show ?thesis by (simp add: sc_single)
    next
      case 3
      with scan have "simple_command_scan False True False cs" by simp
      from scan_double_split [OF this] obtain q r where "cs = q @ 34 # r" "double_quoted q"
          "simple_command_scan False False False r" by auto
      with less.hyps [of r] Cons 3 show ?thesis by (simp add: sc_double)
    next
      case 4
      with scan have "simple_command_scan False False False cs" "\<not> expands c" "\<not> shell_operator c"
        by (auto simp: expands_def shell_operator_def split: if_splits)
      with less.hyps [of cs] Cons 4 show ?thesis by (simp add: sc_plain)
    qed
  qed
qed

lemma single_simple_command_iff: "is_single_simple_command s \<longleftrightarrow> simple_command s"
  unfolding is_single_simple_command_def
  by (auto intro: scans_simple_command simple_command_scans)

text \<open>
  C33: the three-flag scanner that decides whether an agent's shell line is one simple command
  accepts exactly the lines of the quoting grammar: words of plain characters, escapes, single
  and double quoted parts, every quote closed, no operator, line end or substitution active.
\<close>

theorem single_command_grammar: "is_single_simple_command s \<longleftrightarrow> simple_command s"
  by (rule single_simple_command_iff)

section \<open>Credential assignments\<close>

text \<open>The assignments in front of a command, each with the white space behind it.\<close>

inductive assignment_prefix :: "rstring \<Rightarrow> bool" where
  ap_end: "assignment_prefix []"
| ap_word: "is_credential_assignment w \<Longrightarrow> list_all (\<lambda>c. \<not> is_whitespace c) w \<Longrightarrow>
    list_all is_whitespace blank \<Longrightarrow> assignment_prefix rest \<Longrightarrow>
    assignment_prefix (w @ blank @ rest)"

lemma first_word_no_space: "list_all (\<lambda>c. \<not> is_whitespace c) (first_word s)"
  unfolding first_word_def by (auto simp: list_all_iff dest: set_takeWhileD)

lemma word_blank_rest:
  "\<exists>blank. list_all is_whitespace blank \<and> s = first_word s @ blank @ trim_start (after_word s)"
proof -
  have "after_word s = takeWhile is_whitespace (after_word s) @ trim_start (after_word s)"
    by (simp add: trim_start_def)
  moreover have "s = first_word s @ after_word s"
    by (simp add: first_word_def after_word_def)
  moreover have "list_all is_whitespace (takeWhile is_whitespace (after_word s))"
    by (auto simp: list_all_iff dest: set_takeWhileD)
  ultimately show ?thesis by metis
qed

lemma strip_splits: "\<exists>pre. assignment_prefix pre \<and> s = pre @ strip_credential_assignments s"
proof (induction s rule: strip_credential_assignments.induct)
  case (1 s)
  show ?case
  proof (cases "is_credential_assignment (first_word s)")
    case False
    then show ?thesis
      by (subst strip_credential_assignments.simps) (auto intro: ap_end)
  next
    case True
    let ?t = "trim_start (after_word s)"
    obtain blank where b: "list_all is_whitespace blank" "s = first_word s @ blank @ ?t"
      using word_blank_rest by blast
    from 1 True obtain pre where p: "assignment_prefix pre" "?t = pre @ strip_credential_assignments ?t"
      by blast
    have e: "strip_credential_assignments s = strip_credential_assignments ?t"
      using True by (subst strip_credential_assignments.simps) simp
    have "assignment_prefix (first_word s @ blank @ pre)"
      using True first_word_no_space b(1) p(1) by (rule ap_word)
    moreover have "s = (first_word s @ blank @ pre) @ strip_credential_assignments s"
      using b(2) p(2) e by (metis append.assoc)
    ultimately show ?thesis by blast
  qed
qed

lemma strip_stops: "\<not> is_credential_assignment (first_word (strip_credential_assignments s))"
  by (induction s rule: strip_credential_assignments.induct)
    (subst strip_credential_assignments.simps, simp)

text \<open>Evaluation on literal lines.\<close>

lemmas cli_evaluation = lit_def trim_def trim_end_def trim_start_def is_whitespace_def cli_command_def
  strip_credential_assignments.simps first_word_def after_word_def is_credential_assignment_def
  split_once_char_def starts_with_def is_ascii_uppercase_def is_single_simple_command_def

text \<open>
  C30: a line that runs without the user's permission consists of credential assignments and one
  simple command that starts with the CLI's name or its path, bare or quoted, and the word task;
  the command itself has no active operator, no open quote and no substitution.
\<close>

theorem cli_invocation_is_cli:
  assumes "is_cli_invocation cli s"
  shows "\<exists>assignments program args. trim s = assignments @ program @ lit '' task '' @ args \<and>
    assignment_prefix assignments \<and> simple_command (program @ lit '' task '' @ args) \<and>
    (program = cli_command \<or>
      (\<exists>path. cli = Some path \<and> program \<in> {path, [34] @ path @ [34], [39] @ path @ [39]}))"
proof -
  let ?t = "strip_credential_assignments (trim s)"
  obtain pre where pre: "assignment_prefix pre" "trim s = pre @ ?t"
    using strip_splits by blast
  have sc: "simple_command ?t"
    using assms by (simp add: is_cli_invocation_def Let_def single_simple_command_iff)
  have "\<exists>program. (program = cli_command \<or>
      (\<exists>path. cli = Some path \<and> program \<in> {path, [34] @ path @ [34], [39] @ path @ [39]})) \<and>
      starts_with (program @ lit '' task '') ?t"
  proof (cases "starts_with (cli_command @ lit '' task '') ?t")
    case False
    with assms obtain path where "cli = Some path"
        and "list_ex (\<lambda>candidate. starts_with candidate ?t)
          [path @ lit '' task '', [34] @ path @ [34] @ lit '' task '',
           [39] @ path @ [39] @ lit '' task '']"
      by (auto simp: is_cli_invocation_def Let_def split: option.splits)
    moreover from this(2) have "\<exists>program\<in>{path, [34] @ path @ [34], [39] @ path @ [39]}.
        starts_with (program @ lit '' task '') ?t"
      by auto
    ultimately show ?thesis by blast
  qed blast
  then obtain program args where p: "program = cli_command \<or>
      (\<exists>path. cli = Some path \<and> program \<in> {path, [34] @ path @ [34], [39] @ path @ [39]})"
      and t: "?t = program @ lit '' task '' @ args"
    by (auto simp: starts_with_iff)
  show ?thesis
    using pre sc p unfolding t by blast
qed

theorem cli_invocation_is_cli_witness:
  "is_cli_invocation None (lit ''SHIDOU_TASK_ID=x shidou task list'') \<and>
   (\<exists>assignments args. lit ''SHIDOU_TASK_ID=x shidou task list'' =
      assignments @ cli_command @ lit '' task '' @ args \<and> assignment_prefix assignments)"
proof -
  let ?s = "lit ''SHIDOU_TASK_ID=x shidou task list''"
  have ok: "is_cli_invocation None ?s"
    by (simp add: is_cli_invocation_def Let_def cli_evaluation)
  have "trim ?s = ?s" by (simp add: cli_evaluation)
  with ok cli_invocation_is_cli [OF ok] show ?thesis by auto
qed


section \<open>Access modes\<close>

text \<open>
  A child runs with the lower of the parent's access and what was asked for, and never in
  the legacy plan mode.
\<close>

theorem child_mode_capped:
  "permissiveness (child_runtime_mode parent requested) =
     (case requested of None \<Rightarrow> permissiveness parent
      | Some mode \<Rightarrow> min (permissiveness parent) (permissiveness mode)) \<and>
   child_runtime_mode parent requested \<noteq> Mode_Plan"
  by (cases parent; cases requested) (auto simp: child_runtime_mode_def)

section \<open>The life of a credential\<close>

datatype credential_event = Minted rstring uuid | Revoked uuid

fun credential_step :: "credential_registry \<Rightarrow> credential_event \<Rightarrow> credential_registry" where
  "credential_step tokens (Minted token task_id) = fst (mint token task_id [] tokens)"
| "credential_step tokens (Revoked task_id) = revoke task_id tokens"

fun ends_credential :: "uuid \<Rightarrow> credential_event \<Rightarrow> bool" where
  "ends_credential task_id (Minted _ t) \<longleftrightarrow> t = task_id"
| "ends_credential task_id (Revoked t) \<longleftrightarrow> t = task_id"

fun minted_token :: "credential_event \<Rightarrow> rstring option" where
  "minted_token (Minted token _) = Some token"
| "minted_token (Revoked _) = None"

definition live_credential :: "credential_event list \<Rightarrow> rstring \<Rightarrow> uuid \<Rightarrow> bool" where
  "live_credential es token task_id \<longleftrightarrow>
     (\<exists>pre post. es = pre @ Minted token task_id # post \<and>
        list_all (\<lambda>e. \<not> ends_credential task_id e) post)"

lemma live_credential_Nil: "\<not> live_credential [] token task_id"
  by (simp add: live_credential_def)

lemma live_credential_snoc: "live_credential (es @ [e]) token task_id \<longleftrightarrow>
    e = Minted token task_id \<or> \<not> ends_credential task_id e \<and> live_credential es token task_id"
proof
  assume "live_credential (es @ [e]) token task_id"
  then obtain pre post where s: "es @ [e] = pre @ Minted token task_id # post"
      and l: "list_all (\<lambda>e. \<not> ends_credential task_id e) post"
    unfolding live_credential_def by blast
  show "e = Minted token task_id \<or> \<not> ends_credential task_id e \<and> live_credential es token task_id"
  proof (cases post rule: rev_cases)
    case Nil
    with s show ?thesis by simp
  next
    case (snoc post' x)
    with s l show ?thesis unfolding live_credential_def by auto
  qed
next
  assume "e = Minted token task_id \<or> \<not> ends_credential task_id e \<and> live_credential es token task_id"
  then show "live_credential (es @ [e]) token task_id"
    unfolding live_credential_def by fastforce
qed

lemma live_credential_minted:
  "live_credential es token task_id \<Longrightarrow> token \<in> set (List.map_filter minted_token es)"
  by (force simp: live_credential_def map_filter_def)

lemma map_of_filter_bound: "distinct (map fst xs) \<Longrightarrow>
    map_of (filter (\<lambda>(_, b). b \<noteq> t) xs) k = Some v \<longleftrightarrow> map_of xs k = Some v \<and> v \<noteq> t"
  by (induction xs) (auto simp: map_of_eq_None_iff image_iff dest!: map_of_SomeD)

lemma distinct_fst_filter: "distinct (map fst xs) \<Longrightarrow> distinct (map fst (filter P xs))"
  by (induction xs) auto

lemma credential_step_distinct:
  "distinct (map fst tokens) \<Longrightarrow> distinct (map fst (credential_step tokens e))"
  by (cases e) (simp_all add: mint_def revoke_def distinct_fst_filter distinct_update)

lemma credential_run_distinct: "distinct (map fst (foldl credential_step [] es))"
  by (induction es rule: rev_induct) (simp_all add: credential_step_distinct)

text \<open>
  A token opens a task exactly while its runtime holds it: if it was minted for that task
  and the task's credential has been neither minted again nor revoked since. Tokens are fresh
  random values, so no two mints give the same one.
\<close>

theorem credential_lifetime:
  assumes "distinct (List.map_filter minted_token es)"
  shows "task_for_token token (foldl credential_step [] es) = Some task_id \<longleftrightarrow>
    live_credential es token task_id"
  using assms
proof (induction es rule: rev_induct)
  case Nil
  then show ?case by (simp add: task_for_token_def live_credential_Nil)
next
  case (snoc e es)
  let ?r = "foldl credential_step [] es"
  have ih: "map_of ?r token = Some task_id \<longleftrightarrow> live_credential es token task_id"
    using snoc by (simp add: task_for_token_def map_filter_def)
  show ?case
  proof (cases e)
    case (Minted token' t)
    have new: "live_credential es token task_id \<Longrightarrow> token \<noteq> token'"
      using snoc.prems Minted live_credential_minted [of es token task_id]
      by (auto simp: map_filter_def)
    show ?thesis
      using Minted new ih credential_run_distinct [of es]
      by (auto simp: live_credential_snoc task_for_token_def mint_def update_conv'
        map_of_filter_bound)
  next
    case (Revoked t)
    then show ?thesis
      using ih credential_run_distinct [of es]
      by (auto simp: live_credential_snoc task_for_token_def revoke_def map_of_filter_bound)
  qed
qed

theorem credential_lifetime_witness:
  "\<not> live_credential [Minted [1] 7, Minted [2] 7, Minted [3] 8] [1] 7 \<and>
   live_credential [Minted [1] 7, Minted [2] 7, Minted [3] 8] [2] 7"
proof -
  let ?es = "[Minted [1] 7, Minted [2] 7, Minted [3] 8]"
  have d: "distinct (List.map_filter minted_token ?es)" by (simp add: map_filter_def)
  have "task_for_token [1] (foldl credential_step [] ?es) = None"
    and "task_for_token [2] (foldl credential_step [] ?es) = Some 7"
    by (simp_all add: task_for_token_def mint_def)
  with credential_lifetime [OF d, of "[1]" 7] credential_lifetime [OF d, of "[2]" 7]
  show ?thesis by simp
qed

lemma has_credential_iff:
  "distinct (map fst tokens) \<Longrightarrow>
   has_credential task_id tokens \<longleftrightarrow> (\<exists>token. task_for_token token tokens = Some task_id)"
  by (force simp: has_credential_def task_for_token_def list_ex_iff map_of_eq_Some_iff)

section \<open>Prompts and summaries\<close>

lemma first_prompt_preamble_once:
  "first_prompt_preamble_apply prompt' (snd (first_prompt_preamble_apply prompt pending)) =
   (prompt', None)"
  by (simp add: first_prompt_preamble_apply_def)

lemma feature_state_prompt_suffix:
  "\<exists>reminder. feature_state_prompt prompt subtasks computer credential = reminder @ prompt"
  unfolding feature_state_prompt_def Let_def
  by (cases "starts_with (lit ''/'') (trim_start prompt)") (simp, metis append.assoc)

lemma task_summary_message_nonempty:
  "ts_last_assistant_message (task_summary_of s) \<noteq> Some []"
  by (auto simp: task_summary_of_def Let_def opt_filter_def split: option.splits)

end
