(* ===== verification/Task_Store.thy ===== *)
theory Task_Store
  imports Session
begin

unbundle bit_operations_syntax

text \<open>
  The daemon's task store (\<open>crates/shidou-core/src/persistence.rs\<close>): what \<open>StateStore::save\<close>
  writes to the SQLite tables, what \<open>load\<close> and \<open>hydrate\<close> read back, and the fingerprints that let
  a save skip rows it has already written. A table is the list of its rows; a statement of the
  source is the function on tables SQL gives it. A column that holds the text of an id or an
  enum holds the value here, and the JSON column of the session details the value the JSON
  encodes. Any statement of a transaction can fail: \<open>sv_budget\<close> is the number of statements that
  succeed before one does, the commit counted as a statement. The store is the daemon's, which
  has no desktop files.
\<close>

section \<open>Fingerprints\<close>

text \<open>The bytes of a string in UTF-8.\<close>

definition utf8_char :: "rchar \<Rightarrow> 8 word list" where
  "utf8_char c =
     (if c < 0x80 then [of_nat c]
      else if c < 0x800 then [of_nat (0xC0 + c div 64), of_nat (0x80 + c mod 64)]
      else if c < 0x10000 then
        [of_nat (0xE0 + c div 4096), of_nat (0x80 + c div 64 mod 64), of_nat (0x80 + c mod 64)]
      else [of_nat (0xF0 + c div 262144), of_nat (0x80 + c div 4096 mod 64),
        of_nat (0x80 + c div 64 mod 64), of_nat (0x80 + c mod 64)])"

definition utf8 :: "rstring \<Rightarrow> 8 word list" where
  "utf8 s = concat (map utf8_char s)"

definition fnv_offset :: u64 where "fnv_offset = 0xcbf29ce484222325"
definition fnv_prime :: u64 where "fnv_prime = 0x00000100000001b3"

definition fingerprint :: "8 word list \<Rightarrow> u64" where
  "fingerprint bytes = foldl (\<lambda>hash byte. (hash XOR ucast byte) * fnv_prime) fnv_offset bytes"

definition fold_hash :: "u64 \<Rightarrow> u64 \<Rightarrow> u64" where
  "fold_hash hash value = word_rotl 23 ((hash XOR value) * fnv_prime)"

text \<open>Eight bytes as a little-endian word, and a text cut into such words with a zero-padded tail.\<close>

fun le_word :: "8 word list \<Rightarrow> u64" where
  "le_word [] = 0"
| "le_word (b # bs) = ucast b + 256 * le_word bs"

function body_words :: "8 word list \<Rightarrow> u64 list" where
  "body_words bytes =
     (if length bytes < 8 then [le_word (bytes @ replicate (8 - length bytes) 0)]
      else le_word (take 8 bytes) # body_words (drop 8 bytes))"
  by pat_completeness auto

termination body_words
  by (relation "measure length") auto

declare body_words.simps [simp del]

fun role_tag :: "message_role \<Rightarrow> rstring" where
  "role_tag User = lit ''user''"
| "role_tag Assistant = lit ''assistant''"
| "role_tag System = lit ''system''"

definition bool_word :: "bool \<Rightarrow> u64" where
  "bool_word b = (if b then 1 else 0)"

definition uuid_words :: "uuid \<Rightarrow> u64 list" where
  "uuid_words u = [ucast (drop_bit 64 u), ucast u]"

definition attachment_words :: "message_attachment \<Rightarrow> u64 list" where
  "attachment_words a =
     [fingerprint (utf8 (ma_path a)), fingerprint (utf8 (ma_mention a)),
      fingerprint (utf8 (ma_name a)), bool_word (ma_is_dir a), bool_word (ma_is_image a)] @
     (case ma_blob_reference a of Some reference \<Rightarrow> [1, fingerprint (utf8 reference)] | None \<Rightarrow> [0])"

definition message_fingerprint :: "message \<Rightarrow> nat \<Rightarrow> u64" where
  "message_fingerprint m pos =
     foldl fold_hash fnv_offset
       ([of_nat pos, m_created_at m, bool_word (m_streaming m),
         fingerprint (utf8 (role_tag (m_role m)))] @
        uuid_words (m_id m) @
        (case m_turn_id m of Some turn_id \<Rightarrow> uuid_words turn_id | None \<Rightarrow> [- 1]) @
        body_words (utf8 (m_content m)) @
        [of_nat (length (utf8 (m_content m)))] @
        (case m_display_content m of Some d \<Rightarrow> [1, fingerprint (utf8 d)] | None \<Rightarrow> [0]) @
        [of_nat (length (m_attachments m))] @
        concat (map attachment_words (m_attachments m)))"

section \<open>Tables\<close>

record session_row =
  sr_id :: uuid
  sr_project_id :: uuid
  sr_title :: rstring
  sr_auto_title :: "rstring option"
  sr_provider :: provider_kind
  sr_model :: "rstring option"
  sr_status :: session_status
  sr_created_at :: u64
  sr_updated_at :: u64
  sr_last_reply_at :: "u64 option"
  sr_archived_at :: "u64 option"
  sr_parent_task_id :: "uuid option"

record message_row =
  mr_session_id :: uuid
  mr_position :: nat
  mr_message :: message

record database =
  db_projects :: "(nat \<times> project) list"
  db_sessions :: "session_row list"
  db_details :: "(uuid \<times> agent_session) list"
  db_messages :: "message_row list"

text \<open>\<open>INSERT ... ON CONFLICT(key) DO UPDATE\<close> of every other column.\<close>

definition upsert :: "('r \<Rightarrow> 'k) \<Rightarrow> 'r \<Rightarrow> 'r list \<Rightarrow> 'r list" where
  "upsert key row rows =
     (if list_ex (\<lambda>r. key r = key row) rows
      then map (\<lambda>r. if key r = key row then row else r) rows else rows @ [row])"

definition session_params :: "agent_session \<Rightarrow> session_row" where
  "session_params s =
     \<lparr>sr_id = s_id s, sr_project_id = s_project_id s, sr_title = s_title s,
      sr_auto_title = s_auto_title s, sr_provider = s_provider s, sr_model = s_model s,
      sr_status = s_status s, sr_created_at = s_created_at s, sr_updated_at = s_updated_at s,
      sr_last_reply_at = s_last_reply_at s, sr_archived_at = s_archived_at s,
      sr_parent_task_id = s_parent_task_id s\<rparr>"

text \<open>
  The value the \<open>data\<close> column encodes: without the messages, the archive mark and the fields serde
  skips, which read back as their defaults.
\<close>

definition session_data :: "agent_session \<Rightarrow> agent_session" where
  "session_data s = s\<lparr>s_messages := [], s_archived_at := None, s_provider_session_id := None,
     s_detail_loaded := True\<rparr>"

definition upsert_session :: "agent_session \<Rightarrow> database \<Rightarrow> database" where
  "upsert_session s db = db\<lparr>db_sessions := upsert sr_id (session_params s) (db_sessions db)\<rparr>"

definition upsert_session_detail :: "agent_session \<Rightarrow> database \<Rightarrow> database" where
  "upsert_session_detail s db =
     db\<lparr>db_details := upsert fst (s_id s, session_data s) (db_details db)\<rparr>"

definition message_row_of :: "uuid \<Rightarrow> nat \<Rightarrow> message \<Rightarrow> message_row" where
  "message_row_of session_id pos m =
     \<lparr>mr_session_id = session_id, mr_position = pos, mr_message = m\<rparr>"

definition upsert_message :: "uuid \<Rightarrow> nat \<Rightarrow> message \<Rightarrow> database \<Rightarrow> database" where
  "upsert_message session_id pos m db =
     db\<lparr>db_messages := upsert (\<lambda>r. m_id (mr_message r)) (message_row_of session_id pos m)
        (db_messages db)\<rparr>"

definition delete_message_tail :: "uuid \<Rightarrow> nat \<Rightarrow> database \<Rightarrow> database" where
  "delete_message_tail session_id n db =
     db\<lparr>db_messages := filter (\<lambda>r. \<not> (mr_session_id r = session_id \<and> n \<le> mr_position r))
        (db_messages db)\<rparr>"

definition delete_session_row :: "uuid \<Rightarrow> database \<Rightarrow> database" where
  "delete_session_row i db = db\<lparr>db_sessions := filter (\<lambda>r. sr_id r \<noteq> i) (db_sessions db)\<rparr>"

definition delete_session_detail :: "uuid \<Rightarrow> database \<Rightarrow> database" where
  "delete_session_detail i db = db\<lparr>db_details := filter (\<lambda>r. fst r \<noteq> i) (db_details db)\<rparr>"

definition delete_session_messages :: "uuid \<Rightarrow> database \<Rightarrow> database" where
  "delete_session_messages i db =
     db\<lparr>db_messages := filter (\<lambda>r. mr_session_id r \<noteq> i) (db_messages db)\<rparr>"

definition delete_projects :: "database \<Rightarrow> database" where
  "delete_projects db = db\<lparr>db_projects := []\<rparr>"

definition insert_project :: "nat \<Rightarrow> project \<Rightarrow> database \<Rightarrow> database" where
  "insert_project pos p db =
     db\<lparr>db_projects := upsert (p_id \<circ> snd) (pos, p) (db_projects db)\<rparr>"

section \<open>The store\<close>

type_synonym written_messages = "uuid \<rightharpoonup> (uuid \<rightharpoonup> u64)"

record storage =
  st_persisted_sessions :: "uuid list"
  st_written_messages :: written_messages
  st_saved_projects :: u64

record task_store =
  ts_database :: database
  ts_storage :: storage

record task_state =
  tk_projects :: "project list"
  tk_sessions :: "agent_session list"
  tk_dirty_sessions :: "uuid set"

definition session_mut ::
    "uuid \<Rightarrow> (agent_session \<Rightarrow> agent_session) \<Rightarrow> task_state \<Rightarrow> task_state option" where
  "session_mut i f state =
     (if list_ex (\<lambda>s. s_id s = i) (tk_sessions state)
      then Some (state\<lparr>tk_sessions := update_first (\<lambda>s. s_id s = i) f (tk_sessions state),
        tk_dirty_sessions := insert i (tk_dirty_sessions state)\<rparr>)
      else None)"

definition mark_session_dirty :: "uuid \<Rightarrow> task_state \<Rightarrow> task_state" where
  "mark_session_dirty i state = state\<lparr>tk_dirty_sessions := insert i (tk_dirty_sessions state)\<rparr>"

definition push_session :: "agent_session \<Rightarrow> task_state \<Rightarrow> task_state" where
  "push_session s state =
     state\<lparr>tk_sessions := tk_sessions state @ [s],
       tk_dirty_sessions := insert (s_id s) (tk_dirty_sessions state)\<rparr>"

text \<open>
  What a save takes from outside: the JSON text of the projects, and the blob store, which
  recognises its references and turns a data URL into one.
\<close>

record store_env =
  se_projects_text :: "project list \<Rightarrow> 8 word list"
  se_is_blob_reference :: "rstring \<Rightarrow> bool"
  se_store_data_url :: "rstring \<Rightarrow> rstring"

definition externalize_image :: "store_env \<Rightarrow> rstring \<Rightarrow> rstring" where
  "externalize_image E img =
     (if se_is_blob_reference E img then img
      else let stored = se_store_data_url E img in
        if length (utf8 stored) < length (utf8 img) then stored else img)"

definition externalize_blobs :: "store_env \<Rightarrow> agent_session \<Rightarrow> agent_session" where
  "externalize_blobs E s =
     s\<lparr>s_transcript_blocks := map (\<lambda>b. b\<lparr>b_activities :=
        map (\<lambda>a. a\<lparr>a_image_urls := map (externalize_image E) (a_image_urls a)\<rparr>)
          (b_activities b)\<rparr>) (s_transcript_blocks s)\<rparr>"

text \<open>The state of a running save: the store's memory, the open transaction, what is collected.\<close>

record saving =
  sv_storage :: storage
  sv_database :: database
  sv_budget :: nat
  sv_live :: "uuid list"
  sv_written :: "(uuid \<times> (uuid \<rightharpoonup> u64)) list"

definition exec :: "(database \<Rightarrow> database) \<Rightarrow> saving \<Rightarrow> saving \<times> bool" where
  "exec f sv = (case sv_budget sv of
       0 \<Rightarrow> (sv, False)
     | Suc n \<Rightarrow> (sv\<lparr>sv_database := f (sv_database sv), sv_budget := n\<rparr>, True))"

definition and_then :: "('s \<Rightarrow> 's \<times> bool) \<Rightarrow> ('s \<Rightarrow> 's \<times> bool) \<Rightarrow> 's \<Rightarrow> 's \<times> bool" where
  "and_then f g s = (case f s of (s', True) \<Rightarrow> g s' | (s', False) \<Rightarrow> (s', False))"

definition effect :: "('s \<Rightarrow> 's) \<Rightarrow> 's \<Rightarrow> 's \<times> bool" where
  "effect f s = (f s, True)"

fun for_each :: "('a \<Rightarrow> 's \<Rightarrow> 's \<times> bool) \<Rightarrow> 'a list \<Rightarrow> 's \<Rightarrow> 's \<times> bool" where
  "for_each f [] = effect id"
| "for_each f (x # xs) = and_then (f x) (for_each f xs)"

definition set_storage :: "(storage \<Rightarrow> storage) \<Rightarrow> saving \<Rightarrow> saving" where
  "set_storage f sv = sv\<lparr>sv_storage := f (sv_storage sv)\<rparr>"

definition save_projects :: "store_env \<Rightarrow> project list \<Rightarrow> saving \<Rightarrow> saving \<times> bool" where
  "save_projects E projects sv =
     (let projects_fingerprint = fingerprint (se_projects_text E projects) in
      if projects_fingerprint = st_saved_projects (sv_storage sv) then (sv, True)
      else and_then (exec delete_projects)
        (and_then (for_each (\<lambda>(pos, p). exec (insert_project pos p))
            (enumerate 0 projects))
          (effect (set_storage (\<lambda>st. st\<lparr>st_saved_projects := projects_fingerprint\<rparr>)))) sv)"

text \<open>\<open>write_messages\<close>: the rows that differ from what this connection was last told.\<close>

definition message_fingerprints :: "message list \<Rightarrow> uuid \<rightharpoonup> u64" where
  "message_fingerprints ms =
     foldl (\<lambda>current (pos, m). current(m_id m \<mapsto> message_fingerprint m pos))
       Map.empty (enumerate 0 ms)"

definition write_message ::
    "uuid \<Rightarrow> (uuid \<rightharpoonup> u64) \<Rightarrow> nat \<times> message \<Rightarrow> saving \<Rightarrow> saving \<times> bool" where
  "write_message session_id written pm =
     (case pm of (pos, m) \<Rightarrow>
        if written (m_id m) = Some (message_fingerprint m pos) then effect id
        else exec (upsert_message session_id pos m))"

definition write_messages :: "agent_session \<Rightarrow> (uuid \<rightharpoonup> u64) \<Rightarrow> saving \<Rightarrow> saving \<times> bool" where
  "write_messages s written =
     and_then (for_each (write_message (s_id s) written) (enumerate 0 (s_messages s)))
       (exec (delete_message_tail (s_id s) (length (s_messages s))))"

definition persisted_insert :: "uuid \<Rightarrow> storage \<Rightarrow> storage" where
  "persisted_insert i st =
     st\<lparr>st_persisted_sessions := List.insert i (st_persisted_sessions st)\<rparr>"

definition write_session_columns :: "agent_session \<Rightarrow> saving \<Rightarrow> saving \<times> bool" where
  "write_session_columns s =
     and_then (exec (upsert_session s)) (effect (set_storage (persisted_insert (s_id s))))"

definition write_session :: "agent_session \<Rightarrow> saving \<Rightarrow> saving \<times> bool" where
  "write_session s =
     and_then (exec (upsert_session s))
       (and_then (exec (upsert_session_detail s))
         (and_then (\<lambda>sv. write_messages s
             (unwrap_or (st_written_messages (sv_storage sv) (s_id s)) Map.empty) sv)
           (and_then (effect (\<lambda>sv. sv\<lparr>sv_written :=
               sv_written sv @ [(s_id s, message_fingerprints (s_messages s))]\<rparr>))
             (effect (set_storage (persisted_insert (s_id s)))))))"

definition save_session :: "uuid set \<Rightarrow> agent_session \<Rightarrow> saving \<Rightarrow> saving \<times> bool" where
  "save_session dirty s sv =
     (if \<not> has_started s then (sv, True)
      else let sv = sv\<lparr>sv_live := s_id s # sv_live sv\<rparr> in
        if \<not> s_detail_loaded s then
          (if s_id s \<in> dirty then write_session_columns s sv else (sv, True))
        else if s_id s \<notin> dirty \<and> s_id s \<in> set (st_persisted_sessions (sv_storage sv)) then (sv, True)
        else write_session s sv)"

definition remove_persisted :: "uuid \<Rightarrow> saving \<Rightarrow> saving \<times> bool" where
  "remove_persisted i =
     and_then (exec (delete_session_row i))
       (and_then (exec (delete_session_detail i))
         (and_then (exec (delete_session_messages i))
           (effect (set_storage (\<lambda>st. st\<lparr>
              st_persisted_sessions := filter (\<lambda>j. j \<noteq> i) (st_persisted_sessions st),
              st_written_messages := (st_written_messages st)(i := None)\<rparr>)))))"

definition remove_dead_sessions :: "saving \<Rightarrow> saving \<times> bool" where
  "remove_dead_sessions sv =
     for_each remove_persisted
       (filter (\<lambda>i. i \<notin> set (sv_live sv)) (st_persisted_sessions (sv_storage sv))) sv"

definition save_transaction :: "store_env \<Rightarrow> task_state \<Rightarrow> saving \<Rightarrow> saving \<times> bool" where
  "save_transaction E state =
     and_then (save_projects E (tk_projects state))
       (and_then (for_each (save_session (tk_dirty_sessions state)) (tk_sessions state))
         (and_then remove_dead_sessions (exec id)))"

text \<open>
  \<open>StateStore::save\<close>: an error drops the transaction, which rolls the tables back; the store's
  memory keeps what the steps in front of the error have noted in it.
\<close>

definition save_state ::
    "store_env \<Rightarrow> nat \<Rightarrow> task_store \<Rightarrow> task_state \<Rightarrow> (task_store \<times> task_state) \<times> bool" where
  "save_state E budget store state =
     (let state = state\<lparr>tk_sessions := map (\<lambda>s. if s_id s \<in> tk_dirty_sessions state
            then externalize_blobs E s else s) (tk_sessions state)\<rparr>;
          start = \<lparr>sv_storage = ts_storage store, sv_database = ts_database store,
            sv_budget = budget, sv_live = [], sv_written = []\<rparr> in
      case save_transaction E state start of
        (sv, False) \<Rightarrow> ((store\<lparr>ts_storage := sv_storage sv\<rparr>, state), False)
      | (sv, True) \<Rightarrow>
          ((\<lparr>ts_database = sv_database sv, ts_storage = (sv_storage sv)\<lparr>st_written_messages :=
               foldl (\<lambda>w (i, fps). w(i \<mapsto> fps)) (st_written_messages (sv_storage sv)) (sv_written sv)\<rparr>\<rparr>,
            state\<lparr>tk_dirty_sessions := {}\<rparr>), True))"

section \<open>Reading back\<close>

definition session_skeleton :: "session_row \<Rightarrow> agent_session" where
  "session_skeleton r =
     \<lparr>s_id = sr_id r, s_title = sr_title r, s_auto_title = sr_auto_title r,
      s_project_id = sr_project_id r, s_workspace = Local, s_provider = sr_provider r,
      s_model = sr_model r, s_runtime_mode = runtime_mode_default,
      s_interaction_mode = Interaction_Build, s_reasoning_effort = None, s_service_tier = None,
      s_context_window = None, s_agent_preset = None, s_status = sr_status r,
      s_created_at = sr_created_at r, s_updated_at = sr_updated_at r,
      s_last_reply_at = sr_last_reply_at r, s_archived_at = sr_archived_at r,
      s_parent_task_id = sr_parent_task_id r, s_provider_cursor = None,
      s_available_commands = [], s_context_usage = None, s_runtime_event_cursor = None,
      s_provider_session_id = None, s_messages = [], s_transcript_blocks = [], s_turns = [],
      s_queued_messages = [], s_detail_loaded = False\<rparr>"

definition select_messages :: "uuid \<Rightarrow> database \<Rightarrow> message list" where
  "select_messages i db =
     map mr_message (sort_key mr_position (filter (\<lambda>r. mr_session_id r = i) (db_messages db)))"

definition hydrate :: "database \<Rightarrow> agent_session \<Rightarrow> agent_session" where
  "hydrate db s =
     (if s_detail_loaded s then s
      else case map_of (db_details db) (s_id s) of
        None \<Rightarrow> s\<lparr>s_detail_loaded := True\<rparr>
      | Some stored \<Rightarrow> s\<lparr>
          s_transcript_blocks := s_transcript_blocks stored,
          s_turns := s_turns stored,
          s_queued_messages := s_queued_messages stored,
          s_workspace := s_workspace stored,
          s_provider_cursor := s_provider_cursor stored,
          s_runtime_mode := s_runtime_mode stored,
          s_interaction_mode := s_interaction_mode stored,
          s_reasoning_effort := s_reasoning_effort stored,
          s_service_tier := s_service_tier stored,
          s_context_window := s_context_window stored,
          s_context_usage := s_context_usage stored,
          s_runtime_event_cursor := s_runtime_event_cursor stored,
          s_messages := select_messages (s_id s) db,
          s_detail_loaded := True\<rparr>)"

text \<open>A stored time is a signed integer to SQLite, which orders by it.\<close>

definition updated_column :: "session_row \<Rightarrow> int" where
  "updated_column r = sint (sr_updated_at r)"

definition load_sessions :: "database \<Rightarrow> agent_session list" where
  "load_sessions db = map session_skeleton (sort_key updated_column (db_sessions db))"

definition load_projects :: "database \<Rightarrow> project list" where
  "load_projects db = map snd (sort_key fst (db_projects db))"

end
