(* ===== verification/Task_Store_Properties.thy ===== *)
theory Task_Store_Properties
  imports Task_Store
begin

text \<open>
  The correctness of the task store: a successful save leaves in the tables exactly the sessions of
  the state that have started, although it writes only what changed; reading them back gives the
  sessions that were saved, but for three fields; and what the source's shortcuts cost when a
  message is replaced in the middle or a transaction fails.
\<close>

section \<open>Steps that may fail\<close>

definition establishes :: "('s \<Rightarrow> 's \<times> bool) \<Rightarrow> ('s \<Rightarrow> bool) \<Rightarrow> ('s \<Rightarrow> bool) \<Rightarrow> bool" where
  "establishes f P Q \<longleftrightarrow> (\<forall>s s'. P s \<longrightarrow> f s = (s', True) \<longrightarrow> Q s')"

lemma establishesI: "(\<And>s s'. P s \<Longrightarrow> f s = (s', True) \<Longrightarrow> Q s') \<Longrightarrow> establishes f P Q"
  by (simp add: establishes_def)

lemma establishesD: "establishes f P Q \<Longrightarrow> P s \<Longrightarrow> f s = (s', True) \<Longrightarrow> Q s'"
  by (simp add: establishes_def)

lemma and_then_ok: "and_then f g s = (s', True) \<longleftrightarrow> (\<exists>t. f s = (t, True) \<and> g t = (s', True))"
  by (auto simp: and_then_def split: prod.splits bool.splits)

lemma effect_ok: "effect f s = (s', True) \<longleftrightarrow> s' = f s"
  by (auto simp: effect_def)

lemma exec_ok: "exec f sv = (sv', True) \<longleftrightarrow>
    0 < sv_budget sv \<and> sv' = sv\<lparr>sv_database := f (sv_database sv), sv_budget := sv_budget sv - 1\<rparr>"
  by (auto simp: exec_def split: nat.splits)

lemmas step_ok = and_then_ok effect_ok exec_ok

lemma for_each_establishes:
  assumes "\<And>xs x. x \<in> set zs \<Longrightarrow> establishes (f x) (I xs) (I (xs @ [x]))"
  shows "establishes (for_each f zs) (I ys) (I (ys @ zs))"
  using assms
proof (induction zs arbitrary: ys)
  case Nil
  then show ?case by (auto simp: establishes_def effect_ok)
next
  case (Cons z zs)
  have "establishes (for_each f zs) (I (ys @ [z])) (I ((ys @ [z]) @ zs))"
    by (rule Cons.IH) (simp add: Cons.prems)
  moreover have "establishes (f z) (I ys) (I (ys @ [z]))"
    by (rule Cons.prems) simp
  ultimately show ?case by (auto simp: establishes_def and_then_ok)
qed

section \<open>Tables\<close>

lemma set_upsert: "set (upsert key row rows) = insert row {r \<in> set rows. key r \<noteq> key row}"
  by (auto simp: upsert_def list_ex_iff)

lemma distinct_upsert:
  "distinct (map key rows) \<Longrightarrow> distinct (map key (upsert key row rows))"
proof -
  assume d: "distinct (map key rows)"
  have "map key (map (\<lambda>r. if key r = key row then row else r) rows) = map key rows"
    by (induction rows) auto
  with d show ?thesis
    by (auto simp: upsert_def list_ex_iff image_iff comp_def simp del: map_map)
qed

abbreviation row_message_id :: "message_row \<Rightarrow> uuid" where
  "row_message_id r \<equiv> m_id (mr_message r)"

definition tables_ok :: "database \<Rightarrow> bool" where
  "tables_ok db \<longleftrightarrow> distinct (map sr_id (db_sessions db)) \<and> distinct (map fst (db_details db)) \<and>
     distinct (map row_message_id (db_messages db))"

definition rows_of :: "agent_session \<Rightarrow> message_row set" where
  "rows_of s = {message_row_of (s_id s) p (s_messages s ! p) | p. p < length (s_messages s)}"

definition session_messages_in :: "database \<Rightarrow> uuid \<Rightarrow> message_row set" where
  "session_messages_in db i = {r \<in> set (db_messages db). mr_session_id r = i}"

definition stored_as :: "database \<Rightarrow> agent_session \<Rightarrow> bool" where
  "stored_as db s \<longleftrightarrow> session_params s \<in> set (db_sessions db) \<and>
     (s_id s, session_data s) \<in> set (db_details db) \<and> session_messages_in db (s_id s) = rows_of s"

lemma message_row_fields [simp]:
  "mr_session_id (message_row_of i p m) = i" "mr_position (message_row_of i p m) = p"
  "mr_message (message_row_of i p m) = m"
  by (simp_all add: message_row_of_def)

lemma session_params_id [simp]: "sr_id (session_params s) = s_id s"
  by (simp add: session_params_def)

lemma table_frames [simp]:
  "db_details (upsert_session s db) = db_details db"
  "db_messages (upsert_session s db) = db_messages db"
  "db_projects (upsert_session s db) = db_projects db"
  "db_sessions (upsert_session_detail s db) = db_sessions db"
  "db_messages (upsert_session_detail s db) = db_messages db"
  "db_projects (upsert_session_detail s db) = db_projects db"
  "db_sessions (upsert_message i p m db) = db_sessions db"
  "db_details (upsert_message i p m db) = db_details db"
  "db_projects (upsert_message i p m db) = db_projects db"
  "db_sessions (delete_message_tail i n db) = db_sessions db"
  "db_details (delete_message_tail i n db) = db_details db"
  "db_projects (delete_message_tail i n db) = db_projects db"
  "db_sessions (insert_project p q db) = db_sessions db"
  "db_details (insert_project p q db) = db_details db"
  "db_messages (insert_project p q db) = db_messages db"
  "db_sessions (delete_projects db) = db_sessions db"
  "db_details (delete_projects db) = db_details db"
  "db_messages (delete_projects db) = db_messages db"
  "db_details (delete_session_row i db) = db_details db"
  "db_messages (delete_session_row i db) = db_messages db"
  "db_projects (delete_session_row i db) = db_projects db"
  "db_sessions (delete_session_detail i db) = db_sessions db"
  "db_messages (delete_session_detail i db) = db_messages db"
  "db_projects (delete_session_detail i db) = db_projects db"
  "db_sessions (delete_session_messages i db) = db_sessions db"
  "db_details (delete_session_messages i db) = db_details db"
  "db_projects (delete_session_messages i db) = db_projects db"
  by (simp_all add: upsert_session_def upsert_session_detail_def upsert_message_def
    delete_message_tail_def insert_project_def delete_projects_def delete_session_row_def
    delete_session_detail_def delete_session_messages_def)

lemma table_sets:
  "set (db_sessions (upsert_session s db)) =
     insert (session_params s) {r \<in> set (db_sessions db). sr_id r \<noteq> s_id s}"
  "set (db_details (upsert_session_detail s db)) =
     insert (s_id s, session_data s) {r \<in> set (db_details db). fst r \<noteq> s_id s}"
  "set (db_messages (upsert_message i p m db)) =
     insert (message_row_of i p m) {r \<in> set (db_messages db). row_message_id r \<noteq> m_id m}"
  "set (db_messages (delete_message_tail i n db)) =
     {r \<in> set (db_messages db). \<not> (mr_session_id r = i \<and> n \<le> mr_position r)}"
  by (auto simp: upsert_session_def upsert_session_detail_def upsert_message_def
    delete_message_tail_def set_upsert)

lemma distinct_map_filter_key: "distinct (map f xs) \<Longrightarrow> distinct (map f (filter P xs))"
  by (induction xs) auto

lemma tables_ok_steps:
  assumes "tables_ok db"
  shows "tables_ok (upsert_session s db)" "tables_ok (upsert_session_detail s db)"
    "tables_ok (upsert_message i p m db)" "tables_ok (delete_message_tail i n db)"
    "tables_ok (insert_project n q db)" "tables_ok (delete_projects db)"
    "tables_ok (delete_session_row i db)" "tables_ok (delete_session_detail i db)"
    "tables_ok (delete_session_messages i db)"
  using assms
  by (auto simp: tables_ok_def upsert_session_def upsert_session_detail_def upsert_message_def
    delete_message_tail_def insert_project_def delete_projects_def delete_session_row_def
    delete_session_detail_def delete_session_messages_def distinct_upsert distinct_map_filter_key)

lemma row_unique:
  "distinct (map key rows) \<Longrightarrow> r \<in> set rows \<Longrightarrow> r' \<in> set rows \<Longrightarrow> key r = key r' \<Longrightarrow> r = r'"
  by (auto simp: distinct_map dest: inj_onD)

lemma keys_insert_split:
  assumes "x \<in> R" "k x = a" "a \<notin> D" "\<And>r. r \<in> R \<Longrightarrow> k r = a \<Longrightarrow> r = x"
  shows "{r \<in> R. k r \<notin> D} = insert x {r \<in> R. k r \<notin> insert a D}"
  using assms by blast

lemma keys_insert_merge:
  assumes "\<And>r. r \<in> B \<Longrightarrow> k r \<noteq> a"
  shows "insert x {r \<in> {r \<in> R. k r \<notin> D} \<union> B. k r \<noteq> a} = {r \<in> R. k r \<notin> insert a D} \<union> insert x B"
  using assms by blast

section \<open>The messages of one session\<close>

definition message_ids_of :: "agent_session \<Rightarrow> uuid set" where
  "message_ids_of s = m_id ` set (s_messages s)"

text \<open>What the tables must know of a session that is about to be written.\<close>

definition writable :: "database \<Rightarrow> (uuid \<rightharpoonup> u64) \<Rightarrow> agent_session \<Rightarrow> bool" where
  "writable db written s \<longleftrightarrow> distinct (map m_id (s_messages s)) \<and>
     (\<forall>r\<in>set (db_messages db). row_message_id r \<in> message_ids_of s \<longrightarrow> mr_session_id r = s_id s) \<and>
     (\<forall>r\<in>set (db_messages db). mr_session_id r = s_id s \<and> row_message_id r \<notin> message_ids_of s \<longrightarrow>
        length (s_messages s) \<le> mr_position r) \<and>
     (\<forall>p<length (s_messages s).
        written (m_id (s_messages s ! p)) = Some (message_fingerprint (s_messages s ! p) p) \<longrightarrow>
        message_row_of (s_id s) p (s_messages s ! p) \<in> set (db_messages db))"

definition messages_written ::
    "database \<Rightarrow> agent_session \<Rightarrow> (nat \<times> message) list \<Rightarrow> saving \<Rightarrow> saving \<Rightarrow> bool" where
  "messages_written db s ws sv0 sv \<longleftrightarrow> tables_ok (sv_database sv) \<and>
     (\<exists>n msgs. sv = sv0\<lparr>sv_database := db\<lparr>db_messages := msgs\<rparr>, sv_budget := n\<rparr>) \<and>
     set (db_messages (sv_database sv)) =
       {r \<in> set (db_messages db). row_message_id r \<notin> m_id ` snd ` set ws} \<union>
       (\<lambda>(p, m). message_row_of (s_id s) p m) ` set ws"

lemma write_message_step:
  assumes tok: "tables_ok db" and w: "writable db written s" and pm: "pm \<in> set (enumerate 0 (s_messages s))"
    and inv: "messages_written db s ws sv0 sv" and ok: "write_message (s_id s) written pm sv = (sv', True)"
    and fresh: "m_id (snd pm) \<notin> m_id ` snd ` set ws"
  shows "messages_written db s (ws @ [pm]) sv0 sv'"
proof -
  obtain p m where pm_eq: "pm = (p, m)" by (cases pm)
  with pm have m: "p < length (s_messages s)" "m = s_messages s ! p"
    by (auto simp: in_set_enumerate_eq)
  let ?row = "message_row_of (s_id s) p m"
  have new_ids: "m_id ` snd ` set (ws @ [pm]) = insert (m_id m) (m_id ` snd ` set ws)"
    by (simp add: pm_eq)
  have new_rows: "(\<lambda>(p, m). message_row_of (s_id s) p m) ` set (ws @ [pm]) =
      insert ?row ((\<lambda>(p, m). message_row_of (s_id s) p m) ` set ws)"
    by (simp add: pm_eq)
  have inv_set: "set (db_messages (sv_database sv)) =
       {r \<in> set (db_messages db). row_message_id r \<notin> m_id ` snd ` set ws} \<union>
       (\<lambda>(p, m). message_row_of (s_id s) p m) ` set ws"
    using inv by (simp add: messages_written_def)
  show ?thesis
  proof (cases "written (m_id m) = Some (message_fingerprint m p)")
    case True
    with ok pm_eq have sv': "sv' = sv" by (simp add: write_message_def effect_ok)
    have row0: "?row \<in> set (db_messages db)" using w True m by (auto simp: writable_def)
    have same: "r = ?row" if "r \<in> set (db_messages db)" "row_message_id r = m_id m" for r
      using row_unique [of row_message_id "db_messages db" r ?row] row0 that tok
      by (simp add: tables_ok_def)
    have "{r \<in> set (db_messages db). row_message_id r \<notin> m_id ` snd ` set ws} =
        insert ?row {r \<in> set (db_messages db). row_message_id r \<notin> m_id ` snd ` set (ws @ [pm])}"
      unfolding new_ids
      by (rule keys_insert_split [OF row0 _ _ same]) (use fresh pm_eq in simp_all)
    then have "set (db_messages (sv_database sv')) =
       {r \<in> set (db_messages db). row_message_id r \<notin> m_id ` snd ` set (ws @ [pm])} \<union>
       (\<lambda>(p, m). message_row_of (s_id s) p m) ` set (ws @ [pm])"
      unfolding sv' inv_set new_rows by simp
    then show ?thesis using inv unfolding sv' messages_written_def by (elim conjE) (intro conjI)
  next
    case False
    with ok pm_eq have sv': "sv' = sv\<lparr>sv_database := upsert_message (s_id s) p m (sv_database sv),
        sv_budget := sv_budget sv - 1\<rparr>"
      by (simp add: write_message_def exec_ok)
    from inv obtain n msgs where sv: "sv = sv0\<lparr>sv_database := db\<lparr>db_messages := msgs\<rparr>, sv_budget := n\<rparr>"
      unfolding messages_written_def by blast
    have frame: "sv' = sv0\<lparr>sv_database := db\<lparr>db_messages :=
        db_messages (upsert_message (s_id s) p m (sv_database sv))\<rparr>, sv_budget := n - 1\<rparr>"
      by (simp add: sv' sv upsert_message_def)
    have other: "row_message_id r \<noteq> m_id m"
      if "r \<in> (\<lambda>(p, m). message_row_of (s_id s) p m) ` set ws" for r
    proof -
      from that obtain q k where "(q, k) \<in> set ws" "r = message_row_of (s_id s) q k" by auto
      moreover from this(1) have "m_id k \<in> m_id ` snd ` set ws" by force
      ultimately show ?thesis using fresh pm_eq by (metis message_row_fields(3) snd_conv)
    qed
    have "set (db_messages (sv_database sv')) =
        insert ?row {r \<in> set (db_messages (sv_database sv)). row_message_id r \<noteq> m_id m}"
      by (simp add: sv' table_sets)
    also have "\<dots> = {r \<in> set (db_messages db). row_message_id r \<notin> m_id ` snd ` set (ws @ [pm])} \<union>
       (\<lambda>(p, m). message_row_of (s_id s) p m) ` set (ws @ [pm])"
      unfolding new_ids new_rows inv_set by (rule keys_insert_merge) (rule other)
    finally have "set (db_messages (sv_database sv')) = \<dots>" .
    moreover have "tables_ok (sv_database sv')"
      using inv by (simp add: sv' messages_written_def tables_ok_steps(3))
    ultimately show ?thesis using frame unfolding messages_written_def by blast
  qed
qed

lemma enumerate_ids: "m_id ` snd ` set (enumerate 0 ms) = m_id ` set ms"
  by (metis list.set_map map_snd_enumerate)

lemma enumerate_rows: "(\<lambda>(p, m). message_row_of (s_id s) p m) ` set (enumerate 0 (s_messages s)) = rows_of s"
  by (force simp: rows_of_def in_set_enumerate_eq image_iff)

lemma enumerate_prefix_fresh:
  assumes "distinct (map m_id ms)" "enumerate 0 ms = ws @ pm # rest"
  shows "m_id (snd pm) \<notin> m_id ` snd ` set ws"
proof -
  have "map m_id ms = map (m_id \<circ> snd) (ws @ pm # rest)"
    using arg_cong [OF assms(2), of "map snd"] by (metis map_map map_snd_enumerate)
  with assms(1) show ?thesis by (auto simp: image_image)
qed

lemma write_each_message:
  assumes tok: "tables_ok db" and w: "writable db written s"
    and inv: "messages_written db s ws sv0 sv" and split: "enumerate 0 (s_messages s) = ws @ rest"
    and ok: "for_each (write_message (s_id s) written) rest sv = (sv', True)"
  shows "messages_written db s (enumerate 0 (s_messages s)) sv0 sv'"
  using inv split ok
proof (induction rest arbitrary: ws sv)
  case Nil
  then show ?case by (simp add: effect_ok)
next
  case (Cons pm rest)
  then obtain t where t: "write_message (s_id s) written pm sv = (t, True)"
      "for_each (write_message (s_id s) written) rest t = (sv', True)"
    by (auto simp: and_then_ok)
  have "pm \<in> set (enumerate 0 (s_messages s))" using Cons.prems(2) by simp
  moreover have "m_id (snd pm) \<notin> m_id ` snd ` set ws"
    using w enumerate_prefix_fresh [OF _ Cons.prems(2)] by (simp add: writable_def)
  ultimately have "messages_written db s (ws @ [pm]) sv0 t"
    using write_message_step [OF tok w _ Cons.prems(1) t(1)] by blast
  from Cons.IH [OF this _ t(2)] Cons.prems(2) show ?case by simp
qed

lemma write_messages_result:
  assumes tok: "tables_ok (sv_database sv)" and w: "writable (sv_database sv) written s"
    and ok: "write_messages s written sv = (sv', True)"
  shows "\<exists>n msgs. sv' = sv\<lparr>sv_database := (sv_database sv)\<lparr>db_messages := msgs\<rparr>, sv_budget := n\<rparr> \<and>
    tables_ok (sv_database sv') \<and>
    set msgs = {r \<in> set (db_messages (sv_database sv)). mr_session_id r \<noteq> s_id s} \<union> rows_of s"
proof -
  let ?db = "sv_database sv" and ?ms = "s_messages s"
  from ok obtain t where t: "for_each (write_message (s_id s) written) (enumerate 0 ?ms) sv = (t, True)"
      "exec (delete_message_tail (s_id s) (length ?ms)) t = (sv', True)"
    by (auto simp: write_messages_def and_then_ok)
  have "messages_written ?db s [] sv sv"
    using tok by (simp add: messages_written_def) (intro exI [of _ "sv_budget sv"]
      exI [of _ "db_messages (sv_database sv)"], simp)
  from write_each_message [OF tok w this _ t(1)]
  have m: "messages_written ?db s (enumerate 0 ?ms) sv t" by simp
  then obtain n msgs where tt: "t = sv\<lparr>sv_database := ?db\<lparr>db_messages := msgs\<rparr>, sv_budget := n\<rparr>"
    unfolding messages_written_def by blast
  have set_t: "set (db_messages (sv_database t)) =
      {r \<in> set (db_messages ?db). row_message_id r \<notin> message_ids_of s} \<union> rows_of s"
    using m by (simp add: messages_written_def enumerate_ids enumerate_rows message_ids_of_def)
  have sv': "sv' = t\<lparr>sv_database := delete_message_tail (s_id s) (length ?ms) (sv_database t),
      sv_budget := sv_budget t - 1\<rparr>" using t(2) by (simp add: exec_ok)
  have "set (db_messages (sv_database sv')) =
      {r \<in> set (db_messages ?db). mr_session_id r \<noteq> s_id s} \<union> rows_of s"
    unfolding sv' using w set_t by (auto simp: table_sets writable_def rows_of_def)
  moreover have "tables_ok (sv_database sv')"
    using m by (simp add: sv' messages_written_def tables_ok_steps(4))
  moreover have "sv' = sv\<lparr>sv_database := ?db\<lparr>db_messages := db_messages (sv_database sv')\<rparr>, sv_budget := n - 1\<rparr>"
    by (simp add: sv' tt delete_message_tail_def)
  ultimately show ?thesis by blast
qed

section \<open>The sessions of a save\<close>

definition same_rows :: "uuid \<Rightarrow> database \<Rightarrow> database \<Rightarrow> bool" where
  "same_rows i db db' \<longleftrightarrow>
     {r \<in> set (db_sessions db). sr_id r = i} = {r \<in> set (db_sessions db'). sr_id r = i} \<and>
     {r \<in> set (db_details db). fst r = i} = {r \<in> set (db_details db'). fst r = i} \<and>
     session_messages_in db i = session_messages_in db' i"

lemma same_rows_refl [simp]: "same_rows i db db"
  by (simp add: same_rows_def)

lemma same_rows_trans: "same_rows i a b \<Longrightarrow> same_rows i b c \<Longrightarrow> same_rows i a c"
  by (simp add: same_rows_def)

lemma same_rows_params:
  assumes "same_rows (s_id s) db db'"
  shows "session_params s \<in> set (db_sessions db) \<longleftrightarrow> session_params s \<in> set (db_sessions db')"
proof -
  have "session_params s \<in> set (db_sessions db) \<longleftrightarrow>
      session_params s \<in> {r \<in> set (db_sessions db). sr_id r = s_id s}" by simp
  also have "\<dots> \<longleftrightarrow> session_params s \<in> {r \<in> set (db_sessions db'). sr_id r = s_id s}"
    using assms by (simp only: same_rows_def)
  finally show ?thesis by simp
qed

lemma same_rows_detail:
  assumes "same_rows i db db'"
  shows "(i, d) \<in> set (db_details db) \<longleftrightarrow> (i, d) \<in> set (db_details db')"
proof -
  have "(i, d) \<in> set (db_details db) \<longleftrightarrow> (i, d) \<in> {r \<in> set (db_details db). fst r = i}" by simp
  also have "\<dots> \<longleftrightarrow> (i, d) \<in> {r \<in> set (db_details db'). fst r = i}"
    using assms by (simp only: same_rows_def)
  finally show ?thesis by simp
qed

lemma same_rows_stored:
  assumes "same_rows (s_id s) db db'"
  shows "stored_as db s \<longleftrightarrow> stored_as db' s"
  unfolding stored_as_def same_rows_params [OF assms] same_rows_detail [OF assms]
  using assms by (simp add: same_rows_def)

definition started_ids :: "agent_session list \<Rightarrow> uuid set" where
  "started_ids ds = s_id ` {s \<in> set ds. has_started s}"

text \<open>A skeleton's transcript stays what it was in the tables \<open>db0\<close> before the save.\<close>

definition same_transcript :: "uuid \<Rightarrow> database \<Rightarrow> database \<Rightarrow> bool" where
  "same_transcript i db db' \<longleftrightarrow>
     {r \<in> set (db_details db). fst r = i} = {r \<in> set (db_details db'). fst r = i} \<and>
     session_messages_in db i = session_messages_in db' i"

definition session_kept :: "database \<Rightarrow> database \<Rightarrow> agent_session \<Rightarrow> bool" where
  "session_kept db0 db s \<longleftrightarrow> session_params s \<in> set (db_sessions db) \<and>
     (if s_detail_loaded s then stored_as db s else same_transcript (s_id s) db0 db)"

definition sessions_saved ::
    "database \<Rightarrow> storage \<Rightarrow> agent_session list \<Rightarrow> saving \<Rightarrow> bool" where
  "sessions_saved db0 st0 ds sv \<longleftrightarrow>
     tables_ok (sv_database sv) \<and> db_projects (sv_database sv) = db_projects db0 \<and>
     st_written_messages (sv_storage sv) = st_written_messages st0 \<and>
     set (sv_live sv) = started_ids ds \<and>
     set (st_persisted_sessions (sv_storage sv)) = set (st_persisted_sessions st0) \<union> started_ids ds \<and>
     (\<forall>s\<in>set ds. has_started s \<longrightarrow> session_kept db0 (sv_database sv) s) \<and>
     (\<forall>i. i \<notin> started_ids ds \<longrightarrow> same_rows i db0 (sv_database sv)) \<and>
     (\<forall>i. i \<notin> fst ` set (sv_written sv) \<longrightarrow> same_transcript i db0 (sv_database sv)) \<and>
     (\<forall>e\<in>set (sv_written sv). \<exists>s\<in>set ds. has_started s \<and> s_detail_loaded s \<and>
        e = (s_id s, message_fingerprints (s_messages s)))"

lemma started_ids_snoc [simp]:
  "started_ids (ds @ [s]) = (if has_started s then insert (s_id s) (started_ids ds) else started_ids ds)"
  by (auto simp: started_ids_def)

lemma started_ids_Nil [simp]: "started_ids [] = {}"
  by (simp add: started_ids_def)

lemma started_ids_sub: "started_ids ds \<subseteq> s_id ` set ds"
  by (auto simp: started_ids_def)

lemma session_kept_same:
  assumes "same_rows (s_id s) db db'"
  shows "session_kept db0 db s = session_kept db0 db' s"
  using same_rows_stored [OF assms] same_rows_params [OF assms] assms
  by (simp add: session_kept_def same_transcript_def same_rows_def)

lemma same_transcript_refl [simp]: "same_transcript i a a"
  by (simp add: same_transcript_def)

lemma same_transcript_trans: "same_transcript i a b \<Longrightarrow> same_transcript i b c \<Longrightarrow> same_transcript i a c"
  by (simp add: same_transcript_def)

lemma same_rows_transcript: "same_rows i a b \<Longrightarrow> same_transcript i a b"
  by (simp add: same_rows_def same_transcript_def)

lemma sessions_saved_step:
  assumes inv: "sessions_saved db0 st0 ds sv" and new: "s_id s \<notin> s_id ` set ds"
    and st: "has_started s" "tables_ok (sv_database sv')" "session_kept db0 (sv_database sv') s"
    and other: "\<And>i. i \<noteq> s_id s \<Longrightarrow> same_rows i (sv_database sv) (sv_database sv')"
    and proj: "db_projects (sv_database sv') = db_projects (sv_database sv)"
    and mem: "st_written_messages (sv_storage sv') = st_written_messages (sv_storage sv)"
      "set (sv_live sv') = insert (s_id s) (set (sv_live sv))"
      "set (st_persisted_sessions (sv_storage sv')) =
         insert (s_id s) (set (st_persisted_sessions (sv_storage sv)))"
      "sv_written sv' = sv_written sv \<and> same_transcript (s_id s) (sv_database sv) (sv_database sv') \<or>
         s_detail_loaded s \<and>
         sv_written sv' = sv_written sv @ [(s_id s, message_fingerprints (s_messages s))]"
  shows "sessions_saved db0 st0 (ds @ [s]) sv'"
proof -
  have kept: "session_kept db0 (sv_database sv') d" if "d \<in> set ds" "has_started d" for d
  proof -
    from that new have "s_id d \<noteq> s_id s" by (metis image_eqI)
    with other session_kept_same inv that show ?thesis unfolding sessions_saved_def by blast
  qed
  have rows: "same_rows i db0 (sv_database sv')" if "i \<notin> insert (s_id s) (started_ids ds)" for i
    using that inv other [of i] same_rows_trans unfolding sessions_saved_def by blast
  have written: "\<exists>d\<in>set (ds @ [s]). has_started d \<and> s_detail_loaded d \<and>
      e = (s_id d, message_fingerprints (s_messages d))" if e: "e \<in> set (sv_written sv')" for e
  proof -
    from mem(4) e consider "e \<in> set (sv_written sv)"
      | "s_detail_loaded s" "e = (s_id s, message_fingerprints (s_messages s))" by auto
    then show ?thesis
    proof cases
      case 1
      with inv have "\<exists>d\<in>set ds. has_started d \<and> s_detail_loaded d \<and>
          e = (s_id d, message_fingerprints (s_messages d))" unfolding sessions_saved_def by blast
      then show ?thesis by auto
    next
      case 2
      with st(1) show ?thesis by auto
    qed
  qed
  have transcript: "same_transcript i db0 (sv_database sv')" if i: "i \<notin> fst ` set (sv_written sv')" for i
  proof -
    from mem(4) i have "i \<notin> fst ` set (sv_written sv)" by auto
    with inv have "same_transcript i db0 (sv_database sv)" unfolding sessions_saved_def by blast
    moreover have "same_transcript i (sv_database sv) (sv_database sv')"
    proof (cases "i = s_id s")
      case True
      with mem(4) i show ?thesis by auto
    next
      case False
      then show ?thesis by (rule same_rows_transcript [OF other])
    qed
    ultimately show ?thesis by (rule same_transcript_trans)
  qed
  from inv have mem0: "db_projects (sv_database sv) = db_projects db0" "st_written_messages (sv_storage sv) = st_written_messages st0"
    "set (sv_live sv) = started_ids ds"
    "set (st_persisted_sessions (sv_storage sv)) = set (st_persisted_sessions st0) \<union> started_ids ds"
    by (simp_all add: sessions_saved_def)
  show ?thesis
    unfolding sessions_saved_def using st kept rows transcript written proj mem(1-3)
    by (intro conjI ballI allI impI) (auto simp: mem0)
qed

text \<open>What a save needs to know of a session: \<open>db0\<close> and \<open>st0\<close> are the tables and the memory before it.\<close>

definition session_ready :: "database \<Rightarrow> storage \<Rightarrow> uuid set \<Rightarrow> agent_session \<Rightarrow> bool" where
  "session_ready db0 st0 dirty s \<longleftrightarrow>
     writable db0 (unwrap_or (st_written_messages st0 (s_id s)) Map.empty) s \<and>
     (s_id s \<notin> dirty \<and> (s_id s \<in> set (st_persisted_sessions st0) \<or> \<not> s_detail_loaded s) \<longrightarrow>
        s_id s \<in> set (st_persisted_sessions st0) \<and> session_kept db0 db0 s)"

lemma same_rows_upsert: "i \<noteq> s_id s \<Longrightarrow> same_rows i db (upsert_session s db)"
  by (auto simp: same_rows_def table_sets session_messages_in_def)

lemma writable_now:
  assumes inv: "sessions_saved db0 st0 ds sv" and w: "writable db0 written s"
    and new: "s_id s \<notin> s_id ` set ds"
    and own: "\<And>d. d \<in> set ds \<Longrightarrow> message_ids_of d \<inter> message_ids_of s = {}"
  shows "writable (sv_database sv) written s"
proof -
  let ?db = "sv_database sv"
  have "s_id s \<notin> started_ids ds" using new started_ids_sub by blast
  with inv have mine: "session_messages_in db0 (s_id s) = session_messages_in ?db (s_id s)"
    by (simp add: sessions_saved_def same_rows_def)
  then have mine_iff: "r \<in> set (db_messages db0) \<longleftrightarrow> r \<in> set (db_messages ?db)"
    if "mr_session_id r = s_id s" for r
    using that unfolding session_messages_in_def by blast
  have owner: "mr_session_id r = s_id s"
    if r: "r \<in> set (db_messages ?db)" "row_message_id r \<in> message_ids_of s" for r
  proof (rule ccontr)
    assume other: "mr_session_id r \<noteq> s_id s"
    have "r \<in> session_messages_in ?db (mr_session_id r)" using r(1) by (simp add: session_messages_in_def)
    moreover have "r \<notin> session_messages_in db0 (mr_session_id r)"
      using w r(2) other by (auto simp: writable_def session_messages_in_def)
    ultimately have changed: "session_messages_in db0 (mr_session_id r) \<noteq> session_messages_in ?db (mr_session_id r)"
      by blast
    with inv have "mr_session_id r \<in> started_ids ds"
      unfolding sessions_saved_def same_rows_def by blast
    then obtain d where d: "d \<in> set ds" "has_started d" "mr_session_id r = s_id d"
      by (auto simp: started_ids_def)
    with inv changed have "stored_as ?db d"
      by (auto simp: sessions_saved_def session_kept_def same_transcript_def split: if_splits)
    with \<open>r \<in> session_messages_in ?db (mr_session_id r)\<close> d(3) have "r \<in> rows_of d"
      by (simp add: stored_as_def)
    then have "row_message_id r \<in> message_ids_of d" by (auto simp: rows_of_def message_ids_of_def)
    with own [OF d(1)] r(2) show False by blast
  qed
  show ?thesis
    using w owner mine_iff unfolding writable_def by simp
qed

lemma write_session_rows:
  assumes tok: "tables_ok (sv_database sv)" and w: "writable (sv_database sv) written s"
    and ok: "exec (upsert_session s) sv = (t, True)" "exec (upsert_session_detail s) t = (u, True)"
      "write_messages s written u = (sv', True)"
  shows "\<exists>n db'. sv' = sv\<lparr>sv_database := db', sv_budget := n\<rparr> \<and> tables_ok db' \<and> stored_as db' s \<and>
    db_projects db' = db_projects (sv_database sv) \<and>
    (\<forall>i. i \<noteq> s_id s \<longrightarrow> same_rows i (sv_database sv) db')"
proof -
  let ?db = "upsert_session_detail s (upsert_session s (sv_database sv))"
  from ok(1,2) have u: "u = sv\<lparr>sv_database := ?db, sv_budget := sv_budget sv - 2\<rparr>"
    by (auto simp: exec_ok)
  have "tables_ok (sv_database u)" "writable (sv_database u) written s"
    using tok w by (simp_all add: u tables_ok_steps writable_def)
  from write_messages_result [OF this ok(3)] obtain n msgs where
    r: "sv' = u\<lparr>sv_database := (sv_database u)\<lparr>db_messages := msgs\<rparr>, sv_budget := n\<rparr>"
    "tables_ok (sv_database sv')"
    "set msgs = {r \<in> set (db_messages (sv_database u)). mr_session_id r \<noteq> s_id s} \<union> rows_of s"
    by blast
  let ?db' = "?db\<lparr>db_messages := msgs\<rparr>"
  have msgs: "set msgs = {r \<in> set (db_messages (sv_database sv)). mr_session_id r \<noteq> s_id s} \<union> rows_of s"
    using r(3) by (simp add: u)
  have sv': "sv' = sv\<lparr>sv_database := ?db', sv_budget := n\<rparr>" using r(1) by (simp add: u)
  have "stored_as ?db' s"
    using msgs by (auto simp: stored_as_def table_sets session_messages_in_def rows_of_def)
  moreover have "same_rows i (sv_database sv) ?db'" if "i \<noteq> s_id s" for i
    using msgs that by (auto simp: same_rows_def table_sets session_messages_in_def rows_of_def)
  ultimately show ?thesis
    using r(2) sv' by (intro exI [of _ n] exI [of _ ?db']) auto
qed

lemma same_transcript_upsert: "same_transcript i db (upsert_session s db)"
  by (simp add: same_transcript_def session_messages_in_def)

lemma persisted_insert_set [simp]:
  "set (st_persisted_sessions (persisted_insert i st)) = insert i (set (st_persisted_sessions st))"
  "st_written_messages (persisted_insert i st) = st_written_messages st"
  by (simp_all add: persisted_insert_def)

lemma save_session_step:
  assumes inv: "sessions_saved db0 st0 ds sv" and new: "s_id s \<notin> s_id ` set ds"
    and own: "\<And>d. d \<in> set ds \<Longrightarrow> message_ids_of d \<inter> message_ids_of s = {}"
    and ready: "session_ready db0 st0 dirty s" and ok: "save_session dirty s sv = (sv', True)"
  shows "sessions_saved db0 st0 (ds @ [s]) sv'"
proof (cases "has_started s")
  case False
  with ok have "sv' = sv" by (simp add: save_session_def)
  with inv False show ?thesis by (auto simp: sessions_saved_def)
next
  case started: True
  define live where "live = sv\<lparr>sv_live := s_id s # sv_live sv\<rparr>"
  have live_st: "sv_storage live = sv_storage sv" by (simp add: live_def)
  have unsaved: "s_id s \<notin> started_ids ds" using new started_ids_sub by blast
  with inv have here: "same_rows (s_id s) db0 (sv_database sv)"
    and tok: "tables_ok (sv_database sv)"
    and persisted: "s_id s \<in> set (st_persisted_sessions (sv_storage sv)) \<longleftrightarrow>
      s_id s \<in> set (st_persisted_sessions st0)"
    and written: "st_written_messages (sv_storage sv) = st_written_messages st0"
    by (auto simp: sessions_saved_def)
  have ok': "(if \<not> s_detail_loaded s then
          (if s_id s \<in> dirty then write_session_columns s live else (live, True))
        else if s_id s \<notin> dirty \<and> s_id s \<in> set (st_persisted_sessions st0) then (live, True)
        else write_session s live) = (sv', True)"
    using ok started unfolding save_session_def Let_def live_def [symmetric]
    by (auto simp: live_st persisted split: if_splits)
  then consider (clean) "sv' = live" "s_id s \<notin> dirty"
      "s_id s \<in> set (st_persisted_sessions st0) \<or> \<not> s_detail_loaded s"
    | (skeleton) "\<not> s_detail_loaded s" "write_session_columns s live = (sv', True)"
    | (full) "s_detail_loaded s" "write_session s live = (sv', True)"
    by (metis prod.inject)
  then show ?thesis
  proof cases
    case clean
    with ready have "s_id s \<in> set (st_persisted_sessions st0)" "session_kept db0 db0 s"
      by (auto simp: session_ready_def)
    with persisted session_kept_same [OF here] show ?thesis
      by (intro sessions_saved_step [OF inv new started]) (auto simp: clean live_def tok)
  next
    case skeleton
    then have sv': "sv' = live\<lparr>sv_database := upsert_session s (sv_database sv),
        sv_budget := sv_budget sv - 1, sv_storage := persisted_insert (s_id s) (sv_storage sv)\<rparr>"
      by (auto simp: write_session_columns_def step_ok set_storage_def live_def)
    have "session_kept db0 (upsert_session s (sv_database sv)) s"
      using skeleton(1) same_transcript_trans [OF same_rows_transcript [OF here] same_transcript_upsert]
      by (simp add: session_kept_def table_sets)
    then show ?thesis
      by (intro sessions_saved_step [OF inv new started])
        (auto simp: sv' live_def tok tables_ok_steps same_rows_upsert same_transcript_upsert)
  next
    case full
    then obtain t u v where steps: "exec (upsert_session s) live = (t, True)"
        "exec (upsert_session_detail s) t = (u, True)"
        "write_messages s (unwrap_or (st_written_messages (sv_storage u) (s_id s)) Map.empty) u = (v, True)"
        and sv': "sv' = set_storage (persisted_insert (s_id s)) (v\<lparr>sv_written :=
          sv_written v @ [(s_id s, message_fingerprints (s_messages s))]\<rparr>)"
      by (auto simp: write_session_def and_then_ok effect_ok)
    have su: "sv_storage u = sv_storage sv" using steps(1,2) by (auto simp: exec_ok live_def)
    have "writable db0 (unwrap_or (st_written_messages st0 (s_id s)) Map.empty) s"
      using ready by (simp add: session_ready_def)
    from writable_now [OF inv this new own] have
      "writable (sv_database live) (unwrap_or (st_written_messages (sv_storage u) (s_id s)) Map.empty) s"
      by (simp add: su written live_def)
    from write_session_rows [OF _ this steps] tok live_def obtain n db' where
      v: "v = live\<lparr>sv_database := db', sv_budget := n\<rparr>" "tables_ok db'" "stored_as db' s"
        "db_projects db' = db_projects (sv_database sv)"
        "\<forall>i. i \<noteq> s_id s \<longrightarrow> same_rows i (sv_database sv) db'"
      by (auto simp: live_def)
    have "session_kept db0 db' s"
      using v(3) full(1) by (simp add: session_kept_def stored_as_def)
    then show ?thesis
      using v full(1) by (intro sessions_saved_step [OF inv new started]) (auto simp: sv' live_def set_storage_def)
  qed
qed

section \<open>The whole transaction\<close>

lemma upsert_new: "key row \<notin> key ` set rows \<Longrightarrow> upsert key row rows = rows @ [row]"
  by (auto simp: upsert_def list_ex_iff image_iff)

lemma insert_projects:
  assumes "for_each (\<lambda>(pos, p). exec (insert_project pos p)) zs sv = (sv', True)"
    and "distinct (map (p_id \<circ> snd) (db_projects (sv_database sv) @ zs))"
  shows "\<exists>n. sv' = sv\<lparr>sv_database := (sv_database sv)
      \<lparr>db_projects := db_projects (sv_database sv) @ zs\<rparr>, sv_budget := n\<rparr>"
  using assms
proof (induction zs arbitrary: sv)
  case Nil
  then show ?case by (intro exI [of _ "sv_budget sv"]) (simp add: effect_ok)
next
  case (Cons z zs)
  obtain pos q where z: "z = (pos, q)" by (cases z)
  let ?t = "sv\<lparr>sv_database := insert_project pos q (sv_database sv), sv_budget := sv_budget sv - 1\<rparr>"
  have rest: "for_each (\<lambda>(pos, p). exec (insert_project pos p)) zs ?t = (sv', True)"
    using Cons.prems(1) by (auto simp: z and_then_ok exec_ok)
  have "p_id q \<notin> (p_id \<circ> snd) ` set (db_projects (sv_database sv))"
    using Cons.prems(2) by (auto simp: z)
  then have app: "db_projects (insert_project pos q (sv_database sv)) = db_projects (sv_database sv) @ [(pos, q)]"
    by (simp add: insert_project_def upsert_new)
  with Cons.IH [OF rest] Cons.prems(2) obtain n where
    "sv' = ?t\<lparr>sv_database := (sv_database ?t)\<lparr>db_projects := db_projects (sv_database ?t) @ zs\<rparr>, sv_budget := n\<rparr>"
    by (auto simp: z)
  then show ?case using app by (auto simp: z insert_project_def)
qed

definition projects_kept :: "store_env \<Rightarrow> database \<Rightarrow> storage \<Rightarrow> project list \<Rightarrow> bool" where
  "projects_kept E db st ps \<longleftrightarrow>
     (fingerprint (se_projects_text E ps) = st_saved_projects st \<longrightarrow> load_projects db = ps)"

lemma save_projects_result:
  assumes "save_projects E ps sv = (sv', True)" and "distinct (map p_id ps)"
    and "projects_kept E (sv_database sv) (sv_storage sv) ps"
  shows "\<exists>n pr fp. sv' = sv\<lparr>sv_database := (sv_database sv)\<lparr>db_projects := pr\<rparr>, sv_budget := n,
      sv_storage := (sv_storage sv)\<lparr>st_saved_projects := fp\<rparr>\<rparr> \<and>
    load_projects (sv_database sv') = ps"
proof (cases "fingerprint (se_projects_text E ps) = st_saved_projects (sv_storage sv)")
  case True
  with assms(1) have "sv' = sv" by (simp add: save_projects_def)
  with assms(3) True show ?thesis
    by (intro exI [of _ "sv_budget sv"] exI [of _ "db_projects (sv_database sv)"]
      exI [of _ "st_saved_projects (sv_storage sv)"]) (simp add: projects_kept_def)
next
  case False
  let ?zs = "enumerate 0 ps" and ?fp = "fingerprint (se_projects_text E ps)"
  from assms(1) False obtain t u where t: "exec delete_projects sv = (t, True)"
      "for_each (\<lambda>(pos, p). exec (insert_project pos p)) ?zs t = (u, True)"
      and sv': "sv' = set_storage (\<lambda>st. st\<lparr>st_saved_projects := ?fp\<rparr>) u"
    by (auto simp: save_projects_def and_then_ok effect_ok Let_def)
  have t': "t = sv\<lparr>sv_database := (sv_database sv)\<lparr>db_projects := []\<rparr>, sv_budget := sv_budget sv - 1\<rparr>"
    using t(1) by (simp add: exec_ok delete_projects_def)
  have "map (p_id \<circ> snd) ?zs = map p_id ps" by (metis map_map map_snd_enumerate)
  with insert_projects [OF t(2)] assms(2) obtain n where
    u: "u = t\<lparr>sv_database := (sv_database t)\<lparr>db_projects := ?zs\<rparr>, sv_budget := n\<rparr>"
    by (auto simp: t')
  have "sort_key fst ?zs = ?zs"
    by (rule sort_key_id_if_sorted) (simp add: map_fst_enumerate sorted_upt)
  then have "load_projects (sv_database sv') = ps"
    by (simp add: load_projects_def sv' u set_storage_def map_snd_enumerate)
  moreover have "sv' = sv\<lparr>sv_database := (sv_database sv)\<lparr>db_projects := ?zs\<rparr>, sv_budget := n,
      sv_storage := (sv_storage sv)\<lparr>st_saved_projects := ?fp\<rparr>\<rparr>"
    by (simp add: sv' u t' set_storage_def)
  ultimately show ?thesis by blast
qed

lemma save_sessions_result:
  assumes "for_each (save_session dirty) ss sv = (sv', True)"
    and "sessions_saved db0 st0 ds sv"
    and "distinct (map s_id (ds @ ss))"
    and "\<And>a b s t. ds @ ss = a @ s # b \<Longrightarrow> t \<in> set a \<Longrightarrow> message_ids_of t \<inter> message_ids_of s = {}"
    and "\<And>s. s \<in> set ss \<Longrightarrow> has_started s \<Longrightarrow> session_ready db0 st0 dirty s"
  shows "sessions_saved db0 st0 (ds @ ss) sv'"
  using assms
proof (induction ss arbitrary: ds sv)
  case Nil
  then show ?case by (simp add: effect_ok)
next
  case (Cons s ss)
  from Cons.prems(1) obtain t where t: "save_session dirty s sv = (t, True)"
      "for_each (save_session dirty) ss t = (sv', True)" by (auto simp: and_then_ok)
  have "sessions_saved db0 st0 (ds @ [s]) t"
  proof (cases "has_started s")
    case True
    have "s_id s \<notin> s_id ` set ds" using Cons.prems(3) by auto
    moreover have "message_ids_of d \<inter> message_ids_of s = {}" if "d \<in> set ds" for d
      using Cons.prems(4) [of ds s ss d] that by simp
    moreover have "session_ready db0 st0 dirty s" using Cons.prems(5) True by simp
    ultimately show ?thesis using save_session_step [OF Cons.prems(2) _ _ _ t(1)] by blast
  next
    case False
    with t(1) have "t = sv" by (simp add: save_session_def)
    with Cons.prems(2) False show ?thesis by (auto simp: sessions_saved_def)
  qed
  from Cons.IH [OF t(2) this] Cons.prems(3-5) show ?case by simp
qed

text \<open>Removing the rows of a set of sessions.\<close>

definition without_sessions :: "uuid set \<Rightarrow> database \<Rightarrow> database" where
  "without_sessions R db = db\<lparr>db_sessions := filter (\<lambda>r. sr_id r \<notin> R) (db_sessions db),
     db_details := filter (\<lambda>r. fst r \<notin> R) (db_details db),
     db_messages := filter (\<lambda>r. mr_session_id r \<notin> R) (db_messages db)\<rparr>"

definition forget_sessions :: "uuid set \<Rightarrow> storage \<Rightarrow> storage" where
  "forget_sessions R st = st\<lparr>st_persisted_sessions := filter (\<lambda>j. j \<notin> R) (st_persisted_sessions st),
     st_written_messages := (\<lambda>i. if i \<in> R then None else st_written_messages st i)\<rparr>"

lemma remove_persisted_ok: "remove_persisted i sv = (sv', True) \<Longrightarrow>
    \<exists>n. sv' = sv\<lparr>sv_database := without_sessions {i} (sv_database sv),
      sv_storage := forget_sessions {i} (sv_storage sv), sv_budget := n\<rparr>"
  by (intro exI [of _ "sv_budget sv'"])
    (auto simp: remove_persisted_def step_ok set_storage_def without_sessions_def forget_sessions_def
      delete_session_row_def delete_session_detail_def delete_session_messages_def fun_upd_def
      intro!: storage.equality cong: if_cong)

lemma without_sessions_Un:
  "without_sessions A (without_sessions B db) = without_sessions (B \<union> A) db"
  by (simp add: without_sessions_def conj_commute)

lemma forget_sessions_Un: "forget_sessions A (forget_sessions B st) = forget_sessions (B \<union> A) st"
  by (rule storage.equality) (auto simp: forget_sessions_def)

lemma without_none [simp]: "without_sessions {} db = db" "forget_sessions {} st = st"
  by (simp_all add: without_sessions_def forget_sessions_def)

lemma remove_all: "for_each remove_persisted R sv = (sv', True) \<Longrightarrow>
    \<exists>n. sv' = sv\<lparr>sv_database := without_sessions (set R) (sv_database sv),
      sv_storage := forget_sessions (set R) (sv_storage sv), sv_budget := n\<rparr>"
proof (induction R arbitrary: sv)
  case Nil
  then show ?case by (intro exI [of _ "sv_budget sv"]) (simp add: effect_ok)
next
  case (Cons i R)
  then obtain t where t: "remove_persisted i sv = (t, True)" "for_each remove_persisted R t = (sv', True)"
    by (auto simp: and_then_ok)
  from remove_persisted_ok [OF t(1)] Cons.IH [OF t(2)] show ?case
    by (auto simp: without_sessions_Un forget_sessions_Un)
qed

section \<open>The store between saves\<close>

text \<open>The fingerprints the connection remembers are those of rows in the table.\<close>

definition memory_ok :: "database \<Rightarrow> storage \<Rightarrow> bool" where
  "memory_ok db st \<longleftrightarrow> (\<forall>i w k fp. st_written_messages st i = Some w \<longrightarrow> w k = Some fp \<longrightarrow>
     (\<exists>r\<in>session_messages_in db i. row_message_id r = k \<and>
        message_fingerprint (mr_message r) (mr_position r) = fp))"

definition rows_known :: "database \<Rightarrow> storage \<Rightarrow> bool" where
  "rows_known db st \<longleftrightarrow> sr_id ` set (db_sessions db) \<union> fst ` set (db_details db) \<union>
     mr_session_id ` set (db_messages db) \<subseteq> set (st_persisted_sessions st)"

definition unchanged_stored :: "database \<Rightarrow> storage \<Rightarrow> uuid set \<Rightarrow> agent_session \<Rightarrow> bool" where
  "unchanged_stored db st dirty s \<longleftrightarrow>
     (s_id s \<notin> dirty \<and> (s_id s \<in> set (st_persisted_sessions st) \<or> \<not> s_detail_loaded s) \<longrightarrow>
        s_id s \<in> set (st_persisted_sessions st) \<and> session_kept db db s)"

definition store_ok :: "task_store \<Rightarrow> task_state \<Rightarrow> bool" where
  "store_ok store state \<longleftrightarrow> tables_ok (ts_database store) \<and>
     rows_known (ts_database store) (ts_storage store) \<and>
     memory_ok (ts_database store) (ts_storage store) \<and>
     (\<forall>s\<in>set (tk_sessions state). has_started s \<longrightarrow>
        unchanged_stored (ts_database store) (ts_storage store) (tk_dirty_sessions state) s)"

text \<open>
  What the changes since the last save must respect: ids are unique, a message stays with its
  session, messages are removed only at the end of a session, and no two different versions of a
  row have one fingerprint.
\<close>

definition edits_ok :: "store_env \<Rightarrow> task_store \<Rightarrow> task_state \<Rightarrow> bool" where
  "edits_ok E store state \<longleftrightarrow>
     distinct (map s_id (tk_sessions state)) \<and>
     distinct (concat (map (\<lambda>s. map m_id (s_messages s)) (tk_sessions state))) \<and>
     distinct (map p_id (tk_projects state)) \<and>
     (\<forall>s\<in>set (tk_sessions state). \<forall>r\<in>set (db_messages (ts_database store)).
        (row_message_id r \<in> message_ids_of s \<longrightarrow> mr_session_id r = s_id s) \<and>
        (mr_session_id r = s_id s \<longrightarrow> row_message_id r \<notin> message_ids_of s \<longrightarrow>
           length (s_messages s) \<le> mr_position r) \<and>
        (\<forall>p<length (s_messages s). row_message_id r = m_id (s_messages s ! p) \<longrightarrow>
           message_fingerprint (mr_message r) (mr_position r) = message_fingerprint (s_messages s ! p) p \<longrightarrow>
           r = message_row_of (s_id s) p (s_messages s ! p))) \<and>
     projects_kept E (ts_database store) (ts_storage store) (tk_projects state)"

lemma externalize_fields [simp]:
  "s_id (externalize_blobs E s) = s_id s" "s_messages (externalize_blobs E s) = s_messages s"
  "has_started (externalize_blobs E s) = has_started s"
  "s_detail_loaded (externalize_blobs E s) = s_detail_loaded s"
  by (simp_all add: externalize_blobs_def has_started_def)

definition externalized :: "store_env \<Rightarrow> task_state \<Rightarrow> agent_session list" where
  "externalized E state = map (\<lambda>s. if s_id s \<in> tk_dirty_sessions state
     then externalize_blobs E s else s) (tk_sessions state)"

lemma externalized_ids: "map s_id (externalized E state) = map s_id (tk_sessions state)"
  "map s_messages (externalized E state) = map s_messages (tk_sessions state)"
  by (auto simp: externalized_def)

lemma externalized_started: "started_ids (externalized E state) = started_ids (tk_sessions state)"
proof -
  have "map s_id (filter has_started (externalized E state)) =
      map s_id (filter has_started (tk_sessions state))"
    unfolding externalized_def by (induction "tk_sessions state" arbitrary: state) (auto simp: filter_map comp_def)
  then have "s_id ` set (filter has_started (externalized E state)) =
      s_id ` set (filter has_started (tk_sessions state))"
    by (metis list.set_map)
  then show ?thesis by (simp add: started_ids_def)
qed

lemma distinct_concat_disjoint:
  assumes "distinct (concat (map f (a @ s # b)))" "t \<in> set a"
  shows "set (f t) \<inter> set (f s) = {}"
  using assms by auto

lemma ready_sessions:
  assumes so: "store_ok store state" and eo: "edits_ok E store state"
    and t: "t \<in> set (externalized E state)" "has_started t"
    and db: "db0 = (ts_database store)\<lparr>db_projects := pr\<rparr>"
    and st: "st_written_messages st0 = st_written_messages (ts_storage store)"
      "st_persisted_sessions st0 = st_persisted_sessions (ts_storage store)"
  shows "session_ready db0 st0 (tk_dirty_sessions state) t"
proof -
  let ?w = "unwrap_or (st_written_messages (ts_storage store) (s_id t)) Map.empty"
  from t obtain s where s: "s \<in> set (tk_sessions state)" "has_started s"
      and ts: "t = (if s_id s \<in> tk_dirty_sessions state then externalize_blobs E s else s)"
    by (auto simp: externalized_def split: if_splits)
  have same: "s_id t = s_id s" "s_messages t = s_messages s" "message_ids_of t = message_ids_of s"
    by (simp_all add: ts message_ids_of_def)
  have d: "distinct (map m_id (s_messages s))"
    using eo s(1) by (auto simp: edits_ok_def distinct_concat_iff)
  have remembered: "message_row_of (s_id s) p (s_messages s ! p) \<in> set (db_messages (ts_database store))"
    if p: "p < length (s_messages s)"
      "?w (m_id (s_messages s ! p)) = Some (message_fingerprint (s_messages s ! p) p)" for p
  proof -
    from p(2) obtain w where "st_written_messages (ts_storage store) (s_id s) = Some w"
        "w (m_id (s_messages s ! p)) = Some (message_fingerprint (s_messages s ! p) p)"
      by (auto simp: same unwrap_or_def split: option.splits)
    with so obtain r where r: "r \<in> set (db_messages (ts_database store))"
        "row_message_id r = m_id (s_messages s ! p)"
        "message_fingerprint (mr_message r) (mr_position r) = message_fingerprint (s_messages s ! p) p"
      unfolding store_ok_def memory_ok_def session_messages_in_def by blast
    with eo s(1) p(1) have "r = message_row_of (s_id s) p (s_messages s ! p)"
      unfolding edits_ok_def by blast
    with r(1) show ?thesis by simp
  qed
  have "writable db0 (unwrap_or (st_written_messages st0 (s_id t)) Map.empty) t"
    using eo s(1) d remembered unfolding writable_def edits_ok_def same db st by simp
  moreover have "session_kept db0 db0 t \<longleftrightarrow> session_kept (ts_database store) (ts_database store) t"
    by (simp add: session_kept_def stored_as_def session_messages_in_def db)
  moreover have "unchanged_stored (ts_database store) (ts_storage store) (tk_dirty_sessions state) s"
    using so s unfolding store_ok_def by blast
  ultimately show ?thesis
    by (auto simp: session_ready_def unchanged_stored_def st ts split: if_splits)
qed

lemma without_sessions_simps:
  "set (db_sessions (without_sessions R db)) = {r \<in> set (db_sessions db). sr_id r \<notin> R}"
  "set (db_details (without_sessions R db)) = {r \<in> set (db_details db). fst r \<notin> R}"
  "set (db_messages (without_sessions R db)) = {r \<in> set (db_messages db). mr_session_id r \<notin> R}"
  "load_projects (without_sessions R db) = load_projects db"
  by (auto simp: without_sessions_def load_projects_def)

lemma without_sessions_ok: "tables_ok db \<Longrightarrow> tables_ok (without_sessions R db)"
  by (simp add: tables_ok_def without_sessions_def distinct_map_filter_key)

lemma without_sessions_messages:
  "i \<notin> R \<Longrightarrow> session_messages_in (without_sessions R db) i = session_messages_in db i"
  by (auto simp: session_messages_in_def without_sessions_simps)

lemma without_sessions_stored:
  "s_id s \<notin> R \<Longrightarrow> stored_as db s \<Longrightarrow> stored_as (without_sessions R db) s"
  by (simp add: stored_as_def without_sessions_messages without_sessions_simps)

lemma fold_written:
  "foldl (\<lambda>w (i, fps). w(i \<mapsto> fps)) m es i = Some w \<Longrightarrow>
   (i, w) \<in> set es \<or> i \<notin> fst ` set es \<and> m i = Some w"
proof (induction es rule: rev_induct)
  case (snoc e es)
  then show ?case by (cases e) (force split: if_splits)
qed simp

lemma fold_fingerprints:
  "message_fingerprints ms k = Some fp \<Longrightarrow>
   \<exists>p<length ms. m_id (ms ! p) = k \<and> message_fingerprint (ms ! p) p = fp"
proof -
  have "foldl (\<lambda>cur (pos, m). cur(m_id m \<mapsto> message_fingerprint m pos)) Map.empty es k = Some fp \<Longrightarrow>
      \<exists>(p, m)\<in>set es. m_id m = k \<and> message_fingerprint m p = fp" for es
    by (induction es rule: rev_induct) (auto split: if_splits)
  then show "message_fingerprints ms k = Some fp \<Longrightarrow> ?thesis"
    unfolding message_fingerprints_def by (fastforce simp: in_set_enumerate_eq)
qed

text \<open>What a successful save has done.\<close>

lemma save_result:
  assumes so: "store_ok store state" and eo: "edits_ok E store state"
    and ok: "save_state E budget store state = ((store', state'), True)"
  shows "state' = state\<lparr>tk_sessions := externalized E state, tk_dirty_sessions := {}\<rparr> \<and>
    load_projects (ts_database store') = tk_projects state \<and>
    store_ok store' state' \<and>
    sr_id ` set (db_sessions (ts_database store')) = started_ids (tk_sessions state') \<and>
    (\<forall>s\<in>set (tk_sessions state'). has_started s \<longrightarrow> session_kept (ts_database store) (ts_database store') s)"
proof -
  let ?ss = "externalized E state"
  let ?start = "\<lparr>sv_storage = ts_storage store, sv_database = ts_database store,
      sv_budget = budget, sv_live = [], sv_written = []\<rparr>"
  let ?dirty = "tk_dirty_sessions state"
  obtain sv where tx: "save_transaction E (state\<lparr>tk_sessions := ?ss\<rparr>) ?start = (sv, True)"
      and res: "store' = \<lparr>ts_database = sv_database sv, ts_storage = (sv_storage sv)\<lparr>st_written_messages :=
         foldl (\<lambda>w (i, fps). w(i \<mapsto> fps)) (st_written_messages (sv_storage sv)) (sv_written sv)\<rparr>\<rparr>"
        "state' = state\<lparr>tk_sessions := ?ss, tk_dirty_sessions := {}\<rparr>"
    using ok by (auto simp: save_state_def Let_def externalized_def [symmetric] split: prod.splits bool.splits)
  from tx obtain a b c where steps: "save_projects E (tk_projects state) ?start = (a, True)"
      "for_each (save_session ?dirty) ?ss a = (b, True)"
      "remove_dead_sessions b = (c, True)" "exec id c = (sv, True)"
    by (auto simp: save_transaction_def and_then_ok)
  have "distinct (map p_id (tk_projects state))"
    "projects_kept E (sv_database ?start) (sv_storage ?start) (tk_projects state)"
    using eo by (simp_all add: edits_ok_def)
  from save_projects_result [OF steps(1) this] obtain n pr fp where
    a: "a = ?start\<lparr>sv_database := (ts_database store)\<lparr>db_projects := pr\<rparr>, sv_budget := n,
      sv_storage := (ts_storage store)\<lparr>st_saved_projects := fp\<rparr>\<rparr>"
    and lp: "load_projects (sv_database a) = tk_projects state" by auto
  let ?old = "sv_database a" and ?mem = "sv_storage a"
  have "sessions_saved ?old ?mem [] a"
    using so by (simp add: sessions_saved_def a store_ok_def tables_ok_def)
  moreover have "distinct (map s_id ([] @ ?ss))"
    using eo by (simp add: externalized_ids edits_ok_def)
  moreover have "message_ids_of t \<inter> message_ids_of s = {}"
    if "[] @ ?ss = xs @ s # ys" "t \<in> set xs" for xs ys s t
  proof -
    have "concat (map (\<lambda>s. map m_id (s_messages s)) ?ss) =
        concat (map (map m_id) (map s_messages ?ss))" by (simp add: comp_def)
    also have "\<dots> = concat (map (\<lambda>s. map m_id (s_messages s)) (tk_sessions state))"
      unfolding externalized_ids by (simp add: comp_def)
    finally have "distinct (concat (map (\<lambda>s. map m_id (s_messages s)) (xs @ s # ys)))"
      using eo that(1) by (simp add: edits_ok_def)
    from distinct_concat_disjoint [OF this that(2)] show ?thesis by (simp add: message_ids_of_def)
  qed
  moreover have "session_ready ?old ?mem ?dirty s" if "s \<in> set ?ss" "has_started s" for s
    by (rule ready_sessions [OF so eo that]) (simp_all add: a)
  ultimately have saved: "sessions_saved ?old ?mem ?ss b"
    using save_sessions_result [OF steps(2)] by (metis append_Nil)
  let ?R = "set (filter (\<lambda>i. i \<notin> set (sv_live b)) (st_persisted_sessions (sv_storage b)))"
  from remove_all [of _ b c] steps(3) obtain k where
    c: "c = b\<lparr>sv_database := without_sessions ?R (sv_database b),
      sv_storage := forget_sessions ?R (sv_storage b), sv_budget := k\<rparr>"
    unfolding remove_dead_sessions_def by blast
  have sv: "sv_database sv = without_sessions ?R (sv_database b)"
    "sv_storage sv = forget_sessions ?R (sv_storage b)" "sv_written sv = sv_written b"
    using steps(4) by (auto simp: exec_ok c)
  let ?db = "sv_database b" and ?db2 = "ts_database store'" and ?ids = "started_ids ?ss"
  have db2: "?db2 = without_sessions ?R ?db" by (simp add: res sv)
  from saved have tok: "tables_ok ?db" and live: "set (sv_live b) = ?ids"
    and persisted: "set (st_persisted_sessions (sv_storage b)) =
      set (st_persisted_sessions (ts_storage store)) \<union> ?ids"
    and written: "st_written_messages (sv_storage b) = st_written_messages (ts_storage store)"
    by (simp_all add: sessions_saved_def a)
  have kept_b: "\<And>s. s \<in> set ?ss \<Longrightarrow> has_started s \<Longrightarrow> session_kept ?old ?db s"
    and rows_b: "\<And>i. i \<notin> ?ids \<Longrightarrow> same_rows i ?old ?db"
    and transcript_b: "\<And>i. i \<notin> fst ` set (sv_written b) \<Longrightarrow> same_transcript i ?old ?db"
    and written_b: "\<And>e. e \<in> set (sv_written b) \<Longrightarrow> \<exists>s\<in>set ?ss. has_started s \<and> s_detail_loaded s \<and>
        e = (s_id s, message_fingerprints (s_messages s))"
    using saved unfolding sessions_saved_def by blast+
  have R: "i \<in> ?R \<longleftrightarrow> i \<in> set (st_persisted_sessions (ts_storage store)) \<and> i \<notin> ?ids" for i
    using live persisted by auto
  have started_id: "s_id s \<in> ?ids" if "s \<in> set ?ss" "has_started s" for s
    using that by (auto simp: started_ids_def)
  have kept: "session_kept (ts_database store) ?db2 s" if s: "s \<in> set ?ss" "has_started s" for s
    using kept_b [OF s] started_id [OF s] R
    by (auto simp: session_kept_def db2 without_sessions_stored without_sessions_messages
      without_sessions_simps same_transcript_def a session_messages_in_def split: if_splits)
  have known: "rows_known ?old (ts_storage store)"
    using so by (simp add: store_ok_def rows_known_def a)
  have live_rows: "i \<in> ?ids"
    if i: "i \<in> sr_id ` set (db_sessions ?db2) \<union> fst ` set (db_details ?db2) \<union>
      mr_session_id ` set (db_messages ?db2)" for i
  proof (rule ccontr)
    assume out: "i \<notin> ?ids"
    from i have notR: "i \<notin> ?R" unfolding db2 by (auto simp only: without_sessions_simps)
    from i have "i \<in> sr_id ` set (db_sessions ?db) \<union> fst ` set (db_details ?db) \<union>
        mr_session_id ` set (db_messages ?db)" unfolding db2 by (auto simp: without_sessions_simps)
    with rows_b [OF out] have "i \<in> sr_id ` set (db_sessions ?old) \<union> fst ` set (db_details ?old) \<union>
        mr_session_id ` set (db_messages ?old)"
      unfolding same_rows_def session_messages_in_def by blast
    with known have "i \<in> set (st_persisted_sessions (ts_storage store))"
      unfolding rows_known_def by blast
    with notR out R show False by blast
  qed
  have persisted2: "?ids \<subseteq> set (st_persisted_sessions (ts_storage store'))"
    using persisted live by (auto simp: res sv forget_sessions_def)
  have memory: "memory_ok ?db2 (ts_storage store')"
    unfolding memory_ok_def
  proof (intro allI impI)
    fix i w k fp
    assume w: "st_written_messages (ts_storage store') i = Some w" "w k = Some fp"
    from w(1) consider (new) "(i, w) \<in> set (sv_written b)"
      | (old) "i \<notin> fst ` set (sv_written b)" "i \<notin> ?R" "st_written_messages (ts_storage store) i = Some w"
      by (auto simp: res sv forget_sessions_def written dest!: fold_written split: if_splits)
    then show "\<exists>r\<in>session_messages_in ?db2 i. row_message_id r = k \<and>
        message_fingerprint (mr_message r) (mr_position r) = fp"
    proof cases
      case new
      then obtain s where s: "s \<in> set ?ss" "has_started s" "s_detail_loaded s" "i = s_id s"
          "w = message_fingerprints (s_messages s)" using written_b by blast
      from kept [OF s(1,2)] s(3) have "session_messages_in ?db2 i = rows_of s"
        by (simp add: session_kept_def stored_as_def s(4))
      moreover from w(2) s(5) obtain p where "p < length (s_messages s)" "m_id (s_messages s ! p) = k"
          "message_fingerprint (s_messages s ! p) p = fp" using fold_fingerprints by blast
      ultimately show ?thesis
        by (intro bexI [of _ "message_row_of (s_id s) p (s_messages s ! p)"]) (auto simp: rows_of_def)
    next
      case old
      from so old(3) w(2) obtain r where "r \<in> session_messages_in (ts_database store) i"
          "row_message_id r = k" "message_fingerprint (mr_message r) (mr_position r) = fp"
        unfolding store_ok_def memory_ok_def by blast
      moreover from transcript_b [OF old(1)] old(2) have
        "session_messages_in (ts_database store) i = session_messages_in ?db2 i"
        unfolding db2 by (subst without_sessions_messages) (simp_all add: same_transcript_def a session_messages_in_def)
      ultimately show ?thesis by blast
    qed
  qed
  have "store_ok store' state'"
  proof -
    have "rows_known ?db2 (ts_storage store')"
      using live_rows persisted2 unfolding rows_known_def by blast
    moreover have "unchanged_stored ?db2 (ts_storage store') {} s"
      if s: "s \<in> set ?ss" "has_started s" for s
      using kept [OF s] started_id [OF s] persisted2
      by (auto simp: unchanged_stored_def session_kept_def)
    moreover have "tables_ok ?db2" by (simp add: db2 without_sessions_ok tok)
    ultimately show ?thesis using memory by (simp add: store_ok_def res(2))
  qed
  moreover have "sr_id ` set (db_sessions ?db2) = ?ids"
  proof
    show "sr_id ` set (db_sessions ?db2) \<subseteq> ?ids" using live_rows by blast
    have "s_id s \<in> sr_id ` set (db_sessions ?db2)" if "s \<in> set ?ss" "has_started s" for s
      using kept [OF that] unfolding session_kept_def by (metis image_eqI session_params_id)
    then show "?ids \<subseteq> sr_id ` set (db_sessions ?db2)" by (auto simp: started_ids_def)
  qed
  moreover have "load_projects ?db2 = tk_projects state"
  proof -
    have "db_projects ?db = db_projects ?old" using saved by (simp add: sessions_saved_def)
    with lp have "load_projects ?db = tk_projects state" by (simp add: load_projects_def)
    then show ?thesis by (simp add: db2 without_sessions_simps)
  qed
  ultimately show ?thesis using kept res(2) by simp
qed

section \<open>Properties\<close>

lemma rows_sorted_unique:
  assumes "set rs = rows_of s" "distinct rs"
  shows "map mr_message (sort_key mr_position rs) = s_messages s"
proof -
  let ?rows = "map (\<lambda>(p, m). message_row_of (s_id s) p m) (enumerate 0 (s_messages s))"
  have set_rows: "set ?rows = rows_of s" by (simp add: enumerate_rows)
  have pos: "map mr_position ?rows = [0..<length (s_messages s)]"
    by (simp add: comp_def split_def map_fst_enumerate)
  have inj: "inj_on mr_position (rows_of s)" by (auto simp: inj_on_def rows_of_def)
  have "sort_key mr_position rs = ?rows"
  proof (rule map_sorted_distinct_set_unique)
    show "inj_on mr_position (set (sort_key mr_position rs) \<union> set ?rows)"
      using inj assms(1) set_rows by simp
    show "distinct (map mr_position (sort_key mr_position rs))"
      using inj assms by (simp add: distinct_map)
    show "distinct (map mr_position ?rows)" "sorted (map mr_position ?rows)"
      unfolding pos by simp_all
    show "set (sort_key mr_position rs) = set ?rows" using assms(1) set_rows by simp
  qed simp
  then show ?thesis by (simp add: comp_def split_def map_snd_enumerate)
qed

lemma select_stored:
  assumes "tables_ok db" "session_messages_in db (s_id s) = rows_of s"
  shows "select_messages (s_id s) db = s_messages s"
  unfolding select_messages_def
proof (rule rows_sorted_unique)
  show "set (filter (\<lambda>r. mr_session_id r = s_id s) (db_messages db)) = rows_of s"
    using assms(2) by (simp add: session_messages_in_def)
  show "distinct (filter (\<lambda>r. mr_session_id r = s_id s) (db_messages db))"
    using assms(1) by (auto simp: tables_ok_def distinct_map)
qed

lemma detail_lookup:
  "tables_ok db \<Longrightarrow> (i, d) \<in> set (db_details db) \<Longrightarrow> map_of (db_details db) i = Some d"
  by (simp add: tables_ok_def)

text \<open>The fields \<open>hydrate\<close> does not read back.\<close>

definition without_unread_fields :: "agent_session \<Rightarrow> agent_session" where
  "without_unread_fields s =
     s\<lparr>s_agent_preset := None, s_available_commands := [], s_provider_session_id := None\<rparr>"

lemma hydrate_stored:
  assumes "tables_ok db" "stored_as db s" "s_detail_loaded s"
  shows "hydrate db (session_skeleton (session_params s)) = without_unread_fields s"
proof -
  have "map_of (db_details db) (s_id s) = Some (session_data s)"
    using assms(1,2) by (intro detail_lookup) (simp_all add: stored_as_def)
  moreover have "select_messages (s_id s) db = s_messages s"
    using assms(1,2) by (intro select_stored) (simp_all add: stored_as_def)
  ultimately show ?thesis
    using assms(3) by (intro agent_session.equality)
      (simp_all add: hydrate_def session_skeleton_def session_params_def session_data_def
        without_unread_fields_def)
qed



text \<open>A task with one message, saved into an empty store.\<close>

definition empty_store :: task_store where
  "empty_store = \<lparr>ts_database = \<lparr>db_projects = [], db_sessions = [], db_details = [], db_messages = []\<rparr>,
     ts_storage = \<lparr>st_persisted_sessions = [], st_written_messages = Map.empty, st_saved_projects = 0\<rparr>\<rparr>"

definition plain_store_env :: store_env where
  "plain_store_env = \<lparr>se_projects_text = (\<lambda>ps. [of_nat (length ps)]),
     se_is_blob_reference = (\<lambda>_. True), se_store_data_url = id\<rparr>"

definition demo_task :: "uuid list \<Rightarrow> agent_session" where
  "demo_task ids = (session_new 5 10 1 Claude)
     \<lparr>s_messages := map (\<lambda>i. message_new i 10 User [65]) ids, s_agent_preset := Some [66]\<rparr>"

definition demo_tasks :: "agent_session list \<Rightarrow> task_state" where
  "demo_tasks ss = \<lparr>tk_projects = [], tk_sessions = ss, tk_dirty_sessions = {5}\<rparr>"

lemmas save_evaluation = save_state_def save_transaction_def save_projects_def save_session_def
  write_session_def write_session_columns_def write_messages_def write_message_def and_then_def
  effect_def exec_def set_storage_def persisted_insert_def remove_dead_sessions_def remove_persisted_def
  upsert_def upsert_session_def upsert_session_detail_def upsert_message_def delete_message_tail_def
  delete_session_row_def delete_session_detail_def delete_session_messages_def insert_project_def
  delete_projects_def Let_def

lemma demo_projects_fingerprint:
  "fingerprint (se_projects_text plain_store_env []) \<noteq> 0"
  "fingerprint (se_projects_text plain_store_env [p]) \<noteq> 0"
  by (simp_all add: fingerprint_def plain_store_env_def fnv_offset_def fnv_prime_def)

lemma externalize_plain [simp]: "externalize_blobs plain_store_env s = s"
proof -
  have "externalize_image plain_store_env = (\<lambda>i. i)"
    by (simp add: fun_eq_iff externalize_image_def plain_store_env_def)
  then show ?thesis by (simp add: externalize_blobs_def)
qed

lemma demo_task_started: "has_started (demo_task (i # is))" "s_detail_loaded (demo_task is)"
  "s_id (demo_task is) = 5" "s_messages (demo_task is) = map (\<lambda>i. message_new i 10 User [65]) is"
  by (simp_all add: has_started_def demo_task_def session_new_def)

definition demo_stored :: "uuid \<Rightarrow> task_store" where
  "demo_stored i = \<lparr>ts_database = \<lparr>db_projects = [], db_sessions = [session_params (demo_task [i])],
      db_details = [(5, session_data (demo_task [i]))],
      db_messages = [message_row_of 5 0 (message_new i 10 User [65])]\<rparr>,
    ts_storage = \<lparr>st_persisted_sessions = [5],
      st_written_messages = [5 \<mapsto> message_fingerprints (s_messages (demo_task [i]))],
      st_saved_projects = fingerprint (se_projects_text plain_store_env [])\<rparr>\<rparr>"

lemma demo_save:
  "save_state plain_store_env 10 empty_store (demo_tasks [demo_task [i]]) =
     ((demo_stored i, \<lparr>tk_projects = [], tk_sessions = [demo_task [i]], tk_dirty_sessions = {}\<rparr>), True)"
  using demo_projects_fingerprint(1)
  by (simp add: save_evaluation empty_store_def demo_tasks_def demo_task_started demo_stored_def)

lemma demo_ready: "store_ok empty_store (demo_tasks [demo_task [i]])"
  "edits_ok plain_store_env empty_store (demo_tasks [demo_task [i]])"
  using demo_projects_fingerprint(1)
  by (auto simp: store_ok_def edits_ok_def empty_store_def demo_tasks_def tables_ok_def rows_known_def
    memory_ok_def unchanged_stored_def demo_task_started projects_kept_def)




text \<open>
  The store notes what it wrote before the transaction commits. After a save that fails at the
  commit, a second save that succeeds neither writes the projects nor removes the rows of a task
  the state no longer has: a restart loses the project and brings the task back.
\<close>

theorem failed_save_not_repeated:
  "\<exists>store state store' state'.
     save_state plain_store_env 5 (demo_stored 7)
       \<lparr>tk_projects = [project_from_path 3 10 [47]], tk_sessions = [], tk_dirty_sessions = {}\<rparr> =
       ((store, state), False) \<and>
     save_state plain_store_env 100 store state = ((store', state'), True) \<and>
     tk_projects state' = [project_from_path 3 10 [47]] \<and> tk_sessions state' = [] \<and>
     load_projects (ts_database store') = [] \<and>
     map s_id (load_sessions (ts_database store')) = [5]"
proof -
  have fp: "fingerprint (se_projects_text plain_store_env [project_from_path 3 10 [47]]) \<noteq>
      fingerprint (se_projects_text plain_store_env [])"
    by (simp add: fingerprint_def plain_store_env_def fnv_offset_def fnv_prime_def)
  show ?thesis
    using fp by (simp add: save_evaluation demo_stored_def demo_task_started load_sessions_def
      load_projects_def session_skeleton_def session_params_def)
qed

end
