(* ===== verification/Patch_Diff.thy ===== *)
theory Patch_Diff
  imports Session_Types Json_Value Interfaces
begin

text \<open>
  File changes read out of a tool call (\<open>crates/shidou-protocol/src/model.rs\<close>, from
  \<open>extract_file_changes_from_value\<close> to \<open>merge_file_change\<close>): the diff bodies synthesized from the
  shapes the providers report, the parser of patch text, and the list of changes kept unique by
  path. The counters are \<open>u64\<close> and wrap, as in a release build.
\<close>

section \<open>Diff bodies\<close>

definition ACTIVITY_DIFF_CONTEXT_LINES :: nat where
  "ACTIVITY_DIFF_CONTEXT_LINES = 3"

definition MAX_ACTIVITY_DIFF_LINES :: nat where
  "MAX_ACTIVITY_DIFF_LINES = 1000"

record diff_body =
  db_text :: "rstring option"
  db_additions :: u64
  db_deletions :: u64

definition diff_body_EMPTY :: diff_body where
  "diff_body_EMPTY = \<lparr>db_text = None, db_additions = 0, db_deletions = 0\<rparr>"

text \<open>The four local variables every synthesis loop keeps.\<close>

record diff_acc =
  da_text :: rstring
  da_additions :: u64
  da_deletions :: u64
  da_rendered :: nat

definition diff_acc_new :: "rstring \<Rightarrow> diff_acc" where
  "diff_acc_new text = \<lparr>da_text = text, da_additions = 0, da_deletions = 0, da_rendered = 0\<rparr>"

definition diff_render :: "rstring \<Rightarrow> diff_acc \<Rightarrow> diff_acc" where
  "diff_render line acc =
     (if MAX_ACTIVITY_DIFF_LINES \<le> da_rendered acc then acc
      else acc\<lparr>da_rendered := da_rendered acc + 1, da_text := da_text acc @ line @ [10]\<rparr>)"

definition diff_count :: "rstring \<Rightarrow> diff_acc \<Rightarrow> diff_acc" where
  "diff_count line acc =
     (case first_opt line of
        Some c \<Rightarrow>
          if c = 43 then acc\<lparr>da_additions := da_additions acc + 1\<rparr>
          else if c = 45 then acc\<lparr>da_deletions := da_deletions acc + 1\<rparr> else acc
      | None \<Rightarrow> acc)"

definition diff_finish :: "diff_acc \<Rightarrow> diff_body" where
  "diff_finish acc =
     \<lparr>db_text = (if da_text acc \<noteq> [] then Some (da_text acc) else None),
      db_additions = da_additions acc, db_deletions = da_deletions acc\<rparr>"

definition logical_line_count :: "rstring \<Rightarrow> nat" where
  "logical_line_count text = (if text = [] then 0 else length (lines text))"

definition whole_file_diff :: "rstring \<Rightarrow> bool \<Rightarrow> diff_body" where
  "whole_file_diff content added =
     (let total = logical_line_count content in
      if total = 0 then diff_body_EMPTY
      else
        let marker = if added then 43 else 45;
            header = if added then lit ''@@ -0,0 +1,'' @ dec total @ lit '' @@'' @ [10]
                     else lit ''@@ -1,'' @ dec total @ lit '' +0,0 @@'' @ [10] in
        \<lparr>db_text = Some (header @ concat (map (\<lambda>line. marker # line @ [10])
                     (take MAX_ACTIVITY_DIFF_LINES (lines content)))),
         db_additions = (if added then of_nat total else 0),
         db_deletions = (if added then 0 else of_nat total)\<rparr>)"

definition replacement_change :: "diff_acc \<Rightarrow> change_tag \<times> rstring \<Rightarrow> diff_acc" where
  "replacement_change acc change =
     (case change of (tag, value) \<Rightarrow>
        let marker = (case tag of TagEqual \<Rightarrow> 32 | TagDelete \<Rightarrow> 45 | TagInsert \<Rightarrow> 43);
            acc = (case tag of
                TagEqual \<Rightarrow> acc
              | TagDelete \<Rightarrow> acc\<lparr>da_deletions := da_deletions acc + 1\<rparr>
              | TagInsert \<Rightarrow> acc\<lparr>da_additions := da_additions acc + 1\<rparr>) in
        diff_render (marker # value) acc)"

definition replacement_group :: "diff_acc \<Rightarrow> (change_tag \<times> rstring) list list \<Rightarrow> diff_acc" where
  "replacement_group acc ops =
     (let acc = (if da_rendered acc < MAX_ACTIVITY_DIFF_LINES
                 then acc\<lparr>da_text := da_text acc @ lit ''@@'' @ [10]\<rparr> else acc) in
      foldl (\<lambda>acc op. foldl replacement_change acc op) acc ops)"

definition replacement_diff :: "lib \<Rightarrow> rstring \<Rightarrow> rstring \<Rightarrow> diff_body" where
  "replacement_diff L old new =
     diff_finish (foldl replacement_group (diff_acc_new [])
       (lib_diff L ACTIVITY_DIFF_CONTEXT_LINES (lines old) (lines new)))"

definition normalize_unified_diff :: "rstring \<Rightarrow> diff_body" where
  "normalize_unified_diff diff =
     (let in_hunk = \<not> list_ex (starts_with (lit ''@@'')) (lines diff);
          acc = diff_acc_new (if in_hunk then lit ''@@'' @ [10] else []) in
      diff_finish (snd (foldl (\<lambda>(in_hunk, acc) line.
        if \<not> in_hunk then
          (if \<not> starts_with (lit ''@@'') line then (in_hunk, acc)
           else (True, diff_render line acc))
        else (in_hunk, diff_render line (diff_count line acc)))
        (in_hunk, acc) (lines diff))))"

text \<open>The hunks a provider positioned itself: each has start lines and its own body lines.\<close>

definition hunk_number :: "json \<Rightarrow> string list \<Rightarrow> u64 \<Rightarrow> u64" where
  "hunk_number hunk keys fallback =
     unwrap_or (find_map (\<lambda>key. Option.bind (value_get hunk key) as_u64) keys) fallback"

definition structured_hunk :: "diff_acc \<Rightarrow> json \<Rightarrow> diff_acc" where
  "structured_hunk acc hunk =
     (case Option.bind (value_get hunk ''lines'') as_array of
        None \<Rightarrow> acc
      | Some ls \<Rightarrow>
          let acc = (if da_rendered acc < MAX_ACTIVITY_DIFF_LINES
              then acc\<lparr>da_text := da_text acc
                  @ lit ''@@ -'' @ dec (unat (hunk_number hunk [''oldStart'', ''old_start''] 1))
                  @ lit '','' @ dec (unat (hunk_number hunk [''oldLines'', ''old_lines''] (of_nat (length ls))))
                  @ lit '' +'' @ dec (unat (hunk_number hunk [''newStart'', ''new_start''] 1))
                  @ lit '','' @ dec (unat (hunk_number hunk [''newLines'', ''new_lines''] (of_nat (length ls))))
                  @ lit '' @@'' @ [10]\<rparr>
              else acc) in
          foldl (\<lambda>acc line. diff_render line (diff_count line acc)) acc (List.map_filter as_str ls))"

definition structured_patch_diff :: "json list \<Rightarrow> diff_body" where
  "structured_patch_diff hunks = diff_finish (foldl structured_hunk (diff_acc_new []) hunks)"

definition edit_step :: "lib \<Rightarrow> diff_acc \<Rightarrow> json \<Rightarrow> diff_acc" where
  "edit_step L acc edit =
     (case as_object edit of
        None \<Rightarrow> acc
      | Some edit \<Rightarrow>
          (case (find_map (obj_str edit) [''oldString'', ''old_string'', ''oldStr'', ''old_str'',
                   ''oldText'', ''old_text''],
                 find_map (obj_str edit) [''newString'', ''new_string'', ''newStr'', ''new_str'',
                   ''newText'', ''new_text'']) of
             (Some old, Some new) \<Rightarrow>
               let body = replacement_diff L old new;
                   acc = acc\<lparr>da_additions := da_additions acc + db_additions body,
                             da_deletions := da_deletions acc + db_deletions body\<rparr> in
               (case db_text body of
                  Some text \<Rightarrow>
                    if da_rendered acc < MAX_ACTIVITY_DIFF_LINES
                    then acc\<lparr>da_rendered := da_rendered acc + length (lines text),
                             da_text := da_text acc @ text\<rparr>
                    else acc
                | None \<Rightarrow> acc)
           | _ \<Rightarrow> acc))"

definition edits_diff :: "lib \<Rightarrow> json list \<Rightarrow> diff_body" where
  "edits_diff L edits = diff_finish (foldl (edit_step L) (diff_acc_new []) edits)"

section \<open>Changes kept unique by path\<close>

definition merge_count :: "u64 option \<Rightarrow> u64 option \<Rightarrow> u64 option" where
  "merge_count existing change =
     (case (existing, change) of
        (Some e, Some c) \<Rightarrow> Some (e + c)
      | (None, Some c) \<Rightarrow> Some c
      | _ \<Rightarrow> existing)"

definition merge_into :: "activity_file_change \<Rightarrow> activity_file_change \<Rightarrow> activity_file_change" where
  "merge_into existing change = existing
     \<lparr>fc_additions := merge_count (fc_additions existing) (fc_additions change),
      fc_deletions := merge_count (fc_deletions existing) (fc_deletions change),
      fc_status := opt_or (fc_status existing) (fc_status change),
      fc_diff := (case (fc_diff existing, fc_diff change) of
          (Some d, Some e) \<Rightarrow> Some (d @ e)
        | (None, Some e) \<Rightarrow> Some e
        | _ \<Rightarrow> fc_diff existing)\<rparr>"

definition merge_file_change ::
    "activity_file_change list \<Rightarrow> activity_file_change \<Rightarrow> activity_file_change list" where
  "merge_file_change changes change =
     (if list_ex (\<lambda>item. fc_path item = fc_path change) changes
      then update_first (\<lambda>item. fc_path item = fc_path change) (\<lambda>item. merge_into item change) changes
      else changes @ [change])"

definition extend_file_changes ::
    "activity_file_change list \<Rightarrow> activity_file_change list \<Rightarrow> activity_file_change list" where
  "extend_file_changes changes extracted = foldl merge_file_change changes extracted"

interpretation fc: keyed_vector fc_path merge_into merge_file_change
proof unfold_locales
  fix xs :: "activity_file_change list" and new :: activity_file_change
  have "list_ex (\<lambda>item. fc_path item = fc_path new) xs \<longleftrightarrow> fc_path new \<in> fc_path ` set xs"
    by (metis (mono_tags, lifting) list_ex_iff image_iff)
  then show "fc_path new \<in> fc_path ` set xs \<Longrightarrow> merge_file_change xs new =
      update_first (\<lambda>y. fc_path y = fc_path new) (\<lambda>y. merge_into y new) xs"
    and "fc_path new \<notin> fc_path ` set xs \<Longrightarrow> merge_file_change xs new = xs @ [new]"
    by (simp_all add: merge_file_change_def)
qed (simp add: merge_into_def)

section \<open>Patch text\<close>

definition clean_diff_path :: "rstring \<Rightarrow> rstring" where
  "clean_diff_path path =
     (let p = trim_matches (\<lambda>c. c = 34) (trim path) in
      unwrap_or (opt_or (strip_prefix (lit ''a/'') p) (strip_prefix (lit ''b/'') p)) p)"

record pending_change =
  pc_path :: rstring
  pc_additions :: u64
  pc_deletions :: u64
  pc_count_lines :: bool
  pc_status :: "file_change_status option"
  pc_body :: rstring
  pc_rendered :: nat

definition pending_change_default :: pending_change where
  "pending_change_default = \<lparr>pc_path = [], pc_additions = 0, pc_deletions = 0,
     pc_count_lines = False, pc_status = None, pc_body = [], pc_rendered = 0\<rparr>"

definition pending_keep :: "rstring \<Rightarrow> pending_change \<Rightarrow> pending_change" where
  "pending_keep line p =
     (if MAX_ACTIVITY_DIFF_LINES \<le> pc_rendered p then p
      else p\<lparr>pc_rendered := pc_rendered p + 1, pc_body := pc_body p @ line @ [10]\<rparr>)"

definition pending_finish ::
    "pending_change option \<Rightarrow> activity_file_change list \<Rightarrow> activity_file_change list" where
  "pending_finish pending changes =
     (case pending of
        None \<Rightarrow> changes
      | Some p \<Rightarrow>
          if pc_path p = [] \<or> pc_path p = lit ''/dev/null'' then changes
          else merge_file_change changes
            \<lparr>fc_path = pc_path p, fc_additions = Some (pc_additions p),
             fc_deletions = Some (pc_deletions p), fc_status = pc_status p,
             fc_diff = (if pc_body p \<noteq> [] then Some (pc_body p) else None)\<rparr>)"

definition patch_file_marker :: "rstring \<Rightarrow> (rstring \<times> file_change_status) option" where
  "patch_file_marker line =
     find_map (\<lambda>(p, status). map_option (\<lambda>path. (path, status)) (strip_prefix (lit p) line))
       [(''*** Update File: '', Modified), (''*** Add File: '', Added),
        (''*** Delete File: '', Deleted)]"

text \<open>The header lines a pending change has before its first hunk.\<close>

definition pending_header :: "rstring \<Rightarrow> pending_change \<Rightarrow> pending_change" where
  "pending_header line p =
     (if pc_count_lines p then p
      else if starts_with (lit ''new file mode '') line then p\<lparr>pc_status := Some Added\<rparr>
      else if starts_with (lit ''deleted file mode '') line then p\<lparr>pc_status := Some Deleted\<rparr>
      else p)"

text \<open>A line of a hunk's body.\<close>

definition pending_body_line :: "rstring \<Rightarrow> pending_change \<Rightarrow> pending_change" where
  "pending_body_line line p =
     (if \<not> pc_count_lines p then p
      else if starts_with (lit ''+'') line
      then pending_keep line (p\<lparr>pc_additions := pc_additions p + 1\<rparr>)
      else if starts_with (lit ''-'') line
      then pending_keep line (p\<lparr>pc_deletions := pc_deletions p + 1\<rparr>)
      else if \<not> starts_with (lit '' '') line \<and> line \<noteq> [] \<and> \<not> starts_with [92] line then p
      else pending_keep line p)"

type_synonym patch_state = "pending_change option \<times> activity_file_change list"

definition parse_patch_line :: "patch_state \<Rightarrow> rstring \<Rightarrow> patch_state" where
  "parse_patch_line st line = (case st of (pending, changes) \<Rightarrow>
     case patch_file_marker line of
       Some (path, status) \<Rightarrow>
         (Some (pending_change_default\<lparr>pc_path := trim path, pc_count_lines := True,
            pc_status := Some status\<rparr>),
          pending_finish pending changes)
     | None \<Rightarrow>
     case strip_prefix (lit ''*** Move to: '') line of
       Some path \<Rightarrow> (map_option (\<lambda>p. p\<lparr>pc_path := trim path\<rparr>) pending, changes)
     | None \<Rightarrow>
     case strip_prefix (lit ''diff --git '') line of
       Some paths \<Rightarrow>
         (Some (pending_change_default\<lparr>pc_path :=
            unwrap_or (map_option clean_diff_path (last_opt (split_whitespace paths))) []\<rparr>),
          pending_finish pending changes)
     | None \<Rightarrow>
     if starts_with (lit ''@@'') line
     then (map_option (\<lambda>p. pending_keep line (p\<lparr>pc_count_lines := True\<rparr>)) pending, changes)
     else
       let pending = map_option (pending_header line) pending;
           header = (if (case pending of None \<Rightarrow> True | Some p \<Rightarrow> \<not> pc_count_lines p)
                     then strip_prefix (lit ''+++ '') line else None) in
       case header of
         Some path \<Rightarrow>
           let path = clean_diff_path path in
           if path = lit ''/dev/null'' then (pending, changes)
           else (Some ((case pending of None \<Rightarrow> pending_change_default | Some p \<Rightarrow> p)
                   \<lparr>pc_path := path\<rparr>), changes)
       | None \<Rightarrow> (map_option (pending_body_line line) pending, changes))"

definition parse_patch_file_changes :: "rstring \<Rightarrow> activity_file_change list" where
  "parse_patch_file_changes patch =
     (let (pending, changes) = foldl parse_patch_line (None, []) (lines patch)
      in pending_finish pending changes)"

definition apply_patch_command_body :: "rstring \<Rightarrow> rstring option" where
  "apply_patch_command_body command =
     (if \<not> contains_str (lit ''apply_patch'') command then None
      else case find_str (lit ''*** Begin Patch'') command of
        None \<Rightarrow> None
      | Some start \<Rightarrow>
          let rest = drop start command in
          Some (case find_str (lit ''*** End Patch'') rest of
              None \<Rightarrow> rest
            | Some offset \<Rightarrow> take (offset + length (lit ''*** End Patch'')) rest))"

section \<open>Structured changes\<close>

definition change_status_of :: "rstring option \<Rightarrow> file_change_status option" where
  "change_status_of change_type =
     (case change_type of
        None \<Rightarrow> None
      | Some t \<Rightarrow>
          if lits [''add'', ''create'', ''added'', ''write''] t then Some Added
          else if lits [''delete'', ''deleted'', ''remove''] t then Some Deleted
          else if lits [''update'', ''edit'', ''modify'', ''modified''] t then Some Modified
          else None)"

text \<open>The body of a change, in the order of preference of the source.\<close>

definition structured_change_body ::
    "lib \<Rightarrow> (rstring \<times> json) list \<Rightarrow> file_change_status option \<Rightarrow> diff_body" where
  "structured_change_body L object status =
     (let patch = find_map (obj_str object) [''diff'', ''unifiedDiff'', ''unified_diff''];
          old = find_map (obj_str object) [''oldString'', ''old_string'', ''oldStr'', ''old_str'',
            ''oldText'', ''old_text'', ''oldContent'', ''old_content'', ''oldSource'', ''old_source''];
          new = find_map (obj_str object) [''newString'', ''new_string'', ''newStr'', ''new_str'',
            ''newText'', ''new_text'', ''newContent'', ''new_content'', ''newSource'', ''new_source''];
          whole_file = (if status = Some Added \<or> status = Some Deleted
            then opt_or (obj_str object ''content'') patch else None);
          hunks = opt_filter (\<lambda>hunks. hunks \<noteq> [])
            (Option.bind (opt_or (obj_get object ''structuredPatch'')
               (obj_get object ''structured_patch'')) as_array) in
      case hunks of Some hunks \<Rightarrow> structured_patch_diff hunks
      | None \<Rightarrow>
      case whole_file of Some content \<Rightarrow> whole_file_diff content (status = Some Added)
      | None \<Rightarrow>
      case patch of Some patch \<Rightarrow> normalize_unified_diff patch
      | None \<Rightarrow>
      case (old, new) of (Some old, Some new) \<Rightarrow> replacement_diff L old new
      | _ \<Rightarrow>
      case Option.bind (obj_get object ''edits'') as_array of Some edits \<Rightarrow> edits_diff L edits
      | None \<Rightarrow>
      case obj_str object ''content'' of Some content \<Rightarrow> whole_file_diff content True
      | None \<Rightarrow> diff_body_EMPTY)"

definition structured_file_change ::
    "lib \<Rightarrow> json \<Rightarrow> rstring option \<Rightarrow> activity_file_change option" where
  "structured_file_change L v fallback_path =
     (case as_object v of
        None \<Rightarrow> None
      | Some object \<Rightarrow>
          (case opt_or (find_map (obj_str object) [''path'', ''filePath'', ''file_path'',
              ''filename'', ''fileName'', ''targetFile'', ''target_file'', ''notebookPath'',
              ''notebook_path'']) fallback_path of
             None \<Rightarrow> None
           | Some path \<Rightarrow>
               if trim path = [] then None
               else
                 let status = change_status_of
                       (opt_or (Option.bind (obj_get object ''kind'') (\<lambda>kind.
                          opt_or (as_str kind) (Option.bind (value_get kind ''type'') as_str)))
                        (obj_str object ''type''));
                     body = structured_change_body L object status in
                 Some \<lparr>fc_path = trim path,
                       fc_additions = map_option (\<lambda>_. db_additions body) (db_text body),
                       fc_deletions = map_option (\<lambda>_. db_deletions body) (db_text body),
                       fc_status = status, fc_diff = db_text body\<rparr>))"

text \<open>
  The walk over a tool's JSON input. It stops below depth four, which also ends the recursion
  through strings that hold JSON text.
\<close>

definition extend_from_patches ::
    "(rstring \<times> json) list \<Rightarrow> string list \<Rightarrow> activity_file_change list \<Rightarrow> activity_file_change list" where
  "extend_from_patches object keys changes =
     foldl (\<lambda>changes key. case obj_str object key of
         Some patch \<Rightarrow> extend_file_changes changes (parse_patch_file_changes patch)
       | None \<Rightarrow> changes) changes keys"

function extract_file_changes_from_value ::
    "lib \<Rightarrow> json \<Rightarrow> activity_file_change list \<Rightarrow> nat \<Rightarrow> activity_file_change list" where
  "extract_file_changes_from_value L v changes depth =
     (if 4 < depth then changes
      else case v of
        JString text \<Rightarrow>
          (case lib_from_str L text of
             Some nested \<Rightarrow> extract_file_changes_from_value L nested changes (depth + 1)
           | None \<Rightarrow> extend_file_changes changes (parse_patch_file_changes text))
      | JArray items \<Rightarrow>
          foldl (\<lambda>changes item. case structured_file_change L item None of
              Some change \<Rightarrow> merge_file_change changes change
            | None \<Rightarrow> extract_file_changes_from_value L item changes (depth + 1)) changes items
      | JObject object \<Rightarrow>
          let changes = foldl (\<lambda>changes key. case obj_get object key of
                Some (JArray items) \<Rightarrow>
                  foldl (\<lambda>changes item. case structured_file_change L item None of
                      Some change \<Rightarrow> merge_file_change changes change
                    | None \<Rightarrow> extract_file_changes_from_value L item changes (depth + 1))
                    changes items
              | Some (JObject items) \<Rightarrow>
                  foldl (\<lambda>changes (path, item). case structured_file_change L item (Some path) of
                      Some change \<Rightarrow> merge_file_change changes change
                    | None \<Rightarrow> changes) changes items
              | _ \<Rightarrow> changes)
              changes [''changes'', ''fileChanges'', ''file_changes''];
            changes = extend_from_patches object [''patch'', ''patchText'', ''patch_text''] changes;
            changes = (case structured_file_change L v None of
                None \<Rightarrow> extend_from_patches object [''diff'', ''unifiedDiff'', ''unified_diff''] changes
              | Some change \<Rightarrow> merge_file_change changes change) in
          foldl (\<lambda>changes key. case obj_get object key of
              Some nested \<Rightarrow> extract_file_changes_from_value L nested changes (depth + 1)
            | None \<Rightarrow> changes)
            changes [''arguments'', ''args'', ''input'', ''rawInput'', ''raw_input'', ''toolInput'',
              ''tool_input'']
      | _ \<Rightarrow> changes)"
  by pat_completeness auto
termination
  by (relation "measure (\<lambda>(_, _, _, depth). 5 - depth)") auto

declare extract_file_changes_from_value.simps [simp del]

section \<open>Lemmas\<close>

text \<open>What every list of changes satisfies: a nonempty path, and counts beside every diff.\<close>

definition change_ok :: "activity_file_change \<Rightarrow> bool" where
  "change_ok c \<longleftrightarrow> fc_path c \<noteq> [] \<and>
     (fc_diff c \<noteq> None \<longrightarrow> fc_additions c \<noteq> None \<and> fc_deletions c \<noteq> None)"

definition changes_ok :: "activity_file_change list \<Rightarrow> bool" where
  "changes_ok cs \<longleftrightarrow> distinct (map fc_path cs) \<and> (\<forall>c\<in>set cs. change_ok c)"

lemma changes_ok_Nil [simp]: "changes_ok []"
  by (simp add: changes_ok_def)

lemma change_ok_merge_into: "change_ok a \<Longrightarrow> change_ok b \<Longrightarrow> change_ok (merge_into a b)"
  by (auto simp: change_ok_def merge_into_def merge_count_def split: option.splits)

lemma changes_ok_merge [inv_intros]:
  "changes_ok cs \<Longrightarrow> change_ok c \<Longrightarrow> changes_ok (merge_file_change cs c)"
  using fc.distinct_put [of cs c]
  by (auto simp: changes_ok_def merge_file_change_def dest!: set_update_firstD
      intro: change_ok_merge_into)

lemma changes_ok_extend [inv_intros]:
  "changes_ok cs \<Longrightarrow> \<forall>c\<in>set ds. change_ok c \<Longrightarrow> changes_ok (extend_file_changes cs ds)"
  unfolding extend_file_changes_def by (rule foldl_inv) (auto intro: changes_ok_merge)

lemma changes_ok_finish [inv_intros]: "changes_ok cs \<Longrightarrow> changes_ok (pending_finish p cs)"
  by (auto simp: pending_finish_def change_ok_def intro: changes_ok_merge split: option.splits)

lemma changes_ok_parse_line: "changes_ok (snd st) \<Longrightarrow> changes_ok (snd (parse_patch_line st line))"
  by (auto simp: parse_patch_line_def Let_def changes_ok_finish
      split: prod.splits option.splits if_splits)

lemma changes_ok_parse [inv_intros]: "changes_ok (parse_patch_file_changes patch)"
proof -
  have "changes_ok (snd (foldl parse_patch_line (None, []) (lines patch)))"
    by (rule foldl_inv) (auto intro: changes_ok_parse_line)
  then show ?thesis
    by (cases "foldl parse_patch_line (None, []) (lines patch)")
      (simp add: parse_patch_file_changes_def changes_ok_finish)
qed

lemma change_ok_parse: "c \<in> set (parse_patch_file_changes patch) \<Longrightarrow> change_ok c"
  using changes_ok_parse by (auto simp: changes_ok_def)

lemma change_ok_structured: "structured_file_change L v fb = Some c \<Longrightarrow> change_ok c"
  by (auto simp: structured_file_change_def Let_def change_ok_def split: option.splits if_splits)

lemma changes_ok_patches [inv_intros]:
  "changes_ok cs \<Longrightarrow> changes_ok (extend_from_patches object keys cs)"
  unfolding extend_from_patches_def
  by (rule foldl_inv) (auto intro!: changes_ok_extend change_ok_parse split: option.splits)

lemma changes_ok_extract: "changes_ok cs \<Longrightarrow> changes_ok (extract_file_changes_from_value L v cs d)"
proof (induction "5 - d" arbitrary: v cs d rule: less_induct)
  case less
  show ?case
  proof (cases "4 < d")
    case True
    with less.prems show ?thesis by (simp add: extract_file_changes_from_value.simps [of L v])
  next
    case False
    have IH: "changes_ok as \<Longrightarrow> changes_ok (extract_file_changes_from_value L w as (d + 1))" for w as
      by (rule less.hyps) (use False in auto)
    have items: "changes_ok as \<Longrightarrow>
        changes_ok (foldl (\<lambda>changes item. case structured_file_change L item None of
              Some change \<Rightarrow> merge_file_change changes change
            | None \<Rightarrow> extract_file_changes_from_value L item changes (d + 1)) as js)" for as js
      by (rule foldl_inv) (auto intro: changes_ok_merge change_ok_structured IH [simplified] split: option.splits)
    have fields: "changes_ok as \<Longrightarrow>
        changes_ok (foldl (\<lambda>changes (path, item). case structured_file_change L item (Some path) of
                      Some change \<Rightarrow> merge_file_change changes change
                    | None \<Rightarrow> changes) as js)" for as js
      by (rule foldl_inv) (auto intro!: changes_ok_merge elim: change_ok_structured split: option.splits)
    show ?thesis
    proof (cases v)
      case (JString t)
      with False less.prems show ?thesis
        by (auto simp: extract_file_changes_from_value.simps [of L "JString t"] intro: IH [simplified] changes_ok_extend
            change_ok_parse split: option.splits)
    next
      case (JArray js)
      with False show ?thesis
        using items [OF less.prems] by (simp add: extract_file_changes_from_value.simps [of L "JArray js"])
    next
      case (JObject m)
      have colls: "changes_ok as \<Longrightarrow> changes_ok (foldl (\<lambda>changes key. case obj_get m key of
                Some (JArray items) \<Rightarrow>
                  foldl (\<lambda>changes item. case structured_file_change L item None of
                      Some change \<Rightarrow> merge_file_change changes change
                    | None \<Rightarrow> extract_file_changes_from_value L item changes (d + 1))
                    changes items
              | Some (JObject items) \<Rightarrow>
                  foldl (\<lambda>changes (path, item). case structured_file_change L item (Some path) of
                      Some change \<Rightarrow> merge_file_change changes change
                    | None \<Rightarrow> changes) changes items
              | _ \<Rightarrow> changes) as keys)" for as keys
        by (rule foldl_inv) (simp_all add: items [simplified] fields split: option.split json.split)
      have nested: "changes_ok as \<Longrightarrow> changes_ok (foldl (\<lambda>changes key. case obj_get m key of
              Some nested \<Rightarrow> extract_file_changes_from_value L nested changes (d + 1)
            | None \<Rightarrow> changes) as keys)" for as keys
        by (rule foldl_inv) (simp_all add: IH [simplified] split: option.split)
      have own: "changes_ok as \<Longrightarrow> changes_ok (case structured_file_change L (JObject m) None of
                None \<Rightarrow> extend_from_patches m keys as
              | Some change \<Rightarrow> merge_file_change as change)" for as keys
        by (auto intro: changes_ok_patches changes_ok_merge change_ok_structured split: option.split)
      show ?thesis
        unfolding JObject extract_file_changes_from_value.simps [of L "JObject m"] Let_def json.case
          if_not_P [OF False]
        by (intro nested own changes_ok_patches colls less.prems)
    qed (use False less.prems in \<open>simp_all add: extract_file_changes_from_value.simps [of L _ _ d]\<close>)
  qed
qed


text \<open>A patch in the dialect of \<open>apply_patch\<close>, one section per file, and what it says.\<close>

record patch_section =
  ps_status :: file_change_status
  ps_path :: rstring
  ps_body :: "rstring list"

definition section_marker :: "file_change_status \<Rightarrow> rstring" where
  "section_marker st = (case st of
       Modified \<Rightarrow> lit ''*** Update File: ''
     | Added \<Rightarrow> lit ''*** Add File: ''
     | Deleted \<Rightarrow> lit ''*** Delete File: '')"

definition section_lines :: "patch_section \<Rightarrow> rstring list" where
  "section_lines sec = (section_marker (ps_status sec) @ ps_path sec) # ps_body sec"

definition print_patch :: "patch_section list \<Rightarrow> rstring" where
  "print_patch secs = unlines (lit ''*** Begin Patch'' # concat (map section_lines secs)
     @ [lit ''*** End Patch''])"

definition marked :: "rchar \<Rightarrow> rstring list \<Rightarrow> nat" where
  "marked c ls = length (filter (\<lambda>l. first_opt l = Some c) ls)"

definition section_change :: "patch_section \<Rightarrow> activity_file_change" where
  "section_change sec =
     \<lparr>fc_path = ps_path sec, fc_additions = Some (of_nat (marked 43 (ps_body sec))),
      fc_deletions = Some (of_nat (marked 45 (ps_body sec))), fc_status = Some (ps_status sec),
      fc_diff = (if ps_body sec = [] then None
        else Some (unlines (take MAX_ACTIVITY_DIFF_LINES (ps_body sec))))\<rparr>"

definition body_line_ok :: "rstring \<Rightarrow> bool" where
  "body_line_ok l \<longleftrightarrow> is_line l \<and>
     (l = [] \<or> starts_with (lit ''@@'') l \<or> hd l = 32 \<or> hd l = 43 \<or> hd l = 45 \<or> hd l = 92)"

definition section_ok :: "patch_section \<Rightarrow> bool" where
  "section_ok sec \<longleftrightarrow> is_line (ps_path sec) \<and> trim (ps_path sec) = ps_path sec \<and> ps_path sec \<noteq> [] \<and>
     ps_path sec \<noteq> lit ''/dev/null'' \<and> (\<forall>l\<in>set (ps_body sec). body_line_ok l)"

lemma strip_prefix_append [simp]: "strip_prefix p (p @ s) = Some s"
  by (simp add: strip_prefix_Some)

lemma marker_no_match:
  "l = [] \<or> hd l \<noteq> hd p \<Longrightarrow> p \<noteq> [] \<Longrightarrow> strip_prefix p l = None"
  by (cases l; cases p) auto

text \<open>What one body line does to a pending change whose lines count.\<close>

definition pending_add :: "rstring \<Rightarrow> pending_change \<Rightarrow> pending_change" where
  "pending_add l p = pending_keep l (p\<lparr>
     pc_additions := pc_additions p + (if first_opt l = Some 43 then 1 else 0),
     pc_deletions := pc_deletions p + (if first_opt l = Some 45 then 1 else 0)\<rparr>)"

lemma parse_body_line:
  assumes "body_line_ok l" "pc_count_lines p"
  shows "parse_patch_line (Some p, cs) l = (Some (pending_add l p), cs)"
proof -
  have hd: "l \<noteq> [] \<Longrightarrow> hd l \<in> {32, 43, 45, 64, 92}"
    using assms(1) by (auto simp: body_line_ok_def starts_with_iff lit_def)
  then have none: "strip_prefix (lit ''*** Update File: '') l = None"
    "strip_prefix (lit ''*** Add File: '') l = None" "strip_prefix (lit ''*** Delete File: '') l = None"
    "strip_prefix (lit ''*** Move to: '') l = None" "strip_prefix (lit ''diff --git '') l = None"
    by (intro marker_no_match; auto simp: lit_def)+
  have self: "p\<lparr>pc_count_lines := True\<rparr> = p" using assms(2) by simp
  show ?thesis
  proof (cases "starts_with (lit ''@@'') l")
    case True
    then have "first_opt l = Some 64" by (auto simp: starts_with_iff lit_def first_opt_def)
    with True none self show ?thesis
      by (simp add: parse_patch_line_def patch_file_marker_def pending_add_def)
  next
    case False
    with none assms hd show ?thesis
      by (cases l) (auto simp: parse_patch_line_def patch_file_marker_def pending_header_def
          pending_body_line_def pending_add_def body_line_ok_def starts_with_def first_opt_def lit_def)
  qed
qed

lemma pending_add_count: "pc_count_lines (pending_add l p) = pc_count_lines p"
  by (simp add: pending_add_def pending_keep_def)

lemma parse_body_lines:
  assumes "\<forall>l\<in>set ls. body_line_ok l" "pc_count_lines p"
  shows "foldl parse_patch_line (Some p, cs) ls = (Some (foldl (\<lambda>p l. pending_add l p) p ls), cs)"
  using assms by (induction ls arbitrary: p) (simp_all add: parse_body_line pending_add_count)

lemma marked_simps [simp]:
  "marked c [] = 0" "marked c (l # ls) = (if first_opt l = Some c then 1 else 0) + marked c ls"
  by (simp_all add: marked_def)

lemma pending_adds:
  "pc_rendered p \<le> MAX_ACTIVITY_DIFF_LINES \<Longrightarrow> foldl (\<lambda>p l. pending_add l p) p ls = p\<lparr>
     pc_additions := pc_additions p + of_nat (marked 43 ls),
     pc_deletions := pc_deletions p + of_nat (marked 45 ls),
     pc_body := pc_body p @ unlines (take (MAX_ACTIVITY_DIFF_LINES - pc_rendered p) ls),
     pc_rendered := min MAX_ACTIVITY_DIFF_LINES (pc_rendered p + length ls)\<rparr>"
proof (induction ls arbitrary: p)
  case Nil
  then show ?case by simp
next
  case (Cons l ls)
  show ?case
  proof (cases "pc_rendered p < MAX_ACTIVITY_DIFF_LINES")
    case True
    then obtain k where k: "MAX_ACTIVITY_DIFF_LINES - pc_rendered p = Suc k"
      "MAX_ACTIVITY_DIFF_LINES - Suc (pc_rendered p) = k"
      by (metis Suc_diff_Suc)
    from True have "pc_rendered (pending_add l p) \<le> MAX_ACTIVITY_DIFF_LINES"
      by (simp add: pending_add_def pending_keep_def)
    from Cons.IH [OF this] True k show ?thesis by (simp add: pending_add_def pending_keep_def add_ac)
  next
    case False
    with Cons.prems have eq: "pc_rendered p = MAX_ACTIVITY_DIFF_LINES" by simp
    have "pc_rendered (pending_add l p) \<le> MAX_ACTIVITY_DIFF_LINES"
      by (simp add: pending_add_def pending_keep_def eq)
    from Cons.IH [OF this] eq show ?thesis by (simp add: pending_add_def pending_keep_def add_ac)
  qed
qed

lemma patch_file_marker_section:
  "patch_file_marker (section_marker st @ path) = Some (path, st)"
proof -
  have "strip_prefix (lit ''*** Update File: '') (lit ''*** Add File: '' @ path) = None"
    "strip_prefix (lit ''*** Update File: '') (lit ''*** Delete File: '' @ path) = None"
    "strip_prefix (lit ''*** Add File: '') (lit ''*** Delete File: '' @ path) = None"
    by (simp_all add: lit_def)
  then show ?thesis
    by (cases st) (simp_all add: patch_file_marker_def section_marker_def)
qed

definition section_pending :: "patch_section \<Rightarrow> pending_change" where
  "section_pending sec = pending_change_default\<lparr>pc_path := ps_path sec, pc_count_lines := True,
     pc_status := Some (ps_status sec), pc_additions := of_nat (marked 43 (ps_body sec)),
     pc_deletions := of_nat (marked 45 (ps_body sec)),
     pc_body := unlines (take MAX_ACTIVITY_DIFF_LINES (ps_body sec)),
     pc_rendered := min MAX_ACTIVITY_DIFF_LINES (length (ps_body sec))\<rparr>"

lemma parse_section:
  assumes "section_ok sec"
  shows "foldl parse_patch_line (pending, cs) (section_lines sec) =
    (Some (section_pending sec), pending_finish pending cs)"
proof -
  let ?p = "pending_change_default\<lparr>pc_path := ps_path sec, pc_count_lines := True,
            pc_status := Some (ps_status sec)\<rparr>"
  have "parse_patch_line (pending, cs) (section_marker (ps_status sec) @ ps_path sec) =
      (Some ?p, pending_finish pending cs)"
    using assms by (simp add: parse_patch_line_def patch_file_marker_section section_ok_def)
  moreover have "foldl (\<lambda>p l. pending_add l p) ?p (ps_body sec) = section_pending sec"
    by (subst pending_adds) (simp_all add: section_pending_def pending_change_default_def)
  ultimately show ?thesis
    using assms parse_body_lines [of "ps_body sec" ?p]
    by (simp add: section_lines_def section_ok_def)
qed

lemma finish_section:
  assumes "section_ok sec" "ps_path sec \<notin> set (map fc_path cs)"
  shows "pending_finish (Some (section_pending sec)) cs = cs @ [section_change sec]"
proof -
  have "\<not> list_ex (\<lambda>item. fc_path item = ps_path sec) cs" using assms(2) by (force simp: list_ex_iff)
  moreover have "unlines (take MAX_ACTIVITY_DIFF_LINES (ps_body sec)) = [] \<longleftrightarrow> ps_body sec = []"
    by (simp add: MAX_ACTIVITY_DIFF_LINES_def)
  ultimately show ?thesis
    using assms(1) by (simp add: pending_finish_def section_pending_def section_change_def section_ok_def
        merge_file_change_def pending_change_default_def)
qed

lemma parse_sections:
  assumes "\<forall>sec\<in>set secs. section_ok sec" "distinct (map ps_path secs)"
    and "set (map ps_path secs) \<inter> set (map fc_path (pending_finish pending cs)) = {}"
  shows "(let (pending, cs) = foldl parse_patch_line (pending, cs) (concat (map section_lines secs))
          in pending_finish pending cs) = pending_finish pending cs @ map section_change secs"
  using assms
proof (induction secs arbitrary: pending cs)
  case Nil
  then show ?case by simp
next
  case (Cons sec secs)
  have fin: "pending_finish (Some (section_pending sec)) (pending_finish pending cs) =
      pending_finish pending cs @ [section_change sec]"
    using Cons.prems by (intro finish_section) auto
  have "fc_path (section_change sec) = ps_path sec" by (simp add: section_change_def)
  with Cons.prems Cons.IH [of "Some (section_pending sec)" "pending_finish pending cs"]
  show ?case by (auto simp: parse_section fin)
qed

lemma parse_patch_exact:
  assumes "\<forall>sec\<in>set secs. section_ok sec" and "distinct (map ps_path secs)"
  shows "parse_patch_file_changes (print_patch secs) = map section_change secs"
proof -
  have sec: "is_line (section_marker (ps_status sec) @ ps_path sec)" if "sec \<in> set secs" for sec
    using assms(1) that
    by (auto simp: section_ok_def is_line_def section_marker_def lit_def split: file_change_status.splits)
  have "\<forall>l\<in>set (concat (map section_lines secs)). is_line l"
    using assms(1) sec by (auto simp: section_lines_def section_ok_def body_line_ok_def)
  then have "lines (print_patch secs) =
      lit ''*** Begin Patch'' # concat (map section_lines secs) @ [lit ''*** End Patch'']"
    unfolding print_patch_def by (intro lines_unlines) (auto simp: is_line_def lit_def)
  moreover have "parse_patch_line (None, []) (lit ''*** Begin Patch'') = (None, [])"
    by (simp add: parse_patch_line_def patch_file_marker_def starts_with_def lit_def)
  moreover obtain p cs where st:
    "foldl parse_patch_line (None, []) (concat (map section_lines secs)) = (p, cs)" by fastforce
  moreover have "pending_finish (fst (parse_patch_line (p, cs) (lit ''*** End Patch'')))
      (snd (parse_patch_line (p, cs) (lit ''*** End Patch''))) = pending_finish p cs"
    by (cases p) (auto simp: parse_patch_line_def patch_file_marker_def starts_with_def lit_def
        pending_header_def pending_body_line_def pending_finish_def)
  moreover have "pending_finish p cs = map section_change secs"
    using parse_sections [OF assms, of None "[]"] st by (simp add: pending_finish_def)
  ultimately show ?thesis
    by (simp add: parse_patch_file_changes_def split_def)
qed



text \<open>
  Whatever JSON a tool call carries, the changes read out of it name every file once, never
  with an empty path, and every change that holds a diff holds both counts.
\<close>

theorem extracted_changes_ok:
  "distinct (map fc_path (extract_file_changes_from_value L v [] 0)) \<and>
   list_all (\<lambda>c. fc_path c \<noteq> [] \<and>
      \<not> (fc_diff c \<noteq> None \<and> (fc_additions c = None \<or> fc_deletions c = None)))
     (extract_file_changes_from_value L v [] 0)"
  using changes_ok_extract [of "[]" L v 0]
  by (auto simp: changes_ok_def change_ok_def list_all_iff)


subsection \<open>Replacements\<close>

definition change_line :: "change_tag \<times> rstring \<Rightarrow> rstring" where
  "change_line c =
     (case fst c of TagEqual \<Rightarrow> 32 | TagDelete \<Rightarrow> 45 | TagInsert \<Rightarrow> 43) # snd c"

definition tag_count :: "change_tag \<Rightarrow> (change_tag \<times> rstring) list \<Rightarrow> nat" where
  "tag_count t cs = length (filter (\<lambda>c. fst c = t) cs)"

lemma tag_count_simps [simp]:
  "tag_count t [] = 0" "tag_count t (c # cs) = (if fst c = t then 1 else 0) + tag_count t cs"
  "tag_count t (as @ bs) = tag_count t as + tag_count t bs"
  by (simp_all add: tag_count_def)

lemma diff_render_counts [simp]:
  "da_additions (diff_render l acc) = da_additions acc"
  "da_deletions (diff_render l acc) = da_deletions acc"
  by (simp_all add: diff_render_def)

lemma replacement_changes_counts:
  "da_additions (foldl replacement_change acc cs) = da_additions acc + of_nat (tag_count TagInsert cs) \<and>
   da_deletions (foldl replacement_change acc cs) = da_deletions acc + of_nat (tag_count TagDelete cs)"
  by (induction cs arbitrary: acc)
    (auto simp: replacement_change_def Let_def add_ac split: change_tag.splits)

lemma foldl_concat: "foldl (\<lambda>acc op. foldl f acc op) a xss = foldl f a (concat xss)"
  by (induction xss arbitrary: a) simp_all

lemma replacement_groups_counts:
  "da_additions (foldl replacement_group acc gs) =
     da_additions acc + of_nat (tag_count TagInsert (concat (concat gs))) \<and>
   da_deletions (foldl replacement_group acc gs) =
     da_deletions acc + of_nat (tag_count TagDelete (concat (concat gs)))"
  by (induction gs arbitrary: acc)
    (simp_all add: replacement_group_def foldl_concat replacement_changes_counts Let_def add_ac)

lemma replacement_changes_text:
  "da_rendered acc + length cs \<le> MAX_ACTIVITY_DIFF_LINES \<Longrightarrow>
   da_text (foldl replacement_change acc cs) = da_text acc @ unlines (map change_line cs) \<and>
   da_rendered (foldl replacement_change acc cs) = da_rendered acc + length cs"
  by (induction cs arbitrary: acc)
    (auto simp: replacement_change_def Let_def diff_render_def change_line_def
      split: change_tag.splits)

lemma replacement_groups_text:
  "da_rendered acc + length (concat (concat gs)) < MAX_ACTIVITY_DIFF_LINES \<Longrightarrow>
   da_text (foldl replacement_group acc gs) = da_text acc @
     concat (map (\<lambda>g. unlines (lit ''@@'' # map change_line (concat g))) gs) \<and>
   da_rendered (foldl replacement_group acc gs) = da_rendered acc + length (concat (concat gs))"
proof (induction gs arbitrary: acc)
  case Nil
  then show ?case by simp
next
  case (Cons g gs)
  let ?acc = "acc\<lparr>da_text := da_text acc @ lit ''@@'' @ [10]\<rparr>"
  let ?n = "length (concat (concat gs))"
  from Cons.prems have lt: "da_rendered acc < MAX_ACTIVITY_DIFF_LINES"
    and le: "da_rendered ?acc + length (concat g) \<le> MAX_ACTIVITY_DIFF_LINES"
    and tot: "da_rendered acc + length (concat g) + ?n < MAX_ACTIVITY_DIFF_LINES" by simp_all
  have g: "replacement_group acc g = foldl replacement_change ?acc (concat g)"
    using lt by (simp add: replacement_group_def foldl_concat)
  note step = replacement_changes_text [OF le]
  have "da_rendered (replacement_group acc g) + ?n < MAX_ACTIVITY_DIFF_LINES"
    using step tot by (simp add: g)
  from Cons.IH [OF this] step show ?case by (simp add: g)
qed

text \<open>
  The diff of a replacement counts every inserted and every deleted line of the line diff,
  however long the stored body is; below a thousand changes the body is the reference rendering,
  one positionless hunk per group with every change on its own marked line.
\<close>

theorem replacement_diff_reference:
  fixes L :: lib and old new :: rstring
  defines "groups \<equiv> lib_diff L ACTIVITY_DIFF_CONTEXT_LINES (lines old) (lines new)"
  shows "db_additions (replacement_diff L old new) = of_nat (tag_count TagInsert (concat (concat groups))) \<and>
    db_deletions (replacement_diff L old new) = of_nat (tag_count TagDelete (concat (concat groups))) \<and>
    (length (concat (concat groups)) < MAX_ACTIVITY_DIFF_LINES \<longrightarrow> groups \<noteq> [] \<longrightarrow>
      db_text (replacement_diff L old new) =
        Some (concat (map (\<lambda>g. unlines (lit ''@@'' # map change_line (concat g))) groups)))"
proof -
  have "da_rendered (diff_acc_new []) + length (concat (concat groups)) < MAX_ACTIVITY_DIFF_LINES \<Longrightarrow>
      da_text (foldl replacement_group (diff_acc_new []) groups) =
        concat (map (\<lambda>g. unlines (lit ''@@'' # map change_line (concat g))) groups)"
    using replacement_groups_text [of "diff_acc_new []" groups] by (simp add: diff_acc_new_def)
  with replacement_groups_counts [of "diff_acc_new []" groups] show ?thesis
    by (auto simp: replacement_diff_def groups_def [symmetric] diff_finish_def diff_acc_new_def
        neq_Nil_conv)
qed

theorem replacement_diff_reference_witness:
  "db_text (replacement_diff plain_lib (lit ''a'') (lit ''b'')) =
     Some (unlines [lit ''@@'', lit ''-a'', lit ''+b''])"
  using replacement_diff_reference [of plain_lib "lit ''a''" "lit ''b''"]
  by (simp add: plain_lib_def lines_def split_char_def lit_def change_line_def
      MAX_ACTIVITY_DIFF_LINES_def)

end
