(* ===== verification/Activity.thy ===== *)
theory Activity
  imports Patch_Diff
begin

text \<open>
  Building an \<open>ActivityItem\<close> from what a provider reports of a tool call
  (\<open>crates/shidou-protocol/src/model.rs\<close>, \<open>impl ActivityItem\<close> to \<open>compact_activity_target\<close>): the
  target and the command the transcript shows, the output unwrapped from its envelope, and a
  shell command that only applies a patch refiled as a file change.
\<close>

section \<open>Text of a target\<close>

definition compact_activity_target :: "rstring \<Rightarrow> rstring" where
  "compact_activity_target v =
     (let compact = join (lit '' '') (split_whitespace v) in
      if length compact \<le> 240 then compact else take 239 compact @ [ellipsis])"

definition non_empty_activity_text :: "rstring \<Rightarrow> rstring option" where
  "non_empty_activity_text v = (if trim v \<noteq> [] then Some (trim v) else None)"

definition is_generic_activity_title :: "lib \<Rightarrow> activity_kind \<Rightarrow> rstring \<Rightarrow> bool" where
  "is_generic_activity_title L kind title \<longleftrightarrow>
     (kind \<noteq> Tool \<and> activity_kind_from_tool_name title = kind) \<or>
     (case kind of
        Command \<Rightarrow> title = tr L ''activity.run_command''
      | FileChange \<Rightarrow> title = tr L ''activity.edit_file'' \<or> title = tr L ''activity.write_file''
      | FileRead \<Rightarrow> title = tr L ''activity.read_file''
      | FileSearch \<Rightarrow> title = tr L ''activity.search_files'' \<or> title = tr L ''activity.find_files''
      | FileList \<Rightarrow> title = tr L ''activity.list_files''
      | Activity_Plan \<Rightarrow> title = tr L ''activity.plan_updated''
      | Tool \<Rightarrow> eq_ignore_ascii_case title (lit ''tool'') \<or> title = tr L ''activity.tool''
      | _ \<Rightarrow> False)"

definition fallback_activity_display_target ::
    "lib \<Rightarrow> activity_kind \<Rightarrow> rstring \<Rightarrow> rstring option" where
  "fallback_activity_display_target L kind title =
     (let title = trim title in
      if title = [] \<or> is_generic_activity_title L kind title then None
      else if (kind = FileRead \<or> kind = FileList) \<and>
          (47 \<in> set title \<or> 92 \<in> set title \<or> path_extension title \<noteq> None)
      then Some (compact_activity_target title) else None)"

section \<open>Searching a tool's input\<close>

lemma find_map_cong [fundef_cong]:
  "xs = ys \<Longrightarrow> (\<And>x. x \<in> set ys \<Longrightarrow> f x = g x) \<Longrightarrow> find_map f xs = find_map g ys"
  by (induction xs arbitrary: ys) (auto split: option.splits)

lemma map_filter_fundef_cong [fundef_cong]:
  "xs = ys \<Longrightarrow> (\<And>x. x \<in> set ys \<Longrightarrow> f x = g x) \<Longrightarrow> List.map_filter f xs = List.map_filter g ys"
  by (simp add: List.map_filter_def cong: filter_cong)

lemma opt_or_cong [fundef_cong]:
  "a = a' \<Longrightarrow> (a' = None \<Longrightarrow> b = b') \<Longrightarrow> opt_or a b = opt_or a' b'"
  by (cases a') auto

definition nonblank_string :: "json \<Rightarrow> rstring option" where
  "nonblank_string v =
     opt_or (opt_filter (\<lambda>s. trim s \<noteq> []) (as_str v))
       (Option.bind (as_array v) (\<lambda>vs. List.find (\<lambda>s. trim s \<noteq> []) (List.map_filter as_str vs)))"

function find_activity_string :: "lib \<Rightarrow> json \<Rightarrow> string list \<Rightarrow> nat \<Rightarrow> rstring option" where
  "find_activity_string L v keys depth =
     (if 4 < depth then None
      else case v of
        JString s \<Rightarrow>
          opt_or (Option.bind (lib_from_str L s)
              (\<lambda>nested. find_activity_string L nested keys (depth + 1)))
            (non_empty_activity_text s)
      | JArray vs \<Rightarrow> find_map (\<lambda>v. find_activity_string L v keys (depth + 1)) vs
      | JObject object \<Rightarrow>
          opt_or (find_map (\<lambda>key. Option.bind (obj_get object key) nonblank_string) keys)
            (find_map (\<lambda>key. Option.bind (obj_get object key)
                (\<lambda>v. find_activity_string L v keys (depth + 1)))
              [''action'', ''arguments'', ''args'', ''input'', ''params'', ''rawInput'', ''raw_input'',
               ''toolInput'', ''tool_input''])
      | _ \<Rightarrow> None)"
  by pat_completeness auto
termination
  by (relation "measure (\<lambda>(_, _, _, depth). 5 - depth)") auto

declare find_activity_string.simps [simp del]

definition extract_activity_display_target :: "lib \<Rightarrow> activity_kind \<Rightarrow> json \<Rightarrow> rstring option" where
  "extract_activity_display_target L kind source =
     (let target = (\<lambda>keys. map_option compact_activity_target (find_activity_string L source keys 0)) in
      case kind of
        Command \<Rightarrow> target [''command'', ''cmd'']
      | FileRead \<Rightarrow> target [''filePath'', ''file_path'', ''path'', ''targetFile'', ''target_file'',
          ''notebookPath'', ''notebook_path'']
      | FileSearch \<Rightarrow> target [''pattern'', ''query'', ''regex'', ''glob'']
      | FileList \<Rightarrow> target [''path'', ''directory'', ''dir'', ''root'']
      | Search \<Rightarrow> target [''query'', ''queries'']
      | Tool \<Rightarrow> target [''title'']
      | _ \<Rightarrow> None)"

definition normalize_command_activity_command :: "lib \<Rightarrow> rstring \<Rightarrow> rstring option" where
  "normalize_command_activity_command L source =
     (let source = trim source in
      if source = [] then None
      else case lib_from_str L source of
        None \<Rightarrow> Some source
      | Some v \<Rightarrow>
          (case v of
             JString command \<Rightarrow> non_empty_activity_text command
           | JArray parts \<Rightarrow>
               if list_all is_string parts
               then non_empty_activity_text (join (lit '' '') (List.map_filter as_str parts))
               else Some source
           | JObject _ \<Rightarrow>
               Option.bind (find_activity_string L v [''command'', ''cmd'', ''script''] 0)
                 non_empty_activity_text
           | _ \<Rightarrow> Some source))"

section \<open>Unwrapping a tool's output\<close>

definition is_command_output_image :: "json \<Rightarrow> bool" where
  "is_command_output_image v =
     (let item_type = Option.bind (value_get v ''type'') as_str;
          mime = Option.bind (opt_or (value_get v ''mime'')
            (opt_or (value_get v ''mimeType'') (value_get v ''mime_type''))) as_str in
      item_type = Some (lit ''image'') \<or> item_type = Some (lit ''inputImage'') \<or>
      item_type = Some (lit ''file'') \<and>
        (case mime of Some m \<Rightarrow> starts_with (lit ''image/'') m | None \<Rightarrow> False))"

definition is_command_output_envelope :: "json \<Rightarrow> bool" where
  "is_command_output_envelope v =
     (case as_object v of
        None \<Rightarrow> False
      | Some object \<Rightarrow>
          list_ex (obj_has object) [''aggregatedOutput'', ''structuredContent'', ''stdout'', ''stderr'',
            ''toolCallId'', ''tool_call_id''] \<or>
          (list_ex (obj_has object) [''content'', ''result'', ''output''] \<and>
           list_ex (obj_has object) [''isError'', ''is_error'']) \<or>
          (case obj_str object ''type'' of
             Some t \<Rightarrow> lits [''toolresult'', ''tooloutput'', ''commandresult'', ''commandoutput'',
                 ''result'', ''text''] (to_ascii_lowercase (filter is_ascii_alphanumeric t))
           | None \<Rightarrow> False) \<or>
          (case Option.bind (obj_get object ''content'') as_array of
             Some items \<Rightarrow> items \<noteq> [] \<and>
               list_all (\<lambda>item. case as_object item of
                   Some item \<Rightarrow> obj_str item ''type'' \<noteq> None | None \<Rightarrow> False) items
           | None \<Rightarrow> False))"

function command_output_envelope_text :: "lib \<Rightarrow> json \<Rightarrow> nat \<Rightarrow> rstring option"
  and command_output_content_text :: "lib \<Rightarrow> json \<Rightarrow> nat \<Rightarrow> rstring option" where
  "command_output_envelope_text L v depth =
     (if 6 < depth then None
      else case v of
        JString text \<Rightarrow>
          (let text = trim text in
           if text = [] then None
           else case opt_filter is_command_output_envelope (lib_from_str L text) of
             Some nested \<Rightarrow> command_output_envelope_text L nested (depth + 1)
           | None \<Rightarrow> Some text)
      | JArray items \<Rightarrow>
          non_empty_activity_text (join [10, 10]
            (List.map_filter (\<lambda>item. command_output_content_text L item (depth + 1))
              (filter (\<lambda>item. \<not> is_command_output_image item) items)))
      | JObject object \<Rightarrow>
          if obj_str object ''type'' = Some (lit ''text'')
          then Option.bind (obj_str object ''text'') non_empty_activity_text
          else (case opt_filter (\<lambda>v. \<not> is_null v) (obj_get object ''structuredContent'') of
            Some structured \<Rightarrow> Option.bind (lib_pretty L structured) non_empty_activity_text
          | None \<Rightarrow>
             opt_or (Option.bind (obj_str object ''aggregatedOutput'') non_empty_activity_text)
             (opt_or (non_empty_activity_text (join [10] (List.map_filter (\<lambda>key.
                 Option.bind (obj_str object key) non_empty_activity_text) [''stdout'', ''stderr''])))
             (find_map (\<lambda>key.
                 Option.bind (opt_filter (\<lambda>v. \<not> is_null v) (obj_get object key))
                   (\<lambda>v. command_output_content_text L v (depth + 1)))
               [''content'', ''result'', ''output'', ''message'', ''text''])))
      | JNull \<Rightarrow> None
      | _ \<Rightarrow> non_empty_activity_text (lib_display L v))"
| "command_output_content_text L v depth =
     (if is_command_output_envelope v \<or> is_array v \<or> is_string v
      then command_output_envelope_text L v depth
      else if is_command_output_image v then None
      else Option.bind (lib_pretty L v) non_empty_activity_text)"
  by pat_completeness auto
termination
  by (relation "measure (\<lambda>x. case x of Inl (_, _, d) \<Rightarrow> 2 * (7 - d) | Inr (_, _, d) \<Rightarrow> 2 * (7 - d) + 1)")
    auto

declare command_output_envelope_text.simps [simp del] command_output_content_text.simps [simp del]

definition normalize_command_activity_output :: "lib \<Rightarrow> rstring \<Rightarrow> rstring option" where
  "normalize_command_activity_output L output =
     (let output = trim output in
      if output = [] then None
      else case lib_from_str L output of
        None \<Rightarrow> Some output
      | Some v \<Rightarrow>
          if \<not> is_command_output_envelope v then Some output
          else command_output_envelope_text L v 0)"

section \<open>The item\<close>

definition activity_new ::
    "lib \<Rightarrow> uuid \<Rightarrow> rstring option \<Rightarrow> activity_kind \<Rightarrow> rstring \<Rightarrow> rstring option \<Rightarrow> bool \<Rightarrow>
     activity_item" where
  "activity_new L aid source_id kind title detail complete =
     \<lparr>a_id = aid, a_source_id = source_id, a_kind = kind, a_title = title, a_detail = detail,
      a_arguments = None, a_output = None, a_image_urls = [], a_failed = False,
      a_complete = complete, a_file_changes = [],
      a_display_target = fallback_activity_display_target L kind title,
      a_display_description = None, a_reasoning = None\<rparr>"

definition activity_from_reasoning ::
    "lib \<Rightarrow> uuid \<Rightarrow> reasoning_block \<Rightarrow> bool \<Rightarrow> activity_item" where
  "activity_from_reasoning L aid reasoning complete =
     (activity_new L aid None Reasoning (lit ''Reasoning'') None complete)
       \<lparr>a_reasoning := Some reasoning\<rparr>"

definition refresh_command_output :: "lib \<Rightarrow> activity_item \<Rightarrow> activity_item" where
  "refresh_command_output L self =
     (if a_kind self = Command \<or> a_kind self = FileChange
      then self\<lparr>a_output := Option.bind (a_output self) (normalize_command_activity_output L)\<rparr>
      else self)"

definition refresh_activity_metadata_from_value ::
    "lib \<Rightarrow> json \<Rightarrow> activity_item \<Rightarrow> activity_item" where
  "refresh_activity_metadata_from_value L source self =
     (let self = (if a_kind self = FileChange
            then let extracted = extract_file_changes_from_value L source [] 0 in
              if extracted \<noteq> [] then self\<lparr>a_file_changes := extracted\<rparr> else self
            else self);
          self = (case extract_activity_display_target L (a_kind self) source of
              Some target \<Rightarrow> self\<lparr>a_display_target := Some target\<rparr> | None \<Rightarrow> self) in
      if a_kind self = Command
      then (case find_activity_string L source [''description''] 0 of
          Some description \<Rightarrow>
            self\<lparr>a_display_description := Some (compact_activity_target description)\<rparr>
        | None \<Rightarrow> self)
      else self)"

definition reclassify_patch_command :: "activity_item \<Rightarrow> activity_item" where
  "reclassify_patch_command self =
     (case opt_filter (\<lambda>changes. changes \<noteq> [])
         (map_option parse_patch_file_changes
           (Option.bind (a_arguments self) apply_patch_command_body)) of
        None \<Rightarrow> self
      | Some changes \<Rightarrow>
          self\<lparr>a_kind := FileChange, a_file_changes := changes, a_display_target := None,
               a_display_description := None\<rparr>)"

definition refresh_activity_metadata :: "lib \<Rightarrow> activity_item \<Rightarrow> activity_item" where
  "refresh_activity_metadata L self =
     (let self = (if a_kind self \<noteq> FileChange then self\<lparr>a_file_changes := []\<rparr> else self);
          self = (case opt_filter (\<lambda>source. source \<noteq> []) (map_option trim (a_arguments self)) of
              None \<Rightarrow> self
            | Some source \<Rightarrow>
                (case lib_from_str L source of
                   Some v \<Rightarrow> refresh_activity_metadata_from_value L v self
                 | None \<Rightarrow>
                     if a_kind self = FileChange
                     then let extracted = parse_patch_file_changes source in
                       if extracted \<noteq> [] then self\<lparr>a_file_changes := extracted\<rparr> else self
                     else self));
          self = (if a_kind self = Command
            then
              let self = self\<lparr>a_arguments :=
                    Option.bind (a_arguments self) (normalize_command_activity_command L)\<rparr>;
                  self = (case a_arguments self of
                      Some command \<Rightarrow>
                        self\<lparr>a_display_target := Some (compact_activity_target command)\<rparr>
                    | None \<Rightarrow> self) in
              reclassify_patch_command self
            else self);
          self = (if a_display_target self = None
            then self\<lparr>a_display_target :=
              fallback_activity_display_target L (a_kind self) (a_title self)\<rparr>
            else self) in
      refresh_command_output L self)"

definition with_arguments :: "lib \<Rightarrow> rstring option \<Rightarrow> activity_item \<Rightarrow> activity_item" where
  "with_arguments L arguments self = refresh_activity_metadata L (self\<lparr>a_arguments := arguments\<rparr>)"

definition with_activity_source :: "lib \<Rightarrow> json option \<Rightarrow> activity_item \<Rightarrow> activity_item" where
  "with_activity_source L source self =
     (case source of Some v \<Rightarrow> refresh_activity_metadata_from_value L v self | None \<Rightarrow> self)"

definition with_output :: "lib \<Rightarrow> rstring option \<Rightarrow> activity_item \<Rightarrow> activity_item" where
  "with_output L out self = refresh_command_output L (self\<lparr>a_output := out\<rparr>)"

definition with_image_urls :: "rstring list \<Rightarrow> activity_item \<Rightarrow> activity_item" where
  "with_image_urls image_urls self = self\<lparr>a_image_urls := image_urls\<rparr>"

definition with_failed :: "bool \<Rightarrow> activity_item \<Rightarrow> activity_item" where
  "with_failed failed self = self\<lparr>a_failed := failed\<rparr>"

text \<open>
  A stored transcript block is read in either of its two shapes; one written before activities
  existed holds a single, finished reasoning block.
\<close>

datatype stored_block_content = Stored_Reasoning reasoning_block | Stored_Activities "activity_item list"

record stored_block =
  sb_after_message :: nat
  sb_turn_id :: "uuid option"
  sb_content :: stored_block_content

definition deserialize_transcript_block :: "lib \<Rightarrow> uuid \<Rightarrow> stored_block \<Rightarrow> transcript_block" where
  "deserialize_transcript_block L aid repr =
     \<lparr>b_after_message = sb_after_message repr, b_turn_id = sb_turn_id repr,
      b_activities = (case sb_content repr of
          Stored_Reasoning reasoning \<Rightarrow> [activity_from_reasoning L aid reasoning True]
        | Stored_Activities activities \<Rightarrow> activities)\<rparr>"

definition serialize_transcript_block :: "transcript_block \<Rightarrow> stored_block" where
  "serialize_transcript_block self =
     \<lparr>sb_after_message = b_after_message self, sb_turn_id = b_turn_id self,
      sb_content = Stored_Activities (b_activities self)\<rparr>"

section \<open>Lemmas\<close>

definition trimmed :: "rstring \<Rightarrow> bool" where
  "trimmed t \<longleftrightarrow> trim t = t \<and> t \<noteq> []"

lemma trimmed_non_empty: "non_empty_activity_text v = Some t \<Longrightarrow> trimmed t"
  by (auto simp: non_empty_activity_text_def trimmed_def split: if_splits)

lemma trimmed_bind_non_empty: "Option.bind v non_empty_activity_text = Some t \<Longrightarrow> trimmed t"
  by (cases v) (auto intro: trimmed_non_empty)

lemma trimmed_content_text:
  assumes "\<And>t. command_output_envelope_text L v d = Some t \<Longrightarrow> trimmed t"
  shows "command_output_content_text L v d = Some t \<Longrightarrow> trimmed t"
  using assms
  by (auto simp: command_output_content_text.simps [of L v d] intro: trimmed_bind_non_empty
      split: if_splits)

lemma trimmed_envelope_text: "command_output_envelope_text L v d = Some t \<Longrightarrow> trimmed t"
proof (induction "7 - d" arbitrary: v d t rule: less_induct)
  case less
  show ?case
  proof (cases "6 < d")
    case True
    with less.prems show ?thesis by (simp add: command_output_envelope_text.simps [of L v d])
  next
    case False
    have env: "command_output_envelope_text L w (d + 1) = Some u \<Longrightarrow> trimmed u" for w u
      using less.hyps [of "d + 1" w u] False by simp
    have con: "command_output_content_text L w (d + 1) = Some u \<Longrightarrow> trimmed u" for w u
      using trimmed_content_text [OF env] .
    note step = less.prems [unfolded command_output_envelope_text.simps [of L v d] if_not_P [OF False]]
    show ?thesis
    proof (cases v)
      case (JString s)
      with step env [simplified] show ?thesis
        by (auto simp: Let_def trimmed_def opt_filter_eq_Some split: if_splits option.splits)
    next
      case (JObject m)
      have field: "Option.bind x (\<lambda>v. command_output_content_text L v (d + 1)) = Some u \<Longrightarrow> trimmed u"
        for x u
        by (auto simp: bind_eq_Some_conv intro: con [simplified])
      have or_cases: "opt_or a b = Some u \<Longrightarrow> a = Some u \<or> b = Some u" for a b and u :: rstring
        by (cases a) auto
      from step JObject show ?thesis
        by (auto intro: trimmed_bind_non_empty trimmed_non_empty field [simplified]
            dest!: or_cases split: if_splits option.splits)
    qed (use step in \<open>auto intro: trimmed_non_empty\<close>)
  qed
qed

lemma trimmed_output: "normalize_command_activity_output L out = Some t \<Longrightarrow> trimmed t"
  by (auto simp: normalize_command_activity_output_def Let_def trimmed_def
      dest: trimmed_envelope_text [unfolded trimmed_def] split: if_splits option.splits)

lemma trimmed_command: "normalize_command_activity_command L src = Some t \<Longrightarrow> trimmed t"
  by (auto simp: normalize_command_activity_command_def Let_def
      intro: trimmed_non_empty trimmed_bind_non_empty split: if_splits option.splits json.splits)
    (simp_all add: trimmed_def)

lemma length_compact_activity_target: "length (compact_activity_target v) \<le> 240"
  by (simp add: compact_activity_target_def Let_def)

lemma fallback_target_length:
  "fallback_activity_display_target L k title = Some t \<Longrightarrow> length t \<le> 240"
  by (auto simp: fallback_activity_display_target_def Let_def length_compact_activity_target
      split: if_splits)

lemma extract_target_length:
  "extract_activity_display_target L k v = Some t \<Longrightarrow> length t \<le> 240"
  by (auto simp: extract_activity_display_target_def Let_def length_compact_activity_target
      split: activity_kind.splits)

text \<open>What the refresh of an item's metadata never touches.\<close>

definition same_item :: "activity_item \<Rightarrow> activity_item \<Rightarrow> bool" where
  "same_item a b \<longleftrightarrow> a_id a = a_id b \<and> a_source_id a = a_source_id b \<and> a_title a = a_title b \<and>
     a_detail a = a_detail b \<and> a_image_urls a = a_image_urls b \<and> a_failed a = a_failed b \<and>
     a_complete a = a_complete b \<and> a_reasoning a = a_reasoning b"

lemma same_item_refl [simp]: "same_item a a" by (simp add: same_item_def)

lemma same_item_trans: "same_item a b \<Longrightarrow> same_item b c \<Longrightarrow> same_item a c"
  by (simp add: same_item_def)

definition target_ok :: "activity_item \<Rightarrow> activity_item \<Rightarrow> bool" where
  "target_ok a b \<longleftrightarrow> (\<forall>t. a_display_target a = Some t \<longrightarrow> length t \<le> 240 \<or> a_display_target b = Some t)"

definition item_ok :: "activity_item \<Rightarrow> activity_item \<Rightarrow> bool" where
  "item_ok self a \<longleftrightarrow> same_item a self \<and> target_ok a self \<and>
     (a_kind a \<noteq> FileChange \<longrightarrow> a_file_changes a = [])"

lemma from_value_kind [simp]:
  "a_kind (refresh_activity_metadata_from_value L v a) = a_kind a"
  "a_arguments (refresh_activity_metadata_from_value L v a) = a_arguments a"
  by (simp_all add: refresh_activity_metadata_from_value_def Let_def split: option.splits)

lemma item_ok_from_value [inv_intros]:
  "item_ok self a \<Longrightarrow> item_ok self (refresh_activity_metadata_from_value L v a)"
  by (auto simp: refresh_activity_metadata_from_value_def Let_def item_ok_def same_item_def
      target_ok_def extract_target_length split: option.splits)

lemma item_ok_reclassify [inv_intros]:
  "item_ok self a \<Longrightarrow> item_ok self (reclassify_patch_command a)"
  by (auto simp: reclassify_patch_command_def item_ok_def same_item_def target_ok_def
      split: option.splits)

lemma item_ok_output [inv_intros]: "item_ok self a \<Longrightarrow> item_ok self (refresh_command_output L a)"
  by (auto simp: refresh_command_output_def item_ok_def same_item_def target_ok_def)

lemma reclassify_arguments [simp]: "a_arguments (reclassify_patch_command a) = a_arguments a"
  by (simp add: reclassify_patch_command_def split: option.splits)

lemma refresh_command_output_simps [simp]:
  "a_kind (refresh_command_output L a) = a_kind a"
  "a_arguments (refresh_command_output L a) = a_arguments a"
  by (simp_all add: refresh_command_output_def)

text \<open>The three stages of a refresh before the output is unwrapped.\<close>

definition refresh_source :: "lib \<Rightarrow> activity_item \<Rightarrow> activity_item" where
  "refresh_source L self =
     (let self = (if a_kind self \<noteq> FileChange then self\<lparr>a_file_changes := []\<rparr> else self) in
      case opt_filter (\<lambda>source. source \<noteq> []) (map_option trim (a_arguments self)) of
          None \<Rightarrow> self
        | Some source \<Rightarrow>
            (case lib_from_str L source of
               Some v \<Rightarrow> refresh_activity_metadata_from_value L v self
             | None \<Rightarrow>
                 if a_kind self = FileChange
                 then let extracted = parse_patch_file_changes source in
                   if extracted \<noteq> [] then self\<lparr>a_file_changes := extracted\<rparr> else self
                 else self))"

definition refresh_command :: "lib \<Rightarrow> activity_item \<Rightarrow> activity_item" where
  "refresh_command L self =
     (let self = self\<lparr>a_arguments :=
            Option.bind (a_arguments self) (normalize_command_activity_command L)\<rparr> in
      reclassify_patch_command
        (case a_arguments self of
           Some command \<Rightarrow> self\<lparr>a_display_target := Some (compact_activity_target command)\<rparr>
         | None \<Rightarrow> self))"

definition refresh_fallback :: "lib \<Rightarrow> activity_item \<Rightarrow> activity_item" where
  "refresh_fallback L self =
     (if a_display_target self = None
      then self\<lparr>a_display_target := fallback_activity_display_target L (a_kind self) (a_title self)\<rparr>
      else self)"

lemma refresh_activity_metadata_stages:
  "refresh_activity_metadata L self =
     (let a = refresh_source L self in
      refresh_command_output L (refresh_fallback L
        (if a_kind a = Command then refresh_command L a else a)))"
  unfolding refresh_activity_metadata_def refresh_source_def refresh_command_def
    refresh_fallback_def Let_def by (rule refl)

lemma item_ok_source: "item_ok self (refresh_source L self)"
proof -
  let ?a = "if a_kind self \<noteq> FileChange then self\<lparr>a_file_changes := []\<rparr> else self"
  have a: "item_ok self ?a" by (simp add: item_ok_def same_item_def target_ok_def)
  moreover have "a_kind ?a = FileChange \<Longrightarrow> item_ok self (?a\<lparr>a_file_changes := cs\<rparr>)" for cs
    by (simp add: item_ok_def same_item_def target_ok_def)
  ultimately show ?thesis
    unfolding refresh_source_def Let_def
    by (auto intro: item_ok_from_value split: option.splits)
qed

lemma item_ok_command: "item_ok self a \<Longrightarrow> item_ok self (refresh_command L a)"
  unfolding refresh_command_def Let_def
  by (rule item_ok_reclassify)
    (auto simp: item_ok_def same_item_def target_ok_def length_compact_activity_target
      split: option.splits)

lemma item_ok_fallback: "item_ok self a \<Longrightarrow> item_ok self (refresh_fallback L a)"
  by (auto simp: refresh_fallback_def item_ok_def same_item_def target_ok_def fallback_target_length)

lemma refresh_fallback_simps [simp]:
  "a_kind (refresh_fallback L a) = a_kind a" "a_arguments (refresh_fallback L a) = a_arguments a"
  by (simp_all add: refresh_fallback_def)

lemma refresh_command_arguments:
  "a_arguments (refresh_command L a) = Some c \<Longrightarrow> trimmed c"
  by (auto simp: refresh_command_def Let_def bind_eq_Some_conv dest: trimmed_command
      split: option.splits)

lemma with_arguments_facts:
  fixes L :: lib and args :: "rstring option" and self :: activity_item
  defines "r \<equiv> with_arguments L args self"
  shows "same_item r self \<and> (a_kind r = FileChange \<or> a_file_changes r = []) \<and>
    (case a_display_target r of None \<Rightarrow> True
      | Some t \<Rightarrow> length t \<le> 240 \<or> a_display_target self = Some t) \<and>
    (case a_arguments r of None \<Rightarrow> True | Some c \<Rightarrow> a_kind r \<noteq> Command \<or> trimmed c) \<and>
    (case a_output r of None \<Rightarrow> True
      | Some t \<Rightarrow> a_kind r \<noteq> Command \<and> a_kind r \<noteq> FileChange \<or> trimmed t)"
proof -
  let ?s = "self\<lparr>a_arguments := args\<rparr>"
  define a where "a = refresh_source L ?s"
  define b where "b = refresh_fallback L (if a_kind a = Command then refresh_command L a else a)"
  have r: "r = refresh_command_output L b"
    by (simp add: r_def with_arguments_def refresh_activity_metadata_stages a_def b_def Let_def)
  have ok: "item_ok ?s r"
    unfolding r b_def a_def by (auto intro!: item_ok_output item_ok_fallback item_ok_command item_ok_source)
  have "a_kind r = Command \<Longrightarrow> a_arguments r = Some c \<Longrightarrow> trimmed c" for c
    unfolding r b_def by (auto intro: refresh_command_arguments split: if_splits)
  moreover have "a_output r = Some t \<Longrightarrow> a_kind r = Command \<or> a_kind r = FileChange \<Longrightarrow> trimmed t" for t
    unfolding r refresh_command_output_def
    by (auto simp: bind_eq_Some_conv intro: trimmed_output split: if_splits)
  ultimately show ?thesis
    using ok by (auto simp: item_ok_def same_item_def target_ok_def split: option.splits)
qed

text \<open>
  Refreshing an item from its tool input keeps its identity and state; only a file change
  lists files, a command is trimmed and not empty, the output of a command or an edit is trimmed
  and not empty, and a target it derives has at most 240 characters.
\<close>

theorem with_arguments_ok:
  "let r = with_arguments L args self in
    same_item r self \<and> (a_kind r = FileChange \<or> a_file_changes r = []) \<and>
    (case a_display_target r of None \<Rightarrow> True
      | Some t \<Rightarrow> length t \<le> 240 \<or> a_display_target self = Some t) \<and>
    (case a_arguments r of None \<Rightarrow> True | Some c \<Rightarrow> (if a_kind r = Command then trimmed c else True)) \<and>
    (case a_output r of None \<Rightarrow> True
      | Some t \<Rightarrow> (if a_kind r = Command \<or> a_kind r = FileChange then trimmed t else True))"
  using with_arguments_facts [of L args self] unfolding Let_def by (auto split: option.splits)


subsection \<open>A shell command that only applies a patch\<close>

lemma starts_with_line:
  assumes "10 \<notin> set n" "starts_with n (l @ 10 # s)"
  shows "starts_with n l"
proof -
  from assms(2) obtain r where r: "l @ 10 # s = n @ r" by (auto simp: starts_with_iff)
  then consider us where "l = n @ us" | us where "n = l @ us" "us \<noteq> []" "us @ r = 10 # s"
    by (auto simp: append_eq_append_conv2 Cons_eq_append_conv)
  then show ?thesis
  proof cases
    case 2
    then have "10 \<in> set n" by (cases us) auto
    with assms(1) show ?thesis by simp
  qed (auto simp: starts_with_iff)
qed

lemma starts_with_extend: "starts_with n l \<Longrightarrow> starts_with n (l @ s)"
  by (auto simp: starts_with_iff)

lemma find_str_line:
  assumes "10 \<notin> set n" "n \<noteq> []" "find_str n l = None"
  shows "find_str n (l @ 10 # s) = map_option (\<lambda>i. Suc (length l) + i) (find_str n s)"
  using assms(3)
proof (induction l)
  case Nil
  have "\<not> starts_with n (10 # s)"
    using assms starts_with_line [of n "[]" s] by (auto simp: starts_with_iff)
  then show ?case by (cases "find_str n s") auto
next
  case (Cons c l)
  then have no: "\<not> starts_with n (c # l)" "find_str n l = None" by (auto split: if_splits)
  then have "\<not> starts_with n (c # (l @ 10 # s))"
    using starts_with_line [OF assms(1), of "c # l" s] by auto
  with Cons no show ?case by (cases "find_str n s") auto
qed

lemma find_str_unlines:
  assumes "10 \<notin> set n" "n \<noteq> []" "\<forall>l\<in>set ls. find_str n l = None"
  shows "find_str n (unlines ls @ s) = map_option (\<lambda>i. length (unlines ls) + i) (find_str n s)"
  using assms(3)
proof (induction ls)
  case Nil
  then show ?case by (cases "find_str n s") auto
next
  case (Cons l ls)
  then show ?case
    using find_str_line [OF assms(1,2), of l "unlines ls @ s"] by (cases "find_str n s") auto
qed

lemma find_str_prefix: "starts_with n s \<Longrightarrow> find_str n s = Some 0"
  by (cases s) (auto simp: starts_with_iff)

definition patch_command :: "patch_section list \<Rightarrow> rstring" where
  "patch_command secs =
     lit ''apply_patch <<EOF'' @ [10] @ print_patch secs @ lit ''EOF''"

lemma lines_unlines_last:
  assumes "\<forall>l\<in>set ls. is_line l" "is_line m" "m \<noteq> []"
  shows "lines (unlines ls @ m) = ls @ [m]"
proof -
  have "split_char 10 (unlines ls @ m) = ls @ [m]"
    using assms(1)
  proof (induction ls)
    case Nil
    have "\<forall>c\<in>set m. c \<noteq> 10" using assms(2) by (auto simp: is_line_def)
    then have "split_pred (\<lambda>c. c = 10) m = [m]" by (induction m) auto
    then show ?case by (simp add: split_char_def)
  next
    case (Cons l ls)
    then have "\<forall>c\<in>set l. \<not> c = 10" by (auto simp: is_line_def)
    from split_pred_sep [OF this, of 10 "unlines ls @ m"] Cons show ?case
      by (simp add: split_char_def)
  qed
  with assms show ?thesis by (simp add: lines_def map_idI strip_cr_line)
qed

lemma parse_patch_last_newline:
  assumes "\<forall>sec\<in>set secs. section_ok sec"
  shows "parse_patch_file_changes (unlines (lit ''*** Begin Patch'' # concat (map section_lines secs))
      @ lit ''*** End Patch'') = parse_patch_file_changes (print_patch secs)"
proof -
  let ?ls = "lit ''*** Begin Patch'' # concat (map section_lines secs)"
  have "is_line (section_marker (ps_status sec) @ ps_path sec)" if "sec \<in> set secs" for sec
    using assms that
    by (auto simp: section_ok_def is_line_def section_marker_def lit_def split: file_change_status.splits)
  then have ok: "\<forall>l\<in>set ?ls. is_line l"
    using assms by (auto simp: section_lines_def section_ok_def body_line_ok_def is_line_def lit_def)
  have e: "is_line (lit ''*** End Patch'')" "lit ''*** End Patch'' \<noteq> []"
    by (auto simp: is_line_def lit_def)
  have "lines (unlines ?ls @ lit ''*** End Patch'') = ?ls @ [lit ''*** End Patch'']"
    by (rule lines_unlines_last [OF ok e])
  moreover have "lines (print_patch secs) = ?ls @ [lit ''*** End Patch'']"
    using ok e by (simp add: print_patch_def lines_unlines del: unlines_simps)
  ultimately show ?thesis by (simp add: parse_patch_file_changes_def)
qed

text \<open>
  A shell command whose text is not JSON and that feeds a patch to \<open>apply_patch\<close> is filed
  as the file change it is, with one change per section, when no line of the patch mentions the
  end marker.
\<close>

theorem patch_command_refiled:
  assumes "\<forall>sec\<in>set secs. section_ok sec" "distinct (map ps_path secs)" "secs \<noteq> []"
    and "\<forall>l\<in>set (concat (map section_lines secs)). find_str (lit ''*** End Patch'') l = None"
    and "lib_from_str L (patch_command secs) = None" and "a_kind self = Command"
  shows "a_kind (with_arguments L (Some (patch_command secs)) self) = FileChange \<and>
    a_file_changes (with_arguments L (Some (patch_command secs)) self) = map section_change secs"
proof -
  let ?cmd = "patch_command secs"
  let ?ls = "lit ''*** Begin Patch'' # concat (map section_lines secs)"
  have cmd: "?cmd = lit ''apply_patch <<EOF'' @ 10 # unlines ?ls @ lit ''*** End Patch'' @ 10 # lit ''EOF''"
    by (simp add: patch_command_def print_patch_def)
  have trim: "trim ?cmd = ?cmd"
  proof -
    have "hd ?cmd = 97" "last ?cmd = 70" "?cmd \<noteq> []" by (simp_all add: cmd lit_def)
    then show ?thesis
      by (simp add: trim_def trim_start_def trim_end_def dropWhile_hd_false hd_rev is_whitespace_def)
  qed
  have "find_str (lit ''*** Begin Patch'') ?cmd = Some (Suc (length (lit ''apply_patch <<EOF'')))"
  proof -
    have "starts_with (lit ''*** Begin Patch'') (unlines ?ls @ lit ''*** End Patch'' @ 10 # lit ''EOF'')"
      by (simp add: starts_with_iff)
    then have "find_str (lit ''*** Begin Patch'') (unlines ?ls @ lit ''*** End Patch'' @ 10 # lit ''EOF'') =
        Some 0" by (rule find_str_prefix)
    moreover have "find_str (lit ''*** Begin Patch'') (lit ''apply_patch <<EOF'') = None"
      by (simp add: lit_def starts_with_def)
    ultimately show ?thesis
      unfolding cmd by (subst find_str_line) (simp_all add: lit_def del: unlines_simps)
  qed
  moreover have "find_str (lit ''*** End Patch'') (unlines ?ls @ lit ''*** End Patch'' @ 10 # lit ''EOF'') =
      Some (length (unlines ?ls))"
  proof -
    have "find_str (lit ''*** End Patch'') (lit ''*** Begin Patch'') = None"
      by (simp add: lit_def starts_with_def)
    then have "\<forall>l\<in>set ?ls. find_str (lit ''*** End Patch'') l = None" using assms(4) by simp
    moreover have "find_str (lit ''*** End Patch'') (lit ''*** End Patch'' @ 10 # lit ''EOF'') = Some 0"
      by (rule find_str_prefix) (simp add: starts_with_iff)
    ultimately show ?thesis by (subst find_str_unlines) (simp_all add: lit_def)
  qed
  moreover have "drop (Suc (length (lit ''apply_patch <<EOF''))) ?cmd =
      unlines ?ls @ lit ''*** End Patch'' @ 10 # lit ''EOF''"
    by (simp add: cmd del: unlines_simps)
  moreover have "contains_str (lit ''apply_patch'') ?cmd"
    unfolding contains_str_def cmd
    by (subst find_str_prefix) (simp_all add: starts_with_def lit_def)
  ultimately have "apply_patch_command_body ?cmd = Some (unlines ?ls @ lit ''*** End Patch'')"
    by (simp add: apply_patch_command_body_def del: unlines_simps)
  moreover have "parse_patch_file_changes (unlines ?ls @ lit ''*** End Patch'') = map section_change secs"
    using parse_patch_last_newline [OF assms(1)] parse_patch_exact [OF assms(1,2)] by simp
  moreover have "normalize_command_activity_command L ?cmd = Some ?cmd"
    using assms(5) trim by (auto simp: normalize_command_activity_command_def cmd lit_def)
  moreover have "?cmd \<noteq> []" by (simp add: cmd)
  ultimately show ?thesis
    using assms(3,5,6) trim
    by (simp add: with_arguments_def refresh_activity_metadata_stages refresh_source_def
        refresh_command_def reclassify_patch_command_def refresh_fallback_def
        refresh_command_output_def Let_def del: unlines_simps)
qed

theorem patch_command_refiled_witness:
  "a_kind (with_arguments plain_lib (Some (patch_command
      [\<lparr>ps_status = Added, ps_path = lit ''b.rs'', ps_body = [lit ''+z'']\<rparr>]))
    (activity_new plain_lib 1 None Command (lit ''bash'') None True)) = FileChange"
  by (subst patch_command_refiled)
    (simp_all add: section_ok_def body_line_ok_def is_line_def lit_def starts_with_def trim_def
      trim_start_def trim_end_def is_whitespace_def section_lines_def section_marker_def
      plain_lib_def activity_new_def)

end
