(* ===== verification/Legacy_Migration.thy ===== *)
theory Legacy_Migration
  imports Session Activity
begin

text \<open>
  What a session stored by an older version becomes when it is loaded
  (\<open>AgentSession::migrate_legacy_state\<close> in \<open>crates/shidou-protocol/src/model.rs\<close>): the plan runtime
  mode, the bare provider session id, Codex citation markers, adjacent transcript blocks, tool
  kinds and arguments, cached totals, and the turns of a transcript that has none.
\<close>

section \<open>Citation markers\<close>

definition cite_start :: rchar where "cite_start = 0xe200"
definition cite_end :: rchar where "cite_end = 0xe201"
definition cite_separator :: rchar where "cite_separator = 0xe202"

definition after_char :: "rchar \<Rightarrow> rstring \<Rightarrow> rstring" where
  "after_char d s = tl (dropWhile (\<lambda>c. c \<noteq> d) s)"

lemma after_char_le: "length (after_char d s) \<le> length s"
  unfolding after_char_def by (metis diff_le_self le_trans length_dropWhile_le length_tl)

lemma after_char_shorter: "s \<noteq> [] \<Longrightarrow> length (after_char d s) < length s"
  using after_char_le [of d "tl s"] by (cases s) (auto simp: after_char_def)

lemma after_marker_shorter:
  "cite_start \<in> set s \<Longrightarrow> length (after_char cite_end (after_char cite_start s)) < length s"
  by (rule le_less_trans [OF after_char_le after_char_shorter]) auto

function strip_legacy_codex_citations :: "rstring \<Rightarrow> rstring" where
  "strip_legacy_codex_citations remaining =
     (if cite_start \<notin> set remaining then remaining
      else
        let before = takeWhile (\<lambda>c. c \<noteq> cite_start) remaining;
            behind = after_char cite_start remaining in
        if cite_end \<notin> set behind then remaining
        else
          let marker = takeWhile (\<lambda>c. c \<noteq> cite_end) behind in
          before @
          (if hd (split_char cite_separator marker) \<noteq> lit ''cite''
           then cite_start # marker @ [cite_end] else []) @
          strip_legacy_codex_citations (after_char cite_end behind))"
  by pat_completeness auto

termination strip_legacy_codex_citations
  by (relation "measure length") (auto simp: after_marker_shorter)

declare strip_legacy_codex_citations.simps [simp del]

section \<open>The parts of a session\<close>

definition strip_citations_of :: "message \<Rightarrow> message" where
  "strip_citations_of m =
     (if m_role m = Assistant \<and> cite_start \<in> set (m_content m)
      then m\<lparr>m_content := strip_legacy_codex_citations (m_content m)\<rparr> else m)"

definition append_or_merge :: "transcript_block list \<Rightarrow> transcript_block \<Rightarrow> transcript_block list" where
  "append_or_merge merged block =
     (if merged \<noteq> [] \<and> b_after_message (last merged) = b_after_message block \<and>
         b_turn_id (last merged) = b_turn_id block
      then map_last (\<lambda>b. b\<lparr>b_activities := b_activities b @ b_activities block\<rparr>) merged
      else merged @ [block])"

definition merge_blocks :: "transcript_block list \<Rightarrow> transcript_block list" where
  "merge_blocks blocks = foldl append_or_merge [] blocks"

definition migrate_activity :: "lib \<Rightarrow> activity_item \<Rightarrow> activity_item" where
  "migrate_activity L activity =
     (let activity = (if a_kind activity = Search \<and> trim (a_title activity) = lit ''Search for''
            then activity\<lparr>a_title := tr L ''activity.browsed_web''\<rparr> else activity);
          named_kind = activity_kind_from_tool_name (a_title activity);
          activity = (if named_kind \<noteq> Tool \<and> List.member [Search, Tool, FileChange] (a_kind activity)
            then activity\<lparr>a_kind := named_kind\<rparr> else activity);
          activity = (if a_arguments activity = None \<and> a_output activity = None \<and>
              \<not> a_failed activity \<and>
              (case a_detail activity of Some detail \<Rightarrow> lib_from_str L detail \<noteq> None | None \<Rightarrow> False)
            then activity\<lparr>a_arguments := a_detail activity, a_detail := None\<rparr> else activity)
      in refresh_activity_metadata L activity)"

definition refresh_turn_totals :: "agent_turn \<Rightarrow> agent_turn" where
  "refresh_turn_totals t = t\<lparr>t_checkpoint := map_option refresh_totals (t_checkpoint t)\<rparr>"

section \<open>Turns for a transcript without turns\<close>

definition user_indexes :: "message list \<Rightarrow> nat list" where
  "user_indexes ms = filter (\<lambda>i. m_role (ms ! i) = User) [0..<length ms]"

fun max_or :: "u64 \<Rightarrow> u64 list \<Rightarrow> u64" where
  "max_or d [] = d"
| "max_or d (x # xs) = fold max xs x"

definition derive_turn ::
    "(nat \<Rightarrow> uuid) \<Rightarrow> nat list \<Rightarrow> agent_session \<Rightarrow> nat \<times> nat \<Rightarrow> agent_session" where
  "derive_turn fresh indexes session os =
     (case os of (offset, start) \<Rightarrow>
        let end = (if Suc offset < length indexes then indexes ! Suc offset
              else length (s_messages session));
            turn_id = fresh offset;
            started_at = m_created_at (s_messages session ! start);
            completed_at = max_or started_at
              (map m_created_at (take (end - start) (drop start (s_messages session)))) in
        session\<lparr>
          s_messages := map (\<lambda>(i, m). if start \<le> i \<and> i < end then m\<lparr>m_turn_id := Some turn_id\<rparr> else m)
            (enumerate 0 (s_messages session)),
          s_transcript_blocks := map (\<lambda>b. if start < b_after_message b \<and> b_after_message b \<le> end
            then b\<lparr>b_turn_id := Some turn_id\<rparr> else b) (s_transcript_blocks session),
          s_turns := s_turns session @ [\<lparr>t_id = turn_id, t_turn_count = offset + 1,
            t_status = Completed, t_provider_turn_started = True, t_provider_resume_at = None,
            t_started_at = started_at, t_completed_at = Some completed_at, t_checkpoint = None\<rparr>]\<rparr>)"

definition derive_turns :: "(nat \<Rightarrow> uuid) \<Rightarrow> agent_session \<Rightarrow> agent_session" where
  "derive_turns fresh session =
     (let indexes = user_indexes (s_messages session) in
      foldl (derive_turn fresh indexes) session (enumerate 0 indexes))"

definition migrate_legacy_fields :: "agent_session \<Rightarrow> agent_session" where
  "migrate_legacy_fields self =
     (let self = (if s_runtime_mode self = Mode_Plan
            then self\<lparr>s_runtime_mode := Ask, s_interaction_mode := Interaction_Plan\<rparr> else self);
          self = (case (s_provider_cursor self, s_provider_session_id self) of
            (None, Some i) \<Rightarrow> self\<lparr>s_provider_session_id := None,
              s_provider_cursor := Some (from_session_id (s_provider self) i)\<rparr>
          | _ \<Rightarrow> self)
      in if s_provider self = Codex
         then self\<lparr>s_messages := map strip_citations_of (s_messages self)\<rparr> else self)"

definition migrate_legacy_state :: "lib \<Rightarrow> (nat \<Rightarrow> uuid) \<Rightarrow> agent_session \<Rightarrow> agent_session" where
  "migrate_legacy_state L fresh self =
     (let self = migrate_legacy_fields self;
          self = self\<lparr>
            s_transcript_blocks := map (\<lambda>b. b\<lparr>b_activities := map (migrate_activity L) (b_activities b)\<rparr>)
              (merge_blocks (s_transcript_blocks self)),
            s_turns := map refresh_turn_totals (s_turns self)\<rparr>
      in if s_turns self \<noteq> [] \<or> \<not> list_ex (\<lambda>m. m_role m = User) (s_messages self) then self
         else derive_turns fresh self)"

section \<open>The turns that are derived\<close>

lemma user_indexes_sorted: "sorted (user_indexes ms)" "distinct (user_indexes ms)"
  by (simp_all add: user_indexes_def sorted_wrt_filter)

lemma user_indexes_strict: "i < j \<Longrightarrow> j < length (user_indexes ms) \<Longrightarrow>
    user_indexes ms ! i < user_indexes ms ! j"
  using user_indexes_sorted [of ms]
  by (metis nth_eq_iff_index_eq order.strict_iff_order order_less_trans sorted_nth_mono)

lemma user_indexes_bound: "i \<in> set (user_indexes ms) \<Longrightarrow> i < length ms \<and> m_role (ms ! i) = User"
  by (simp add: user_indexes_def)

lemma derive_turn_fields [simp]:
  "length (s_messages (derive_turn fresh is s os)) = length (s_messages s)"
  "map m_id (s_messages (derive_turn fresh is s os)) = map m_id (s_messages s)"
  "map b_after_message (s_transcript_blocks (derive_turn fresh is s os)) =
     map b_after_message (s_transcript_blocks s)"
proof -
  have "map m_id (map (\<lambda>(i, m). if P i then m\<lparr>m_turn_id := x\<rparr> else m) (enumerate 0 ms)) = map m_id ms"
    for P x and ms :: "message list"
    by (intro nth_equalityI) (auto simp: nth_enumerate_eq)
  then show "map m_id (s_messages (derive_turn fresh is s os)) = map m_id (s_messages s)"
    by (simp add: derive_turn_def Let_def split: prod.split del: map_map)
qed (auto simp: derive_turn_def Let_def split: prod.split)

text \<open>After \<open>k\<close> of the indexes are processed.\<close>

definition derived :: "(nat \<Rightarrow> uuid) \<Rightarrow> nat list \<Rightarrow> agent_session \<Rightarrow> nat \<Rightarrow> agent_session \<Rightarrow> bool" where
  "derived fresh is s0 k s \<longleftrightarrow>
     map m_id (s_messages s) = map m_id (s_messages s0) \<and>
     map m_role (s_messages s) = map m_role (s_messages s0) \<and>
     map b_after_message (s_transcript_blocks s) = map b_after_message (s_transcript_blocks s0) \<and>
     map t_id (s_turns s) = map fresh [0..<k] \<and> map t_turn_count (s_turns s) = map Suc [0..<k] \<and>
     list_all (\<lambda>t. t_status t = Completed) (s_turns s) \<and>
     (\<forall>m\<in>set (s_messages s). owned_by (fresh ` {..<k}) (m_turn_id m)) \<and>
     (\<forall>b\<in>set (s_transcript_blocks s). owned_by (fresh ` {..<k}) (b_turn_id b)) \<and>
     (\<forall>j<k. m_turn_id (s_messages s ! (is ! j)) = Some (fresh j))"

lemma derive_turn_message:
  "i < length (s_messages s) \<Longrightarrow> s_messages (derive_turn fresh is s (k, start)) ! i =
     (if start \<le> i \<and> i < (if Suc k < length is then is ! Suc k else length (s_messages s))
      then (s_messages s ! i)\<lparr>m_turn_id := Some (fresh k)\<rparr> else s_messages s ! i)"
  by (simp add: derive_turn_def Let_def nth_enumerate_eq)

lemma derived_step:
  assumes inv: "derived fresh is s0 k s" and k: "k < length is"
    and strict: "\<And>i j. i < j \<Longrightarrow> j < length is \<Longrightarrow> is ! i < is ! j"
    and bound: "\<And>i. i < length is \<Longrightarrow> is ! i < length (s_messages s0)"
  shows "derived fresh is s0 (Suc k) (derive_turn fresh is s (k, is ! k))"
proof -
  let ?s' = "derive_turn fresh is s (k, is ! k)"
  have len: "length (s_messages s) = length (s_messages s0)"
    using inv unfolding derived_def by (metis length_map)
  have role: "map m_role (s_messages ?s') = map m_role (s_messages s)"
    by (intro nth_equalityI) (simp_all add: derive_turn_message del: map_eq_conv)
  have msgs: "owned_by (fresh ` {..<Suc k}) (m_turn_id m)" if m: "m \<in> set (s_messages ?s')" for m
  proof -
    from m obtain i where i: "i < length (s_messages s)" "m = s_messages ?s' ! i"
      by (metis derive_turn_fields(1) in_set_conv_nth)
    then have "m = s_messages s ! i \<or> m_turn_id m = Some (fresh k)"
      by (simp add: derive_turn_message split: if_splits)
    moreover have "owned_by (fresh ` {..<k}) (m_turn_id (s_messages s ! i))"
      using inv i(1) by (simp add: derived_def)
    then have "owned_by (fresh ` {..<Suc k}) (m_turn_id (s_messages s ! i))"
      by (rule owned_by_mono) auto
    ultimately show ?thesis by auto
  qed
  have blocks: "owned_by (fresh ` {..<Suc k}) (b_turn_id b)" if b: "b \<in> set (s_transcript_blocks ?s')" for b
  proof -
    from b obtain c where c: "c \<in> set (s_transcript_blocks s)" "b_turn_id b = b_turn_id c \<or> b_turn_id b = Some (fresh k)"
      by (auto simp: derive_turn_def Let_def split: if_splits)
    from inv c(1) have "owned_by (fresh ` {..<k}) (b_turn_id c)" by (simp add: derived_def)
    then have "owned_by (fresh ` {..<Suc k}) (b_turn_id c)" by (rule owned_by_mono) auto
    with c(2) show ?thesis by auto
  qed
  have users: "m_turn_id (s_messages ?s' ! (is ! j)) = Some (fresh j)" if j: "j < Suc k" for j
  proof (cases "j = k")
    case True
    have "is ! k < (if Suc k < length is then is ! Suc k else length (s_messages s))"
      using strict [of k "Suc k"] bound [OF k] by (simp add: len)
    with True bound [OF k] show ?thesis by (simp add: derive_turn_message len)
  next
    case False
    with j k have "is ! j < is ! k" "is ! j < length (s_messages s)"
      using strict [of j k] bound [of j] by (simp_all add: len)
    with inv j False show ?thesis by (simp add: derive_turn_message derived_def)
  qed
  have turns: "map t_id (s_turns ?s') = map fresh [0..<Suc k]"
    "map t_turn_count (s_turns ?s') = map Suc [0..<Suc k]"
    "list_all (\<lambda>t. t_status t = Completed) (s_turns ?s')"
    using inv by (simp_all add: derived_def derive_turn_def Let_def)
  show ?thesis
    using inv role msgs blocks users turns unfolding derived_def by simp
qed

lemma derived_fold:
  assumes strict: "\<And>i j. i < j \<Longrightarrow> j < length is \<Longrightarrow> is ! i < is ! j"
    and bound: "\<And>i. i < length is \<Longrightarrow> is ! i < length (s_messages s0)"
    and inv: "derived fresh is s0 0 s0" and n: "n \<le> length is"
  shows "derived fresh is s0 n (foldl (derive_turn fresh is) s0 (take n (enumerate 0 is)))"
  using n
proof (induction n)
  case 0
  then show ?case using inv by simp
next
  case (Suc n)
  then have "take (Suc n) (enumerate 0 is) = take n (enumerate 0 is) @ [(n, is ! n)]"
    by (simp add: take_Suc_conv_app_nth nth_enumerate_eq)
  with derived_step [OF Suc.IH] Suc.prems strict bound show ?case by simp
qed

lemma derive_turns_result:
  assumes "s_turns s = []" "\<forall>m\<in>set (s_messages s). m_turn_id m = None"
    "\<forall>b\<in>set (s_transcript_blocks s). b_turn_id b = None"
  shows "derived fresh (user_indexes (s_messages s)) s (length (user_indexes (s_messages s)))
    (derive_turns fresh s)"
proof -
  let ?is = "user_indexes (s_messages s)"
  have "derived fresh ?is s 0 s" using assms by (simp add: derived_def)
  from derived_fold [OF user_indexes_strict _ this order_refl] user_indexes_bound
  show ?thesis by (simp add: derive_turns_def Let_def)
qed

section \<open>Properties of the migration\<close>

lemma append_or_merge_anchors:
  "sorted (map b_after_message (bs @ [b])) \<Longrightarrow> sorted (map b_after_message (append_or_merge bs b)) \<and>
   set (map b_after_message (append_or_merge bs b)) = set (map b_after_message (bs @ [b])) \<and>
   set (map b_turn_id (append_or_merge bs b)) = set (map b_turn_id (bs @ [b]))"
  by (cases bs rule: rev_cases) (auto simp: append_or_merge_def map_last_def sorted_append)

lemma merge_blocks_anchors:
  assumes "sorted (map b_after_message bs)"
  shows "sorted (map b_after_message (merge_blocks bs)) \<and>
    set (map b_after_message (merge_blocks bs)) = set (map b_after_message bs) \<and>
    set (map b_turn_id (merge_blocks bs)) = set (map b_turn_id bs)"
  using assms unfolding merge_blocks_def
proof (induction bs rule: rev_induct)
  case (snoc b bs)
  let ?m = "foldl append_or_merge [] bs"
  from snoc have ih: "sorted (map b_after_message ?m)"
    "set (map b_after_message ?m) = set (map b_after_message bs)"
    "set (map b_turn_id ?m) = set (map b_turn_id bs)"
    by (simp_all add: sorted_append)
  have "sorted (map b_after_message (?m @ [b]))"
    using snoc.prems ih(1,2) by (auto simp: sorted_append)
  from append_or_merge_anchors [OF this] ih show ?case by simp
qed simp

lemma image_constant: "\<forall>x\<in>B. f x = c \<Longrightarrow> f ` A = f ` B \<Longrightarrow> \<forall>x\<in>A. f x = c"
  by (metis imageE imageI)

text \<open>What a session from a version without turns looks like.\<close>

definition legacy_session :: "agent_session \<Rightarrow> bool" where
  "legacy_session s \<longleftrightarrow> s_turns s = [] \<and> list_ex (\<lambda>m. m_role m = User) (s_messages s) \<and>
     list_all (\<lambda>m. m_turn_id m = None) (s_messages s) \<and> distinct (map m_id (s_messages s)) \<and>
     list_all (\<lambda>b. b_turn_id b = None \<and> b_after_message b \<le> length (s_messages s))
       (s_transcript_blocks s) \<and>
     sorted (map b_after_message (s_transcript_blocks s))"

lemma migrate_fields_simps [simp]:
  "s_turns (migrate_legacy_fields s) = s_turns s"
  "s_transcript_blocks (migrate_legacy_fields s) = s_transcript_blocks s"
  "map m_id (s_messages (migrate_legacy_fields s)) = map m_id (s_messages s)"
  "map m_role (s_messages (migrate_legacy_fields s)) = map m_role (s_messages s)"
  "map m_turn_id (s_messages (migrate_legacy_fields s)) = map m_turn_id (s_messages s)"
  by (auto simp: migrate_legacy_fields_def Let_def strip_citations_of_def split: option.split)

lemma filter_nth_map: "filter P xs = map (\<lambda>i. xs ! i) (filter (\<lambda>i. P (xs ! i)) [0..<length xs])"
  using filter_map [of P "\<lambda>i. xs ! i" "[0..<length xs]"] by (simp add: map_nth comp_def)

lemma user_messages: "filter (\<lambda>m. m_role m = User) ms = map (\<lambda>i. ms ! i) (user_indexes ms)"
  unfolding user_indexes_def by (rule filter_nth_map)

lemma user_indexes_roles: "map m_role ms = map m_role ms' \<Longrightarrow> user_indexes ms = user_indexes ms'"
proof -
  assume r: "map m_role ms = map m_role ms'"
  then have "length ms = length ms'" by (metis length_map)
  moreover have "m_role (ms ! i) = m_role (ms' ! i)" if "i < length ms" for i
    using r that \<open>length ms = length ms'\<close> by (metis nth_map)
  ultimately show ?thesis unfolding user_indexes_def by (intro filter_cong) auto
qed

lemma list_ex_roles: "map m_role ms = map m_role ms' \<Longrightarrow>
    list_ex (\<lambda>m. m_role m = User) ms = list_ex (\<lambda>m. m_role m = User) ms'"
proof -
  have "list_ex (\<lambda>m. m_role m = User) xs \<longleftrightarrow> User \<in> set (map m_role xs)" for xs
    by (induction xs) auto
  moreover assume "map m_role ms = map m_role ms'"
  ultimately show ?thesis by metis
qed

text \<open>
  C38: migrating a session from a version that had no turns gives a well-formed session that is at
  rest: one completed turn for each user message, numbered from one, which owns that message and
  only messages and blocks the transcript has; no message is added, dropped or reordered.
\<close>

theorem legacy_turns_derived:
  assumes legacy: "legacy_session s"
    and inj: "inj_on fresh {..<length (user_indexes (s_messages s))}"
    and s': "s' = migrate_legacy_state L fresh s"
  shows "wf_session s' \<and> active_turn_id s' = None \<and>
    map m_id (s_messages s') = map m_id (s_messages s) \<and>
    map t_turn_count (s_turns s') = map Suc [0..<length (s_turns s')] \<and>
    map m_turn_id (filter (\<lambda>m. m_role m = User) (s_messages s')) = map (Some \<circ> t_id) (s_turns s')"
proof -
  let ?u = "(migrate_legacy_fields s)\<lparr>
      s_transcript_blocks := map (\<lambda>b. b\<lparr>b_activities := map (migrate_activity L) (b_activities b)\<rparr>)
        (merge_blocks (s_transcript_blocks (migrate_legacy_fields s))),
      s_turns := map refresh_turn_totals (s_turns (migrate_legacy_fields s))\<rparr>"
  let ?n = "length (user_indexes (s_messages s))"
  have roles: "map m_role (s_messages ?u) = map m_role (s_messages s)" by simp
  note idx = user_indexes_roles [OF roles] and ex = list_ex_roles [OF roles]
  have e: "s' = derive_turns fresh ?u"
    using legacy ex by (simp add: s' migrate_legacy_state_def legacy_session_def)
  have sorted: "sorted (map b_after_message (s_transcript_blocks s))"
    using legacy by (simp add: legacy_session_def)
  note anchors = merge_blocks_anchors [OF this]
  have none: "\<forall>m\<in>set (s_messages s). m_turn_id m = None" "\<forall>b\<in>set (s_transcript_blocks s). b_turn_id b = None"
    using legacy by (simp_all add: legacy_session_def list_all_iff)
  have "set (map m_turn_id (s_messages (migrate_legacy_fields s))) = set (map m_turn_id (s_messages s))"
    by (simp only: migrate_fields_simps)
  with none(1) have "\<forall>m\<in>set (s_messages (migrate_legacy_fields s)). m_turn_id m = None"
    unfolding set_map by (rule image_constant)
  then have "\<forall>m\<in>set (s_messages ?u). m_turn_id m = None" by simp
  moreover have "\<forall>b\<in>set (merge_blocks (s_transcript_blocks s)). b_turn_id b = None"
    using none(2) anchors unfolding set_map by (blast intro: image_constant [rule_format])
  then have "\<forall>b\<in>set (s_transcript_blocks ?u). b_turn_id b = None" by simp
  moreover have "s_turns ?u = []" using legacy by (simp add: legacy_session_def)
  ultimately have d: "derived fresh (user_indexes (s_messages ?u)) ?u (length (user_indexes (s_messages ?u))) s'"
    unfolding e by (intro derive_turns_result) auto
  then have d: "derived fresh (user_indexes (s_messages s)) ?u ?n s'" by (simp only: idx)
  then have ids: "map m_id (s_messages s') = map m_id (s_messages s)"
    and blocks: "map b_after_message (s_transcript_blocks s') = map b_after_message (merge_blocks (s_transcript_blocks s))"
    and turns: "map t_id (s_turns s') = map fresh [0..<?n]" "map t_turn_count (s_turns s') = map Suc [0..<?n]"
    and completed: "list_all (\<lambda>t. t_status t = Completed) (s_turns s')"
    by (simp_all add: derived_def comp_def)
  have len: "length (s_messages s') = length (s_messages s)" "length (s_turns s') = ?n"
    using ids turns(1) by (metis length_map, metis length_map length_upt minus_nat.diff_0)
  have tids: "set (map t_id (s_turns s')) = fresh ` {..<?n}"
    unfolding turns(1) by (simp add: lessThan_atLeast0)
  have not_running: "\<forall>t\<in>set (s_turns s'). \<not> is_running t"
    using completed by (auto simp: list_all_iff is_running_def)
  have "turns_ok (s_turns s')"
    using inj not_running unfolding turns_ok_def turns(1)
    by (auto simp: distinct_map lessThan_atLeast0 dest: in_set_butlastD)
  moreover have "messages_ok (set (turn_ids s')) (s_messages s')"
    using d legacy ids unfolding turn_ids_def tids by (simp add: messages_ok_def derived_def legacy_session_def)
  moreover have "b_after_message b \<le> length (s_messages s)" if "b \<in> set (s_transcript_blocks s')" for b
  proof -
    from that have "b_after_message b \<in> set (map b_after_message (s_transcript_blocks s'))" by simp
    with blocks anchors have "b_after_message b \<in> set (map b_after_message (s_transcript_blocks s))" by simp
    with legacy show ?thesis by (auto simp: legacy_session_def list_all_iff)
  qed
  then have "blocks_ok (set (turn_ids s')) (length (s_messages s')) (s_transcript_blocks s')"
    using d anchors unfolding turn_ids_def tids blocks_ok_def blocks len by (auto simp: derived_def)
  ultimately have "wf_session s'" by (simp add: wf_session_def)
  moreover have "active_turn_id s' = None"
    using not_running by (auto simp: active_turn_id_def opt_filter_def last_opt_def split: option.splits)
  moreover have "map m_turn_id (filter (\<lambda>m. m_role m = User) (s_messages s')) = map (Some \<circ> t_id) (s_turns s')"
  proof -
    have "map m_role (s_messages s') = map m_role (s_messages s)" using d by (simp add: derived_def)
    note idx' = user_indexes_roles [OF this]
    have "map m_turn_id (map (\<lambda>i. s_messages s' ! i) (user_indexes (s_messages s))) = map (\<lambda>j. Some (fresh j)) [0..<?n]"
      using d by (intro nth_equalityI) (simp_all add: derived_def)
    also have "\<dots> = map (Some \<circ> t_id) (s_turns s')"
      unfolding map_map [symmetric] turns(1) by (simp add: comp_def)
    finally show ?thesis unfolding user_messages idx' .
  qed
  ultimately show ?thesis using ids turns(2) len(2) by simp
qed

definition demo_legacy :: agent_session where
  "demo_legacy = (session_new 5 10 1 Codex)\<lparr>s_messages :=
     [message_new 1 10 User [65], message_new 2 20 Assistant [66], message_new 3 30 User [67]]\<rparr>"

theorem legacy_turns_derived_witness:
  "wf_session (migrate_legacy_state plain_lib of_nat demo_legacy) \<and>
   map m_id (s_messages (migrate_legacy_state plain_lib of_nat demo_legacy)) = [1, 2, 3]"
proof -
  have l: "legacy_session demo_legacy"
    by (simp add: legacy_session_def demo_legacy_def session_new_def message_new_def)
  have "length (user_indexes (s_messages demo_legacy)) = 2"
    by (simp add: user_indexes_def demo_legacy_def session_new_def message_new_def upt_rec)
  then have i: "inj_on (of_nat :: nat \<Rightarrow> uuid) {..<length (user_indexes (s_messages demo_legacy))}"
    by (simp add: lessThan_nat_numeral lessThan_Suc)
  from legacy_turns_derived [OF l i refl, of plain_lib] show ?thesis
    by (simp add: demo_legacy_def session_new_def message_new_def)
qed

lemma strip_citation:
  assumes "cite_start \<notin> set before" "cite_end \<notin> set marker"
  shows "strip_legacy_codex_citations (before @ cite_start # marker @ cite_end # rest) =
    before @ (if hd (split_char cite_separator marker) \<noteq> lit ''cite''
      then cite_start # marker @ [cite_end] else []) @ strip_legacy_codex_citations rest"
proof -
  have "takeWhile (\<lambda>c. c \<noteq> d) (xs @ d # ys) = xs" "after_char d (xs @ d # ys) = ys"
    if "d \<notin> set xs" for d xs and ys :: rstring
    using that by (auto simp: after_char_def takeWhile_append dropWhile_append)
  with assms show ?thesis
    by (subst strip_legacy_codex_citations.simps) (simp add: Let_def)
qed

lemma strip_no_citation: "cite_start \<notin> set s \<Longrightarrow> strip_legacy_codex_citations s = s"
  by (subst strip_legacy_codex_citations.simps) simp

end
