(* ===== verification/Task_Load.thy ===== *)
theory Task_Load
  imports Task_Store_Properties Legacy_Migration
begin

text \<open>
  Loading the task store (\<open>StateStore::load\<close> in \<open>crates/shidou-core/src/persistence.rs\<close>): the
  skeletons of the session list, the recovery of missing automatic titles, the migration of what
  was loaded and the fresh memory of the connection.
\<close>

section \<open>Missing automatic titles\<close>

text \<open>SQLite's \<open>trim\<close> removes blanks only.\<close>

definition title_missing :: "session_row \<Rightarrow> bool" where
  "title_missing r \<longleftrightarrow> sr_title r = default_title \<and>
     (case sr_auto_title r of None \<Rightarrow> True | Some t \<Rightarrow> trim_matches (\<lambda>c. c = 32) t = [])"

definition first_prompts :: "database \<Rightarrow> uuid \<rightharpoonup> rstring" where
  "first_prompts db = foldl (\<lambda>prompts r. prompts(mr_session_id r \<mapsto> m_content (mr_message r))) Map.empty
     (filter (\<lambda>r. m_role (mr_message r) = User \<and>
         list_ex (\<lambda>s. sr_id s = mr_session_id r \<and> title_missing s) (db_sessions db) \<and>
         \<not> list_ex (\<lambda>e. mr_session_id e = mr_session_id r \<and> m_role (mr_message e) = User \<and>
             mr_position e < mr_position r) (db_messages db))
       (db_messages db))"

definition update_auto_title :: "uuid \<Rightarrow> rstring \<Rightarrow> database \<Rightarrow> database" where
  "update_auto_title i t db = db\<lparr>db_sessions :=
     map (\<lambda>r. if sr_id r = i then r\<lparr>sr_auto_title := Some t\<rparr> else r) (db_sessions db)\<rparr>"

definition recover_title ::
    "(uuid \<rightharpoonup> rstring) \<Rightarrow> database \<times> agent_session list \<Rightarrow> agent_session \<Rightarrow>
     database \<times> agent_session list" where
  "recover_title prompts acc s =
     (case acc of (db, recovered) \<Rightarrow>
        (case prompts (s_id s) of
           None \<Rightarrow> (db, recovered @ [s])
         | Some prompt \<Rightarrow>
             let s = set_title_from_prompt prompt s in
             ((case s_auto_title s of Some t \<Rightarrow> update_auto_title (s_id s) t db | None \<Rightarrow> db),
              recovered @ [s])))"

definition recover_missing_auto_titles ::
    "database \<Rightarrow> agent_session list \<Rightarrow> database \<times> agent_session list" where
  "recover_missing_auto_titles db sessions =
     foldl (recover_title (first_prompts db)) (db, []) sessions"

section \<open>Loading\<close>

definition migrate_session :: "lib \<Rightarrow> (nat \<Rightarrow> uuid) \<Rightarrow> agent_session \<Rightarrow> agent_session" where
  "migrate_session L fresh s = backfill_last_reply_at (migrate_legacy_state L fresh s)"

definition migration_dirty :: "lib \<Rightarrow> (nat \<Rightarrow> uuid) \<Rightarrow> agent_session \<Rightarrow> bool" where
  "migration_dirty L fresh s \<longleftrightarrow>
     (let s' = migrate_session L fresh s in
      \<not> list_all (\<lambda>t. case t_checkpoint t of None \<Rightarrow> True | Some c \<Rightarrow> totals_are_current c) (s_turns s) \<or>
      (length (s_turns s), s_last_reply_at s, s_provider_cursor s \<noteq> None) \<noteq>
      (length (s_turns s'), s_last_reply_at s', s_provider_cursor s' \<noteq> None))"

definition migrate_loaded :: "lib \<Rightarrow> (nat \<Rightarrow> uuid) \<Rightarrow> task_state \<Rightarrow> task_state" where
  "migrate_loaded L fresh state =
     state\<lparr>tk_sessions := map (migrate_session L fresh) (tk_sessions state),
       tk_dirty_sessions := tk_dirty_sessions state \<union>
         set (map s_id (filter (migration_dirty L fresh) (tk_sessions state)))\<rparr>"

definition load_store :: "lib \<Rightarrow> (nat \<Rightarrow> uuid) \<Rightarrow> database \<Rightarrow> task_store \<times> task_state" where
  "load_store L fresh db =
     (let skeletons = load_sessions db;
          (db', sessions) = recover_missing_auto_titles db skeletons;
          state = migrate_loaded L fresh
            \<lparr>tk_projects = load_projects db, tk_sessions = sessions, tk_dirty_sessions = {}\<rparr> in
      (\<lparr>ts_database = db', ts_storage = \<lparr>st_persisted_sessions = map s_id skeletons,
          st_written_messages = Map.empty, st_saved_projects = 0\<rparr>\<rparr>, state))"

section \<open>What loading does to skeletons\<close>

definition is_skeleton :: "agent_session \<Rightarrow> bool" where
  "is_skeleton s \<longleftrightarrow> (\<exists>r. s = session_skeleton r)"

lemma skeleton_params [simp]: "session_params (session_skeleton r) = r"
  by (simp add: session_params_def session_skeleton_def)

lemma skeleton_id [simp]: "s_id (session_skeleton r) = sr_id r"
  by (simp add: session_skeleton_def)

lemma skeleton_not_loaded [simp]: "\<not> s_detail_loaded (session_skeleton r)"
  by (simp add: session_skeleton_def)

lemma load_sessions_ids: "map s_id (load_sessions db) = map sr_id (sort_key updated_column (db_sessions db))"
  by (simp add: load_sessions_def comp_def)

lemma skeleton_title: "set_title_from_prompt p (session_skeleton r) =
    session_skeleton (r\<lparr>sr_auto_title := s_auto_title (set_title_from_prompt p (session_skeleton r))\<rparr>)"
  by (auto simp: set_title_from_prompt_def Let_def session_skeleton_def)

text \<open>The migration finds nothing to do: a skeleton carries none of the parts it rewrites.\<close>

lemma migrate_skeleton_fields: "migrate_legacy_fields (session_skeleton r) = session_skeleton r"
  by (simp add: migrate_legacy_fields_def session_skeleton_def runtime_mode_default_def Let_def)

lemma skeleton_parts:
  "s_transcript_blocks (session_skeleton r) = []" "s_turns (session_skeleton r) = []"
  "s_messages (session_skeleton r) = []" "s_last_reply_at (session_skeleton r) = sr_last_reply_at r"
  "(session_skeleton r)\<lparr>s_transcript_blocks := [], s_turns := []\<rparr> = session_skeleton r"
  "sr_last_reply_at r = None \<Longrightarrow> (session_skeleton r)\<lparr>s_last_reply_at := None\<rparr> = session_skeleton r"
  by (simp_all add: session_skeleton_def)

lemma migrate_skeleton_state: "migrate_legacy_state L fresh (session_skeleton r) = session_skeleton r"
  unfolding migrate_legacy_state_def Let_def migrate_skeleton_fields
  by (simp add: skeleton_parts merge_blocks_def)

lemma migrate_skeleton: "migrate_session L fresh (session_skeleton r) = session_skeleton r"
  unfolding migrate_session_def migrate_skeleton_state backfill_last_reply_at_def
  by (auto simp: skeleton_parts)

lemma skeleton_not_dirty: "\<not> migration_dirty L fresh (session_skeleton r)"
  by (simp add: migration_dirty_def migrate_skeleton Let_def) (simp add: session_skeleton_def)

definition titled :: "(uuid \<rightharpoonup> rstring) \<Rightarrow> session_row \<Rightarrow> session_row" where
  "titled prompts r = (case prompts (sr_id r) of None \<Rightarrow> r
     | Some p \<Rightarrow> r\<lparr>sr_auto_title := s_auto_title (set_title_from_prompt p (session_skeleton r))\<rparr>)"

lemma titled_id [simp]: "sr_id (titled prompts r) = sr_id r"
  by (simp add: titled_def split: option.split)

lemma recover_fold:
  assumes "distinct (map sr_id (db_sessions db))" "set rs \<subseteq> set (db_sessions db)"
  shows "foldl (recover_title prompts) (db, []) (map session_skeleton rs) =
    (db\<lparr>db_sessions := map (\<lambda>r. if sr_id r \<in> sr_id ` set rs then titled prompts r else r) (db_sessions db)\<rparr>,
     map (session_skeleton \<circ> titled prompts) rs)"
  using assms(2)
proof (induction rs rule: rev_induct)
  case (snoc x rs)
  let ?g = "\<lambda>r. if sr_id r \<in> sr_id ` set rs then titled prompts r else r"
  have x: "r = x" if "r \<in> set (db_sessions db)" "sr_id r = sr_id x" for r
    using row_unique [OF assms(1) that(1) _ that(2)] snoc.prems by simp
  have rows0: "map ?g (db_sessions db) =
      map (\<lambda>r. if sr_id r \<in> sr_id ` set (rs @ [x]) then titled prompts r else r) (db_sessions db)"
    if t: "titled prompts x = x"
  proof (rule map_cong [OF refl])
    fix r assume r: "r \<in> set (db_sessions db)"
    show "?g r = (if sr_id r \<in> sr_id ` set (rs @ [x]) then titled prompts r else r)"
      using x [OF r] t by auto
  qed
  show ?case
  proof (cases "prompts (sr_id x)")
    case None
    then have "titled prompts x = x" by (simp add: titled_def)
    with None snoc show ?thesis by (simp add: recover_title_def rows0 del: map_map)
  next
    case (Some p)
    define t where "t = sr_auto_title (titled prompts x)"
    have tx: "titled prompts x = x\<lparr>sr_auto_title := t\<rparr>" by (simp add: t_def titled_def Some)
    have sk: "set_title_from_prompt p (session_skeleton x) = session_skeleton (titled prompts x)"
      using skeleton_title [of p x] by (simp add: titled_def Some)
    have none: "titled prompts x = x" if "t = None"
    proof -
      have "s_auto_title (set_title_from_prompt p (session_skeleton x)) = None"
        using that by (simp add: t_def titled_def Some)
      then have "sr_auto_title x = None"
        by (auto simp: set_title_from_prompt_def Let_def session_skeleton_def split: if_splits)
      with that show ?thesis by (simp add: tx)
    qed
    have rows: "map (\<lambda>r. if sr_id r = sr_id x then r\<lparr>sr_auto_title := Some u\<rparr> else r)
          (map ?g (db_sessions db)) =
        map (\<lambda>r. if sr_id r \<in> sr_id ` set (rs @ [x]) then titled prompts r else r) (db_sessions db)"
      if t: "t = Some u" for u
      unfolding map_map
    proof (rule map_cong [OF refl])
      fix r assume r: "r \<in> set (db_sessions db)"
      show "((\<lambda>r. if sr_id r = sr_id x then r\<lparr>sr_auto_title := Some u\<rparr> else r) \<circ> ?g) r =
          (if sr_id r \<in> sr_id ` set (rs @ [x]) then titled prompts r else r)"
        using x [OF r] tx t by auto
    qed
    let ?D = "db\<lparr>db_sessions := map ?g (db_sessions db)\<rparr>"
    have at: "s_auto_title (session_skeleton (titled prompts x)) = t"
      by (simp add: session_skeleton_def t_def)
    have step: "recover_title prompts (?D, out) (session_skeleton x) =
        ((case t of Some u \<Rightarrow> update_auto_title (sr_id x) u ?D | None \<Rightarrow> ?D),
         out @ [session_skeleton (titled prompts x)])" for out
      by (simp only: recover_title_def prod.case skeleton_id Some option.case sk Let_def at titled_id)
    have "(case t of Some u \<Rightarrow> update_auto_title (sr_id x) u ?D | None \<Rightarrow> ?D) =
        db\<lparr>db_sessions := map (\<lambda>r. if sr_id r \<in> sr_id ` set (rs @ [x]) then titled prompts r else r)
          (db_sessions db)\<rparr>"
    proof (cases t)
      case None
      show ?thesis unfolding None option.case rows0 [OF none [OF None]] ..
    next
      case (Some u)
      show ?thesis unfolding Some option.case update_auto_title_def rows [OF Some, symmetric]
        by simp
    qed
    note step = step [unfolded this]
    from snoc have "foldl (recover_title prompts) (db, []) (map session_skeleton rs) =
        (?D, map (session_skeleton \<circ> titled prompts) rs)" by simp
    with step show ?thesis by (simp only: map_append list.map foldl_append foldl.simps comp_def)
  qed
qed simp

lemma load_store_eq:
  assumes "distinct (map sr_id (db_sessions db))"
  shows "load_store L fresh db =
    (\<lparr>ts_database = db\<lparr>db_sessions := map (titled (first_prompts db)) (db_sessions db)\<rparr>,
      ts_storage = \<lparr>st_persisted_sessions = map sr_id (sort_key updated_column (db_sessions db)),
        st_written_messages = Map.empty, st_saved_projects = 0\<rparr>\<rparr>,
     \<lparr>tk_projects = load_projects db,
      tk_sessions = map (session_skeleton \<circ> titled (first_prompts db)) (sort_key updated_column (db_sessions db)),
      tk_dirty_sessions = {}\<rparr>)"
proof -
  let ?rs = "sort_key updated_column (db_sessions db)"
  have "map (\<lambda>r. if sr_id r \<in> sr_id ` set ?rs then titled (first_prompts db) r else r) (db_sessions db) =
      map (titled (first_prompts db)) (db_sessions db)"
    by simp
  with recover_fold [OF assms, of ?rs "first_prompts db"]
  have "recover_missing_auto_titles db (load_sessions db) =
      (db\<lparr>db_sessions := map (titled (first_prompts db)) (db_sessions db)\<rparr>,
       map (session_skeleton \<circ> titled (first_prompts db)) ?rs)"
    by (simp add: recover_missing_auto_titles_def load_sessions_def)
  moreover have "filter (migration_dirty L fresh) (map (\<lambda>x. session_skeleton (f x)) rs) = []"
    for f and rs :: "session_row list"
    by (simp add: skeleton_not_dirty filter_empty_conv)
  ultimately show ?thesis
    by (simp add: load_store_def migrate_loaded_def comp_def migrate_skeleton load_sessions_ids del: set_filter)
qed

lemma sort_key_map_same:
  assumes "\<And>x. f (g x) = f x"
  shows "sort_key f (map g xs) = map g (sort_key f xs)"
proof -
  have "insort_key f (g x) (map g ys) = map g (insort_key f x ys)" for x ys
    by (induction ys) (simp_all add: assms)
  then show ?thesis by (induction xs) simp_all
qed

text \<open>The transcript rows a store holds belong to sessions it lists.\<close>

definition listed :: "database \<Rightarrow> bool" where
  "listed db \<longleftrightarrow> fst ` set (db_details db) \<union> mr_session_id ` set (db_messages db) \<subseteq>
     sr_id ` set (db_sessions db)"



end
