(* ===== verification/Driver_Wire.thy ===== *)
theory Driver_Wire
  imports Session Protocol
begin

text \<open>
  How a driver event travels between daemon and client (\<open>event_to_wire\<close> and \<open>event_from_wire\<close> in
  \<open>crates/shidou-core/src/daemon.rs\<close>, with the structures they decode into). The conversions serde
  derives for the types inside an event are the parameter \<open>wire_codec\<close>; strings, options, vectors
  and structures are converted as serde does it.
\<close>

section \<open>Conversions\<close>

type_synonym 'a serde = "('a \<Rightarrow> json) \<times> (json \<Rightarrow> 'a option)"

fun as_bool :: "json \<Rightarrow> bool option" where
  "as_bool (JBool b) = Some b"
| "as_bool _ = None"

definition json_u64 :: "u64 \<Rightarrow> json" where
  "json_u64 n = JNumber (Some n) (dec (unat n))"

definition json_option :: "('a \<Rightarrow> json) \<Rightarrow> 'a option \<Rightarrow> json" where
  "json_option f a = (case a of Some x \<Rightarrow> f x | None \<Rightarrow> JNull)"

definition option_from :: "(json \<Rightarrow> 'a option) \<Rightarrow> json \<Rightarrow> 'a option option" where
  "option_from f v = (if is_null v then Some None else map_option Some (f v))"

fun collect :: "'a option list \<Rightarrow> 'a list option" where
  "collect [] = Some []"
| "collect (x # xs) = (case (x, collect xs) of (Some a, Some b) \<Rightarrow> Some (a # b) | _ \<Rightarrow> None)"

definition vec_from :: "(json \<Rightarrow> 'a option) \<Rightarrow> json \<Rightarrow> 'a list option" where
  "vec_from f v = (case as_array v of Some xs \<Rightarrow> collect (map f xs) | None \<Rightarrow> None)"

text \<open>
  A structure is read from an object by the names of its fields, or from an array with exactly
  its fields in order; a missing field is an error unless it is an option.
\<close>

definition struct_fields :: "string list \<Rightarrow> json \<Rightarrow> json option list option" where
  "struct_fields names v = (case v of
       JObject m \<Rightarrow> Some (map (obj_get m) names)
     | JArray xs \<Rightarrow> if length xs = length names then Some (map Some xs) else None
     | _ \<Rightarrow> None)"

definition req_field :: "(json \<Rightarrow> 'a option) \<Rightarrow> json option \<Rightarrow> 'a option" where
  "req_field f v = Option.bind v f"

definition opt_field :: "(json \<Rightarrow> 'a option) \<Rightarrow> json option \<Rightarrow> 'a option option" where
  "opt_field f v = (case v of None \<Rightarrow> Some None | Some j \<Rightarrow> option_from f j)"

fun struct1 :: "string \<Rightarrow> (json option \<Rightarrow> 'a option) \<Rightarrow> json \<Rightarrow> 'a option" where
  "struct1 n f v = (case struct_fields [n] v of Some [a] \<Rightarrow> f a | _ \<Rightarrow> None)"

fun struct2 :: "string \<times> string \<Rightarrow> (json option \<Rightarrow> json option \<Rightarrow> 'a option) \<Rightarrow> json \<Rightarrow> 'a option" where
  "struct2 (n, m) f v = (case struct_fields [n, m] v of Some [a, b] \<Rightarrow> f a b | _ \<Rightarrow> None)"

definition pure2 :: "('a \<Rightarrow> 'b \<Rightarrow> 'c) \<Rightarrow> 'a option \<Rightarrow> 'b option \<Rightarrow> 'c option" where
  "pure2 f a b = Option.bind a (\<lambda>a. map_option (f a) b)"

section \<open>Events\<close>

record wire_codec =
  wc_uuid :: "uuid serde"
  wc_cursor :: "provider_resume_cursor serde"
  wc_command :: "reported_command serde"
  wc_turn :: "agent_turn serde"
  wc_message :: "message serde"
  wc_kind :: "activity_kind serde"
  wc_activity :: "activity_item serde"
  wc_work :: "background_work_event serde"
  wc_permission :: "permission_option serde"
  wc_question :: "user_input_question serde"
  wc_target :: "computer_target serde"
  wc_phase :: "computer_use_phase serde"
  wc_plan :: "plan_usage serde"

definition fields :: "(string \<times> json) list \<Rightarrow> json" where
  "fields kvs = JObject (map (\<lambda>(k, v). (lit k, v)) kvs)"

fun event_payload :: "wire_codec \<Rightarrow> driver_event \<Rightarrow> string \<times> json" where
  "event_payload C (RuntimeEventCursorAdvanced cursor) = ('''', JNull)"
| "event_payload C (Connected cursor) = (''connected'', json_option (fst (wc_cursor C)) cursor)"
| "event_payload C (AgentPresetSelected preset) = (''agentPresetSelected'', json_option JString preset)"
| "event_payload C (AutoTitleUpdated title) = (''autoTitleUpdated'', json_option JString title)"
| "event_payload C (AvailableCommands cs) =
     (''availableCommands'', JArray (map (fst (wc_command C)) cs))"
| "event_payload C (TurnAccepted submission_id turn messages) =
     (''turnAccepted'', fields [(''submissionId'', fst (wc_uuid C) submission_id),
        (''turn'', fst (wc_turn C) turn), (''messages'', JArray (map (fst (wc_message C)) messages))])"
| "event_payload C TurnStarted = (''turnStarted'', JNull)"
| "event_payload C (TextDelta delta) = (''textDelta'', JString delta)"
| "event_payload C (ReasoningDelta delta) = (''reasoningDelta'', JString delta)"
| "event_payload C (Activity source_id kind title detail complete) =
     (''activity'', fields [(''id'', json_option JString source_id), (''kind'', fst (wc_kind C) kind),
        (''title'', JString title), (''detail'', json_option JString detail), (''complete'', JBool complete)])"
| "event_payload C (RichActivity item) = (''richActivity'', fst (wc_activity C) item)"
| "event_payload C (BackgroundWork work) = (''backgroundWork'', fst (wc_work C) work)"
| "event_payload C (Permission request_id title detail options) =
     (''permission'', fields [(''requestId'', JString request_id), (''title'', JString title),
        (''detail'', JString detail), (''options'', JArray (map (fst (wc_permission C)) options))])"
| "event_payload C (UserInputRequested request_id questions) =
     (''userInputRequested'', fields [(''requestId'', JString request_id),
        (''questions'', JArray (map (fst (wc_question C)) questions))])"
| "event_payload C (InteractionResolved request_id) =
     (''interactionResolved'', fields [(''requestId'', JString request_id)])"
| "event_payload C (ComputerUseUpdated state) =
     (''computerUseUpdated'', fields [(''target'', json_option (fst (wc_target C)) (cs_target state)),
        (''phase'', fst (wc_phase C) (cs_phase state)), (''visible'', JBool (cs_visible state)),
        (''imageUrl'', json_option JString (cs_image_url state))])"
| "event_payload C (SteerAccepted message) = (''steerAccepted'', fields [(''message'', JString message)])"
| "event_payload C (SteerRejected message reason) =
     (''steerRejected'', fields [(''message'', JString message), (''reason'', JString reason)])"
| "event_payload C (UsageUpdated context_tokens context_window) =
     (''usageUpdated'', fields [(''contextTokens'', json_option json_u64 context_tokens),
        (''contextWindow'', json_option json_u64 context_window)])"
| "event_payload C (PlanUsageUpdated usage) = (''planUsageUpdated'', fst (wc_plan C) usage)"
| "event_payload C (TurnFinished success summary) =
     (''turnFinished'', fields [(''success'', JBool success), (''summary'', json_option JString summary)])"
| "event_payload C (Error error) = (''error'', JString error)"
| "event_payload C ProcessExited = (''processExited'', JNull)"

definition event_to_wire :: "wire_codec \<Rightarrow> driver_event \<Rightarrow> rstring + wire_driver_event" where
  "event_to_wire C event = (case event of
       RuntimeEventCursorAdvanced _ \<Rightarrow>
         Inl (lit ''client-only runtime cursors cannot be sent by the daemon'')
     | _ \<Rightarrow> (case event_payload C event of
         (kind, payload) \<Rightarrow> Inr \<lparr>we_kind = lit kind, we_payload = payload\<rparr>))"

definition activity_wire :: "wire_codec \<Rightarrow> json \<Rightarrow> driver_event option" where
  "activity_wire C v =
     (case struct_fields [''id'', ''kind'', ''title'', ''detail'', ''complete''] v of
        Some [i, k, t, d, c] \<Rightarrow>
          (case (opt_field as_str i, req_field (snd (wc_kind C)) k, req_field as_str t,
              opt_field as_str d, req_field as_bool c) of
            (Some i, Some k, Some t, Some d, Some c) \<Rightarrow> Some (Activity i k t d c)
          | _ \<Rightarrow> None)
      | _ \<Rightarrow> None)"

definition permission_wire :: "wire_codec \<Rightarrow> json \<Rightarrow> driver_event option" where
  "permission_wire C v =
     (case struct_fields [''requestId'', ''title'', ''detail'', ''options''] v of
        Some [i, t, d, os] \<Rightarrow>
          (case (req_field as_str i, req_field as_str t, req_field as_str d,
              req_field (vec_from (snd (wc_permission C))) os) of
            (Some i, Some t, Some d, Some os) \<Rightarrow> Some (Permission i t d os)
          | _ \<Rightarrow> None)
      | _ \<Rightarrow> None)"

definition turn_accepted_wire :: "wire_codec \<Rightarrow> json \<Rightarrow> driver_event option" where
  "turn_accepted_wire C v =
     (case struct_fields [''submissionId'', ''turn'', ''messages''] v of
        Some [i, t, ms] \<Rightarrow>
          (case (req_field (snd (wc_uuid C)) i, req_field (snd (wc_turn C)) t,
              req_field (vec_from (snd (wc_message C))) ms) of
            (Some i, Some t, Some ms) \<Rightarrow> Some (TurnAccepted i t ms)
          | _ \<Rightarrow> None)
      | _ \<Rightarrow> None)"

definition computer_use_wire :: "wire_codec \<Rightarrow> json \<Rightarrow> driver_event option" where
  "computer_use_wire C v =
     (case struct_fields [''target'', ''phase'', ''visible'', ''imageUrl''] v of
        Some [t, p, s, i] \<Rightarrow>
          (case (opt_field (snd (wc_target C)) t, req_field (snd (wc_phase C)) p,
              req_field as_bool s, opt_field as_str i) of
            (Some t, Some p, Some s, Some i) \<Rightarrow>
              Some (ComputerUseUpdated \<lparr>cs_target = t, cs_phase = p, cs_visible = s, cs_image_url = i\<rparr>)
          | _ \<Rightarrow> None)
      | _ \<Rightarrow> None)"

text \<open>The arms of \<open>event_from_wire\<close> by the kind they match.\<close>

definition event_arms :: "wire_codec \<Rightarrow> (string \<times> (json \<Rightarrow> driver_event option)) list" where
  "event_arms C =
    [(''connected'', map_option Connected \<circ> option_from (snd (wc_cursor C))),
     (''agentPresetSelected'', map_option AgentPresetSelected \<circ> option_from as_str),
     (''autoTitleUpdated'', map_option AutoTitleUpdated \<circ> option_from as_str),
     (''availableCommands'', map_option AvailableCommands \<circ> vec_from (snd (wc_command C))),
     (''turnAccepted'', turn_accepted_wire C),
     (''turnStarted'', \<lambda>_. Some TurnStarted),
     (''textDelta'', map_option TextDelta \<circ> as_str),
     (''reasoningDelta'', map_option ReasoningDelta \<circ> as_str),
     (''activity'', activity_wire C),
     (''richActivity'', map_option RichActivity \<circ> snd (wc_activity C)),
     (''backgroundWork'', map_option BackgroundWork \<circ> snd (wc_work C)),
     (''permission'', permission_wire C),
     (''userInputRequested'', struct2 (''requestId'', ''questions'') (\<lambda>i qs.
        pure2 UserInputRequested (req_field as_str i) (req_field (vec_from (snd (wc_question C))) qs))),
     (''interactionResolved'', struct1 ''requestId'' (\<lambda>i. map_option InteractionResolved (req_field as_str i))),
     (''computerUseUpdated'', computer_use_wire C),
     (''steerAccepted'', struct1 ''message'' (\<lambda>m. map_option SteerAccepted (req_field as_str m))),
     (''steerRejected'', struct2 (''message'', ''reason'') (\<lambda>m r.
        pure2 SteerRejected (req_field as_str m) (req_field as_str r))),
     (''usageUpdated'', struct2 (''contextTokens'', ''contextWindow'') (\<lambda>t w.
        pure2 UsageUpdated (opt_field as_u64 t) (opt_field as_u64 w))),
     (''planUsageUpdated'', map_option PlanUsageUpdated \<circ> snd (wc_plan C)),
     (''turnFinished'', struct2 (''success'', ''summary'') (\<lambda>s m.
        pure2 TurnFinished (req_field as_bool s) (opt_field as_str m))),
     (''error'', map_option Error \<circ> as_str),
     (''processExited'', \<lambda>_. Some ProcessExited)]"

definition event_from_wire :: "wire_codec \<Rightarrow> wire_driver_event \<Rightarrow> driver_event option" where
  "event_from_wire C event =
     (case List.find (\<lambda>(kind, _). lit kind = we_kind event) (event_arms C) of
        Some (_, arm) \<Rightarrow> arm (we_payload event)
      | None \<Rightarrow> None)"

section \<open>The round trip\<close>

definition reads_back :: "'a serde \<Rightarrow> 'a \<Rightarrow> bool" where
  "reads_back sd x \<longleftrightarrow> snd sd (fst sd x) = Some x \<and> fst sd x \<noteq> JNull"

text \<open>serde reads back what it wrote of the values inside an event.\<close>

fun values_read_back :: "wire_codec \<Rightarrow> driver_event \<Rightarrow> bool" where
  "values_read_back C (Connected cursor) = pred_option (reads_back (wc_cursor C)) cursor"
| "values_read_back C (AvailableCommands cs) = list_all (reads_back (wc_command C)) cs"
| "values_read_back C (TurnAccepted submission_id turn messages) =
     (reads_back (wc_uuid C) submission_id \<and> reads_back (wc_turn C) turn \<and>
      list_all (reads_back (wc_message C)) messages)"
| "values_read_back C (Activity _ kind _ _ _) = reads_back (wc_kind C) kind"
| "values_read_back C (RichActivity item) = reads_back (wc_activity C) item"
| "values_read_back C (BackgroundWork work) = reads_back (wc_work C) work"
| "values_read_back C (Permission _ _ _ options) = list_all (reads_back (wc_permission C)) options"
| "values_read_back C (UserInputRequested _ questions) = list_all (reads_back (wc_question C)) questions"
| "values_read_back C (ComputerUseUpdated state) =
     (pred_option (reads_back (wc_target C)) (cs_target state) \<and> reads_back (wc_phase C) (cs_phase state))"
| "values_read_back C (PlanUsageUpdated usage) = reads_back (wc_plan C) usage"
| "values_read_back C _ = True"

lemma option_from_json [simp]:
  "option_from as_str (json_option JString a) = Some a"
  "option_from as_u64 (json_option json_u64 n) = Some n"
  "pred_option (reads_back sd) x \<Longrightarrow> option_from (snd sd) (json_option (fst sd) x) = Some x"
  by (auto simp: option_from_def json_option_def is_null_def json_u64_def reads_back_def split: option.split)

lemma vec_from_json [simp]:
  "list_all (reads_back sd) xs \<Longrightarrow> vec_from (snd sd) (JArray (map (fst sd) xs)) = Some xs"
proof (induction xs)
  case (Cons x xs)
  then show ?case by (auto simp: vec_from_def reads_back_def)
qed (simp add: vec_from_def)

lemma lit_inject [simp]: "lit a = lit b \<longleftrightarrow> a = b"
proof -
  have "inj (of_char :: char \<Rightarrow> nat)" by (auto intro: injI dest: arg_cong [of _ _ char_of])
  then show ?thesis by (simp add: lit_def inj_map_eq_map)
qed

lemma arm_lookup: "map_of (event_arms C) k = Some f \<Longrightarrow>
    event_from_wire C \<lparr>we_kind = lit k, we_payload = v\<rparr> = f v"
proof -
  have "List.find (\<lambda>(kind, _). lit kind = lit k) arms = map_option (Pair k) (map_of arms k)"
    for arms :: "(string \<times> (json \<Rightarrow> driver_event option)) list"
    by (induction arms) (auto simp del: lit_def)
  then show "map_of (event_arms C) k = Some f \<Longrightarrow> ?thesis" by (simp add: event_from_wire_def)
qed

lemmas wire_fields = struct_fields_def fields_def obj_get_def req_field_def opt_field_def pure2_def
  activity_wire_def permission_wire_def turn_accepted_wire_def computer_use_wire_def reads_back_def


definition no_codec :: "'a serde" where
  "no_codec = (\<lambda>_. JNull, \<lambda>_. None)"

definition permission_codec :: "permission_option serde" where
  "permission_codec =
     (\<lambda>p. JArray [JString (po_id p), JString (po_label p), JBool (po_allow p)],
      \<lambda>v. case v of JArray [JString i, JString l, JBool a] \<Rightarrow>
          Some \<lparr>po_id = i, po_label = l, po_allow = a\<rparr> | _ \<Rightarrow> None)"

definition demo_codec :: wire_codec where
  "demo_codec = \<lparr>wc_uuid = no_codec, wc_cursor = no_codec, wc_command = no_codec, wc_turn = no_codec,
     wc_message = no_codec, wc_kind = no_codec, wc_activity = no_codec, wc_work = no_codec,
     wc_permission = permission_codec, wc_question = no_codec, wc_target = no_codec,
     wc_phase = no_codec, wc_plan = no_codec\<rparr>"


text \<open>The two events the request mailbox writes by hand are events of a driver.\<close>

lemma settled_turn_decodes:
  "event_from_wire C \<lparr>we_kind = lit ''turnFinished'', we_payload = JObject [(lit ''success'', JBool False)]\<rparr> =
     Some (TurnFinished False None)"
  by (simp add: arm_lookup event_arms_def wire_fields)

lemma resolved_interaction_decodes:
  "event_from_wire C \<lparr>we_kind = lit ''interactionResolved'',
      we_payload = JObject [(lit ''requestId'', JString request_id)]\<rparr> =
     Some (InteractionResolved request_id)"
  by (simp add: arm_lookup event_arms_def wire_fields)

end
