(* ===== verification/Task_Titles.thy ===== *)
theory Task_Titles
  imports Session
begin

text \<open>
  The numbered titles of forks and the checks in front of a fork or a rewind
  (\<open>next_response_fork_title\<close>, \<open>validate_response_fork\<close> and \<open>validate_message_rewind\<close> in
  \<open>crates/shidou-core/src/daemon.rs\<close>).
\<close>

section \<open>Parsing a number\<close>

definition usize_limit :: nat where "usize_limit = 2 ^ 64"

definition digits_value :: "rstring \<Rightarrow> nat" where
  "digits_value s = foldl (\<lambda>n c. 10 * n + (c - 48)) 0 s"

text \<open>\<open>str::parse::<usize>\<close>: an optional plus sign and digits whose value fits.\<close>

definition parse_usize :: "rstring \<Rightarrow> nat option" where
  "parse_usize s =
     (let digits = (case s of c # cs \<Rightarrow> if c = 43 then cs else s | [] \<Rightarrow> s) in
      if digits \<noteq> [] \<and> list_all is_ascii_digit digits \<and> digits_value digits < usize_limit
      then Some (digits_value digits) else None)"

section \<open>Titles of forks\<close>

definition numbered_title_suffix :: "rstring \<Rightarrow> (rstring \<times> nat) option" where
  "numbered_title_suffix title =
     (case rsplit_once_str (lit '' ('') title of
        None \<Rightarrow> None
      | Some (base, tail) \<Rightarrow>
          (case Option.bind (strip_suffix [41] tail) parse_usize of
             None \<Rightarrow> None
           | Some number \<Rightarrow> if base \<noteq> [] \<and> 2 \<le> number then Some (base, number) else None))"

definition title_number :: "rstring \<Rightarrow> rstring \<Rightarrow> nat option" where
  "title_number base title =
     (if title = base then Some 1
      else map_option snd (opt_filter (\<lambda>(candidate, _). candidate = base) (numbered_title_suffix title)))"

definition fork_title_base :: "rstring \<Rightarrow> rstring list \<Rightarrow> rstring" where
  "fork_title_base source_title existing =
     (case opt_filter (\<lambda>(base, _). base \<in> set existing) (numbered_title_suffix source_title) of
        None \<Rightarrow> source_title
      | Some (base, _) \<Rightarrow> base)"

fun list_max :: "nat list \<Rightarrow> nat option" where
  "list_max [] = None"
| "list_max (n # ns) = Some (fold max ns n)"

definition next_response_fork_title :: "rstring \<Rightarrow> rstring list \<Rightarrow> rstring" where
  "next_response_fork_title source_title existing =
     (let base = fork_title_base source_title existing;
          highest_number = unwrap_or (list_max (List.map_filter (title_number base) existing)) 1 in
      base @ lit '' ('' @ dec (max (min (highest_number + 1) (usize_limit - 1)) 2) @ lit '')'')"

section \<open>Checks before a rewind or a fork\<close>

definition at_rest :: "session_status \<Rightarrow> bool" where
  "at_rest s \<longleftrightarrow> s = Idle \<or> s = Session_Failed"

definition validate_message_rewind :: "agent_session \<Rightarrow> nat \<Rightarrow> rstring + unit" where
  "validate_message_rewind source turn_count =
     (if \<not> at_rest (s_status source) then Inl (lit ''stop the task before editing a prior message'')
      else case List.find (\<lambda>t. t_turn_count t = turn_count) (s_turns source) of
        None \<Rightarrow> Inl (lit ''the selected message is unavailable'')
      | Some turn \<Rightarrow>
          if \<not> list_ex (\<lambda>m. m_turn_id m = Some (t_id turn) \<and> m_role m = User) (s_messages source)
          then Inl (lit ''the selected user message is unavailable'')
          else if 0 < provider_turns_after (turn_count - 1) source \<and> s_provider_cursor source = None
          then Inl (lit ''the provider conversation is unavailable'')
          else Inr ())"

definition validate_response_fork :: "agent_session \<Rightarrow> nat \<Rightarrow> rstring + unit" where
  "validate_response_fork source turn_count =
     (if \<not> at_rest (s_status source) then Inl (lit ''stop the task before forking a response'')
      else case s_provider_cursor source of
        None \<Rightarrow> Inl (lit ''the provider conversation is unavailable'')
      | Some cursor \<Rightarrow>
          if cursor_provider cursor \<noteq> s_provider source
          then Inl (lit ''the provider conversation does not match this task'')
          else (case nth_opt (s_turns source) (turn_count - 1) of
              None \<Rightarrow> Inl (lit ''the selected response cannot be forked'')
            | Some turn \<Rightarrow>
                if t_turn_count turn \<noteq> turn_count \<or> \<not> t_provider_turn_started turn
                then Inl (lit ''the selected response cannot be forked'') else Inr ()))"

section \<open>Numbers and their text\<close>

lemma digits_value_snoc [simp]: "digits_value (s @ [c]) = 10 * digits_value s + (c - 48)"
  by (simp add: digits_value_def)

lemma dec_value: "digits_value (dec n) = n"
proof (induction n rule: dec.induct)
  case (1 n)
  show ?case
  proof (cases "n < 10")
    case True
    then show ?thesis by (simp add: dec.simps [of n] digits_value_def)
  next
    case False
    with 1 show ?thesis by (simp add: dec.simps [of n])
  qed
qed

lemma dec_nonempty: "dec n \<noteq> []"
  by (simp add: dec.simps [of n])

lemma parse_dec: "n < usize_limit \<Longrightarrow> parse_usize (dec n) = Some n"
proof -
  assume n: "n < usize_limit"
  obtain c cs where c: "dec n = c # cs" using dec_nonempty [of n] by (cases "dec n") auto
  with dec_digits [of c n] have "c \<noteq> 43" by (auto simp: is_ascii_digit_def)
  with c have "(case dec n of c # cs \<Rightarrow> if c = 43 then cs else dec n | [] \<Rightarrow> dec n) = dec n" by simp
  with n dec_digits show ?thesis
    by (simp add: parse_usize_def Let_def dec_value dec_nonempty list_all_iff)
qed

lemma find_str_first: "x \<notin> set d \<Longrightarrow> find_str (x # p) (d @ x # p @ r) = Some (length d)"
proof (induction d)
  case Nil
  have "starts_with (x # p) (x # p @ r)" by (simp add: starts_with_iff)
  then show ?case by simp
next
  case (Cons c d)
  then have "\<not> starts_with (x # p) (c # d @ x # p @ r)" by (auto simp: starts_with_iff)
  with Cons show ?case by simp
qed

lemma rsplit_once_last:
  assumes "x \<notin> set r"
  shows "rsplit_once_str (p @ [x]) (a @ p @ x # r) = Some (a, r)"
proof -
  have "find_str (rev (p @ [x])) (rev (a @ p @ x # r)) = Some (length r)"
    using find_str_first [of x "rev r" "rev p" "rev a"] assms by simp
  then show ?thesis by (simp add: rsplit_once_str_def rfind_str_def)
qed

definition numbered :: "rstring \<Rightarrow> nat \<Rightarrow> rstring" where
  "numbered base n = base @ lit '' ('' @ dec n @ lit '')''"

lemma numbered_title_suffix_numbered:
  assumes "base \<noteq> []" "2 \<le> n" "n < usize_limit"
  shows "numbered_title_suffix (numbered base n) = Some (base, n)"
proof -
  have "40 \<notin> set (dec n @ [41])" using dec_digits [of 40 n] by (auto simp: is_ascii_digit_def)
  from rsplit_once_last [OF this, of "[32]" base]
  have "rsplit_once_str (lit '' ('') (numbered base n) = Some (base, dec n @ [41])"
    by (simp add: numbered_def lit_def)
  moreover have "strip_suffix [41] (dec n @ [41]) = Some (dec n)"
    by (simp add: strip_suffix_def)
  ultimately show ?thesis using assms by (simp add: numbered_title_suffix_def parse_dec)
qed

lemma fold_max_ge: "n \<in> set (k # ns) \<Longrightarrow> (n::nat) \<le> fold max ns k"
proof (induction ns arbitrary: n k)
  case Nil
  then show ?case by simp
next
  case (Cons m ns)
  have le: "max m k \<le> fold max ns (max m k)" by (rule Cons.IH) simp
  from Cons.prems consider "n = k" | "n = m" | "n \<in> set ns" by auto
  then show ?case
  proof cases
    case 3
    then have "n \<le> fold max ns (max m k)" by (intro Cons.IH) simp
    then show ?thesis by simp
  qed (use le in simp_all)
qed

lemma list_max_ge: "n \<in> set ns \<Longrightarrow> n \<le> unwrap_or (list_max ns) k"
  using fold_max_ge by (cases ns) auto

lemma list_max_in: "list_max ns = Some m \<Longrightarrow> m \<in> set ns"
proof -
  have "fold max ns k \<in> set (k # ns)" for k :: nat and ns
  proof (induction ns arbitrary: k)
    case (Cons m ns)
    from Cons.IH [of "max m k"] show ?case by (auto simp: max_def split: if_splits)
  qed simp
  then show "list_max ns = Some m \<Longrightarrow> ?thesis" by (cases ns) auto
qed

lemma title_number_bound: "title_number base t = Some n \<Longrightarrow> n < usize_limit"
  by (auto simp: title_number_def numbered_title_suffix_def parse_usize_def Let_def usize_limit_def
      opt_filter_eq_Some bind_eq_Some_conv split: if_splits option.splits)

lemma title_number_numbered:
  "base \<noteq> [] \<Longrightarrow> 2 \<le> n \<Longrightarrow> n < usize_limit \<Longrightarrow> title_number base (numbered base n) = Some n"
  by (simp add: title_number_def numbered_title_suffix_numbered) (simp add: numbered_def lit_def)

lemma numbered_suffix_base: "numbered_title_suffix t = Some (base, n) \<Longrightarrow> base \<noteq> [] \<and> 2 \<le> n"
  by (auto simp: numbered_title_suffix_def split: option.splits if_splits)

text \<open>
  The title of a fork is a new one among the titles of the project, it is the source's title,
  or what is in front of its number, with a number of at least two, and it reads back as that base
  and number, so that the fork of a fork counts on; as long as no title uses the largest number.
\<close>

theorem fork_title_fresh:
  assumes "source_title \<noteq> []"
    and "list_all (\<lambda>t. title_number (fork_title_base source_title existing) t \<noteq> Some (usize_limit - 1)) existing"
  shows "next_response_fork_title source_title existing \<notin> set existing \<and>
    (\<exists>n\<ge>2. numbered_title_suffix (next_response_fork_title source_title existing) =
        Some (fork_title_base source_title existing, n))"
proof -
  define base where "base = fork_title_base source_title existing"
  define numbers where "numbers = List.map_filter (title_number base) existing"
  define highest where "highest = unwrap_or (list_max numbers) 1"
  define n where "n = max (min (highest + 1) (usize_limit - 1)) 2"
  have result: "next_response_fork_title source_title existing = numbered base n"
    by (simp add: next_response_fork_title_def numbered_def n_def highest_def numbers_def base_def Let_def)
  have base: "base \<noteq> []"
    using assms(1) numbered_suffix_base
    by (auto simp: base_def fork_title_base_def opt_filter_eq_Some split: option.splits)
  have in_numbers: "m \<in> set numbers \<longleftrightarrow> (\<exists>t\<in>set existing. title_number base t = Some m)" for m
    by (auto simp: numbers_def map_filter_def image_iff)
  have bound: "m < usize_limit - 1" if "m \<in> set numbers" for m
    using that assms(2) title_number_bound
    by (fastforce simp: in_numbers list_all_iff base_def [symmetric])
  have "highest < usize_limit - 1"
  proof (cases "list_max numbers")
    case None
    then show ?thesis by (simp add: highest_def usize_limit_def)
  next
    case (Some m)
    then show ?thesis using bound list_max_in by (simp add: highest_def)
  qed
  then have n: "highest < n" "2 \<le> n" "n < usize_limit"
    by (auto simp: n_def usize_limit_def)
  have "title_number base (numbered base n) = Some n"
    using base n by (simp add: title_number_numbered)
  moreover have "n \<notin> set numbers"
    using list_max_ge [of n numbers 1, folded highest_def] n by auto
  ultimately have "numbered base n \<notin> set existing" by (auto simp: in_numbers)
  moreover have "numbered_title_suffix (numbered base n) = Some (base, n)"
    using base n by (simp add: numbered_title_suffix_numbered)
  ultimately show ?thesis using n by (auto simp: result base_def [symmetric])
qed

theorem fork_title_fresh_witness:
  "next_response_fork_title (lit ''Plan (2)'') [lit ''Plan'', lit ''Plan (2)''] \<notin> set [lit ''Plan'', lit ''Plan (2)'']"
proof -
  have "list_all (\<lambda>t. title_number (fork_title_base (lit ''Plan (2)'') [lit ''Plan'', lit ''Plan (2)'']) t \<noteq> Some (usize_limit - 1))
     [lit ''Plan'', lit ''Plan (2)'']"
    by (simp add: title_number_def fork_title_base_def numbered_title_suffix_def lit_def usize_limit_def
        rsplit_once_str_def rfind_str_def parse_usize_def digits_value_def strip_suffix_def is_ascii_digit_def Let_def)
  from fork_title_fresh [OF _ this] show ?thesis by (simp add: lit_def)
qed

end
