(* ===== verification/Projectless.thy ===== *)
theory Projectless
  imports Session
begin

text \<open>
  The private workspaces of tasks without a project (\<open>projectless.rs\<close> in \<open>crates/shidou-core\<close> and
  \<open>crates/shidou-protocol\<close>): which paths are such workspaces, the directory created for a new
  task and the move of a workspace of the old layout. A path is its components. The file system
  is a map from paths to nodes, whose calls fail as those of a POSIX system do, and with any
  other error where \<open>fs_denied\<close> says so. \<open>lower\<close> is \<open>str::to_lowercase\<close>, \<open>date\<close> the printed
  local date, and \<open>uuids\<close> the printed random identifiers.
\<close>

section \<open>Which paths are workspaces\<close>

type_synonym path = "path_component list"

definition is_date_component :: "rstring \<Rightarrow> bool" where
  "is_date_component value \<longleftrightarrow> length value = 10 \<and> value ! 4 = 45 \<and> value ! 7 = 45 \<and>
     list_all (\<lambda>(index, c). index = 4 \<or> index = 7 \<or> is_ascii_digit c) (enumerate 0 value)"

fun component_text :: "path_component \<Rightarrow> rstring" where
  "component_text RootDir = lit ''/''"
| "component_text CurDir = lit ''.''"
| "component_text ParentDir = lit ''..''"
| "component_text (Normal s) = s"

definition path_parent :: "path \<Rightarrow> path option" where
  "path_parent p = (if p = [] \<or> last p = RootDir then None else Some (butlast p))"

definition strip_path_prefix :: "path \<Rightarrow> path \<Rightarrow> path option" where
  "strip_path_prefix base p = (if prefix base p then Some (drop (length base) p) else None)"

definition is_legacy_workspace_path :: "path \<Rightarrow> path \<Rightarrow> bool" where
  "is_legacy_workspace_path p legacy_root \<longleftrightarrow> p = legacy_root \<or>
     (case Option.bind (strip_path_prefix legacy_root p) first_opt of
        Some c \<Rightarrow> is_date_component (component_text c)
      | None \<Rightarrow> False)"

definition is_projectless_path :: "path option \<Rightarrow> path \<Rightarrow> bool" where
  "is_projectless_path root p = (case root of None \<Rightarrow> False
     | Some root \<Rightarrow> prefix root p \<or>
         (case path_parent root of Some legacy_root \<Rightarrow> is_legacy_workspace_path p legacy_root
          | None \<Rightarrow> False))"

definition needs_migration :: "path option \<Rightarrow> path \<Rightarrow> bool" where
  "needs_migration root p = (case root of None \<Rightarrow> False
     | Some root \<Rightarrow> \<not> prefix root p \<and>
         (case path_parent root of Some legacy_root \<Rightarrow> is_legacy_workspace_path p legacy_root
          | None \<Rightarrow> False))"

definition is_projectless :: "path option \<Rightarrow> project \<Rightarrow> bool" where
  "is_projectless root project = is_projectless_path root (components (p_path project))"

section \<open>The file system\<close>

datatype node = Dir | File | Link_To_Dir | Link_To_File | Link_Broken

datatype io_error = NotFound | AlreadyExists | InvalidInput rstring | InvalidData rstring | Other_Error

record fs_env =
  fs_denied :: "path \<Rightarrow> bool"

type_synonym fs = "path \<Rightarrow> node option"

definition symlink_metadata :: "fs_env \<Rightarrow> path \<Rightarrow> fs \<Rightarrow> io_error + node" where
  "symlink_metadata E p fs =
     (if fs_denied E p then Inl Other_Error
      else case fs p of Some n \<Rightarrow> Inr n | None \<Rightarrow> Inl NotFound)"

definition path_exists :: "fs_env \<Rightarrow> path \<Rightarrow> fs \<Rightarrow> bool" where
  "path_exists E p fs \<longleftrightarrow> \<not> fs_denied E p \<and> fs p \<noteq> None \<and> fs p \<noteq> Some Link_Broken"

definition leads_to_dir :: "node option \<Rightarrow> bool" where
  "leads_to_dir n \<longleftrightarrow> n = Some Dir \<or> n = Some Link_To_Dir"

definition create_dir :: "fs_env \<Rightarrow> path \<Rightarrow> fs \<Rightarrow> (io_error + unit) \<times> fs" where
  "create_dir E p fs =
     (if fs_denied E p then (Inl Other_Error, fs)
      else if fs p \<noteq> None then (Inl AlreadyExists, fs)
      else case path_parent p of
        None \<Rightarrow> (Inl Other_Error, fs)
      | Some parent \<Rightarrow>
          if fs parent = None then (Inl NotFound, fs)
          else if leads_to_dir (fs parent) then (Inr (), fs(p \<mapsto> Dir))
          else (Inl Other_Error, fs))"

text \<open>
  \<open>create_dir_all\<close>: the directory itself, after its parents when they are missing; what exists
  already must lead to a directory. The recursion is over the reversed components.
\<close>

fun create_dir_all_rev :: "fs_env \<Rightarrow> path \<Rightarrow> fs \<Rightarrow> (io_error + unit) \<times> fs" where
  "create_dir_all_rev E [] fs = (Inr (), fs)"
| "create_dir_all_rev E (c # rest) fs =
     (case create_dir E (rev (c # rest)) fs of
        (Inr _, fs) \<Rightarrow> (Inr (), fs)
      | (Inl NotFound, fs) \<Rightarrow>
          (case create_dir_all_rev E rest fs of
             (Inr _, fs) \<Rightarrow> (case create_dir E (rev (c # rest)) fs of
                 (Inr _, fs) \<Rightarrow> (Inr (), fs)
               | (Inl error, fs) \<Rightarrow>
                   if leads_to_dir (fs (rev (c # rest))) then (Inr (), fs) else (Inl error, fs))
           | (Inl error, fs) \<Rightarrow> (Inl error, fs))
      | (Inl error, fs) \<Rightarrow>
          if leads_to_dir (fs (rev (c # rest))) then (Inr (), fs) else (Inl error, fs))"

definition create_dir_all :: "fs_env \<Rightarrow> path \<Rightarrow> fs \<Rightarrow> (io_error + unit) \<times> fs" where
  "create_dir_all E p fs = create_dir_all_rev E (rev p) fs"

text \<open>\<open>rename\<close> of a directory to a free name, or onto what the system refuses to replace.\<close>

definition move_tree :: "path \<Rightarrow> path \<Rightarrow> fs \<Rightarrow> fs" where
  "move_tree src dst fs = (\<lambda>p.
     if prefix dst p then fs (src @ drop (length dst) p)
     else if prefix src p then None else fs p)"

definition rename_dir :: "fs_env \<Rightarrow> path \<Rightarrow> path \<Rightarrow> fs \<Rightarrow> (io_error + unit) \<times> fs" where
  "rename_dir E src dst fs =
     (if fs_denied E src \<or> fs_denied E dst then (Inl Other_Error, fs)
      else if fs src = None then (Inl NotFound, fs)
      else if fs dst \<noteq> None then (Inl Other_Error, fs)
      else case path_parent dst of
        None \<Rightarrow> (Inl Other_Error, fs)
      | Some parent \<Rightarrow>
          if fs parent = None then (Inl NotFound, fs)
          else if leads_to_dir (fs parent) \<and> \<not> prefix src dst then (Inr (), move_tree src dst fs)
          else (Inl Other_Error, fs))"

definition validate_real_directory :: "fs_env \<Rightarrow> path \<Rightarrow> fs \<Rightarrow> io_error + unit" where
  "validate_real_directory E p fs =
     (case symlink_metadata E p fs of
        Inl error \<Rightarrow> Inl error
      | Inr n \<Rightarrow> if n = Dir then Inr ()
          else Inl (InvalidData (lit ''projectless task directory must be a real directory'')))"

definition ensure_real_directory :: "fs_env \<Rightarrow> path \<Rightarrow> fs \<Rightarrow> (io_error + unit) \<times> fs" where
  "ensure_real_directory E p fs =
     (case symlink_metadata E p fs of
        Inr _ \<Rightarrow> (validate_real_directory E p fs, fs)
      | Inl NotFound \<Rightarrow>
          (case create_dir_all E p fs of
             (Inr _, fs) \<Rightarrow> (validate_real_directory E p fs, fs)
           | (Inl error, fs) \<Rightarrow> (Inl error, fs))
      | Inl error \<Rightarrow> (Inl error, fs))"

section \<open>A new workspace\<close>

record workspace =
  w_cwd :: path
  w_root :: path

definition max_slug_bytes :: nat where "max_slug_bytes = 80"
definition max_numbered_candidates :: nat where "max_numbered_candidates = 100"
definition default_slug :: rstring where "default_slug = lit ''new-chat''"

definition not_blank :: "rstring \<Rightarrow> bool" where
  "not_blank v \<longleftrightarrow> trim v \<noteq> []"

definition workspace_slug ::
    "(rstring \<Rightarrow> rstring) \<Rightarrow> rstring option \<Rightarrow> rstring option \<Rightarrow> rstring" where
  "workspace_slug lower directory_name prompt =
     (let directory_name = opt_filter not_blank directory_name;
          prompt = opt_filter not_blank prompt;
          source = lower (unwrap_or (opt_or directory_name prompt) []);
          ws = filter (\<lambda>w. w \<noteq> []) (split_pred (\<lambda>c. \<not> is_ascii_alphanumeric c) source);
          ws = (if directory_name = None then take 6 ws else ws);
          slug = take max_slug_bytes (join (lit ''-'') ws) in
      if slug = [] then default_slug else slug)"

definition try_create_workspace ::
    "fs_env \<Rightarrow> path \<Rightarrow> path \<Rightarrow> rstring \<Rightarrow> fs \<Rightarrow> (io_error + workspace option) \<times> fs" where
  "try_create_workspace E root date_directory name fs =
     (let cwd = date_directory @ [Normal name] in
      case create_dir E cwd fs of
        (Inr _, fs) \<Rightarrow> (Inr (Some \<lparr>w_cwd = cwd, w_root = root\<rparr>), fs)
      | (Inl AlreadyExists, fs) \<Rightarrow>
          (case validate_real_directory E cwd fs of Inl error \<Rightarrow> Inl error | Inr _ \<Rightarrow> Inr None, fs)
      | (Inl error, fs) \<Rightarrow> (Inl error, fs))"

fun try_names ::
    "fs_env \<Rightarrow> path \<Rightarrow> path \<Rightarrow> rstring list \<Rightarrow> fs \<Rightarrow> (io_error + workspace) \<times> fs" where
  "try_names E root date_directory [] fs = (Inl AlreadyExists, fs)"
| "try_names E root date_directory (name # names) fs =
     (case try_create_workspace E root date_directory name fs of
        (Inl error, fs) \<Rightarrow> (Inl error, fs)
      | (Inr (Some workspace), fs) \<Rightarrow> (Inr workspace, fs)
      | (Inr None, fs) \<Rightarrow> try_names E root date_directory names fs)"

definition numbered_names :: "rstring \<Rightarrow> rstring list" where
  "numbered_names slug =
     map (\<lambda>index. if index = 0 then slug else slug @ lit ''-'' @ dec (index + 1))
       [0..<max_numbered_candidates]"

text \<open>The random candidates are five.\<close>

definition create_workspace_in ::
    "fs_env \<Rightarrow> (rstring \<Rightarrow> rstring) \<Rightarrow> rstring list \<Rightarrow> path \<Rightarrow> rstring \<Rightarrow> rstring option \<Rightarrow>
     rstring option \<Rightarrow> fs \<Rightarrow> (io_error + workspace) \<times> fs" where
  "create_workspace_in E lower uuids root date directory_name prompt fs =
     (case ensure_real_directory E root fs of
        (Inl error, fs) \<Rightarrow> (Inl error, fs)
      | (Inr _, fs) \<Rightarrow>
          let date_directory = root @ [Normal date] in
          (case ensure_real_directory E date_directory fs of
             (Inl error, fs) \<Rightarrow> (Inl error, fs)
           | (Inr _, fs) \<Rightarrow>
               let slug = workspace_slug lower directory_name prompt in
               try_names E root date_directory
                 (numbered_names slug @ map (\<lambda>u. slug @ lit ''-'' @ u) (take 5 uuids)) fs))"

section \<open>Moving a workspace of the old layout\<close>

fun move_to_first ::
    "fs_env \<Rightarrow> path \<Rightarrow> path \<Rightarrow> path \<Rightarrow> rstring list \<Rightarrow> fs \<Rightarrow> (io_error + workspace) \<times> fs" where
  "move_to_first E root p date_directory [] fs = (Inl AlreadyExists, fs)"
| "move_to_first E root p date_directory (name # names) fs =
     (let destination = date_directory @ [Normal name] in
      if path_exists E destination fs then move_to_first E root p date_directory names fs
      else case rename_dir E p destination fs of
          (Inr _, fs) \<Rightarrow> (Inr \<lparr>w_cwd = destination, w_root = root\<rparr>, fs)
        | (Inl AlreadyExists, fs) \<Rightarrow> move_to_first E root p date_directory names fs
        | (Inl error, fs) \<Rightarrow> (Inl error, fs))"

definition not_dated :: io_error where
  "not_dated = InvalidInput (lit ''path is not a dated legacy projectless workspace'')"

definition move_dated ::
    "fs_env \<Rightarrow> path \<Rightarrow> path \<Rightarrow> rstring \<Rightarrow> rstring \<Rightarrow> fs \<Rightarrow> (io_error + workspace) \<times> fs" where
  "move_dated E root p day original_name fs =
     (case validate_real_directory E p fs of
        Inl error \<Rightarrow> (Inl error, fs)
      | Inr _ \<Rightarrow>
          (case ensure_real_directory E root fs of
             (Inl error, fs) \<Rightarrow> (Inl error, fs)
           | (Inr _, fs) \<Rightarrow>
               let date_directory = root @ [Normal day] in
               (case ensure_real_directory E date_directory fs of
                  (Inl error, fs) \<Rightarrow> (Inl error, fs)
                | (Inr _, fs) \<Rightarrow>
                    move_to_first E root p date_directory (numbered_names original_name) fs)))"

definition migrate_workspace_in ::
    "fs_env \<Rightarrow> (rstring \<Rightarrow> rstring) \<Rightarrow> rstring list \<Rightarrow> rstring \<Rightarrow> path \<Rightarrow> path \<Rightarrow> fs \<Rightarrow>
     (io_error + workspace) \<times> fs" where
  "migrate_workspace_in E lower uuids date root p fs =
     (if prefix root p then
        (case validate_real_directory E p fs of
           Inl error \<Rightarrow> (Inl error, fs)
         | Inr _ \<Rightarrow> (Inr \<lparr>w_cwd = p, w_root = root\<rparr>, fs))
      else case path_parent root of
        None \<Rightarrow> (Inl (InvalidInput (lit ''invalid projectless workspace root'')), fs)
      | Some legacy_root \<Rightarrow>
          if p = legacy_root then create_workspace_in E lower uuids root date None None fs
          else (case strip_path_prefix legacy_root p of
              None \<Rightarrow> (Inl (InvalidInput (lit ''path is not a legacy projectless workspace'')), fs)
            | Some relative \<Rightarrow>
                (case relative of
                   [Normal day, Normal original_name] \<Rightarrow>
                     if \<not> is_date_component day then (Inl not_dated, fs)
                     else move_dated E root p day original_name fs
                 | _ \<Rightarrow> (Inl not_dated, fs))))"

section \<open>What the file system keeps\<close>

text \<open>Only directories on the way to \<open>d\<close> are new.\<close>

definition grows_to :: "path \<Rightarrow> fs \<Rightarrow> fs \<Rightarrow> bool" where
  "grows_to d fs fs' \<longleftrightarrow> (\<forall>p. fs' p = fs p \<or> fs p = None \<and> fs' p = Some Dir \<and> prefix p d)"

lemma grows_refl [simp]: "grows_to d fs fs"
  by (simp add: grows_to_def)

lemma grows_trans: "grows_to d fs fs' \<Longrightarrow> grows_to d fs' fs'' \<Longrightarrow> grows_to d fs fs''"
  unfolding grows_to_def by (metis option.distinct(1))

lemma grows_mono: "grows_to d fs fs' \<Longrightarrow> prefix d e \<Longrightarrow> grows_to e fs fs'"
  unfolding grows_to_def by (meson prefix_order.trans)

lemma create_dir_grows: "create_dir E p fs = (r, fs') \<Longrightarrow> grows_to p fs fs'"
  by (auto simp: create_dir_def grows_to_def split: if_splits option.splits)

lemma create_dir_all_grows: "create_dir_all_rev E r fs = (x, fs') \<Longrightarrow> grows_to (rev r) fs fs'"
proof (induction r arbitrary: x fs fs')
  case Nil
  then show ?case by simp
next
  case (Cons c rest)
  obtain a fs1 where a: "create_dir E (rev (c # rest)) fs = (a, fs1)" by fastforce
  obtain b fs2 where b: "create_dir_all_rev E rest fs1 = (b, fs2)" by fastforce
  obtain d fs3 where d: "create_dir E (rev (c # rest)) fs2 = (d, fs3)" by fastforce
  have g: "grows_to (rev (c # rest)) fs fs1" "grows_to (rev (c # rest)) fs1 fs2"
      "grows_to (rev (c # rest)) fs2 fs3"
    using create_dir_grows [OF a] create_dir_grows [OF d] grows_mono [OF Cons.IH [OF b]] by auto
  from Cons.prems a b d have "fs' = fs1 \<or> fs' = fs2 \<or> fs' = fs3"
    by (auto split: sum.splits io_error.splits unit.splits if_splits)
  with g show ?case by (auto intro: grows_trans)
qed

lemma ensure_grows: "ensure_real_directory E p fs = (x, fs') \<Longrightarrow> grows_to p fs fs'"
  using create_dir_all_grows [of E "rev p"]
  by (fastforce simp: ensure_real_directory_def create_dir_all_def
      split: sum.splits io_error.splits unit.splits prod.splits)

lemma ensured_twice:
  "ensure_real_directory E root fs = (x, fs1) \<Longrightarrow>
   ensure_real_directory E (root @ [c]) fs1 = (y, fs2) \<Longrightarrow> grows_to (root @ [c]) fs fs2"
  by (rule grows_trans [OF grows_mono [OF ensure_grows] ensure_grows]) auto

lemma try_names_new:
  "try_names E root d names fs = (Inr w, fs') \<Longrightarrow>
    \<exists>name. w = \<lparr>w_cwd = d @ [Normal name], w_root = root\<rparr> \<and> name \<in> set names \<and>
      fs (d @ [Normal name]) = None \<and> fs' = fs(d @ [Normal name] \<mapsto> Dir)"
proof (induction names)
  case Nil
  then show ?case by simp
next
  case (Cons name names)
  let ?c = "d @ [Normal name]"
  consider "create_dir E ?c fs = (Inr (), fs(?c \<mapsto> Dir))" "fs ?c = None"
    | e where "create_dir E ?c fs = (Inl e, fs)"
    by (fastforce simp: create_dir_def split: if_splits option.splits)
  then show ?case
  proof cases
    case 1
    with Cons.prems have "w = \<lparr>w_cwd = ?c, w_root = root\<rparr>" "fs' = fs(?c \<mapsto> Dir)"
      by (simp_all add: try_create_workspace_def Let_def)
    with 1 show ?thesis by (intro exI [of _ name]) simp
  next
    case 2
    then have "try_names E root d names fs = (Inr w, fs')"
      using Cons.prems
      by (auto simp: try_create_workspace_def Let_def split: io_error.splits sum.splits unit.splits)
    with Cons.IH show ?thesis by auto
  qed
qed

lemma slug_not_empty: "workspace_slug lower directory_name prompt \<noteq> []"
  by (simp add: workspace_slug_def Let_def default_slug_def lit_def)

section \<open>Properties\<close>

lemma join_chars: "c \<in> set (join sep ws) \<Longrightarrow> c \<in> set sep \<or> (\<exists>w\<in>set ws. c \<in> set w)"
  by (induction sep ws rule: join.induct) auto

text \<open>
  The name derived from a prompt is a single path component: one to eighty ASCII letters,
  digits and dashes.
\<close>

theorem slug_is_file_name:
  "length (workspace_slug lower directory_name prompt) \<in> {1..80} \<and>
   list_all (\<lambda>c. is_ascii_alphanumeric c \<or> c = 45) (workspace_slug lower directory_name prompt)"
proof -
  let ?s = "workspace_slug lower directory_name prompt"
  have "length ?s \<le> 80"
    by (simp add: workspace_slug_def Let_def default_slug_def lit_def max_slug_bytes_def)
  moreover have "is_ascii_alphanumeric c \<or> c = 45" if "c \<in> set ?s" for c
    using that
    by (auto simp: workspace_slug_def Let_def default_slug_def lit_def is_ascii_alphanumeric_def
        is_ascii_lowercase_def split: if_splits
        dest!: in_set_takeD join_chars split_pred_no_sep)
  moreover have "1 \<le> length ?s" using slug_not_empty [of lower directory_name prompt]
    by (cases ?s) auto
  ultimately show ?thesis by (simp add: list_all_iff)
qed

text \<open>
  A workspace created for a task is a directory that did not exist, lies under the root, where
  the program recognises it and sees nothing to migrate, and nothing that existed has changed.
\<close>

theorem new_workspace_fresh:
  assumes "create_workspace_in E lower uuids root date directory_name prompt fs = (Inr w, fs')"
  shows "fs (w_cwd w) = None \<and> fs' (w_cwd w) = Some Dir \<and> w_root w = root \<and>
    is_projectless_path (Some root) (w_cwd w) \<and> \<not> needs_migration (Some root) (w_cwd w) \<and>
    (\<forall>p. fs p = None \<or> fs' p = fs p)"
proof -
  let ?d = "root @ [Normal date]"
  obtain fs1 fs2 names where
    e: "ensure_real_directory E root fs = (Inr (), fs1)"
      "ensure_real_directory E ?d fs1 = (Inr (), fs2)"
    and t: "try_names E root ?d names fs2 = (Inr w, fs')"
    using assms by (auto simp: create_workspace_in_def Let_def split: prod.splits sum.splits unit.splits)
  have g: "grows_to ?d fs fs2" by (rule ensured_twice [OF e])
  from try_names_new [OF t] obtain name where
    w: "w = \<lparr>w_cwd = ?d @ [Normal name], w_root = root\<rparr>"
    and n: "fs2 (?d @ [Normal name]) = None" "fs' = fs2(?d @ [Normal name] \<mapsto> Dir)"
    by auto
  have "fs p = None \<or> fs' p = fs p" for p
    using g n by (auto simp: grows_to_def) (metis option.distinct(1))+
  moreover have "fs (?d @ [Normal name]) = None"
    using g n(1) unfolding grows_to_def by metis
  ultimately show ?thesis using w n by (simp add: is_projectless_path_def needs_migration_def)
qed

lemma rename_dir_result: "rename_dir E p c fs = (r, fs') \<Longrightarrow>
    r = Inr () \<and> fs c = None \<and> fs' = move_tree p c fs \<or> (\<exists>e. r = Inl e \<and> fs' = fs)"
  by (auto simp: rename_dir_def split: if_splits option.splits)

lemma move_to_first_moves:
  "move_to_first E root p d names fs = (Inr w, fs') \<Longrightarrow>
    \<exists>name. w = \<lparr>w_cwd = d @ [Normal name], w_root = root\<rparr> \<and> fs (d @ [Normal name]) = None \<and>
      fs' = move_tree p (d @ [Normal name]) fs"
proof (induction names)
  case (Cons name names)
  let ?c = "d @ [Normal name]"
  obtain r fs1 where r: "rename_dir E p ?c fs = (r, fs1)" by fastforce
  have "move_to_first E root p d names fs = (Inr w, fs') \<or>
      r = Inr () \<and> w = \<lparr>w_cwd = ?c, w_root = root\<rparr> \<and> fs' = fs1"
    using Cons.prems r rename_dir_result [OF r]
    by (auto simp: Let_def split: if_splits sum.splits io_error.splits)
  then show ?case
  proof (elim disjE conjE)
    assume "r = Inr ()" and w: "w = \<lparr>w_cwd = ?c, w_root = root\<rparr>" and "fs' = fs1"
    with rename_dir_result [OF r] have "fs ?c = None" "fs' = move_tree p ?c fs" by auto
    with w show ?thesis by (intro exI [of _ name]) simp
  qed (rule Cons.IH)
qed simp

lemma dated_relative:
  "(case relative of [Normal day, Normal original_name] \<Rightarrow> if \<not> D day then (Inl e, fs) else f day original_name
     | _ \<Rightarrow> (Inl e, fs)) = (Inr w, fs') \<Longrightarrow>
   \<exists>day original_name. relative = [Normal day, Normal original_name] \<and> f day original_name = (Inr w, fs')"
  by (auto split: list.splits path_component.splits if_splits)

text \<open>
  A workspace of the old layout moves with all that is in it to a free name under the root,
  where it is not migrated again.
\<close>

theorem legacy_workspace_moved:
  assumes "migrate_workspace_in E lower uuids date root p fs = (Inr w, fs')"
    and "needs_migration (Some root) p" and "path_parent root \<noteq> Some p"
  shows "fs (w_cwd w) = None \<and> prefix root (w_cwd w) \<and> \<not> needs_migration (Some root) (w_cwd w) \<and>
    (\<forall>q. fs' (w_cwd w @ q) = fs (p @ q))"
proof -
  from assms(2) obtain legacy where np: "\<not> prefix root p" and l: "path_parent root = Some legacy"
    by (auto simp: needs_migration_def split: option.splits)
  from assms(1,3) np l obtain day original_name where
    s: "strip_path_prefix legacy p = Some [Normal day, Normal original_name]"
    and m': "move_dated E root p day original_name fs = (Inr w, fs')"
    by (auto simp: migrate_workspace_in_def split: option.splits dest!: dated_relative)
  from m' obtain fs1 fs2 where
    e: "ensure_real_directory E root fs = (Inr (), fs1)"
      "ensure_real_directory E (root @ [Normal day]) fs1 = (Inr (), fs2)"
    and m: "move_to_first E root p (root @ [Normal day]) (numbered_names original_name) fs2 = (Inr w, fs')"
    by (auto simp: move_dated_def Let_def split: prod.splits sum.splits unit.splits)
  let ?d = "root @ [Normal day]"
  have g: "grows_to ?d fs fs2" by (rule ensured_twice [OF e])
  from move_to_first_moves [OF m] obtain name where
    w: "w = \<lparr>w_cwd = ?d @ [Normal name], w_root = root\<rparr>"
    and n: "fs2 (?d @ [Normal name]) = None" "fs' = move_tree p (?d @ [Normal name]) fs2"
    by auto
  have lp: "length p = length legacy + 2" and lr: "length root = length legacy + 1"
    using s l by (auto simp: strip_path_prefix_def path_parent_def dest: arg_cong [of _ _ length]
        elim!: prefixE split: if_splits)
  have inside: "fs2 (p @ q) = fs (p @ q)" for q
  proof (rule ccontr)
    assume "fs2 (p @ q) \<noteq> fs (p @ q)"
    with g have "prefix (p @ q) ?d" unfolding grows_to_def by blast
    then have "prefix p ?d" by (rule append_prefixD)
    then obtain zs where zs: "?d = p @ zs" by (auto elim: prefixE)
    from arg_cong [OF zs, of length] lp lr have "zs = []" by simp
    with zs have "p = ?d" by simp
    with np show False by simp
  qed
  have "fs (?d @ [Normal name]) = None"
    using g n(1) unfolding grows_to_def by metis
  with w n inside show ?thesis by (simp add: move_tree_def needs_migration_def)
qed

text \<open>
  C32: the program takes a path below a dated directory of the old root for a workspace to migrate
  even where the migration refuses it, because it does not lie exactly two components below that
  root; and nothing is moved then.
\<close>

theorem stray_workspace_refused:
  assumes "path_parent root = Some legacy_root" and "is_date_component day"
    and "root \<noteq> legacy_root @ [Normal day]" and "length rest \<noteq> 1"
  shows "needs_migration (Some root) (legacy_root @ Normal day # rest) \<and>
    migrate_workspace_in E lower uuids date root (legacy_root @ Normal day # rest) fs = (Inl not_dated, fs)"
proof -
  have r: "root = legacy_root @ [last root]" and ne: "root \<noteq> []"
    using assms(1) by (auto simp: path_parent_def split: if_splits)
  have np: "\<not> prefix root (legacy_root @ Normal day # rest)"
  proof
    assume "prefix root (legacy_root @ Normal day # rest)"
    then have "prefix [last root] (Normal day # rest)" by (metis r same_prefix_prefix)
    then have "last root = Normal day" by simp
    with r assms(3) show False by simp
  qed
  have s: "strip_path_prefix legacy_root (legacy_root @ Normal day # rest) = Some (Normal day # rest)"
    by (simp add: strip_path_prefix_def)
  have "migrate_workspace_in E lower uuids date root (legacy_root @ Normal day # rest) fs = (Inl not_dated, fs)"
    using np assms(1,4)
    by (auto simp: migrate_workspace_in_def s split: list.splits path_component.splits)
  with np assms(1,2) show ?thesis
    by (simp add: needs_migration_def is_legacy_workspace_path_def s first_opt_def)
qed

section \<open>Examples\<close>

definition demo_root :: path where
  "demo_root = [RootDir, Normal (lit ''h''), Normal (lit ''projects'')]"

definition demo_day :: rstring where
  "demo_day = lit ''2024-05-01''"

definition demo_fs :: fs where
  "demo_fs = [[RootDir] \<mapsto> Dir, [RootDir, Normal (lit ''h'')] \<mapsto> Dir, demo_root \<mapsto> Dir,
     demo_root @ [Normal demo_day] \<mapsto> Dir,
     [RootDir, Normal (lit ''h''), Normal demo_day, Normal (lit ''a'')] \<mapsto> Dir,
     [RootDir, Normal (lit ''h''), Normal demo_day, Normal (lit ''a''), Normal (lit ''n'')] \<mapsto> File]"

definition no_denials :: fs_env where
  "no_denials = \<lparr>fs_denied = (\<lambda>_. False)\<rparr>"

lemmas demo_evaluation = demo_root_def demo_day_def demo_fs_def no_denials_def lit_def
  ensure_real_directory_def symlink_metadata_def validate_real_directory_def path_parent_def
  create_dir_def leads_to_dir_def

lemma demo_names: "numbered_names slug = slug # tl (numbered_names slug)"
  by (simp add: numbered_names_def max_numbered_candidates_def upt_rec)

lemma demo_date: "is_date_component demo_day"
  by (simp add: is_date_component_def demo_day_def lit_def is_ascii_digit_def)

lemma demo_created:
  "create_workspace_in no_denials id [] demo_root demo_day None None demo_fs =
    (Inr \<lparr>w_cwd = demo_root @ [Normal demo_day, Normal default_slug], w_root = demo_root\<rparr>,
     demo_fs(demo_root @ [Normal demo_day, Normal default_slug] \<mapsto> Dir))"
proof -
  have "workspace_slug id None None = default_slug"
    by (simp add: workspace_slug_def default_slug_def max_slug_bytes_def Let_def)
  moreover have "ensure_real_directory no_denials demo_root demo_fs = (Inr (), demo_fs)"
    and "ensure_real_directory no_denials (demo_root @ [Normal demo_day]) demo_fs = (Inr (), demo_fs)"
    by (simp_all add: demo_evaluation)
  moreover have "create_dir no_denials (demo_root @ [Normal demo_day, Normal default_slug]) demo_fs =
      (Inr (), demo_fs(demo_root @ [Normal demo_day, Normal default_slug] \<mapsto> Dir))"
    by (simp add: create_dir_def path_parent_def leads_to_dir_def no_denials_def)
      (simp add: demo_fs_def demo_root_def demo_day_def lit_def default_slug_def)
  ultimately show ?thesis
    unfolding create_workspace_in_def
    by (simp add: Let_def) (subst demo_names, simp add: try_create_workspace_def Let_def)
qed

theorem new_workspace_fresh_witness:
  "is_projectless_path (Some demo_root) (demo_root @ [Normal demo_day, Normal default_slug])"
  using new_workspace_fresh [OF demo_created] by simp

theorem legacy_workspace_moved_witness:
  "\<exists>fs'. fs' (demo_root @ [Normal demo_day, Normal (lit ''a''), Normal (lit ''n'')]) = Some File"
proof -
  let ?p = "[RootDir, Normal (lit ''h''), Normal demo_day, Normal (lit ''a'')]"
  let ?c = "demo_root @ [Normal demo_day, Normal (lit ''a'')]"
  have day: "is_date_component (lit ''2024-05-01'')" using demo_date by (simp add: demo_day_def)
  have "rename_dir no_denials ?p ?c demo_fs = (Inr (), move_tree ?p ?c demo_fs)"
    by (simp add: rename_dir_def demo_evaluation)
  moreover have "\<not> path_exists no_denials ?c demo_fs"
    by (simp add: path_exists_def demo_evaluation)
  ultimately have "move_to_first no_denials demo_root ?p (demo_root @ [Normal demo_day])
      (numbered_names (lit ''a'')) demo_fs = (Inr \<lparr>w_cwd = ?c, w_root = demo_root\<rparr>, move_tree ?p ?c demo_fs)"
    by (subst demo_names) (simp add: Let_def)
  then have m: "migrate_workspace_in no_denials id [] [] demo_root ?p demo_fs =
      (Inr \<lparr>w_cwd = ?c, w_root = demo_root\<rparr>, move_tree ?p ?c demo_fs)"
    using day
    by (simp add: migrate_workspace_in_def strip_path_prefix_def move_dated_def demo_evaluation)
  have n: "needs_migration (Some demo_root) ?p"
    using day by (simp add: needs_migration_def is_legacy_workspace_path_def strip_path_prefix_def
        first_opt_def demo_evaluation)
  have r: "path_parent demo_root \<noteq> Some ?p" by (simp add: path_parent_def demo_root_def)
  have "(move_tree ?p ?c demo_fs) (?c @ [Normal (lit ''n'')]) = demo_fs (?p @ [Normal (lit ''n'')])"
    using legacy_workspace_moved [OF m n r] by (metis workspace.select_convs(1))
  then show ?thesis by (intro exI [of _ "move_tree ?p ?c demo_fs"]) (simp add: demo_fs_def demo_root_def)
qed

theorem stray_workspace_refused_witness:
  "needs_migration (Some demo_root) [RootDir, Normal (lit ''h''), Normal demo_day]"
  using stray_workspace_refused [of demo_root "[RootDir, Normal (lit ''h'')]" demo_day "[]"] demo_date
  by (simp add: demo_root_def path_parent_def demo_day_def lit_def)

end
