(* ===== verification/Checkpoints.thy ===== *)
theory Checkpoints
  imports Session
begin

text \<open>
  The git references behind turn checkpoints (\<open>crates/shidou-core/src/checkpoint.rs\<close>): their names,
  and the commands that capture the worktree in a reference, restore it, and copy or delete the
  references of a task. A repository is the contents of its worktree and a map from references to
  captured contents; a working directory that is not in a repository has none. Each git command
  can fail, and a failed restore leaves the worktree as \<open>gw_restore_error\<close> says. What a checkpoint
  records of a turn's changes is the parameter \<open>gw_capture_turn\<close>.
\<close>

record repo =
  rp_tree :: rstring
  rp_refs :: "rstring \<rightharpoonup> rstring"

type_synonym repos = "rstring \<rightharpoonup> repo"

record git_world =
  gw_uuid_text :: "uuid \<Rightarrow> rstring"
  gw_capture_turn :: "rstring \<Rightarrow> uuid \<Rightarrow> nat \<Rightarrow> rstring + checkpoint"
  gw_capture_error :: "rstring \<Rightarrow> rstring option"
  gw_restore_error :: "rstring \<Rightarrow> (rstring \<times> rstring) option"
  gw_delete_error :: "rstring \<Rightarrow> rstring option"
  gw_transaction_error :: "rstring option"

section \<open>Names\<close>

definition checkpoint_ref :: "git_world \<Rightarrow> uuid \<Rightarrow> nat \<Rightarrow> rstring" where
  "checkpoint_ref G session_id turn_count =
     lit ''refs/shidou/session-'' @ gw_uuid_text G session_id @ lit ''-turn-'' @ dec turn_count"

definition turn_start_ref :: "git_world \<Rightarrow> uuid \<Rightarrow> nat \<Rightarrow> rstring" where
  "turn_start_ref G session_id turn_count =
     lit ''refs/shidou/session-'' @ gw_uuid_text G session_id @ lit ''-turn-start-'' @ dec turn_count"

definition turn_diff_base_ref :: "git_world \<Rightarrow> uuid \<Rightarrow> nat \<Rightarrow> rstring" where
  "turn_diff_base_ref G session_id turn_count =
     lit ''refs/shidou/session-'' @ gw_uuid_text G session_id @ lit ''-turn-diff-'' @ dec turn_count"

section \<open>Commands\<close>

definition has_ref :: "rstring \<Rightarrow> rstring \<Rightarrow> repos \<Rightarrow> bool" where
  "has_ref cwd git_ref repos \<longleftrightarrow>
     (case repos cwd of None \<Rightarrow> False | Some r \<Rightarrow> rp_refs r git_ref \<noteq> None)"

definition capture_ref :: "git_world \<Rightarrow> rstring \<Rightarrow> rstring \<Rightarrow> repos \<Rightarrow> (rstring + unit) \<times> repos" where
  "capture_ref G cwd git_ref repos =
     (case repos cwd of
        None \<Rightarrow> (Inl (lit ''checkpoints require a Git repository''), repos)
      | Some r \<Rightarrow> (case gw_capture_error G git_ref of
          Some error \<Rightarrow> (Inl error, repos)
        | None \<Rightarrow> (Inr (), repos(cwd \<mapsto> r\<lparr>rp_refs := (rp_refs r)(git_ref \<mapsto> rp_tree r)\<rparr>))))"

definition restore_ref :: "git_world \<Rightarrow> rstring \<Rightarrow> rstring \<Rightarrow> repos \<Rightarrow> (rstring + unit) \<times> repos" where
  "restore_ref G cwd git_ref repos =
     (case Option.bind (repos cwd) (\<lambda>r. map_option (Pair r) (rp_refs r git_ref)) of
        None \<Rightarrow> (Inl (lit ''checkpoint `'' @ git_ref @ lit ''` is unavailable''), repos)
      | Some (r, commit) \<Rightarrow> (case gw_restore_error G git_ref of
          Some (error, left_tree) \<Rightarrow> (Inl error, repos(cwd \<mapsto> r\<lparr>rp_tree := left_tree\<rparr>))
        | None \<Rightarrow> (Inr (), repos(cwd \<mapsto> r\<lparr>rp_tree := commit\<rparr>))))"

definition delete_ref :: "git_world \<Rightarrow> rstring \<Rightarrow> rstring \<Rightarrow> repos \<Rightarrow> (rstring + unit) \<times> repos" where
  "delete_ref G cwd git_ref repos =
     (case (repos cwd, gw_delete_error G git_ref) of
        (Some r, None) \<Rightarrow> (Inr (), repos(cwd \<mapsto> r\<lparr>rp_refs := (rp_refs r)(git_ref := None)\<rparr>))
      | (_, Some error) \<Rightarrow> (Inl error, repos)
      | (None, None) \<Rightarrow> (Inl (lit ''not a git repository''), repos))"

text \<open>\<open>git update-ref --stdin\<close>: all of it or nothing.\<close>

definition update_refs ::
    "git_world \<Rightarrow> rstring \<Rightarrow> (rstring \<times> rstring option) list \<Rightarrow> repos \<Rightarrow> (rstring + unit) \<times> repos" where
  "update_refs G cwd changes repos =
     (if changes = [] then (Inr (), repos)
      else case (repos cwd, gw_transaction_error G) of
        (Some r, None) \<Rightarrow> (Inr (), repos(cwd \<mapsto> r\<lparr>rp_refs :=
            foldl (\<lambda>refs (git_ref, commit). refs(git_ref := commit)) (rp_refs r) changes\<rparr>))
      | (_, Some error) \<Rightarrow> (Inl error, repos)
      | (None, None) \<Rightarrow> (Inl (lit ''not a git repository''), repos))"

definition delete_turn_refs_after ::
    "git_world \<Rightarrow> rstring \<Rightarrow> uuid \<Rightarrow> nat \<Rightarrow> nat \<Rightarrow> repos \<Rightarrow> (rstring + unit) \<times> repos" where
  "delete_turn_refs_after G cwd session_id retained_turn_count previous_turn_count =
     update_refs G cwd (concat (map (\<lambda>turn_count.
         [(checkpoint_ref G session_id turn_count, None), (turn_start_ref G session_id turn_count, None),
          (turn_diff_base_ref G session_id turn_count, None)])
       [retained_turn_count + 1..<previous_turn_count + 1]))"

definition copy_session_refs ::
    "git_world \<Rightarrow> rstring \<Rightarrow> uuid \<Rightarrow> uuid \<Rightarrow> nat \<Rightarrow> repos \<Rightarrow> (rstring + unit) \<times> repos" where
  "copy_session_refs G cwd source_id target_id through_turn_count repos =
     (case repos cwd of
        None \<Rightarrow> (Inr (), repos)
      | Some r \<Rightarrow>
          let copied = (\<lambda>name turn_count. case rp_refs r (name source_id turn_count) of
                None \<Rightarrow> [] | Some commit \<Rightarrow> [(name target_id turn_count, Some commit)]) in
          update_refs G cwd (concat (map (\<lambda>turn_count.
              copied (checkpoint_ref G) turn_count @
              (if turn_count = 0 then []
               else copied (turn_start_ref G) turn_count @ copied (turn_diff_base_ref G) turn_count))
            [0..<through_turn_count + 1])) repos)"

text \<open>
  Every reference of the task goes: the source lists them from the repository, here they are the
  ones whose names begin as those of the task do.
\<close>

definition delete_all_session_refs ::
    "git_world \<Rightarrow> rstring \<Rightarrow> uuid \<Rightarrow> repos \<Rightarrow> (rstring + unit) \<times> repos" where
  "delete_all_session_refs G cwd session_id repos =
     (case (repos cwd, gw_transaction_error G) of
        (None, _) \<Rightarrow> (Inr (), repos)
      | (Some r, Some error) \<Rightarrow> (Inl error, repos)
      | (Some r, None) \<Rightarrow> (Inr (), repos(cwd \<mapsto> r\<lparr>rp_refs := (\<lambda>git_ref.
           if starts_with (lit ''refs/shidou/session-'' @ gw_uuid_text G session_id @ lit ''-turn-'') git_ref
           then None else rp_refs r git_ref)\<rparr>)))"

end
