(* ===== verification/Snapshot_Merge.thy ===== *)
theory Snapshot_Merge
  imports Session Interfaces
begin

text \<open>
  How the daemon folds a client's saved projection into its own
  (\<open>crates/shidou-core/src/daemon.rs\<close>, from \<open>returns_an_archived_task\<close> to
  \<open>preserve_daemon_checkpoints\<close>, and \<open>merge_saved_projects\<close>): which of the two is newer, what a
  stale snapshot may still contribute, and what a snapshot can never take away.
\<close>

section \<open>Prompts\<close>

fun returns_an_archived_task :: "driver_event \<Rightarrow> bool" where
  "returns_an_archived_task (TurnAccepted _ _ _) = True"
| "returns_an_archived_task TurnStarted = True"
| "returns_an_archived_task (Permission _ _ _ _) = True"
| "returns_an_archived_task (UserInputRequested _ _) = True"
| "returns_an_archived_task _ = False"

text \<open>
  The daemon's own record of a prompt. \<open>None\<close> is the panic of \<open>expect\<close>; the identifiers and
  clock readings are those of the turn it may have to begin.
\<close>

definition accept_prompt_turn ::
    "uuid \<Rightarrow> uuid \<Rightarrow> u64 \<Rightarrow> u64 \<Rightarrow> rstring \<Rightarrow> uuid \<Rightarrow> agent_session \<Rightarrow>
     (agent_session \<times> driver_event) option" where
  "accept_prompt_turn tid mid now message_now prompt submission_id session =
     (let title_prompt = (case first_opt (s_messages session) of
            Some m \<Rightarrow> message_visible_content m | None \<Rightarrow> prompt);
          session = set_title_from_prompt title_prompt session;
          (session, turn_id) = (case active_turn_id session of
              Some turn_id \<Rightarrow> (session, turn_id)
            | None \<Rightarrow> (begin_turn tid mid now message_now prompt session, tid)) in
      map_option (\<lambda>turn. (session,
          TurnAccepted submission_id turn
            (filter (\<lambda>m. m_turn_id m = Some turn_id) (s_messages session))))
        (List.find (\<lambda>t. t_id t = turn_id) (s_turns session)))"

section \<open>Which projection is newer\<close>

datatype projection_order = Precedes | Same | Advances

instantiation projection_order :: linorder
begin

definition projection_rank :: "projection_order \<Rightarrow> nat" where
  "projection_rank p = (case p of Precedes \<Rightarrow> 0 | Same \<Rightarrow> 1 | Advances \<Rightarrow> 2)"

definition less_eq_projection_order :: "projection_order \<Rightarrow> projection_order \<Rightarrow> bool" where
  "less_eq_projection_order p q \<longleftrightarrow> projection_rank p \<le> projection_rank q"

definition less_projection_order :: "projection_order \<Rightarrow> projection_order \<Rightarrow> bool" where
  "less_projection_order p q \<longleftrightarrow> projection_rank p < projection_rank q"

instance
  by standard
    (auto simp: less_eq_projection_order_def less_projection_order_def projection_rank_def
      split: projection_order.splits)

end

definition compare_u64 :: "u64 \<Rightarrow> u64 \<Rightarrow> projection_order" where
  "compare_u64 a b = (if a < b then Precedes else if a = b then Same else Advances)"

definition session_projection_order ::
    "agent_session \<Rightarrow> agent_session \<Rightarrow> uuid option \<Rightarrow> projection_order" where
  "session_projection_order existing incoming active_runtime_id =
     (let existing_cursor = s_runtime_event_cursor existing;
          incoming_cursor = s_runtime_event_cursor incoming;
          is_active = (\<lambda>cursor. case active_runtime_id of
              Some r \<Rightarrow> (case cursor of Some c \<Rightarrow> rc_runtime_id c = r | None \<Rightarrow> False)
            | None \<Rightarrow> False) in
      if is_active existing_cursor \<noteq> is_active incoming_cursor
      then (if is_active existing_cursor then Precedes else Advances)
      else case (existing_cursor, incoming_cursor) of
        (Some e, Some i) \<Rightarrow>
          if rc_runtime_id e = rc_runtime_id i \<and> rc_epoch e = rc_epoch i
          then compare_u64 (rc_sequence i) (rc_sequence e)
          else compare_u64 (s_updated_at incoming) (s_updated_at existing)
      | (Some _, None) \<Rightarrow>
          if status_is_busy (s_status existing) then Precedes
          else compare_u64 (s_updated_at incoming) (s_updated_at existing)
      | _ \<Rightarrow> compare_u64 (s_updated_at incoming) (s_updated_at existing))"

text \<open>\<open>iter().zip(other).all(p)\<close>.\<close>

definition zip_all :: "('a \<Rightarrow> 'b \<Rightarrow> bool) \<Rightarrow> 'a list \<Rightarrow> 'b list \<Rightarrow> bool" where
  "zip_all P xs ys \<longleftrightarrow> list_all (\<lambda>(x, y). P x y) (zip xs ys)"

definition has_turn_message_prefix :: "agent_session \<Rightarrow> agent_session \<Rightarrow> bool" where
  "has_turn_message_prefix existing incoming \<longleftrightarrow>
     length (s_turns existing) \<le> length (s_turns incoming) \<and>
     length (s_messages existing) \<le> length (s_messages incoming) \<and>
     zip_all (\<lambda>l r. t_id l = t_id r \<and> t_turn_count l = t_turn_count r)
       (s_turns existing) (s_turns incoming) \<and>
     zip_all (\<lambda>l r. m_id l = m_id r) (s_messages existing) (s_messages incoming)"

definition preserves_transcript_lineage :: "agent_session \<Rightarrow> agent_session \<Rightarrow> bool" where
  "preserves_transcript_lineage existing incoming \<longleftrightarrow>
     has_turn_message_prefix existing incoming \<and>
     length (s_transcript_blocks existing) \<le> length (s_transcript_blocks incoming) \<and>
     zip_all (\<lambda>l r. b_after_message l = b_after_message r \<and> b_turn_id l = b_turn_id r \<and>
         length (b_activities l) \<le> length (b_activities r) \<and>
         zip_all (\<lambda>a b. a_id a = a_id b) (b_activities l) (b_activities r))
       (s_transcript_blocks existing) (s_transcript_blocks incoming)"

section \<open>The merge\<close>

definition merge_appended_client_turns ::
    "agent_session \<Rightarrow> agent_session \<Rightarrow> agent_session \<times> bool" where
  "merge_appended_client_turns existing incoming =
     (let n = length (s_turns existing);
          appended_turns = drop n (s_turns incoming);
          appended_messages = drop (length (s_messages existing)) (s_messages incoming);
          appended_turn_ids = set (map t_id appended_turns);
          of_appended = (\<lambda>turn_id. case turn_id of Some i \<Rightarrow> i \<in> appended_turn_ids | None \<Rightarrow> False) in
      if length (s_turns incoming) \<le> n \<or>
         length (s_messages incoming) \<le> length (s_messages existing) \<or>
         \<not> has_turn_message_prefix existing incoming
      then (existing, False)
      else if list_ex (\<lambda>(offset, turn). t_turn_count turn \<noteq> n + offset + 1)
          (enumerate 0 appended_turns)
      then (existing, False)
      else if card appended_turn_ids \<noteq> length appended_turns then (existing, False)
      else if \<not> list_all (\<lambda>m. of_appended (m_turn_id m)) appended_messages \<or>
         \<not> list_all (\<lambda>t. list_ex (\<lambda>m. m_turn_id m = Some (t_id t) \<and> m_role m = User)
              appended_messages) appended_turns
      then (existing, False)
      else
        (existing\<lparr>s_messages := s_messages existing @ appended_messages,
           s_turns := s_turns existing @ appended_turns,
           s_transcript_blocks := s_transcript_blocks existing @
             filter (\<lambda>b. of_appended (b_turn_id b)) (s_transcript_blocks incoming)\<rparr>, True))"

definition merge_stale_metadata_fields :: "agent_session \<Rightarrow> agent_session \<Rightarrow> agent_session" where
  "merge_stale_metadata_fields existing incoming =
     (if s_updated_at existing \<le> s_updated_at incoming
      then existing
        \<lparr>s_title := s_title incoming, s_project_id := s_project_id incoming,
         s_workspace := s_workspace incoming, s_provider := s_provider incoming,
         s_model := s_model incoming, s_runtime_mode := s_runtime_mode incoming,
         s_interaction_mode := s_interaction_mode incoming,
         s_reasoning_effort := s_reasoning_effort incoming,
         s_service_tier := s_service_tier incoming, s_context_window := s_context_window incoming,
         s_agent_preset := s_agent_preset incoming, s_updated_at := s_updated_at incoming,
         s_last_reply_at := opt_or (s_last_reply_at incoming) (s_last_reply_at existing)\<rparr>
      else existing)"

definition push_queued :: "queued_message list \<Rightarrow> queued_message \<Rightarrow> queued_message list" where
  "push_queued queue queued =
     (if list_ex (\<lambda>candidate. q_id candidate = q_id queued) queue then queue else queue @ [queued])"

definition merge_stale_session_metadata :: "agent_session \<Rightarrow> agent_session \<Rightarrow> agent_session" where
  "merge_stale_session_metadata existing incoming =
     (let (existing, appended) = merge_appended_client_turns existing incoming;
          existing = (if appended then existing\<lparr>s_status := s_status incoming\<rparr> else existing);
          existing = merge_stale_metadata_fields existing incoming in
      existing\<lparr>s_queued_messages :=
        foldl push_queued (s_queued_messages existing) (s_queued_messages incoming)\<rparr>)"

definition preserve_daemon_checkpoints :: "agent_session \<Rightarrow> agent_session \<Rightarrow> agent_session" where
  "preserve_daemon_checkpoints existing incoming =
     incoming\<lparr>s_turns := map (\<lambda>turn.
        case opt_filter (\<lambda>c. cp_status c = Ready \<or> cp_status c = Unavailable)
            (Option.bind (List.find (\<lambda>candidate. t_turn_count candidate = t_turn_count turn)
               (s_turns existing)) t_checkpoint) of
          Some checkpoint \<Rightarrow> turn\<lparr>t_checkpoint := Some checkpoint\<rparr>
        | None \<Rightarrow> turn) (s_turns incoming)\<rparr>"

definition merge_saved_session ::
    "agent_session \<Rightarrow> agent_session \<Rightarrow> uuid option \<Rightarrow> agent_session" where
  "merge_saved_session existing incoming active_runtime_id =
     (let advances = (session_projection_order existing incoming active_runtime_id = Advances);
          incoming = incoming\<lparr>s_archived_at := s_archived_at existing\<rparr> in
      if \<not> advances \<or> \<not> preserves_transcript_lineage existing incoming
      then merge_stale_session_metadata existing incoming
      else preserve_daemon_checkpoints existing incoming)"

text \<open>Projects.\<close>

definition put_project :: "project list \<Rightarrow> project \<Rightarrow> project list" where
  "put_project existing p =
     (if list_ex (\<lambda>e. p_id e = p_id p) existing
      then update_first (\<lambda>e. p_id e = p_id p) (\<lambda>_. p) existing
      else existing @ [p])"

definition merge_saved_projects :: "project list \<Rightarrow> project list \<Rightarrow> uuid set \<Rightarrow> project list" where
  "merge_saved_projects existing incoming removed =
     foldl (\<lambda>existing p. if p_id p \<in> removed then existing else put_project existing p)
       existing incoming"

interpretation pv: keyed_vector p_id "\<lambda>_ p. p" put_project
proof unfold_locales
  fix xs :: "project list" and p :: project
  have "list_ex (\<lambda>e. p_id e = p_id p) xs \<longleftrightarrow> p_id p \<in> p_id ` set xs"
    by (metis (mono_tags, lifting) list_ex_iff image_iff)
  then show "p_id p \<in> p_id ` set xs \<Longrightarrow> put_project xs p =
      update_first (\<lambda>e. p_id e = p_id p) (\<lambda>_. p) xs"
    and "p_id p \<notin> p_id ` set xs \<Longrightarrow> put_project xs p = xs @ [p]"
    by (simp_all add: put_project_def)
qed simp

section \<open>Lemmas\<close>

lemma zip_all_nth: "zip_all P xs ys \<longleftrightarrow> (\<forall>i<min (length xs) (length ys). P (xs ! i) (ys ! i))"
  by (auto simp: zip_all_def list_all_length)

lemma zip_all_prefix:
  assumes "length xs \<le> length ys" "zip_all (\<lambda>l r. f l = f r) xs ys"
  shows "map f xs = take (length xs) (map f ys)"
  using assms by (intro nth_equalityI) (auto simp: zip_all_nth)

lemma has_prefix_ids:
  assumes "has_turn_message_prefix e i"
  shows "take (length (s_turns e)) (map t_id (s_turns i)) = map t_id (s_turns e)"
    and "take (length (s_messages e)) (map m_id (s_messages i)) = map m_id (s_messages e)"
    and "k < length (s_turns e) \<Longrightarrow> t_turn_count (s_turns i ! k) = t_turn_count (s_turns e ! k)"
proof -
  have z: "zip_all (\<lambda>l r. t_id l = t_id r) (s_turns e) (s_turns i)"
    using assms by (auto simp: has_turn_message_prefix_def zip_all_nth)
  show "take (length (s_turns e)) (map t_id (s_turns i)) = map t_id (s_turns e)"
    using zip_all_prefix [OF _ z] assms by (simp add: has_turn_message_prefix_def)
  have "zip_all (\<lambda>l r. m_id l = m_id r) (s_messages e) (s_messages i)"
    using assms by (simp add: has_turn_message_prefix_def)
  from zip_all_prefix [OF _ this]
  show "take (length (s_messages e)) (map m_id (s_messages i)) = map m_id (s_messages e)"
    using assms by (simp add: has_turn_message_prefix_def)
  show "k < length (s_turns e) \<Longrightarrow> t_turn_count (s_turns i ! k) = t_turn_count (s_turns e ! k)"
    using assms by (auto simp: has_turn_message_prefix_def zip_all_nth)
qed

lemma archived_frame [simp]:
  "s_turns (i\<lparr>s_archived_at := a\<rparr>) = s_turns i" "s_messages (i\<lparr>s_archived_at := a\<rparr>) = s_messages i"
  "has_turn_message_prefix e (i\<lparr>s_archived_at := a\<rparr>) = has_turn_message_prefix e i"
  "preserves_transcript_lineage e (i\<lparr>s_archived_at := a\<rparr>) = preserves_transcript_lineage e i"
  by (simp_all add: has_turn_message_prefix_def preserves_transcript_lineage_def)

text \<open>The two shapes of a merge: the daemon's transcript with a suffix, or the newer snapshot.\<close>

lemma merge_appended_True:
  assumes "snd (merge_appended_client_turns e i)"
  shows "\<exists>bs. merge_appended_client_turns e i =
      (e\<lparr>s_messages := s_messages e @ drop (length (s_messages e)) (s_messages i),
         s_turns := s_turns e @ drop (length (s_turns e)) (s_turns i),
         s_transcript_blocks := s_transcript_blocks e @ bs\<rparr>, True)"
proof -
  have if4: "snd (if a then (x, False) else if b then (x, False) else if c then (x, False)
      else if d then (x, False) else (y, True)) \<Longrightarrow>
    (if a then (x, False) else if b then (x, False) else if c then (x, False)
      else if d then (x, False) else (y, True)) = (y, True)" for a b c d and x y :: agent_session
    by (simp split: if_splits)
  show ?thesis
    using assms unfolding merge_appended_client_turns_def Let_def by (intro exI) (rule if4)
qed

lemma merge_appended_cases:
  obtains "merge_appended_client_turns e i = (e, False)"
  | ts ms bs where "merge_appended_client_turns e i =
      (e\<lparr>s_messages := s_messages e @ ms, s_turns := s_turns e @ ts,
         s_transcript_blocks := s_transcript_blocks e @ bs\<rparr>, True)"
    "has_turn_message_prefix e i" "ts = drop (length (s_turns e)) (s_turns i)"
    "ms = drop (length (s_messages e)) (s_messages i)" "distinct (map t_id ts)"
    "list_all (\<lambda>m. \<exists>x\<in>set (map t_id ts). m_turn_id m = Some x) ms" "ts \<noteq> []"
proof -
  let ?ts = "drop (length (s_turns e)) (s_turns i)" and ?ms = "drop (length (s_messages e)) (s_messages i)"
  show thesis
  proof (cases "snd (merge_appended_client_turns e i)")
    case False
    then have "merge_appended_client_turns e i = (e, False)"
      by (auto simp: merge_appended_client_turns_def Let_def split: if_splits)
    then show thesis by (rule that(1))
  next
    case True
    then have "card (set (map t_id ?ts)) = length ?ts" and pre: "has_turn_message_prefix e i"
      and ne: "\<not> length (s_turns i) \<le> length (s_turns e)"
      and own: "list_all (\<lambda>m. case m_turn_id m of Some x \<Rightarrow> x \<in> t_id ` set ?ts | None \<Rightarrow> False) ?ms"
      by (auto simp: merge_appended_client_turns_def Let_def split: if_splits)
    then have "distinct (map t_id ?ts)" by (metis card_distinct length_map)
    moreover have "list_all (\<lambda>m. \<exists>x\<in>set (map t_id ?ts). m_turn_id m = Some x) ?ms"
      using own unfolding list_all_iff set_map by (force split: option.splits)
    moreover have "?ts \<noteq> []" using ne by simp
    moreover note merge_appended_True [OF True]
    ultimately show thesis using that(2) pre by blast
  qed
qed

lemma merge_stale_fields_frame [simp]:
  "s_turns (merge_stale_metadata_fields e i) = s_turns e"
  "s_messages (merge_stale_metadata_fields e i) = s_messages e"
  "s_transcript_blocks (merge_stale_metadata_fields e i) = s_transcript_blocks e"
  "s_archived_at (merge_stale_metadata_fields e i) = s_archived_at e"
  "s_status (merge_stale_metadata_fields e i) = s_status e"
  "s_runtime_event_cursor (merge_stale_metadata_fields e i) = s_runtime_event_cursor e"
  "s_queued_messages (merge_stale_metadata_fields e i) = s_queued_messages e"
  by (simp_all add: merge_stale_metadata_fields_def)

lemma merge_stale_parts:
  "s_turns (merge_stale_session_metadata e i) = s_turns (fst (merge_appended_client_turns e i))"
  "s_messages (merge_stale_session_metadata e i) = s_messages (fst (merge_appended_client_turns e i))"
  "s_transcript_blocks (merge_stale_session_metadata e i) =
     s_transcript_blocks (fst (merge_appended_client_turns e i))"
  "s_archived_at (merge_stale_session_metadata e i) = s_archived_at e"
  "s_runtime_event_cursor (merge_stale_session_metadata e i) = s_runtime_event_cursor e"
  by (rule merge_appended_cases [of e i]; simp add: merge_stale_session_metadata_def)+

section \<open>What a snapshot cannot take away\<close>

definition kept_checkpoint :: "agent_turn \<Rightarrow> bool" where
  "kept_checkpoint t \<longleftrightarrow> (case t_checkpoint t of
     Some c \<Rightarrow> cp_status c = Ready \<or> cp_status c = Unavailable | None \<Rightarrow> False)"

text \<open>
  C28: saving a client's snapshot never clears or sets the archive mark, and the identifiers of
  the daemon's turns and messages stay, in order, a prefix of the merged transcript, whichever
  projection is newer.
\<close>

theorem merge_keeps_transcript:
  "s_archived_at (merge_saved_session e i r) = s_archived_at e \<and>
   prefix (map t_id (s_turns e)) (map t_id (s_turns (merge_saved_session e i r))) \<and>
   prefix (map m_id (s_messages e)) (map m_id (s_messages (merge_saved_session e i r)))"
proof (cases "session_projection_order e i r = Advances \<and> preserves_transcript_lineage e i")
  case True
  then have "has_turn_message_prefix e i" by (simp add: preserves_transcript_lineage_def)
  note ids = has_prefix_ids [OF this]
  have same: "map t_id (s_turns (preserve_daemon_checkpoints e j)) = map t_id (s_turns j)" for j
    by (auto simp: preserve_daemon_checkpoints_def split: option.split)
  have "prefix (map t_id (s_turns e)) (map t_id (s_turns i))"
    "prefix (map m_id (s_messages e)) (map m_id (s_messages i))"
    using ids(1,2) by (metis take_is_prefix)+
  moreover have "s_archived_at (preserve_daemon_checkpoints e j) = s_archived_at j"
    "s_messages (preserve_daemon_checkpoints e j) = s_messages j" for j
    by (simp_all add: preserve_daemon_checkpoints_def)
  ultimately show ?thesis
    using True unfolding merge_saved_session_def by (simp add: same Let_def)
next
  case False
  let ?i = "i\<lparr>s_archived_at := s_archived_at e\<rparr>"
  have eq: "merge_saved_session e i r = merge_stale_session_metadata e ?i"
    using False by (auto simp: merge_saved_session_def)
  show ?thesis
    by (rule merge_appended_cases [of e ?i]) (simp_all add: eq merge_stale_parts)
qed

text \<open>
  A checkpoint the daemon recorded as ready or unavailable survives every merge, at the turn
  it belongs to, even when a newer snapshot that was taken before the capture replaces the rest.
\<close>

theorem merge_keeps_checkpoints:
  assumes "distinct (map t_turn_count (s_turns e))" "k < length (s_turns e)"
    and "kept_checkpoint (s_turns e ! k)"
  shows "k < length (s_turns (merge_saved_session e i r)) \<and>
    t_checkpoint (s_turns (merge_saved_session e i r) ! k) = t_checkpoint (s_turns e ! k)"
proof (cases "session_projection_order e i r = Advances \<and> preserves_transcript_lineage e i")
  case True
  then have pre: "has_turn_message_prefix e i" by (simp add: preserves_transcript_lineage_def)
  have len: "k < length (s_turns i)" using pre assms(2) by (simp add: has_turn_message_prefix_def)
  have count: "t_turn_count (s_turns i ! k) = t_turn_count (s_turns e ! k)"
    by (rule has_prefix_ids(3) [OF pre assms(2)])
  have "List.find (\<lambda>t. t_turn_count t = t_turn_count (s_turns e ! k)) (s_turns e) = Some (s_turns e ! k)"
    unfolding find_Some_iff using assms(1,2)
    by (intro exI [of _ k]) (auto simp: distinct_conv_nth)
  moreover obtain c where c: "t_checkpoint (s_turns e ! k) = Some c"
    "cp_status c = Ready \<or> cp_status c = Unavailable"
    using assms(3) by (auto simp: kept_checkpoint_def split: option.splits)
  moreover have "merge_saved_session e i r = preserve_daemon_checkpoints e (i\<lparr>s_archived_at := s_archived_at e\<rparr>)"
    using True by (simp add: merge_saved_session_def)
  ultimately show ?thesis
    using len count by (auto simp: preserve_daemon_checkpoints_def)
next
  case False
  let ?i = "i\<lparr>s_archived_at := s_archived_at e\<rparr>"
  have eq: "merge_saved_session e i r = merge_stale_session_metadata e ?i"
    using False by (auto simp: merge_saved_session_def)
  show ?thesis
    by (rule merge_appended_cases [of e ?i])
      (use assms(2) in \<open>simp_all add: eq merge_stale_parts nth_append\<close>)
qed

definition demo_checkpoint :: checkpoint where
  "demo_checkpoint = \<lparr>cp_turn_count = 1, cp_git_ref = lit ''r'', cp_status = Ready, cp_files = [],
     cp_additions = 0, cp_deletions = 0, cp_created_at = 3\<rparr>"

definition demo_saved :: agent_session where
  "demo_saved = begin_turn 10 20 5 5 (lit ''do'') (session_new 1 5 2 Claude)"

theorem merge_keeps_checkpoints_witness:
  "t_checkpoint (s_turns (merge_saved_session
      (demo_saved\<lparr>s_turns := map (\<lambda>t. t\<lparr>t_checkpoint := Some demo_checkpoint\<rparr>) (s_turns demo_saved)\<rparr>)
      (demo_saved\<lparr>s_updated_at := 9\<rparr>) None) ! 0) = Some demo_checkpoint"
  using merge_keeps_checkpoints [of "demo_saved\<lparr>s_turns :=
      map (\<lambda>t. t\<lparr>t_checkpoint := Some demo_checkpoint\<rparr>) (s_turns demo_saved)\<rparr>" 0
      "demo_saved\<lparr>s_updated_at := 9\<rparr>" None]
  by (simp add: demo_saved_def begin_turn_def begin_turn_with_presentation_def session_new_def
      kept_checkpoint_def demo_checkpoint_def)

text \<open>
  A turn a client appended while the daemon was idle joins the daemon's transcript without
  breaking it: turn and message identifiers stay unique, only the newest turn may be running and
  every message's turn exists, whenever the client's own projection is well formed.
\<close>

theorem merge_keeps_well_formed:
  assumes "wf_session e" "wf_session i" "active_turn_id e = None"
  shows "turns_ok (s_turns (merge_saved_session e i r)) \<and>
    messages_ok (set (turn_ids (merge_saved_session e i r))) (s_messages (merge_saved_session e i r))"
proof (cases "session_projection_order e i r = Advances \<and> preserves_transcript_lineage e i")
  case True
  let ?i = "i\<lparr>s_archived_at := s_archived_at e\<rparr>"
  have f: "t_id (case x of Some c \<Rightarrow> t\<lparr>t_checkpoint := Some c\<rparr> | None \<Rightarrow> t) = t_id t"
    "is_running (case x of Some c \<Rightarrow> t\<lparr>t_checkpoint := Some c\<rparr> | None \<Rightarrow> t) = is_running t"
    for x t by (simp_all add: is_running_def split: option.split)
  have "merge_saved_session e i r = preserve_daemon_checkpoints e ?i"
    using True by (simp add: merge_saved_session_def)
  with assms(2) show ?thesis
    by (simp add: preserve_daemon_checkpoints_def wf_session_def turns_ok_def turn_ids_def comp_def f
        map_butlast [symmetric])
next
  case False
  let ?i = "i\<lparr>s_archived_at := s_archived_at e\<rparr>"
  have eq: "merge_saved_session e i r = merge_stale_session_metadata e ?i"
    using False by (auto simp: merge_saved_session_def)
  show ?thesis
  proof (rule merge_appended_cases [of e ?i])
    assume "merge_appended_client_turns e ?i = (e, False)"
    with assms(1) show ?thesis
      by (simp add: eq merge_stale_parts turn_ids_def wf_session_def)
  next
    fix ts ms bs assume a: "merge_appended_client_turns e ?i =
      (e\<lparr>s_messages := s_messages e @ ms, s_turns := s_turns e @ ts,
         s_transcript_blocks := s_transcript_blocks e @ bs\<rparr>, True)"
      "has_turn_message_prefix e ?i" "ts = drop (length (s_turns e)) (s_turns ?i)"
      "ms = drop (length (s_messages e)) (s_messages ?i)"
      "list_all (\<lambda>m. \<exists>x\<in>set (map t_id ts). m_turn_id m = Some x) ms" "ts \<noteq> []"
    note ids = has_prefix_ids(1,2) [OF a(2)]
    have ti: "map t_id (s_turns e @ ts) = map t_id (s_turns i)"
      using ids(1) a(3) by (metis archived_frame(1) append_take_drop_id drop_map map_append)
    have mi: "map m_id (s_messages e @ ms) = map m_id (s_messages i)"
      using ids(2) a(4) by (metis archived_frame(2) append_take_drop_id drop_map map_append)
    have "\<not> is_running t" if "t \<in> set (s_turns e)" for t
    proof -
      have "opt_filter is_running (last_opt (s_turns e)) = None"
        using assms(3) by (simp add: active_turn_id_None)
      with that assms(1) show ?thesis
        by (cases "s_turns e" rule: rev_cases) (auto simp: wf_session_def turns_ok_def)
    qed
    moreover have "\<not> is_running t" if "t \<in> set (butlast ts)" for t
    proof -
      have "set (butlast ts) \<subseteq> set (butlast (s_turns i))"
        using a(3) by (auto simp: butlast_drop dest: in_set_dropD)
      with that assms(2) show ?thesis by (auto simp: wf_session_def turns_ok_def)
    qed
    ultimately have "turns_ok (s_turns e @ ts)"
      using assms(2) ti a(6) by (auto simp: turns_ok_def wf_session_def butlast_append simp del: map_append)
    moreover have "messages_ok (set (map t_id (s_turns e @ ts))) (s_messages e @ ms)"
    proof -
      have "distinct (map m_id (s_messages e @ ms))"
        using assms(2) unfolding mi by (simp add: wf_session_def messages_ok_def)
      moreover have "\<forall>m\<in>set (s_messages e). owned_by (set (map t_id (s_turns e @ ts))) (m_turn_id m)"
        using assms(1) by (auto simp: wf_session_def messages_ok_def turn_ids_def intro: owned_by_mono)
      moreover have "\<forall>m\<in>set ms. owned_by (set (map t_id (s_turns e @ ts))) (m_turn_id m)"
        using a(5) by (auto simp: list_all_iff)
      ultimately show ?thesis by (auto simp: messages_ok_def)
    qed
    ultimately show ?thesis
      using a(1) by (simp add: eq merge_stale_parts turn_ids_def)
  qed
qed

theorem merge_keeps_well_formed_witness:
  "turns_ok (s_turns (merge_saved_session (session_new 1 5 2 Claude) demo_saved None))"
proof -
  have wf: "wf_session (session_new 1 5 2 Claude)" by (rule wf_session_new)
  have idle: "active_turn_id (session_new 1 5 2 Claude) = None"
    by (simp add: active_turn_id_def session_new_def)
  have "wf_session demo_saved"
    unfolding demo_saved_def begin_turn_def
    by (rule wf_begin_turn_with_presentation [OF wf idle])
      (simp_all add: session_new_def turn_ids_def message_ids_def)
  from merge_keeps_well_formed [OF wf this idle, of None] show ?thesis by simp
qed

end
