(* ===== verification/Reducer.thy ===== *)
theory Reducer
  imports Session Activity
begin

text \<open>
  The canonical fold from driver events onto a session (\<open>crates/shidou-protocol/src/reducer.rs\<close>).
  A handler takes what the event draws from outside as an \<open>env\<close>: one fresh identifier, the
  readings of the clock in seconds, one slot per place of the handler that reads it, and one
  reading in milliseconds.
\<close>

section \<open>State\<close>

datatype stream_phase = Phase_Text | Phase_Reasoning | Phase_Activity

record reducer =
  r_stream_phase :: "stream_phase option"
  r_pending_permission :: "rstring option"
  r_pending_user_input :: "rstring option"

record steer_presentation =
  sp_display_content :: "rstring option"
  sp_attachments :: "message_attachment list"

record reduce_context =
  x_suppress_turn_output :: bool
  x_steer_presentation :: "steer_presentation option"
  x_process_exit_error :: "rstring option"

record finished_turn =
  ft_turn_id :: uuid
  ft_turn_count :: nat
  ft_status :: turn_status

record reduction =
  rd_applied :: bool
  rd_commands_changed :: bool
  rd_replaced_activity_diff :: "uuid option"
  rd_finished_turn :: "finished_turn option"

record env =
  e_uuid :: uuid
  e_secs :: "nat \<Rightarrow> u64"
  e_millis :: u64

definition reducer_default :: reducer where
  "reducer_default =
     \<lparr>r_stream_phase = None, r_pending_permission = None, r_pending_user_input = None\<rparr>"

definition context_default :: reduce_context where
  "context_default = \<lparr>x_suppress_turn_output = False, x_steer_presentation = None,
     x_process_exit_error = None\<rparr>"

definition reduction_default :: reduction where
  "reduction_default = \<lparr>rd_applied = False, rd_commands_changed = False,
     rd_replaced_activity_diff = None, rd_finished_turn = None\<rparr>"

definition reduction_applied :: reduction where
  "reduction_applied = reduction_default\<lparr>rd_applied := True\<rparr>"

definition reducer_reset :: "reducer \<Rightarrow> reducer" where
  "reducer_reset self =
     self\<lparr>r_stream_phase := None, r_pending_permission := None, r_pending_user_input := None\<rparr>"

type_synonym reduced = "reducer \<times> agent_session \<times> reduction"

section \<open>Operations on the transcript\<close>

definition finish_streaming_assistant :: "agent_session \<Rightarrow> agent_session" where
  "finish_streaming_assistant session =
     session\<lparr>s_messages := map (\<lambda>m. if m_role m = Assistant \<and> m_streaming m
        then m\<lparr>m_streaming := False\<rparr> else m) (s_messages session)\<rparr>"

definition complete_turn_blocks :: "agent_session \<Rightarrow> agent_session" where
  "complete_turn_blocks session =
     session\<lparr>s_transcript_blocks := map (\<lambda>b. b\<lparr>b_activities :=
        map (\<lambda>a. a\<lparr>a_complete := True\<rparr>) (b_activities b)\<rparr>) (s_transcript_blocks session)\<rparr>"

definition active_turn_has_assistant_message :: "agent_session \<Rightarrow> bool" where
  "active_turn_has_assistant_message session =
     (case active_turn_id session of
        None \<Rightarrow> False
      | Some turn_id \<Rightarrow> list_ex (\<lambda>m. m_role m = Assistant \<and> m_turn_id m = Some turn_id)
          (s_messages session))"

text \<open>The newest activity that satisfies a predicate, looked for from the last block backwards.\<close>

definition all_activities :: "transcript_block list \<Rightarrow> activity_item list" where
  "all_activities bs = concat (map b_activities bs)"

definition update_last_activity ::
    "(activity_item \<Rightarrow> bool) \<Rightarrow> (activity_item \<Rightarrow> activity_item) \<Rightarrow> transcript_block list \<Rightarrow>
     transcript_block list" where
  "update_last_activity P f bs =
     update_last (\<lambda>b. list_ex P (b_activities b))
       (\<lambda>b. b\<lparr>b_activities := update_last P f (b_activities b)\<rparr>) bs"

definition open_reasoning :: "activity_item \<Rightarrow> bool" where
  "open_reasoning a \<longleftrightarrow> a_reasoning a \<noteq> None \<and> \<not> a_complete a"

definition complete_reasoning_activity :: "u64 \<Rightarrow> agent_session \<Rightarrow> agent_session" where
  "complete_reasoning_activity now session =
     (if list_ex open_reasoning (all_activities (s_transcript_blocks session))
      then session\<lparr>s_transcript_blocks := update_last_activity open_reasoning
             (\<lambda>a. a\<lparr>a_complete := True\<rparr>) (s_transcript_blocks session),
             s_updated_at := now\<rparr>
      else session)"

definition push_transcript_activity ::
    "activity_item \<Rightarrow> bool \<Rightarrow> agent_session \<Rightarrow> agent_session" where
  "push_transcript_activity item continuing_work session =
     (let after_message = length (s_messages session);
          turn_id = active_turn_id session;
          blocks = s_transcript_blocks session in
      session\<lparr>s_transcript_blocks :=
        (if continuing_work \<and> blocks \<noteq> [] \<and> b_after_message (last blocks) = after_message \<and>
            b_turn_id (last blocks) = turn_id
         then map_last (\<lambda>b. b\<lparr>b_activities := b_activities b @ [item]\<rparr>) blocks
         else blocks @ [\<lparr>b_after_message = after_message, b_turn_id = turn_id,
            b_activities = [item]\<rparr>])\<rparr>)"

definition streaming_assistant :: "message \<Rightarrow> bool" where
  "streaming_assistant m \<longleftrightarrow> m_role m = Assistant \<and> m_streaming m"

definition text_delta_into :: "env \<Rightarrow> bool \<Rightarrow> rstring \<Rightarrow> agent_session \<Rightarrow> agent_session" where
  "text_delta_into env continuing delta session =
     (let session = (if \<not> continuing then finish_streaming_assistant session else session) in
      session\<lparr>s_messages :=
        (if continuing \<and> list_ex streaming_assistant (s_messages session)
         then update_last streaming_assistant (\<lambda>m. m\<lparr>m_content := m_content m @ delta\<rparr>)
           (s_messages session)
         else s_messages session @
           [(case active_turn_id session of
               Some turn_id \<Rightarrow> message_new_for_turn (e_uuid env) (e_secs env 1) Assistant delta turn_id
             | None \<Rightarrow> message_new (e_uuid env) (e_secs env 1) Assistant delta)
            \<lparr>m_streaming := True\<rparr>]),
        s_updated_at := e_secs env 2\<rparr>)"

definition append_text_delta_to_session ::
    "env \<Rightarrow> agent_session list \<Rightarrow> uuid \<Rightarrow> bool \<Rightarrow> rstring \<Rightarrow> agent_session list" where
  "append_text_delta_to_session env sessions session_id continuing delta =
     update_first (\<lambda>s. s_id s = session_id) (text_delta_into env continuing delta) sessions"

definition compact_driver_error :: "rstring \<Rightarrow> rstring" where
  "compact_driver_error error =
     (let ls = lines error;
          compact = join [10] (take 6 ls);
          compact = (if 6 < length ls then compact @ [10, ellipsis] else compact) in
      if 800 < length compact then take 799 compact @ [ellipsis] else compact)"

section \<open>Turns\<close>

definition session_accepts_turn_output :: "agent_session \<Rightarrow> agent_session \<times> bool" where
  "session_accepts_turn_output session =
     (if active_turn_id session = None \<or> \<not> status_is_busy (s_status session) then (session, False)
      else
        let session = mark_active_turn_provider_started session;
            session = (if s_status session = Connecting
              then session\<lparr>s_status := Working\<rparr> else session) in
        (session, True))"

definition accepts_turn_output :: "reduce_context \<Rightarrow> agent_session \<Rightarrow> agent_session \<times> bool" where
  "accepts_turn_output ctx session =
     (if x_suppress_turn_output ctx then (session, False) else session_accepts_turn_output session)"

definition remove_nth :: "nat \<Rightarrow> 'a list \<Rightarrow> 'a list" where
  "remove_nth i xs = take i xs @ drop (Suc i) xs"

definition push_new_message :: "message list \<Rightarrow> message \<Rightarrow> message list" where
  "push_new_message ms m = (if list_ex (\<lambda>e. m_id e = m_id m) ms then ms else ms @ [m])"

text \<open>
  One message of the accepted turn: one already known is skipped; otherwise it takes the place of
  the first message of the provisional turn with its role that is still available.
\<close>

definition adopt_message ::
    "uuid \<Rightarrow> message list \<times> nat list \<Rightarrow> message \<Rightarrow> message list \<times> nat list" where
  "adopt_message turn_id st m = (case st of (ms, available) \<Rightarrow>
     if list_ex (\<lambda>e. m_id e = m_id m) ms then (ms, available)
     else case position (\<lambda>i. m_role (ms ! i) = m_role m) available of
       Some p \<Rightarrow>
         (let i = available ! p in
          (ms[i := (ms ! i)\<lparr>m_id := m_id m, m_turn_id := Some turn_id\<rparr>], remove_nth p available))
     | None \<Rightarrow> (ms @ [m], available))"

definition own_messages :: "uuid \<Rightarrow> nat list \<Rightarrow> message list \<Rightarrow> message list" where
  "own_messages turn_id available ms =
     foldl (\<lambda>ms i. ms[i := (ms ! i)\<lparr>m_turn_id := Some turn_id\<rparr>]) ms available"

definition provisional_turn :: "uuid \<Rightarrow> agent_turn \<Rightarrow> agent_session \<Rightarrow> nat option" where
  "provisional_turn submission_id turn session =
     (if list_ex (\<lambda>t. t_id t = t_id turn) (s_turns session) then None
      else position (\<lambda>t. t_id t = submission_id \<and> t_status t = Running) (s_turns session))"

definition accept_remote_turn ::
    "uuid \<Rightarrow> agent_turn \<Rightarrow> message list \<Rightarrow> agent_session \<Rightarrow> agent_session" where
  "accept_remote_turn submission_id turn messages session =
     (let known_turn = list_ex (\<lambda>t. t_id t = t_id turn) (s_turns session);
          session = (case provisional_turn submission_id turn session of
            Some turn_index \<Rightarrow>
              let provisional_id = t_id (s_turns session ! turn_index);
                  available = filter (\<lambda>i. m_turn_id (s_messages session ! i) = Some provisional_id)
                    [0..<length (s_messages session)];
                  (ms, available) = foldl (adopt_message (t_id turn))
                    (s_messages session, available) messages in
              session\<lparr>s_turns := (s_turns session)[turn_index := turn],
                s_messages := own_messages (t_id turn) available ms,
                s_transcript_blocks := map (\<lambda>b. if b_turn_id b = Some provisional_id
                   then b\<lparr>b_turn_id := Some (t_id turn)\<rparr> else b) (s_transcript_blocks session)\<rparr>
          | None \<Rightarrow>
              session\<lparr>s_messages := foldl push_new_message (s_messages session) messages,
                s_turns := (if known_turn then s_turns session else s_turns session @ [turn])\<rparr>);
          session = session\<lparr>s_updated_at := max (s_updated_at session) (t_started_at turn)\<rparr> in
      if t_status turn = Running \<and> \<not> status_is_busy (s_status session)
      then session\<lparr>s_status := Connecting\<rparr> else session)"

definition finished_turn_of :: "turn_status \<Rightarrow> (uuid \<times> nat) option \<Rightarrow> finished_turn option" where
  "finished_turn_of status result =
     map_option (\<lambda>(turn_id, turn_count).
       \<lparr>ft_turn_id = turn_id, ft_turn_count = turn_count, ft_status = status\<rparr>) result"

section \<open>The handlers\<close>

definition append_text_delta ::
    "env \<Rightarrow> rstring \<Rightarrow> reducer \<Rightarrow> agent_session \<Rightarrow> reducer \<times> agent_session" where
  "append_text_delta env delta self session =
     (let previous_phase = r_stream_phase self;
          session = (if previous_phase = Some Phase_Reasoning
            then complete_reasoning_activity (e_secs env 0) session else session);
          continuing = (previous_phase = Some Phase_Text);
          session = hd (append_text_delta_to_session env [session] (s_id session) continuing delta) in
      (self\<lparr>r_stream_phase := Some Phase_Text\<rparr>, session))"

definition last_activity_reasoning :: "agent_session \<Rightarrow> reasoning_block option" where
  "last_activity_reasoning session =
     Option.bind (last_opt (s_transcript_blocks session)) (\<lambda>b.
       Option.bind (last_opt (b_activities b)) a_reasoning)"

definition append_reasoning_delta ::
    "lib \<Rightarrow> env \<Rightarrow> rstring \<Rightarrow> reducer \<Rightarrow> agent_session \<Rightarrow> reducer \<times> agent_session \<times> bool" where
  "append_reasoning_delta L env delta self session =
     (let previous_phase = r_stream_phase self;
          continuing = (previous_phase = Some Phase_Reasoning) in
      if \<not> continuing \<and> trim delta = [] then (self, session, False)
      else
        let now = e_millis env;
            session = (if \<not> continuing then finish_streaming_assistant session else session);
            session = (case (if continuing then last_activity_reasoning session else None) of
                Some _ \<Rightarrow>
                  session\<lparr>s_transcript_blocks := map_last (\<lambda>b. b\<lparr>b_activities :=
                    map_last (\<lambda>a. a\<lparr>a_reasoning := map_option (\<lambda>r.
                        r\<lparr>rb_content := rb_content r @ delta, rb_finished_at_ms := now\<rparr>)
                      (a_reasoning a)\<rparr>) (b_activities b)\<rparr>) (s_transcript_blocks session)\<rparr>
              | None \<Rightarrow>
                  push_transcript_activity
                    (activity_from_reasoning L (e_uuid env)
                      \<lparr>rb_content = delta, rb_started_at_ms = now, rb_finished_at_ms = now\<rparr> False)
                    (previous_phase = Some Phase_Reasoning \<or> previous_phase = Some Phase_Activity)
                    session) in
        (self\<lparr>r_stream_phase := Some Phase_Reasoning\<rparr>,
         session\<lparr>s_updated_at := e_secs env 0\<rparr>, True))"

definition activity_matches :: "activity_item \<Rightarrow> activity_item \<Rightarrow> bool" where
  "activity_matches item activity \<longleftrightarrow>
     (case a_source_id item of
        Some i \<Rightarrow> a_source_id activity = Some i
      | None \<Rightarrow> a_title activity = a_title item \<and> \<not> a_complete activity)"

definition merge_activity :: "activity_item \<Rightarrow> activity_item \<Rightarrow> activity_item" where
  "merge_activity item activity =
     (let has_arguments = (a_arguments item \<noteq> None) in
      activity
       \<lparr>a_kind := a_kind item, a_title := a_title item, a_complete := a_complete item,
        a_failed := a_failed item,
        a_detail := opt_or (a_detail item) (a_detail activity),
        a_arguments := opt_or (a_arguments item) (a_arguments activity),
        a_output := opt_or (a_output item) (a_output activity),
        a_image_urls := (if a_image_urls item \<noteq> [] then a_image_urls item
          else a_image_urls activity),
        a_file_changes := (if a_file_changes item \<noteq> [] then a_file_changes item
          else a_file_changes activity),
        a_display_target := (if a_display_target item \<noteq> None \<and>
            (a_display_target activity = None \<or> has_arguments)
          then a_display_target item else a_display_target activity),
        a_display_description := (if a_display_description item \<noteq> None \<and>
            (a_display_description activity = None \<or> has_arguments)
          then a_display_description item else a_display_description activity),
        a_reasoning := opt_or (a_reasoning item) (a_reasoning activity)\<rparr>)"

definition apply_activity ::
    "env \<Rightarrow> reduce_context \<Rightarrow> activity_item \<Rightarrow> reducer \<Rightarrow> agent_session \<Rightarrow> reduced" where
  "apply_activity env ctx item self session =
     (let (session, accepted) = accepts_turn_output ctx session in
      if \<not> accepted then (self, session, reduction_default)
      else
        let previous_phase = r_stream_phase self;
            session = (if previous_phase = Some Phase_Text
              then finish_streaming_assistant session else session);
            session = (if previous_phase = Some Phase_Reasoning
              then complete_reasoning_activity (e_secs env 0) session else session);
            continuing_work = (previous_phase = Some Phase_Reasoning \<or>
              previous_phase = Some Phase_Activity);
            self = self\<lparr>r_stream_phase := Some Phase_Activity\<rparr> in
        (case List.find (activity_matches item) (rev (all_activities (s_transcript_blocks session))) of
           Some activity \<Rightarrow>
             (self,
              session\<lparr>s_transcript_blocks := update_last_activity (activity_matches item)
                  (merge_activity item) (s_transcript_blocks session),
                s_updated_at := e_secs env 1\<rparr>,
              reduction_applied\<lparr>rd_replaced_activity_diff :=
                (if a_file_changes item \<noteq> [] then Some (a_id activity) else None)\<rparr>)
         | None \<Rightarrow>
             (self,
              (push_transcript_activity item continuing_work session)\<lparr>s_updated_at := e_secs env 1\<rparr>,
              reduction_applied)))"

definition reduce_connected ::
    "provider_resume_cursor option \<Rightarrow> agent_session \<Rightarrow> agent_session" where
  "reduce_connected provider_cursor session =
     (let session = (case provider_cursor of
            Some (Claude_Cursor _ (Some message_id)) \<Rightarrow>
              mark_active_turn_provider_resume_at message_id session
          | _ \<Rightarrow> session);
          session = session\<lparr>s_provider_cursor := provider_cursor\<rparr> in
      if s_status session = Connecting then session\<lparr>s_status := Working\<rparr> else session)"

definition reduce_interaction_resolved :: "rstring \<Rightarrow> reducer \<Rightarrow> agent_session \<Rightarrow> reduced" where
  "reduce_interaction_resolved request_id self session =
     (let permission_matches = (r_pending_permission self = Some request_id);
          user_input_matches = (r_pending_user_input self = Some request_id);
          self = (if permission_matches then self\<lparr>r_pending_permission := None\<rparr> else self);
          self = (if user_input_matches then self\<lparr>r_pending_user_input := None\<rparr> else self) in
      if permission_matches \<or> user_input_matches
      then (self, session\<lparr>s_status := Working\<rparr>, reduction_applied)
      else (self, session, reduction_default))"

definition reduce_steer_accepted ::
    "env \<Rightarrow> reduce_context \<Rightarrow> rstring \<Rightarrow> agent_session \<Rightarrow> agent_session" where
  "reduce_steer_accepted env ctx message session =
     (let presentation = unwrap_or (x_steer_presentation ctx)
            \<lparr>sp_display_content = None, sp_attachments = []\<rparr> in
      (push_user_message_with_presentation (e_uuid env) (e_secs env 0) message
         (sp_display_content presentation) (sp_attachments presentation) session)
        \<lparr>s_updated_at := e_secs env 1\<rparr>)"

definition reduce_usage_updated :: "u64 option \<Rightarrow> u64 option \<Rightarrow> agent_session \<Rightarrow> agent_session" where
  "reduce_usage_updated context_tokens context_window session =
     (let usage = unwrap_or (s_context_usage session) \<lparr>cu_tokens = 0, cu_window = None\<rparr>;
          usage = (case context_tokens of Some tokens \<Rightarrow> usage\<lparr>cu_tokens := tokens\<rparr> | None \<Rightarrow> usage);
          usage = (case context_window of
              Some window \<Rightarrow> usage\<lparr>cu_window := Some window\<rparr> | None \<Rightarrow> usage) in
      session\<lparr>s_context_usage := Some usage\<rparr>)"

definition reduce_turn_finished ::
    "lib \<Rightarrow> env \<Rightarrow> bool \<Rightarrow> rstring option \<Rightarrow> reducer \<Rightarrow> agent_session \<Rightarrow> reduced" where
  "reduce_turn_finished L env success summary self session =
     (if active_turn_id session = None then (self, session, reduction_default)
      else
        let session = complete_turn_blocks (finish_streaming_assistant session);
            self = reducer_reset self;
            needs_fallback = \<not> active_turn_has_assistant_message session;
            session = session\<lparr>s_status := (if success then Idle else Session_Failed)\<rparr>;
            session = (if needs_fallback
              then push_message (e_uuid env) (e_secs env 0) Assistant
                (case summary of
                   Some text \<Rightarrow> text
                 | None \<Rightarrow> if success then tr L ''session.turn_completed''
                           else tr L ''session.stopped_before_response'') session
              else session);
            status = (if success then Completed else Turn_Failed);
            (session, finished) = finish_active_turn (e_secs env 1) status session in
        (self, session, reduction_applied\<lparr>rd_finished_turn := finished_turn_of status finished\<rparr>))"

definition reduce_error :: "env \<Rightarrow> rstring \<Rightarrow> reducer \<Rightarrow> agent_session \<Rightarrow> reduced" where
  "reduce_error env error self session =
     (let error = compact_driver_error error;
          has_active_turn = (active_turn_id session \<noteq> None);
          should_append = (has_active_turn \<and> \<not> active_turn_has_assistant_message session \<and>
            s_status session \<noteq> Working) in
      if has_active_turn
      then
        let session = (if s_status session \<noteq> Working
              then session\<lparr>s_status := Session_Failed\<rparr> else session);
            session = (if should_append
              then push_message (e_uuid env) (e_secs env 0) Assistant error session else session) in
        (self, session, reduction_applied)
      else (self, session, reduction_default))"

definition reduce_process_exited ::
    "lib \<Rightarrow> env \<Rightarrow> reduce_context \<Rightarrow> reducer \<Rightarrow> agent_session \<Rightarrow> reduced" where
  "reduce_process_exited L env ctx self session =
     (let session = complete_turn_blocks (finish_streaming_assistant session);
          self = reducer_reset self;
          needs_fallback = \<not> active_turn_has_assistant_message session;
          failure_message = (case x_process_exit_error ctx of
              Some error \<Rightarrow> error | None \<Rightarrow> tr L ''session.codex_exited_before_response'') in
      if status_is_busy (s_status session)
      then
        let session = session\<lparr>s_status := Session_Failed, s_updated_at := e_secs env 0\<rparr>;
            session = (if needs_fallback
              then push_message (e_uuid env) (e_secs env 1) Assistant failure_message session
              else session);
            (session, finished) = finish_active_turn (e_secs env 2) Turn_Failed session in
        (self, session, reduction_applied\<lparr>rd_finished_turn := finished_turn_of Turn_Failed finished\<rparr>)
      else (self, session, reduction_default))"

text \<open>\<open>Reducer::apply\<close>.\<close>

fun reducer_apply ::
    "lib \<Rightarrow> env \<Rightarrow> reducer \<Rightarrow> agent_session \<Rightarrow> driver_event \<Rightarrow> reduce_context \<Rightarrow> reduced" where
  "reducer_apply L env self session (RuntimeEventCursorAdvanced cursor) ctx =
     (self, session\<lparr>s_runtime_event_cursor := Some cursor\<rparr>, reduction_applied)"
| "reducer_apply L env self session (Connected provider_cursor) ctx =
     (self, reduce_connected provider_cursor session, reduction_applied)"
| "reducer_apply L env self session (AgentPresetSelected agent_preset) ctx =
     (self, session\<lparr>s_agent_preset := agent_preset\<rparr>, reduction_applied)"
| "reducer_apply L env self session (AutoTitleUpdated title) ctx =
     (let (session, changed) = set_auto_title (e_secs env 0) title session in
      (self, session, reduction_default\<lparr>rd_applied := changed\<rparr>))"
| "reducer_apply L env self session (AvailableCommands names) ctx =
     (if s_available_commands session \<noteq> names
      then (self, session\<lparr>s_available_commands := names\<rparr>, reduction_applied\<lparr>rd_commands_changed := True\<rparr>)
      else (self, session, reduction_default))"
| "reducer_apply L env self session (TurnAccepted submission_id turn messages) ctx =
     (self, accept_remote_turn submission_id turn messages session, reduction_applied)"
| "reducer_apply L env self session TurnStarted ctx =
     (if active_turn_id session \<noteq> None
      then (self, (mark_active_turn_provider_started session)\<lparr>s_status := Working\<rparr>, reduction_applied)
      else (self, session, reduction_default))"
| "reducer_apply L env self session (TextDelta delta) ctx =
     (let (session, accepted) = accepts_turn_output ctx session in
      if accepted
      then (let (self, session) = append_text_delta env delta self session in
            (self, session, reduction_applied))
      else (self, session, reduction_default))"
| "reducer_apply L env self session (ReasoningDelta delta) ctx =
     (let (session, accepted) = accepts_turn_output ctx session in
      if accepted
      then (let (self, session, entered) = append_reasoning_delta L env delta self session in
            (self, session, reduction_default\<lparr>rd_applied := entered\<rparr>))
      else (self, session, reduction_default))"
| "reducer_apply L env self session (Activity source_id kind title detail complete) ctx =
     apply_activity env ctx (activity_new L (e_uuid env) source_id kind title detail complete) self session"
| "reducer_apply L env self session (RichActivity item) ctx = apply_activity env ctx item self session"
| "reducer_apply L env self session (Permission request_id title detail options) ctx =
     (let (session, accepted) = accepts_turn_output ctx session in
      if accepted
      then (self\<lparr>r_pending_permission := Some request_id\<rparr>, session\<lparr>s_status := Waiting\<rparr>,
            reduction_applied)
      else (self, session, reduction_default))"
| "reducer_apply L env self session (UserInputRequested request_id questions) ctx =
     (let (session, accepted) = accepts_turn_output ctx session in
      if accepted \<and> questions \<noteq> []
      then (self\<lparr>r_pending_user_input := Some request_id\<rparr>, session\<lparr>s_status := Waiting\<rparr>,
            reduction_applied)
      else (self, session, reduction_default))"
| "reducer_apply L env self session (InteractionResolved request_id) ctx =
     reduce_interaction_resolved request_id self session"
| "reducer_apply L env self session (SteerAccepted message) ctx =
     (self, reduce_steer_accepted env ctx message session, reduction_applied)"
| "reducer_apply L env self session (UsageUpdated context_tokens context_window) ctx =
     (self, reduce_usage_updated context_tokens context_window session, reduction_applied)"
| "reducer_apply L env self session (TurnFinished success summary) ctx =
     reduce_turn_finished L env success summary self session"
| "reducer_apply L env self session (Error error) ctx = reduce_error env error self session"
| "reducer_apply L env self session ProcessExited ctx = reduce_process_exited L env ctx self session"
| "reducer_apply L env self session (BackgroundWork event) ctx = (self, session, reduction_default)"
| "reducer_apply L env self session (ComputerUseUpdated state) ctx = (self, session, reduction_default)"
| "reducer_apply L env self session (SteerRejected message reason) ctx = (self, session, reduction_default)"
| "reducer_apply L env self session (PlanUsageUpdated usage) ctx = (self, session, reduction_default)"

end
