(* ===== verification/Daemon_State.thy ===== *)
theory Daemon_State
  imports Mailbox Orchestration Task_Load Driver_Wire Task_Titles Projectless Checkpoints
    Snapshot_Merge Reducer
begin

text \<open>
  The state of the daemon's backend and the requests about stored tasks (\<open>ShidouBackend\<close> in
  \<open>crates/shidou-core/src/daemon.rs\<close>). A \<open>world\<close> is what one call takes from outside: clock
  readings, random values, whether the database and the settings file can be read and written,
  and the provider drivers, the git repositories and the tools on the daemon's host, which are
  parameters. What a driver is told is recorded in the order it is told. A request runs under
  the locks of the parts it touches and is one step here.
\<close>

section \<open>Settings and drivers\<close>

record daemon_settings =
  ds_subtasks_enabled :: bool
  ds_computer_use_enabled :: bool
  ds_disabled_providers :: "provider_kind list"
  ds_binary_overrides :: "provider_kind \<rightharpoonup> rstring"
  ds_computer_use_allowed_apps :: "json list"
  ds_conventional_commit_messages :: bool
  ds_extra :: "(rstring \<times> json) list"

definition discard_legacy_app_keys :: "daemon_settings \<Rightarrow> daemon_settings" where
  "discard_legacy_app_keys settings = settings\<lparr>ds_extra := filter (\<lambda>(k, _).
     k \<notin> set (map lit [''analytics_enabled'', ''favorite_models'', ''theme'', ''language''])) (ds_extra settings)\<rparr>"

record start_options =
  do_binary :: rstring
  do_cwd :: rstring
  do_mode :: runtime_mode
  do_interaction_mode :: interaction_mode
  do_model :: "rstring option"
  do_reasoning_effort :: "rstring option"
  do_service_tier :: "rstring option"
  do_context_window :: "rstring option"
  do_agent_preset :: "rstring option"
  do_computer_use_enabled :: bool
  do_provider_cursor :: "provider_resume_cursor option"
  do_task_credential :: "task_credential option"

record session_options =
  so_mode :: runtime_mode
  so_interaction_mode :: interaction_mode
  so_model :: "rstring option"
  so_reasoning_effort :: "rstring option"
  so_service_tier :: "rstring option"
  so_context_window :: "rstring option"

text \<open>What the daemon tells a driver, or a terminal.\<close>

datatype driver_call =
    Call_Prompt rstring
  | Call_Steer rstring
  | Call_Cancel
  | Call_Set_Computer_Use bool
  | Call_Cancel_Computer_Use
  | Call_Refresh_Background_Work
  | Call_Stop_Background_Work background_work_key rstring
  | Call_Respond rstring rstring
  | Call_Respond_User_Input rstring json
  | Call_Run_Computer_Tool wire_computer_tool_request
  | Call_Reject_Computer_Tool wire_computer_tool_request rstring
  | Call_Apply_Options session_options
  | Call_Compact "rstring option"
  | Call_Rollback nat
  | Call_Fork nat
  | Call_Write_Terminal bytes
  | Call_Resize_Terminal "16 word" "16 word"

section \<open>The state\<close>

record 'd daemon =
  dm_sessions :: "(uuid \<times> uuid \<times> 'd) list"
  dm_terminals :: "uuid \<rightharpoonup> uuid"
  dm_settings :: daemon_settings
  dm_store :: task_store
  dm_tasks :: task_state
  dm_reducers :: "uuid \<times> uuid \<rightharpoonup> reducer"
  dm_removed_sessions :: "uuid set"
  dm_removed_projects :: "uuid set"
  dm_removed_queued :: "(uuid \<times> uuid) set"
  dm_credentials :: credential_registry
  dm_listen_address :: "rstring option"
  dm_repos :: repos
  dm_calls :: "(uuid \<times> driver_call) list"

text \<open>
  The hash map of live runtimes is a list with distinct keys in the order the map iterates. The
  native sessions of providers, which live with third-party tools, are forked by \<open>pw_fork_session\<close>.
\<close>

datatype fork_request =
    Fork_Claude rstring "rstring option" nat rstring
  | Fork_Cursor agent_session nat
  | Fork_Amp rstring rstring rstring "rstring option" nat
  | Fork_OpenCode rstring rstring rstring nat
  | Fork_Grok rstring rstring rstring nat

type_synonym message_map = "rstring \<rightharpoonup> rstring"

record provider_world =
  pw_models :: "daemon_settings \<Rightarrow> provider_kind \<Rightarrow> provider_model list"
  pw_binary :: "daemon_settings \<Rightarrow> provider_kind \<Rightarrow> rstring option"
  pw_fork_session :: "fork_request \<Rightarrow> rstring + provider_resume_cursor \<times> message_map"
  pw_outside :: "daemon_settings \<Rightarrow> command \<Rightarrow> backend_error + response_payload"

record 'd world =
  wd_lib :: lib
  wd_codec :: wire_codec
  wd_settings_from :: "json \<Rightarrow> daemon_settings"
  wd_settings_to :: "daemon_settings \<Rightarrow> json"
  wd_settings_error :: "rstring option"
  wd_store_env :: store_env
  wd_budget :: nat
  wd_readable :: bool
  wd_store_error :: rstring
  wd_uuid :: "nat \<Rightarrow> uuid"
  wd_uuid_text :: "uuid \<Rightarrow> rstring"
  wd_debug_text :: "rstring \<Rightarrow> rstring"
  wd_now :: "nat \<Rightarrow> u64"
  wd_env :: "nat \<Rightarrow> env"
  wd_token :: rstring
  wd_projectless_root :: "path option"
  wd_root_text :: "rstring option"
  wd_default_cwd :: rstring
  wd_supports_steer :: "'d \<Rightarrow> bool"
  wd_start :: "provider_kind \<Rightarrow> start_options \<Rightarrow> rstring + 'd"
  wd_set_computer_use :: "'d \<Rightarrow> bool \<Rightarrow> rstring option"
  wd_apply_options :: "'d \<Rightarrow> session_options \<Rightarrow> bool"
  wd_rollback :: "'d \<Rightarrow> nat \<Rightarrow> rstring + provider_resume_cursor option"
  wd_fork :: "'d \<Rightarrow> nat \<Rightarrow> rstring + provider_resume_cursor"
  wd_work_key :: "json \<Rightarrow> background_work_key option"
  wd_capture_request :: "json \<Rightarrow> (rstring \<times> uuid \<times> nat) option"
  wd_checkpoint_json :: "checkpoint \<Rightarrow> json"
  wd_open_terminal :: "rstring option"
  wd_provider :: provider_world
  wd_git :: git_world

type_synonym ('d, 'a) op = "'d daemon \<Rightarrow> (backend_error + 'a) \<times> 'd daemon"

text \<open>\<open>?\<close>: the next operation runs only if the one before gave a value; its changes stay.\<close>

definition bind_op :: "('d, 'a) op \<Rightarrow> ('a \<Rightarrow> ('d, 'b) op) \<Rightarrow> ('d, 'b) op" where
  "bind_op f g st = (case f st of (Inl e, st) \<Rightarrow> (Inl e, st) | (Inr x, st) \<Rightarrow> g x st)"

definition return_op :: "'a \<Rightarrow> ('d, 'a) op" where
  "return_op x st = (Inr x, st)"

definition bail :: "rstring \<Rightarrow> ('d, 'a) op" where
  "bail message st = (Inl (Plain_Error message), st)"

definition refuse :: "rstring \<Rightarrow> ('d, 'a) op" where
  "refuse message st = (Inl (Typed_Error (rpc_error_refused message)), st)"

definition modify :: "('d daemon \<Rightarrow> 'd daemon) \<Rightarrow> ('d, unit) op" where
  "modify f st = (Inr (), f st)"

definition set_tasks :: "(task_state \<Rightarrow> task_state) \<Rightarrow> 'd daemon \<Rightarrow> 'd daemon" where
  "set_tasks f st = st\<lparr>dm_tasks := f (dm_tasks st)\<rparr>"

definition find_task :: "uuid \<Rightarrow> 'd daemon \<Rightarrow> agent_session option" where
  "find_task i st = List.find (\<lambda>s. s_id s = i) (tk_sessions (dm_tasks st))"

definition update_task :: "uuid \<Rightarrow> (agent_session \<Rightarrow> agent_session) \<Rightarrow> task_state \<Rightarrow> task_state" where
  "update_task i f tasks =
     tasks\<lparr>tk_sessions := update_first (\<lambda>s. s_id s = i) f (tk_sessions tasks)\<rparr>"

text \<open>\<open>task_store.hydrate\<close> of a task of the list, and \<open>task_store.save\<close>.\<close>

definition hydrate_task :: "'d world \<Rightarrow> agent_session \<Rightarrow> ('d, agent_session) op" where
  "hydrate_task W s st =
     (if \<not> s_detail_loaded s \<and> \<not> wd_readable W then (Inl (Plain_Error (wd_store_error W)), st)
      else let s' = hydrate (ts_database (dm_store st)) s in
        (Inr s', set_tasks (update_task (s_id s) (\<lambda>_. s')) st))"

definition save_tasks :: "'d world \<Rightarrow> ('d, unit) op" where
  "save_tasks W st =
     (case save_state (wd_store_env W) (wd_budget W) (dm_store st) (dm_tasks st) of
        ((store, tasks), ok) \<Rightarrow>
          (if ok then Inr () else Inl (Plain_Error (wd_store_error W)),
           st\<lparr>dm_store := store, dm_tasks := tasks\<rparr>))"

definition no_task :: rstring where
  "no_task = lit ''that task is no longer available''"

text \<open>The task a request is about, with everything the store has of it.\<close>

definition loaded_task :: "'d world \<Rightarrow> rstring \<Rightarrow> uuid \<Rightarrow> ('d, agent_session) op" where
  "loaded_task W message i st =
     (case find_task i st of None \<Rightarrow> bail message st | Some s \<Rightarrow> hydrate_task W s st)"

section \<open>Requests about tasks\<close>

definition attach_session :: "'d world \<Rightarrow> uuid \<Rightarrow> ('d, response_payload) op" where
  "attach_session W session_id st =
     (Inr (case map_of (dm_sessions st) session_id of
         None \<Rightarrow> Pay_SessionRuntime None False
       | Some (runtime_id, driver) \<Rightarrow>
           Pay_SessionRuntime (Some runtime_id) (wd_supports_steer W driver)), st)"

definition tell :: "uuid \<Rightarrow> driver_call \<Rightarrow> 'd daemon \<Rightarrow> 'd daemon" where
  "tell session_id call st = st\<lparr>dm_calls := dm_calls st @ [(session_id, call)]\<rparr>"

definition computer_use_errors :: "'d world \<Rightarrow> bool \<Rightarrow> 'd daemon \<Rightarrow> rstring list" where
  "computer_use_errors W enabled st =
     List.map_filter (\<lambda>(_, _, driver). wd_set_computer_use W driver enabled) (dm_sessions st)"

definition update_settings :: "'d world \<Rightarrow> json \<Rightarrow> ('d, response_payload) op" where
  "update_settings W settings st =
     (case wd_settings_error W of
        Some error \<Rightarrow> bail error st
      | None \<Rightarrow>
          let settings = wd_settings_from W settings;
              enabled = ds_computer_use_enabled settings;
              st' = foldl (\<lambda>st (session_id, _). tell session_id (Call_Set_Computer_Use enabled) st)
                (st\<lparr>dm_settings := discard_legacy_app_keys settings\<rparr>) (dm_sessions st);
              errors = computer_use_errors W enabled st in
          if errors \<noteq> []
          then bail (lit ''could not update Computer Use authorization: '' @ join (lit ''; '') errors) st'
          else (Inr Pay_Ack, st'))"

definition load_task_state :: "'d world \<Rightarrow> ('d, response_payload) op" where
  "load_task_state W st =
     (Inr (Pay_TaskState (tk_projects (dm_tasks st)) (map list_projection (tk_sessions (dm_tasks st)))
        (wd_default_cwd W) (wd_root_text W)), st)"

text \<open>\<open>SaveTaskState\<close>: what a snapshot may bring, the merge, the projects nobody uses any more.\<close>

definition admitted_snapshot :: "'d daemon \<Rightarrow> agent_session list \<Rightarrow> agent_session list" where
  "admitted_snapshot st sessions =
     map (\<lambda>s. s\<lparr>s_archived_at := None,
          s_queued_messages := filter (\<lambda>q. (s_id s, q_id q) \<notin> dm_removed_queued st) (s_queued_messages s)\<rparr>)
       (filter (\<lambda>s. s_id s \<notin> dm_removed_sessions st) sessions)"

definition merge_snapshot_session ::
    "(uuid \<times> uuid \<times> 'd) list \<Rightarrow> agent_session list \<Rightarrow> agent_session \<Rightarrow> agent_session list" where
  "merge_snapshot_session live sessions s =
     (if list_ex (\<lambda>e. s_id e = s_id s) sessions
      then update_first (\<lambda>e. s_id e = s_id s)
        (\<lambda>e. merge_saved_session e s (map_option fst (map_of live (s_id s)))) sessions
      else sessions @ [s])"

definition drop_unused_projects :: "path option \<Rightarrow> task_state \<Rightarrow> task_state" where
  "drop_unused_projects root tasks =
     tasks\<lparr>tk_projects := filter (\<lambda>p. \<not> is_projectless root p \<or>
        list_ex (\<lambda>s. s_project_id s = p_id p) (tk_sessions tasks)) (tk_projects tasks)\<rparr>"

definition merge_snapshot ::
    "'d world \<Rightarrow> project list \<Rightarrow> agent_session list \<Rightarrow> 'd daemon \<Rightarrow> task_state \<Rightarrow> task_state" where
  "merge_snapshot W projects sessions st tasks =
     (let tasks = tasks\<lparr>
            tk_projects := merge_saved_projects (tk_projects tasks) projects (dm_removed_projects st),
            tk_sessions := foldl (merge_snapshot_session (dm_sessions st)) (tk_sessions tasks) sessions\<rparr> in
      foldl (\<lambda>tasks s. mark_session_dirty (s_id s) tasks)
        (drop_unused_projects (wd_projectless_root W) tasks) sessions)"

definition save_task_state ::
    "'d world \<Rightarrow> project list \<Rightarrow> agent_session list \<Rightarrow> ('d, response_payload) op" where
  "save_task_state W projects sessions st =
     (let sessions = admitted_snapshot st sessions in
      bind_op (modify (set_tasks (merge_snapshot W projects sessions st)))
        (\<lambda>_. bind_op (save_tasks W)
          (\<lambda>_ st. (Inr (Pay_TaskStateSaved
             (List.map_filter (\<lambda>s. find_task (s_id s) st) sessions)), st))) st)"

definition remove_project :: "'d world \<Rightarrow> uuid \<Rightarrow> ('d, response_payload) op" where
  "remove_project W project_id st =
     (let tasks = dm_tasks st;
          stranded = map s_id (filter (\<lambda>s. s_project_id s = project_id) (tk_sessions tasks)) in
      bind_op (modify (\<lambda>st. st\<lparr>
            dm_removed_projects := insert project_id (dm_removed_projects st),
            dm_removed_sessions := dm_removed_sessions st \<union> set stranded,
            dm_tasks := tasks\<lparr>
              tk_projects := filter (\<lambda>p. p_id p \<noteq> project_id) (tk_projects tasks),
              tk_sessions := filter (\<lambda>s. s_project_id s \<noteq> project_id) (tk_sessions tasks)\<rparr>\<rparr>))
        (\<lambda>_. bind_op (save_tasks W)
          (\<lambda>_. bind_op (modify (\<lambda>st. st\<lparr>dm_sessions :=
              filter (\<lambda>(i, _). i \<notin> set stranded) (dm_sessions st)\<rparr>))
            (\<lambda>_. return_op Pay_Ack))) st)"

definition list_provider_models :: "'d world \<Rightarrow> uuid \<Rightarrow> provider_kind option \<Rightarrow> ('d, response_payload) op" where
  "list_provider_models W session_id provider st =
     (case (case provider of Some p \<Rightarrow> Some p
          | None \<Rightarrow> map_option s_provider (find_task session_id st)) of
        None \<Rightarrow> bail no_task st
      | Some p \<Rightarrow> (Inr (Pay_ProviderModels p (pw_models (wd_provider W) (dm_settings st) p)), st))"

definition read_task_summary :: "'d world \<Rightarrow> uuid \<Rightarrow> ('d, response_payload) op" where
  "read_task_summary W session_id =
     bind_op (loaded_task W no_task session_id) (\<lambda>s. return_op (Pay_TaskSummary (task_summary_of s)))"

fun summarise :: "'d world \<Rightarrow> agent_session list \<Rightarrow> ('d, task_summary list) op" where
  "summarise W [] = return_op []"
| "summarise W (s # ss) = bind_op (hydrate_task W s)
     (\<lambda>s. bind_op (summarise W ss) (\<lambda>summaries. return_op (task_summary_of s # summaries)))"

definition list_child_tasks :: "'d world \<Rightarrow> uuid \<Rightarrow> ('d, response_payload) op" where
  "list_child_tasks W session_id st =
     bind_op (summarise W (filter (\<lambda>s. s_parent_task_id s = Some session_id) (tk_sessions (dm_tasks st))))
       (\<lambda>summaries. return_op (Pay_TaskSummaries summaries)) st"

definition remove_queued_message :: "'d world \<Rightarrow> uuid \<Rightarrow> uuid \<Rightarrow> ('d, response_payload) op" where
  "remove_queued_message W session_id message_id =
     bind_op (loaded_task W no_task session_id)
       (\<lambda>_. bind_op (modify (\<lambda>st. set_tasks (mark_session_dirty session_id \<circ>
             update_task session_id (\<lambda>s. s\<lparr>s_queued_messages :=
               filter (\<lambda>q. q_id q \<noteq> message_id) (s_queued_messages s)\<rparr>))
             (st\<lparr>dm_removed_queued := insert (session_id, message_id) (dm_removed_queued st)\<rparr>)))
         (\<lambda>_. bind_op (save_tasks W) (\<lambda>_. return_op Pay_Ack)))"

definition archive_session :: "'d world \<Rightarrow> uuid \<Rightarrow> bool \<Rightarrow> ('d, response_payload) op" where
  "archive_session W session_id archived st =
     (case find_task session_id st of
        None \<Rightarrow> bail no_task st
      | Some s \<Rightarrow>
          if archived \<and> status_is_busy (s_status s)
          then refuse (lit ''this task is still running or waiting for you'') st
          else bind_op (modify (set_tasks (mark_session_dirty session_id \<circ>
              update_task session_id (\<lambda>s. s\<lparr>s_archived_at := if archived then Some (wd_now W 0) else None\<rparr>))))
            (\<lambda>_. bind_op (save_tasks W) (\<lambda>_. return_op Pay_Ack)) st)"

text \<open>A workspace without a project goes with its last task.\<close>

definition forget_task :: "path option \<Rightarrow> uuid \<Rightarrow> task_state \<Rightarrow> task_state" where
  "forget_task root session_id tasks =
     (let project_id = map_option s_project_id (List.find (\<lambda>s. s_id s = session_id) (tk_sessions tasks));
          tasks = tasks\<lparr>tk_sessions := filter (\<lambda>s. s_id s \<noteq> session_id) (tk_sessions tasks)\<rparr> in
      case project_id of
        None \<Rightarrow> tasks
      | Some project_id \<Rightarrow>
          if (case List.find (\<lambda>p. p_id p = project_id) (tk_projects tasks) of
                None \<Rightarrow> False | Some p \<Rightarrow> is_projectless root p) \<and>
             \<not> list_ex (\<lambda>s. s_project_id s = project_id) (tk_sessions tasks)
          then tasks\<lparr>tk_projects := filter (\<lambda>p. p_id p \<noteq> project_id) (tk_projects tasks)\<rparr>
          else tasks)"

definition forget_reducers :: "uuid \<Rightarrow> 'd daemon \<Rightarrow> 'd daemon" where
  "forget_reducers session_id st =
     st\<lparr>dm_reducers := (\<lambda>(i, r). if i = session_id then None else dm_reducers st (i, r))\<rparr>"

definition remove_session :: "'d world \<Rightarrow> uuid \<Rightarrow> ('d, response_payload) op" where
  "remove_session W session_id =
     bind_op (modify (\<lambda>st. set_tasks (forget_task (wd_projectless_root W) session_id)
         ((forget_reducers session_id st)\<lparr>
           dm_removed_sessions := insert session_id (dm_removed_sessions st),
           dm_removed_queued := {(i, q) \<in> dm_removed_queued st. i \<noteq> session_id}\<rparr>)))
       (\<lambda>_. bind_op (save_tasks W)
         (\<lambda>_. bind_op (modify (\<lambda>st. st\<lparr>dm_sessions := AList.delete session_id (dm_sessions st)\<rparr>))
           (\<lambda>_. return_op Pay_Ack)))"

definition hydrate_session :: "'d world \<Rightarrow> uuid \<Rightarrow> ('d, response_payload) op" where
  "hydrate_session W session_id st =
     (case find_task session_id st of
        None \<Rightarrow> (Inr (Pay_Session None), st)
      | Some s \<Rightarrow> bind_op (hydrate_task W s) (\<lambda>s. return_op (Pay_Session (Some s))) st)"

end
