(* ===== verification/Task_Rewind.thy ===== *)
theory Task_Rewind
  imports Daemon_State
begin

text \<open>
  Forking a task from a response, rewinding it to a message, and the checkpoint that ends a turn
  (\<open>fork_session_from_response\<close>, \<open>rewind_session_to_message\<close>, \<open>capture_turn_checkpoint\<close> and what
  they call in \<open>crates/shidou-core/src/daemon.rs\<close>). These change the worktree and its git
  references, the provider's conversation and the stored task; each step can fail.
\<close>

section \<open>The provider's conversation\<close>

definition provider_binary :: "'d world \<Rightarrow> provider_kind \<Rightarrow> ('d, rstring) op" where
  "provider_binary W provider st =
     (case pw_binary (wd_provider W) (dm_settings st) provider of
        Some binary \<Rightarrow> (Inr binary, st)
      | None \<Rightarrow> bail (provider_display_name provider @ lit '' is not installed on the daemon'') st)"

definition of_outside :: "rstring + 'a \<Rightarrow> ('d, 'a) op" where
  "of_outside r st = (case r of Inl error \<Rightarrow> bail error st | Inr x \<Rightarrow> (Inr x, st))"

definition fork_provider_session ::
    "'d world \<Rightarrow> fork_request \<Rightarrow> ('d, provider_resume_cursor \<times> message_map) op" where
  "fork_provider_session W req = of_outside (pw_fork_session (wd_provider W) req)"

definition resume_options :: "agent_session \<Rightarrow> rstring \<Rightarrow> rstring \<Rightarrow> start_options" where
  "resume_options source binary cwd =
     \<lparr>do_binary = binary, do_cwd = cwd, do_mode = s_runtime_mode source,
      do_interaction_mode = s_interaction_mode source, do_model = s_model source,
      do_reasoning_effort = s_reasoning_effort source, do_service_tier = s_service_tier source,
      do_context_window = s_context_window source, do_agent_preset = s_agent_preset source,
      do_computer_use_enabled = False, do_provider_cursor = s_provider_cursor source,
      do_task_credential = None\<rparr>"

definition live_driver :: "uuid \<Rightarrow> 'd daemon \<Rightarrow> 'd option" where
  "live_driver i st = map_option snd (map_of (dm_sessions st) i)"

text \<open>The cursor a driver of the provider needs to find its conversation.\<close>

definition native_session_missing :: "provider_kind \<Rightarrow> provider_resume_cursor option \<Rightarrow> rstring option" where
  "native_session_missing provider cursor = (case provider of
       Codex \<Rightarrow> (case cursor of Some (Codex_Cursor _) \<Rightarrow> None
         | _ \<Rightarrow> Some (lit ''Codex's native thread is unavailable''))
     | DeepSeek \<Rightarrow> (case cursor of Some (DeepSeek_Cursor _) \<Rightarrow> None
         | _ \<Rightarrow> Some (lit ''DeepSeek Harness's native session is unavailable''))
     | Pi \<Rightarrow> (case cursor of Some (Pi_Cursor _ (Some _)) \<Rightarrow> None
         | _ \<Rightarrow> Some (lit ''Pi's native session file is unavailable''))
     | OhMyPi \<Rightarrow> (case cursor of Some (OhMyPi_Cursor _ (Some _)) \<Rightarrow> None
         | _ \<Rightarrow> Some (lit ''Oh My Pi's native session file is unavailable''))
     | _ \<Rightarrow> None)"

definition fork_response_with_driver ::
    "'d world \<Rightarrow> agent_session \<Rightarrow> rstring \<Rightarrow> nat \<Rightarrow> ('d, provider_resume_cursor) op" where
  "fork_response_with_driver W source cwd turns_to_remove st =
     (case live_driver (s_id source) st of
        Some driver \<Rightarrow>
          of_outside (wd_fork W driver turns_to_remove) (tell (s_id source) (Call_Fork turns_to_remove) st)
      | None \<Rightarrow> (case native_session_missing (s_provider source) (s_provider_cursor source) of
          Some message \<Rightarrow> bail message st
        | None \<Rightarrow> bind_op (provider_binary W (s_provider source))
            (\<lambda>binary. bind_op (of_outside (wd_start W (s_provider source) (resume_options source binary cwd)))
              (\<lambda>driver st. of_outside (wd_fork W driver turns_to_remove)
                (tell (s_id source) (Call_Fork turns_to_remove) st))) st))"

definition rollback_response_with_driver ::
    "'d world \<Rightarrow> agent_session \<Rightarrow> rstring \<Rightarrow> rstring \<Rightarrow> nat \<Rightarrow> ('d, provider_resume_cursor option) op" where
  "rollback_response_with_driver W source cwd binary rollback_turns st =
     (case live_driver (s_id source) st of
        Some driver \<Rightarrow>
          of_outside (wd_rollback W driver rollback_turns) (tell (s_id source) (Call_Rollback rollback_turns) st)
      | None \<Rightarrow> bind_op (of_outside (wd_start W (s_provider source) (resume_options source binary cwd)))
          (\<lambda>driver st. of_outside (wd_rollback W driver rollback_turns)
            (tell (s_id source) (Call_Rollback rollback_turns) st)) st)"

definition no_native :: "string \<Rightarrow> ('d, 'a) op" where
  "no_native what = bail (lit what @ lit '' is unavailable'')"

fun fork_provider_response ::
    "'d world \<Rightarrow> provider_kind \<Rightarrow> agent_session \<Rightarrow> rstring \<Rightarrow> rstring \<Rightarrow> nat \<Rightarrow> nat \<Rightarrow> nat \<Rightarrow>
     ('d, provider_resume_cursor \<times> message_map) op" where
  "fork_provider_response W Claude source cwd fork_title turn_count provider_turn_count turns_to_remove =
     (case s_provider_cursor source of
        Some (Claude_Cursor session_id _) \<Rightarrow>
          fork_provider_session W (Fork_Claude session_id
            (Option.bind (nth_opt (s_turns source) (turn_count - 1)) t_provider_resume_at)
            provider_turn_count fork_title)
      | _ \<Rightarrow> no_native ''Claude's native session'')"
| "fork_provider_response W Cursor source cwd fork_title turn_count provider_turn_count turns_to_remove =
     bind_op (fork_provider_session W (Fork_Cursor source turn_count)) (\<lambda>(c, _). return_op (c, Map.empty))"
| "fork_provider_response W Amp source cwd fork_title turn_count provider_turn_count turns_to_remove =
     (case s_provider_cursor source of
        Some (Amp_Cursor thread_id fork_context) \<Rightarrow>
          bind_op (provider_binary W Amp)
            (\<lambda>binary. bind_op (fork_provider_session W
                (Fork_Amp binary cwd thread_id fork_context provider_turn_count))
              (\<lambda>(c, _). return_op (c, Map.empty)))
      | _ \<Rightarrow> no_native ''Amp's native thread'')"
| "fork_provider_response W OpenCode source cwd fork_title turn_count provider_turn_count turns_to_remove =
     (case s_provider_cursor source of
        Some (OpenCode_Cursor session_id) \<Rightarrow>
          bind_op (provider_binary W OpenCode)
            (\<lambda>binary. bind_op (fork_provider_session W
                (Fork_OpenCode binary cwd session_id provider_turn_count))
              (\<lambda>(c, _). return_op (c, Map.empty)))
      | _ \<Rightarrow> no_native ''OpenCode's native session'')"
| "fork_provider_response W Grok source cwd fork_title turn_count provider_turn_count turns_to_remove =
     (case s_provider_cursor source of
        Some (Grok_Cursor session_id) \<Rightarrow>
          bind_op (provider_binary W Grok)
            (\<lambda>binary. bind_op (fork_provider_session W
                (Fork_Grok binary cwd session_id provider_turn_count))
              (\<lambda>(c, _). return_op (c, Map.empty)))
      | _ \<Rightarrow> no_native ''Grok Build's native session'')"
| "fork_provider_response W Fx source cwd fork_title turn_count provider_turn_count turns_to_remove =
     bail (provider_display_name (s_provider source) @ lit '' cannot branch a conversation at a turn'')"
| "fork_provider_response W Kimi source cwd fork_title turn_count provider_turn_count turns_to_remove =
     bail (provider_display_name (s_provider source) @ lit '' cannot branch a conversation at a turn'')"
| "fork_provider_response W _ source cwd fork_title turn_count provider_turn_count turns_to_remove =
     bind_op (fork_response_with_driver W source cwd turns_to_remove) (\<lambda>c. return_op (c, Map.empty))"

definition resets_native_session :: "provider_kind \<Rightarrow> nat \<Rightarrow> bool" where
  "resets_native_session provider retained_turn_count \<longleftrightarrow>
     retained_turn_count = 0 \<and> provider \<in> {Claude, Cursor, Grok}"

definition with_cursor ::
    "('d, provider_resume_cursor \<times> message_map) op \<Rightarrow>
     ('d, provider_resume_cursor option \<times> message_map \<times> bool) op" where
  "with_cursor f = bind_op f (\<lambda>(c, _). return_op (Some c, Map.empty, False))"

fun rewind_native_session ::
    "'d world \<Rightarrow> provider_kind \<Rightarrow> agent_session \<Rightarrow> rstring \<Rightarrow> rstring \<Rightarrow> nat \<Rightarrow> nat \<Rightarrow> nat \<Rightarrow>
     rstring option \<Rightarrow> ('d, provider_resume_cursor option \<times> message_map \<times> bool) op" where
  "rewind_native_session W Claude source cwd binary retained rollback provider_turn_count resume_at =
     (case s_provider_cursor source of
        Some (Claude_Cursor session_id _) \<Rightarrow>
          bind_op (fork_provider_session W (Fork_Claude session_id resume_at provider_turn_count
              (display_title source @ lit '' (rewind)'')))
            (\<lambda>(c, ids). return_op (Some c, ids, False))
      | _ \<Rightarrow> no_native ''Claude's native session'')"
| "rewind_native_session W OpenCode source cwd binary retained rollback provider_turn_count resume_at =
     (\<lambda>st. case live_driver (s_id source) st of
        Some driver \<Rightarrow>
          bind_op (\<lambda>st. of_outside (wd_rollback W driver rollback) (tell (s_id source) (Call_Rollback rollback) st))
            (\<lambda>c. case c of
                Some c \<Rightarrow> return_op (Some c, Map.empty, False)
              | None \<Rightarrow> bail (lit ''OpenCode returned no rewound-session cursor'')) st
      | None \<Rightarrow> (case s_provider_cursor source of
          Some (OpenCode_Cursor session_id) \<Rightarrow>
            with_cursor (fork_provider_session W (Fork_OpenCode binary cwd session_id provider_turn_count)) st
        | _ \<Rightarrow> no_native ''OpenCode's native session'' st))"
| "rewind_native_session W Amp source cwd binary retained rollback provider_turn_count resume_at =
     (case s_provider_cursor source of
        Some (Amp_Cursor thread_id fork_context) \<Rightarrow>
          with_cursor (fork_provider_session W (Fork_Amp binary cwd thread_id fork_context provider_turn_count))
      | _ \<Rightarrow> no_native ''Amp's native thread'')"
| "rewind_native_session W Cursor source cwd binary retained rollback provider_turn_count resume_at =
     with_cursor (fork_provider_session W (Fork_Cursor source retained))"
| "rewind_native_session W Grok source cwd binary retained rollback provider_turn_count resume_at =
     (case s_provider_cursor source of
        Some (Grok_Cursor session_id) \<Rightarrow>
          with_cursor (fork_provider_session W (Fork_Grok binary cwd session_id provider_turn_count))
      | _ \<Rightarrow> no_native ''Grok Build's native session'')"
| "rewind_native_session W Fx source cwd binary retained rollback provider_turn_count resume_at =
     bail (provider_display_name (s_provider source) @ lit '' cannot rewind a conversation to a turn'')"
| "rewind_native_session W Kimi source cwd binary retained rollback provider_turn_count resume_at =
     bail (provider_display_name (s_provider source) @ lit '' cannot rewind a conversation to a turn'')"
| "rewind_native_session W _ source cwd binary retained rollback provider_turn_count resume_at =
     bind_op (rollback_response_with_driver W source cwd binary rollback)
       (\<lambda>c. return_op (c, Map.empty, False))"

definition rewind_provider_response ::
    "'d world \<Rightarrow> agent_session \<Rightarrow> rstring \<Rightarrow> rstring \<Rightarrow> nat \<Rightarrow> nat \<Rightarrow> nat \<Rightarrow>
     rstring option \<Rightarrow> ('d, provider_resume_cursor option \<times> message_map \<times> bool) op" where
  "rewind_provider_response W source cwd binary retained rollback provider_turn_count resume_at =
     (if rollback = 0 then return_op (None, Map.empty, False)
      else if resets_native_session (s_provider source) retained then return_op (None, Map.empty, True)
      else rewind_native_session W (s_provider source) source cwd binary retained rollback
        provider_turn_count resume_at)"

section \<open>Forking\<close>

definition run_git :: "(repos \<Rightarrow> (rstring + 'a) \<times> repos) \<Rightarrow> 'd daemon \<Rightarrow> (rstring + 'a) \<times> 'd daemon" where
  "run_git f st = (case f (dm_repos st) of (r, repos) \<Rightarrow> (r, st\<lparr>dm_repos := repos\<rparr>))"

definition error_text :: "rstring + 'a \<Rightarrow> rstring option" where
  "error_text r = (case r of Inl error \<Rightarrow> Some error | Inr _ \<Rightarrow> None)"

text \<open>\<open>with_context\<close>: what anyhow prints is the context.\<close>

definition context_op :: "rstring \<Rightarrow> ('d, 'a) op \<Rightarrow> ('d, 'a) op" where
  "context_op message f st = (case f st of
       (Inl (Plain_Error _), st) \<Rightarrow> (Inl (Plain_Error message), st) | r \<Rightarrow> r)"

definition project_of :: "'d daemon \<Rightarrow> agent_session \<Rightarrow> project option" where
  "project_of st s = List.find (\<lambda>p. p_id p = s_project_id s) (tk_projects (dm_tasks st))"

definition task_cwd :: "agent_session \<Rightarrow> project \<Rightarrow> rstring" where
  "task_cwd s p = unwrap_or (workspace_path (s_workspace s)) (p_path p)"

definition remap_resume_at :: "message_map \<Rightarrow> agent_turn \<Rightarrow> agent_turn" where
  "remap_resume_at ids t = t\<lparr>t_provider_resume_at :=
     map_option (\<lambda>i. unwrap_or (ids i) i) (t_provider_resume_at t)\<rparr>"

definition rename_checkpoint :: "git_world \<Rightarrow> uuid \<Rightarrow> agent_turn \<Rightarrow> agent_turn" where
  "rename_checkpoint G i t = t\<lparr>t_checkpoint :=
     map_option (\<lambda>c. c\<lparr>cp_git_ref := checkpoint_ref G i (cp_turn_count c)\<rparr>) (t_checkpoint t)\<rparr>"

text \<open>The forked task as it is stored: resume points and checkpoints are its own.\<close>

definition finished_fork :: "git_world \<Rightarrow> message_map \<Rightarrow> agent_session \<Rightarrow> agent_session" where
  "finished_fork G ids forked =
     forked\<lparr>s_turns := map (rename_checkpoint G (s_id forked) \<circ> remap_resume_at ids) (s_turns forked)\<rparr>"

definition store_fork :: "'d world \<Rightarrow> rstring \<Rightarrow> agent_session \<Rightarrow> ('d, unit) op" where
  "store_fork W cwd forked st =
     (case save_tasks W (set_tasks (push_session forked) st) of
        (Inr _, st) \<Rightarrow> (Inr (), st)
      | (Inl _, st) \<Rightarrow>
          let st = set_tasks (\<lambda>tasks. tasks\<lparr>tk_sessions :=
                filter (\<lambda>s. s_id s \<noteq> s_id forked) (tk_sessions tasks)\<rparr>) st;
              (_, st) = run_git (delete_all_session_refs (wd_git W) cwd (s_id forked)) st in
          bail (lit ''could not save the forked task'') st)"

definition fork_with_provider ::
    "'d world \<Rightarrow> agent_session \<Rightarrow> rstring \<Rightarrow> rstring \<Rightarrow> nat \<Rightarrow> ('d, response_payload) op" where
  "fork_with_provider W source cwd fork_title turn_count =
     bind_op (fork_provider_response W (s_provider source) source cwd fork_title turn_count
         (length (filter t_provider_turn_started (take turn_count (s_turns source))))
         (provider_turns_after turn_count source))
       (\<lambda>(provider_cursor, ids) st.
          case fork_through_turn (wd_uuid W) (wd_now W 0) (wd_now W 1) turn_count provider_cursor
              fork_title source of
            None \<Rightarrow> bail (lit ''the selected response cannot be copied'') st
          | Some forked \<Rightarrow>
              let forked = finished_fork (wd_git W) ids forked;
                  (copied, st) = run_git (copy_session_refs (wd_git W) cwd (s_id source) (s_id forked) turn_count) st in
              bind_op (store_fork W cwd forked)
                (\<lambda>_. return_op (Pay_SessionForked forked (error_text copied))) st)"

definition fork_session_from_response :: "'d world \<Rightarrow> uuid \<Rightarrow> nat \<Rightarrow> ('d, response_payload) op" where
  "fork_session_from_response W session_id turn_count st =
     (case find_task session_id st of
        None \<Rightarrow> bail (lit ''the source task is unavailable'') st
      | Some s \<Rightarrow> bind_op (context_op (lit ''could not load the source task'') (hydrate_task W s))
          (\<lambda>source st. case project_of st source of
              None \<Rightarrow> bail (lit ''the source task project is unavailable'') st
            | Some project \<Rightarrow>
                let cwd = task_cwd source project;
                    fork_title = next_response_fork_title (display_title source)
                      (map display_title (filter (\<lambda>t. s_project_id t = s_project_id source)
                        (tk_sessions (dm_tasks st)))) in
                (case validate_response_fork source turn_count of
                   Inl message \<Rightarrow> bail message st
                 | Inr _ \<Rightarrow> fork_with_provider W source cwd fork_title turn_count st)) st)"

section \<open>Rewinding\<close>

definition restore_rewind_safety ::
    "'d world \<Rightarrow> rstring \<Rightarrow> rstring \<Rightarrow> rstring \<Rightarrow> rstring \<Rightarrow> ('d, 'a) op" where
  "restore_rewind_safety W cwd safety_ref message error st =
     (case run_git (restore_ref (wd_git W) cwd safety_ref) st of
        (Inr _, st) \<Rightarrow>
          bail (message @ lit '': '' @ error @ lit ''; the original worktree was restored'')
            (snd (run_git (delete_ref (wd_git W) cwd safety_ref) st))
      | (Inl restore_error, st) \<Rightarrow>
          bail (message @ lit '': '' @ error @ lit ''; restoring the safety snapshot also failed: '' @
            restore_error @ lit ''; snapshot: '' @ safety_ref) st)"

definition safety_ref_name :: "'d world \<Rightarrow> uuid \<Rightarrow> rstring" where
  "safety_ref_name W session_id = lit ''refs/shidou/revert-backup-'' @ wd_uuid_text W session_id @
     lit ''-'' @ wd_uuid_text W (wd_uuid W 0)"

definition error_message :: "backend_error \<Rightarrow> rstring" where
  "error_message e = (case e of Plain_Error m \<Rightarrow> m | Typed_Error r \<Rightarrow> re_message r)"

text \<open>The rewound task: the cursor of the provider's rewound conversation and the turns that stay.\<close>

definition rewound_task ::
    "'d world \<Rightarrow> nat \<Rightarrow> provider_resume_cursor option \<times> message_map \<times> bool \<Rightarrow> agent_session \<Rightarrow> agent_session" where
  "rewound_task W retained rewound source =
     (case rewound of (provider_cursor, ids, reset) \<Rightarrow>
        let s = source\<lparr>s_turns := map (remap_resume_at ids) (take retained (s_turns source)) @
              drop retained (s_turns source)\<rparr>;
            s = (if reset then s\<lparr>s_provider_cursor := None\<rparr>
              else case provider_cursor of Some c \<Rightarrow> s\<lparr>s_provider_cursor := Some c\<rparr> | None \<Rightarrow> s) in
        (truncate_after_turn (wd_now W 0) retained s)\<lparr>s_status := Idle\<rparr>)"

definition store_rewound :: "'d world \<Rightarrow> uuid \<Rightarrow> agent_session \<Rightarrow> ('d, unit) op" where
  "store_rewound W session_id rewound st =
     (case find_task session_id st of
        None \<Rightarrow> bail (lit ''the task was removed while it was being rewound'') st
      | Some _ \<Rightarrow> context_op (lit ''could not save the rewound task'') (save_tasks W)
          (set_tasks (mark_session_dirty session_id \<circ> update_task session_id (\<lambda>_. rewound)) st))"

definition rewind_worktree ::
    "'d world \<Rightarrow> agent_session \<Rightarrow> rstring \<Rightarrow> rstring \<Rightarrow> rstring \<Rightarrow> nat \<Rightarrow> ('d, response_payload) op" where
  "rewind_worktree W source cwd binary restore turn_count st =
     (let session_id = s_id source; retained = turn_count - 1; safety_ref = safety_ref_name W session_id in
      case run_git (capture_ref (wd_git W) cwd safety_ref) st of
        (Inl _, st) \<Rightarrow> bail (lit ''could not create a rewind safety snapshot'') st
      | (Inr _, st) \<Rightarrow>
          (case run_git (restore_ref (wd_git W) cwd restore) st of
             (Inl error, st) \<Rightarrow>
               restore_rewind_safety W cwd safety_ref (lit ''could not restore the selected checkpoint'') error st
           | (Inr _, st) \<Rightarrow>
               (case rewind_provider_response W source cwd binary retained
                   (provider_turns_after retained source)
                   (length (filter t_provider_turn_started (take retained (s_turns source))))
                   (if retained = 0 then None
                    else Option.bind (nth_opt (s_turns source) (retained - 1)) t_provider_resume_at) st of
                  (Inl error, st) \<Rightarrow>
                    restore_rewind_safety W cwd safety_ref (lit ''the provider rejected the rewind'')
                      (error_message error) st
                | (Inr rewound, st) \<Rightarrow>
                    let (_, st) = run_git (delete_ref (wd_git W) cwd safety_ref) st;
                        (deleted, st) = run_git (delete_turn_refs_after (wd_git W) cwd session_id retained
                          (length (s_turns source))) st;
                        st = st\<lparr>dm_sessions := AList.delete session_id (dm_sessions st)\<rparr>;
                        task = rewound_task W retained rewound source in
                    bind_op (store_rewound W session_id task)
                      (\<lambda>_. return_op (Pay_SessionRewound task (error_text deleted))) st)))"

definition rewind_session_to_message :: "'d world \<Rightarrow> uuid \<Rightarrow> nat \<Rightarrow> ('d, response_payload) op" where
  "rewind_session_to_message W session_id turn_count st =
     (case find_task session_id st of
        None \<Rightarrow> bail (lit ''the task is unavailable'') st
      | Some s \<Rightarrow> bind_op (context_op (lit ''could not load the task'') (hydrate_task W s))
          (\<lambda>source st. case project_of st source of
              None \<Rightarrow> bail (lit ''the task project is unavailable'') st
            | Some project \<Rightarrow>
                let cwd = task_cwd source project in
                (case validate_message_rewind source turn_count of
                   Inl message \<Rightarrow> bail message st
                 | Inr _ \<Rightarrow> bind_op (provider_binary W (s_provider source))
                     (\<lambda>binary st.
                        let turn_start = turn_start_ref (wd_git W) session_id turn_count;
                            restore = (if has_ref cwd turn_start (dm_repos st) then turn_start
                              else checkpoint_ref (wd_git W) session_id (turn_count - 1)) in
                        if \<not> has_ref cwd restore (dm_repos st)
                        then bail (lit ''the checkpoint before this message is unavailable'') st
                        else rewind_worktree W source cwd binary restore turn_count st) st)) st)"

section \<open>The checkpoint of a turn\<close>

definition settled_checkpoint :: "nat \<Rightarrow> agent_session \<Rightarrow> checkpoint option" where
  "settled_checkpoint turn_count s =
     opt_filter (\<lambda>c. cp_status c = Ready \<or> cp_status c = Unavailable)
       (Option.bind (List.find (\<lambda>t. t_turn_count t = turn_count) (s_turns s)) t_checkpoint)"

definition capture_turn_checkpoint :: "'d world \<Rightarrow> rstring \<Rightarrow> uuid \<Rightarrow> nat \<Rightarrow> ('d, checkpoint) op" where
  "capture_turn_checkpoint W cwd session_id turn_count =
     bind_op (\<lambda>st. case find_task session_id st of
          None \<Rightarrow> (Inr None, st)
        | Some s \<Rightarrow> bind_op (hydrate_task W s) (\<lambda>s. return_op (settled_checkpoint turn_count s)) st)
       (\<lambda>settled. case settled of
          Some checkpoint \<Rightarrow> return_op checkpoint
        | None \<Rightarrow> bind_op (of_outside (gw_capture_turn (wd_git W) cwd session_id turn_count))
            (\<lambda>checkpoint st. case find_task session_id st of
                None \<Rightarrow> (Inr checkpoint, st)
              | Some s \<Rightarrow> bind_op (hydrate_task W s)
                  (\<lambda>s. if list_ex (\<lambda>t. t_turn_count t = turn_count) (s_turns s)
                    then bind_op (modify (set_tasks (mark_session_dirty session_id \<circ>
                        update_task session_id (\<lambda>s. s\<lparr>s_turns := update_first (\<lambda>t. t_turn_count t = turn_count)
                          (\<lambda>t. t\<lparr>t_checkpoint := Some checkpoint\<rparr>) (s_turns s)\<rparr>))))
                      (\<lambda>_. bind_op (save_tasks W) (\<lambda>_. return_op checkpoint))
                    else return_op checkpoint) st))"

end
