(* ===== verification/Backend.thy ===== *)
theory Backend
  imports Task_Rewind
begin

text \<open>
  The daemon's backend (\<open>ShidouBackend\<close> in \<open>crates/shidou-core/src/daemon.rs\<close>): child tasks, the
  runtimes of providers and what is sent to their drivers, terminals, the reduction of runtime
  events into stored tasks, and \<open>handle\<close>, which dispatches a request. \<open>shidou_backend\<close> is the
  instance of the interface the request mailboxes use.
\<close>

section \<open>Enums as strings\<close>

definition provider_wire_names :: "(provider_kind \<times> string) list" where
  "provider_wire_names = [(Amp, ''amp''), (Claude, ''claude''), (Codex, ''codex''), (Cursor, ''cursor''),
     (DeepSeek, ''deepSeek''), (Fx, ''fx''), (OpenCode, ''openCode''), (Grok, ''grok''), (Kimi, ''kimi''),
     (OhMyPi, ''ohMyPi''), (Pi, ''pi'')]"

definition mode_wire_names :: "(runtime_mode \<times> string) list" where
  "mode_wire_names = [(Mode_Plan, ''plan''), (Ask, ''ask''), (AutoAcceptEdits, ''autoAcceptEdits''),
     (Auto, ''auto''), (FullAccess, ''fullAccess'')]"

definition interaction_wire_names :: "(interaction_mode \<times> string) list" where
  "interaction_wire_names = [(Interaction_Build, ''build''), (Interaction_Plan, ''plan'')]"

definition encode_enum :: "('e \<times> string) list \<Rightarrow> 'e \<Rightarrow> rstring" where
  "encode_enum names x = (case map_of names x of Some n \<Rightarrow> lit n | None \<Rightarrow> [])"

definition decode_enum :: "('e \<times> string) list \<Rightarrow> rstring \<Rightarrow> 'e option" where
  "decode_enum names value = map_option fst (List.find (\<lambda>(_, n). lit n = value) names)"

definition decode_op :: "'d world \<Rightarrow> ('e \<times> string) list \<Rightarrow> rstring \<Rightarrow> ('d, 'e) op" where
  "decode_op W names value = (case decode_enum names value of
       Some x \<Rightarrow> return_op x
     | None \<Rightarrow> bail (lit ''invalid protocol enum value '' @ wd_debug_text W value))"

section \<open>Child tasks\<close>

record child_task_request =
  cr_parent_task_id :: uuid
  cr_provider :: "provider_kind option"
  cr_model :: "rstring option"
  cr_mode :: "runtime_mode option"
  cr_reasoning_effort :: "rstring option"
  cr_interaction_mode :: "interaction_mode option"
  cr_title :: "rstring option"

definition active_children :: "uuid \<Rightarrow> 'd daemon \<Rightarrow> nat" where
  "active_children parent_id st = length (filter (\<lambda>s. s_parent_task_id s = Some parent_id \<and>
     s_archived_at s = None \<and> status_is_busy (s_status s)) (tk_sessions (dm_tasks st)))"

definition child_model ::
    "'d world \<Rightarrow> provider_model list \<Rightarrow> provider_kind \<Rightarrow> agent_session \<Rightarrow> rstring option \<Rightarrow>
     rpc_error + rstring option" where
  "child_model W catalog provider parent model =
     (case model of
        Some model \<Rightarrow>
          if catalog \<noteq> [] \<and> \<not> list_ex (\<lambda>known. pm_id known = model) catalog
          then Inl (rpc_error_refused (provider_display_name provider @ lit '' has no model '' @
            wd_debug_text W model @ lit ''; run `shidou task models` for the list''))
          else Inr (Some model)
      | None \<Rightarrow> Inr (if provider = s_provider parent then s_model parent else None))"

definition child_effort ::
    "'d world \<Rightarrow> provider_model option \<Rightarrow> provider_kind \<Rightarrow> agent_session \<Rightarrow> rstring option \<Rightarrow>
     rstring option \<Rightarrow> rpc_error + rstring option" where
  "child_effort W known_model provider parent model reasoning_effort =
     (case reasoning_effort of
        Some effort \<Rightarrow>
          (case known_model of
             Some known \<Rightarrow>
               if pm_reasoning_efforts known \<noteq> [] \<and>
                  \<not> list_ex (\<lambda>option. mo_id option = effort) (pm_reasoning_efforts known)
               then Inl (rpc_error_refused (pm_id known @ lit '' does not offer effort '' @
                 wd_debug_text W effort @ lit ''; options: '' @
                 join (lit '', '') (map mo_id (pm_reasoning_efforts known))))
               else Inr (Some effort)
           | None \<Rightarrow> Inr (Some effort))
      | None \<Rightarrow>
          if provider = s_provider parent \<and> model = s_model parent then Inr (s_reasoning_effort parent)
          else Inr (Option.bind known_model pm_default_reasoning_effort))"

definition of_typed :: "rpc_error + 'a \<Rightarrow> ('d, 'a) op" where
  "of_typed r st = (case r of Inl error \<Rightarrow> (Inl (Typed_Error error), st) | Inr x \<Rightarrow> (Inr x, st))"

definition child_session ::
    "'d world \<Rightarrow> project \<Rightarrow> agent_session \<Rightarrow> child_task_request \<Rightarrow> provider_kind \<Rightarrow> rstring option \<Rightarrow>
     rstring option \<Rightarrow> agent_session" where
  "child_session W project parent req provider model effort =
     (let s = (session_new (wd_uuid W 0) (wd_now W 0) (p_id project) provider)\<lparr>
            s_parent_task_id := Some (s_id parent),
            s_workspace := s_workspace parent,
            s_runtime_mode := child_runtime_mode (s_runtime_mode parent) (cr_mode req),
            s_interaction_mode := unwrap_or (cr_interaction_mode req) Interaction_Build,
            s_model := model,
            s_reasoning_effort := effort\<rparr> in
      case opt_filter (\<lambda>t. t \<noteq> []) (map_option trim (cr_title req)) of
        Some title \<Rightarrow> s\<lparr>s_title := title\<rparr>
      | None \<Rightarrow> s)"

definition child_start_options :: "rstring \<Rightarrow> rstring \<Rightarrow> agent_session \<Rightarrow> wire_start_options" where
  "child_start_options binary cwd s =
     \<lparr>ws_provider = encode_enum provider_wire_names (s_provider s), ws_binary = binary, ws_cwd = cwd,
      ws_mode = encode_enum mode_wire_names (s_runtime_mode s),
      ws_interaction_mode = encode_enum interaction_wire_names (s_interaction_mode s),
      ws_model = s_model s, ws_reasoning_effort = s_reasoning_effort s, ws_service_tier = None,
      ws_context_window = None, ws_agent_preset = None, ws_computer_use_enabled = False,
      ws_provider_cursor = None\<rparr>"

text \<open>What is refused before anything about the provider is asked.\<close>

definition child_project :: "agent_session \<Rightarrow> ('d, project) op" where
  "child_project parent st =
     (if s_parent_task_id parent \<noteq> None
      then refuse (lit ''child tasks cannot create tasks of their own'') st
      else if max_active_children \<le> active_children (s_id parent) st
      then refuse (lit ''this task already has '' @ dec max_active_children @
        lit '' unfinished child tasks; wait for one to finish'') st
      else case project_of st parent of
        None \<Rightarrow> bail (lit ''the parent task's project is no longer available'') st
      | Some project \<Rightarrow> (Inr project, st))"

definition child_provider :: "'d world \<Rightarrow> provider_kind \<Rightarrow> ('d, rstring) op" where
  "child_provider W provider st =
     (if List.member (ds_disabled_providers (dm_settings st)) provider
      then refuse (provider_display_name provider @ lit '' is disabled in Shidou's settings'') st
      else provider_binary W provider st)"

definition create_child_of ::
    "'d world \<Rightarrow> child_task_request \<Rightarrow> agent_session \<Rightarrow> ('d, response_payload) op" where
  "create_child_of W req parent =
     bind_op (child_project parent) (\<lambda>project.
       let provider = unwrap_or (cr_provider req) (s_provider parent) in
       bind_op (child_provider W provider) (\<lambda>binary.
         if (case s_workspace parent of NewWorktree _ \<Rightarrow> True | _ \<Rightarrow> False)
         then bail (lit ''the parent task has not materialized its worktree yet'')
         else (\<lambda>st.
           let catalog = pw_models (wd_provider W) (dm_settings st) provider in
           bind_op (of_typed (child_model W catalog provider parent (cr_model req))) (\<lambda>model.
             bind_op (of_typed (child_effort W
                 (Option.bind model (\<lambda>i. List.find (\<lambda>known. pm_id known = i) catalog))
                 provider parent model (cr_reasoning_effort req))) (\<lambda>effort.
               let s = child_session W project parent req provider model effort in
               bind_op (modify (set_tasks (push_session s))) (\<lambda>_.
                 bind_op (save_tasks W) (\<lambda>_. return_op (Pay_ChildTaskCreated s
                   (child_start_options binary (task_cwd parent project) s)))))) st)))"

definition create_child_task :: "'d world \<Rightarrow> child_task_request \<Rightarrow> ('d, response_payload) op" where
  "create_child_task W req st =
     (if \<not> ds_subtasks_enabled (dm_settings st)
      then refuse (lit ''Subtasks are disabled in Settings '' @ [0x2192] @ lit '' Features'') st
      else bind_op (loaded_task W (lit ''the parent task is no longer available'') (cr_parent_task_id req))
        (create_child_of W req) st)"

section \<open>Runtimes\<close>

text \<open>
  A runtime start retires the task's credential and mints a new one for a task that may have
  children: not for a child itself, and with subtasks disabled only for one that has some.
\<close>

definition runtime_task_credential ::
    "'d world \<Rightarrow> uuid \<Rightarrow> 'd daemon \<Rightarrow> task_credential option \<times> 'd daemon" where
  "runtime_task_credential W session_id st =
     (let st = st\<lparr>dm_credentials := revoke session_id (dm_credentials st)\<rparr>;
          enabled = ds_subtasks_enabled (dm_settings st) in
      case find_task session_id st of
        None \<Rightarrow> (None, st)
      | Some parent \<Rightarrow>
          if s_parent_task_id parent \<noteq> None \<or>
             \<not> enabled \<and> \<not> list_ex (\<lambda>s. s_parent_task_id s = Some session_id) (tk_sessions (dm_tasks st))
          then (None, st)
          else case dm_listen_address st of
            None \<Rightarrow> (None, st)
          | Some address \<Rightarrow>
              (case mint (wd_token W) session_id address (dm_credentials st) of
                 (credentials, credential) \<Rightarrow>
                   (Some (credential\<lparr>tc_subtasks_enabled := enabled\<rparr>), st\<lparr>dm_credentials := credentials\<rparr>)))"

definition stop_previous :: "uuid \<Rightarrow> 'd daemon \<Rightarrow> 'd daemon" where
  "stop_previous session_id st =
     (let st' = (forget_reducers session_id st)\<lparr>dm_sessions := AList.delete session_id (dm_sessions st)\<rparr> in
      case map_of (dm_sessions st) session_id of
        Some _ \<Rightarrow> tell session_id Call_Cancel st'
      | None \<Rightarrow> st')"

definition decode_cursor :: "'d world \<Rightarrow> json option \<Rightarrow> ('d, provider_resume_cursor option) op" where
  "decode_cursor W cursor = (case cursor of
       None \<Rightarrow> return_op None
     | Some j \<Rightarrow> (case snd (wc_cursor (wd_codec W)) j of
         Some c \<Rightarrow> return_op (Some c)
       | None \<Rightarrow> bail (lit ''daemon received an invalid provider cursor'')))"

definition start_driver ::
    "'d world \<Rightarrow> uuid \<Rightarrow> wire_start_options \<Rightarrow> provider_kind \<Rightarrow> runtime_mode \<Rightarrow> interaction_mode \<Rightarrow>
     provider_resume_cursor option \<Rightarrow> ('d, 'd) op" where
  "start_driver W session_id options provider mode interaction_mode cursor st =
     (case runtime_task_credential W session_id st of
        (credential, st') \<Rightarrow> of_outside (wd_start W provider
          \<lparr>do_binary = ws_binary options, do_cwd = ws_cwd options, do_mode = mode,
           do_interaction_mode = interaction_mode, do_model = ws_model options,
           do_reasoning_effort = ws_reasoning_effort options, do_service_tier = ws_service_tier options,
           do_context_window = ws_context_window options, do_agent_preset = ws_agent_preset options,
           do_computer_use_enabled = (ws_computer_use_enabled options \<and>
             ds_computer_use_enabled (dm_settings st)),
           do_provider_cursor = cursor, do_task_credential = credential\<rparr>) st')"

definition install_runtime :: "'d world \<Rightarrow> uuid \<Rightarrow> uuid \<Rightarrow> 'd \<Rightarrow> ('d, response_payload) op" where
  "install_runtime W session_id runtime_id driver st =
     (let enabled = ds_computer_use_enabled (dm_settings st);
          st = tell session_id (Call_Set_Computer_Use enabled) st in
      case wd_set_computer_use W driver enabled of
        Some error \<Rightarrow> bail error (tell session_id Call_Cancel st)
      | None \<Rightarrow> (Inr (Pay_Started (wd_supports_steer W driver)),
          st\<lparr>dm_sessions := AList.update session_id (runtime_id, driver) (dm_sessions st)\<rparr>))"

definition start_session :: "'d world \<Rightarrow> uuid \<Rightarrow> uuid \<Rightarrow> wire_start_options \<Rightarrow> ('d, response_payload) op" where
  "start_session W session_id runtime_id options =
     bind_op (modify (stop_previous session_id)) (\<lambda>_.
       bind_op (decode_op W provider_wire_names (ws_provider options)) (\<lambda>provider.
         bind_op (decode_op W mode_wire_names (ws_mode options)) (\<lambda>mode.
           bind_op (decode_op W interaction_wire_names (ws_interaction_mode options)) (\<lambda>interaction_mode.
             bind_op (decode_cursor W (ws_provider_cursor options)) (\<lambda>cursor.
               bind_op (start_driver W session_id options provider mode interaction_mode cursor)
                 (install_runtime W session_id runtime_id))))))"

definition close_session :: "uuid \<Rightarrow> uuid \<Rightarrow> ('d, response_payload) op" where
  "close_session session_id runtime_id st =
     (let st = st\<lparr>dm_reducers := (dm_reducers st)((session_id, runtime_id) := None)\<rparr> in
      case map_of (dm_sessions st) session_id of
        Some (active, _) \<Rightarrow>
          if active = runtime_id
          then (Inr Pay_Ack, tell session_id Call_Cancel
            (st\<lparr>dm_sessions := AList.delete session_id (dm_sessions st)\<rparr>))
          else (Inr Pay_Ack, st)
      | None \<Rightarrow> (Inr Pay_Ack, st))"

definition runtime_driver :: "'d world \<Rightarrow> uuid \<Rightarrow> uuid \<Rightarrow> ('d, 'd) op" where
  "runtime_driver W session_id runtime_id st =
     (case map_of (dm_sessions st) session_id of
        None \<Rightarrow> bail (lit ''daemon session '' @ wd_uuid_text W session_id @ lit '' is not running'') st
      | Some (active, driver) \<Rightarrow>
          if active = runtime_id then (Inr driver, st)
          else bail (lit ''daemon session '' @ wd_uuid_text W session_id @ lit '' belongs to runtime '' @
            wd_uuid_text W active @ lit '', not '' @ wd_uuid_text W runtime_id) st)"

text \<open>
  \<open>handle_driver_command\<close>, for the commands that reach a driver; \<open>wrong_path\<close> is its answer to
  any other.
\<close>

definition session_options_of :: "'d world \<Rightarrow> wire_session_options \<Rightarrow> ('d, session_options) op" where
  "session_options_of W options =
     bind_op (decode_op W mode_wire_names (wo_mode options)) (\<lambda>mode.
       bind_op (decode_op W interaction_wire_names (wo_interaction_mode options)) (\<lambda>interaction_mode.
         return_op \<lparr>so_mode = mode, so_interaction_mode = interaction_mode, so_model = wo_model options,
           so_reasoning_effort = wo_reasoning_effort options, so_service_tier = wo_service_tier options,
           so_context_window = wo_context_window options\<rparr>))"

definition cursor_json :: "'d world \<Rightarrow> provider_resume_cursor \<Rightarrow> json" where
  "cursor_json W c = fst (wc_cursor (wd_codec W)) c"

definition tell_ack :: "uuid \<Rightarrow> driver_call \<Rightarrow> ('d, response_payload) op" where
  "tell_ack session_id call = bind_op (modify (tell session_id call)) (\<lambda>_. return_op Pay_Ack)"

definition handle_driver_command :: "'d world \<Rightarrow> uuid \<Rightarrow> 'd \<Rightarrow> command \<Rightarrow> ('d, response_payload) op" where
  "handle_driver_command W i driver cmd = (case cmd of
       Cmd_Prompt prompt _ \<Rightarrow> tell_ack i (Call_Prompt prompt)
     | Cmd_Steer prompt \<Rightarrow> tell_ack i (Call_Steer prompt)
     | Cmd_Cancel \<Rightarrow> tell_ack i Call_Cancel
     | Cmd_CancelComputerUse \<Rightarrow> tell_ack i Call_Cancel_Computer_Use
     | Cmd_RefreshBackgroundWork \<Rightarrow> tell_ack i Call_Refresh_Background_Work
     | Cmd_StopBackgroundWork key control_id \<Rightarrow> (case wd_work_key W key of
        Some key \<Rightarrow> tell_ack i (Call_Stop_Background_Work key control_id)
      | None \<Rightarrow> bail (lit ''invalid background-work key''))
     | Cmd_Respond request_id option_id \<Rightarrow> tell_ack i (Call_Respond request_id option_id)
     | Cmd_RespondUserInput request_id answers \<Rightarrow> tell_ack i (Call_Respond_User_Input request_id answers)
     | Cmd_RunComputerTool req \<Rightarrow> tell_ack i (Call_Run_Computer_Tool req)
     | Cmd_RejectComputerTool req reason \<Rightarrow> tell_ack i (Call_Reject_Computer_Tool req reason)
     | Cmd_ApplyOptions options \<Rightarrow> bind_op (session_options_of W options) (\<lambda>options.
       bind_op (modify (tell i (Call_Apply_Options options))) (\<lambda>_.
         return_op (Pay_OptionsApplied (wd_apply_options W driver options))))
     | Cmd_Compact instructions \<Rightarrow> tell_ack i (Call_Compact instructions)
     | Cmd_Rollback turns \<Rightarrow> bind_op (modify (tell i (Call_Rollback turns))) (\<lambda>_.
       bind_op (of_outside (wd_rollback W driver turns)) (\<lambda>cursor.
         return_op (Pay_Cursor (map_option (cursor_json W) cursor))))
     | Cmd_Fork turns_to_remove \<Rightarrow> bind_op (modify (tell i (Call_Fork turns_to_remove))) (\<lambda>_.
       bind_op (of_outside (wd_fork W driver turns_to_remove)) (\<lambda>cursor.
         return_op (Pay_Cursor (Some (cursor_json W cursor)))))
     | _ \<Rightarrow> bail (lit ''daemon received a command in the wrong dispatch path''))"

text \<open>The daemon's record of the prompt is stored before the provider sees it.\<close>

definition accept_prompt :: "'d world \<Rightarrow> uuid \<Rightarrow> rstring \<Rightarrow> uuid \<Rightarrow> ('d, driver_event) op" where
  "accept_prompt W session_id prompt submission_id st =
     (case find_task session_id st of
        None \<Rightarrow> bail (lit ''daemon session '' @ wd_uuid_text W session_id @ lit '' has no saved projection'') st
      | Some s \<Rightarrow> (case accept_prompt_turn (wd_uuid W 0) (wd_uuid W 1) (wd_now W 0) (wd_now W 1)
            prompt submission_id s of
          None \<Rightarrow> bail [] st
        | Some (s, accepted) \<Rightarrow> bind_op (modify (set_tasks (mark_session_dirty session_id \<circ>
              update_task session_id (\<lambda>_. s))))
            (\<lambda>_. bind_op (save_tasks W) (\<lambda>_. return_op accepted)) st))"

type_synonym events = "(wire_driver_event \<times> bool) list"

definition handle_prompt ::
    "'d world \<Rightarrow> uuid \<Rightarrow> uuid \<Rightarrow> rstring \<Rightarrow> uuid \<Rightarrow> ('d, response_payload \<times> events) op" where
  "handle_prompt W session_id runtime_id prompt submission_id =
     bind_op (runtime_driver W session_id runtime_id) (\<lambda>driver.
       bind_op (accept_prompt W session_id prompt submission_id) (\<lambda>accepted.
         bind_op (of_outside (event_to_wire (wd_codec W) accepted)) (\<lambda>wire st.
           let settings = dm_settings st;
               text = feature_state_prompt prompt (ds_subtasks_enabled settings)
                 (ds_computer_use_enabled settings) (has_credential session_id (dm_credentials st)) in
           bind_op (handle_driver_command W session_id driver (Cmd_Prompt text submission_id))
             (\<lambda>payload. return_op (payload, [(wire, True)])) st)))"

section \<open>Terminals\<close>

definition terminal_of :: "'d world \<Rightarrow> uuid \<Rightarrow> uuid \<Rightarrow> ('d, unit) op" where
  "terminal_of W session_id runtime_id st =
     (case dm_terminals st session_id of
        None \<Rightarrow> bail (lit ''daemon terminal '' @ wd_uuid_text W session_id @ lit '' is not running'') st
      | Some active \<Rightarrow>
          if active = runtime_id then (Inr (), st)
          else bail (lit ''daemon terminal '' @ wd_uuid_text W session_id @ lit '' belongs to runtime '' @
            wd_uuid_text W active @ lit '', not '' @ wd_uuid_text W runtime_id) st)"

definition open_terminal :: "'d world \<Rightarrow> uuid \<Rightarrow> uuid \<Rightarrow> ('d, response_payload) op" where
  "open_terminal W session_id runtime_id st =
     (case wd_open_terminal W of
        Some error \<Rightarrow> bail error st
      | None \<Rightarrow> (Inr Pay_Ack, st\<lparr>dm_terminals := (dm_terminals st)(session_id \<mapsto> runtime_id)\<rparr>))"

definition close_terminal :: "'d world \<Rightarrow> uuid \<Rightarrow> uuid \<Rightarrow> ('d, response_payload) op" where
  "close_terminal W session_id runtime_id st =
     (if dm_terminals st session_id \<noteq> None \<and> dm_terminals st session_id \<noteq> Some runtime_id
      then bind_op (terminal_of W session_id runtime_id) (\<lambda>_. return_op Pay_Ack) st
      else (Inr Pay_Ack, st\<lparr>dm_terminals := (dm_terminals st)(session_id := None)\<rparr>))"

section \<open>Dispatch\<close>

text \<open>
  \<open>handle\<close>. Requests that touch none of the modelled state (usage, skills, searches, drafts,
  blobs, attachments, the file system) are answered from outside.
\<close>

definition handle_command :: "'d world \<Rightarrow> uuid \<Rightarrow> uuid \<Rightarrow> command \<Rightarrow> ('d, response_payload) op" where
  "handle_command W i r c = (case c of
       Cmd_AttachSession \<Rightarrow> attach_session W i
     | Cmd_GetSettings \<Rightarrow> (\<lambda>st. (Inr (Pay_Settings (wd_settings_to W (dm_settings st))), st))
     | Cmd_UpdateSettings settings \<Rightarrow> update_settings W settings
     | Cmd_LoadTaskState \<Rightarrow> load_task_state W
     | Cmd_SaveTaskState projects _ sessions \<Rightarrow> save_task_state W projects sessions
     | Cmd_RemoveProject project_id \<Rightarrow> remove_project W project_id
     | Cmd_CreateChildTask parent provider model mode effort imode title \<Rightarrow>
         create_child_task W \<lparr>cr_parent_task_id = parent, cr_provider = provider, cr_model = model,
           cr_mode = mode, cr_reasoning_effort = effort, cr_interaction_mode = imode, cr_title = title\<rparr>
     | Cmd_ListProviderModels provider \<Rightarrow> list_provider_models W i provider
     | Cmd_ReadTaskSummary \<Rightarrow> read_task_summary W i
     | Cmd_ListChildTasks \<Rightarrow> list_child_tasks W i
     | Cmd_RemoveQueuedMessage message_id \<Rightarrow> remove_queued_message W i message_id
     | Cmd_ArchiveSession archived \<Rightarrow> archive_session W i archived
     | Cmd_RemoveSession \<Rightarrow> remove_session W i
     | Cmd_HydrateSession session_id \<Rightarrow> hydrate_session W session_id
     | Cmd_ForkSessionFromResponse turn_count \<Rightarrow> fork_session_from_response W i turn_count
     | Cmd_RewindSessionToMessage turn_count \<Rightarrow> rewind_session_to_message W i turn_count
     | Cmd_OpenTerminal _ _ _ \<Rightarrow> open_terminal W i r
     | Cmd_WriteTerminal data \<Rightarrow> bind_op (terminal_of W i r) (\<lambda>_. tell_ack i (Call_Write_Terminal data))
     | Cmd_ResizeTerminal cols rows \<Rightarrow> bind_op (terminal_of W i r) (\<lambda>_. tell_ack i (Call_Resize_Terminal cols rows))
     | Cmd_CloseTerminal \<Rightarrow> close_terminal W i r
     | Cmd_Start options \<Rightarrow> start_session W i r options
     | Cmd_CloseSession \<Rightarrow> close_session i r
     | Cmd_Workspace operation \<Rightarrow> (case wd_capture_request W operation of
           Some (cwd, session_id, turn_count) \<Rightarrow>
             bind_op (capture_turn_checkpoint W cwd session_id turn_count)
               (\<lambda>checkpoint. return_op (Pay_Workspace (wd_checkpoint_json W checkpoint)))
         | None \<Rightarrow> (\<lambda>st. (pw_outside (wd_provider W) (dm_settings st) c, st)))
     | _ \<Rightarrow> (if command_targets_runtime c
      then bind_op (runtime_driver W i r) (\<lambda>driver. handle_driver_command W i driver c)
      else (\<lambda>st. (pw_outside (wd_provider W) (dm_settings st) c, st))))"

definition handle :: "'d world \<Rightarrow> request \<Rightarrow> 'd daemon \<Rightarrow>
    (backend_error + response_payload) \<times> events \<times> 'd daemon" where
  "handle W req st =
     (case q_command req of
        Cmd_Prompt prompt submission_id \<Rightarrow>
          (case handle_prompt W (q_session_id req) (q_runtime_id req) prompt submission_id st of
             (Inl error, st) \<Rightarrow> (Inl error, [], st)
           | (Inr (payload, events), st) \<Rightarrow> (Inr payload, events, st))
      | c \<Rightarrow> (case handle_command W (q_session_id req) (q_runtime_id req) c st of
          (result, st) \<Rightarrow> (result, [], st)))"

section \<open>Events of a runtime\<close>

definition reducer_of :: "uuid \<times> uuid \<Rightarrow> 'd daemon \<Rightarrow> reducer" where
  "reducer_of key st = unwrap_or (dm_reducers st key) reducer_default"

definition cursor_changed :: "driver_event \<Rightarrow> agent_session \<Rightarrow> bool" where
  "cursor_changed event s = (case event of Connected c \<Rightarrow> c \<noteq> s_provider_cursor s | _ \<Rightarrow> False)"

definition event_cursor :: "sequenced_event \<Rightarrow> runtime_event_cursor" where
  "event_cursor e = \<lparr>rc_runtime_id = se_runtime_id e, rc_epoch = se_epoch e, rc_sequence = se_sequence e\<rparr>"

fun accepts_turn :: "driver_event \<Rightarrow> bool" where
  "accepts_turn (TurnAccepted _ _ _) = True"
| "accepts_turn _ = False"

text \<open>
  One event on a stored task: the reduction, the cursor, whether the task leaves the archive, and
  whether the change must be stored.
\<close>

definition reduce_event ::
    "lib \<Rightarrow> env \<Rightarrow> reducer \<Rightarrow> agent_session \<Rightarrow> driver_event \<Rightarrow> runtime_event_cursor \<Rightarrow>
     reducer \<times> agent_session \<times> bool \<times> bool" where
  "reduce_event L e r s event cursor =
     (let (r, s', reduction) = reducer_apply L e r s event context_default;
          s' = s'\<lparr>s_runtime_event_cursor := Some cursor\<rparr>;
          returned = (s_archived_at s' \<noteq> None \<and> rd_applied reduction \<and>
            (returns_an_archived_task event \<or>
             s_status s \<noteq> Session_Failed \<and> s_status s' = Session_Failed));
          s' = (if returned then s'\<lparr>s_archived_at := None\<rparr> else s');
          catalog_changed = (returned \<or> session_catalog_entry_from s \<noteq> session_catalog_entry_from s') in
      (r, s', catalog_changed, accepts_turn event \<or> cursor_changed event s \<or>
         rd_finished_turn reduction \<noteq> None \<or> catalog_changed))"

definition handle_driver_event :: "'d world \<Rightarrow> sequenced_event \<Rightarrow> driver_event \<Rightarrow> ('d, bool) op" where
  "handle_driver_event W event driver_event st =
     (let i = se_session_id event; key = (i, se_runtime_id event) in
      case find_task i st of
        None \<Rightarrow> bail (lit ''daemon session '' @ wd_uuid_text W i @ lit '' has no saved projection'') st
      | Some s \<Rightarrow> bind_op (hydrate_task W s) (\<lambda>s st.
          case reduce_event (wd_lib W) (wd_env W 0) (reducer_of key st) s driver_event (event_cursor event) of
            (r, s', catalog_changed, stored) \<Rightarrow>
              bind_op (modify (\<lambda>st. set_tasks (update_task i (\<lambda>_. s'))
                  (st\<lparr>dm_reducers := (dm_reducers st)(key \<mapsto> r)\<rparr>))) (\<lambda>_.
                bind_op (if stored
                    then bind_op (modify (set_tasks (mark_session_dirty i))) (\<lambda>_. save_tasks W)
                    else return_op ()) (\<lambda>_.
                  bind_op (modify (\<lambda>st. if driver_event = ProcessExited
                      then st\<lparr>dm_reducers := (dm_reducers st)(key := None)\<rparr> else st)) (\<lambda>_.
                    return_op catalog_changed))) st) st)"

definition handle_runtime_event :: "'d world \<Rightarrow> sequenced_event \<Rightarrow> 'd daemon \<Rightarrow> bool option \<times> 'd daemon" where
  "handle_runtime_event W event st =
     (case event_from_wire (wd_codec W) (se_event event) of
        None \<Rightarrow> (None, st)
      | Some driver_event \<Rightarrow> (case handle_driver_event W event driver_event st of
          (Inr changed, st) \<Rightarrow> (Some changed, st) | (Inl _, st) \<Rightarrow> (None, st)))"

definition runtime_ended :: "uuid \<Rightarrow> uuid \<Rightarrow> 'd daemon \<Rightarrow> 'd daemon" where
  "runtime_ended session_id runtime_id st =
     (let st = st\<lparr>dm_reducers := (dm_reducers st)((session_id, runtime_id) := None)\<rparr>;
          live_elsewhere = (case map_of (dm_sessions st) session_id of
            Some (active, _) \<Rightarrow> active \<noteq> runtime_id | None \<Rightarrow> False) in
      if live_elsewhere then st
      else st\<lparr>dm_credentials := revoke session_id (dm_credentials st)\<rparr>)"

definition task_parent :: "'d daemon \<Rightarrow> uuid \<Rightarrow> uuid option" where
  "task_parent st task_id = Option.bind (find_task task_id st) s_parent_task_id"

definition session_has_active_turn :: "uuid \<Rightarrow> 'd daemon \<Rightarrow> bool" where
  "session_has_active_turn session_id st =
     list_ex (\<lambda>s. s_id s = session_id \<and> active_turn_id s \<noteq> None) (tk_sessions (dm_tasks st))"

definition task_for_credential :: "rstring \<Rightarrow> 'd daemon \<Rightarrow> uuid option" where
  "task_for_credential token st = task_for_token token (dm_credentials st)"

text \<open>
  \<open>listening\<close>: providers reach a daemon bound to every interface through the loopback one.
  \<open>show_address\<close> prints a socket address.
\<close>

datatype ip_addr = Ip_V4 "32 word" | Ip_V6 "128 word"

fun reachable_ip :: "ip_addr \<Rightarrow> ip_addr" where
  "reachable_ip (Ip_V4 a) = Ip_V4 (if a = 0 then 0x7F000001 else a)"
| "reachable_ip (Ip_V6 a) = Ip_V6 (if a = 0 then 1 else a)"

definition listening :: "(ip_addr \<Rightarrow> 16 word \<Rightarrow> rstring) \<Rightarrow> ip_addr \<Rightarrow> 16 word \<Rightarrow> 'd daemon \<Rightarrow> 'd daemon" where
  "listening show_address ip port st =
     st\<lparr>dm_listen_address := Some (show_address (reachable_ip ip) port)\<rparr>"

definition shutdown :: "'d daemon \<Rightarrow> 'd daemon" where
  "shutdown st = (foldl (\<lambda>st (i, _). tell i Call_Cancel st) st (dm_sessions st))
     \<lparr>dm_sessions := [], dm_terminals := Map.empty\<rparr>"

text \<open>The backend the mailboxes drive: each call meets the world of its time.\<close>

definition shidou_backend :: "(nat \<Rightarrow> 'd world) \<Rightarrow> (nat \<times> 'd daemon) backend" where
  "shidou_backend worlds =
     \<lparr>be_handle = (\<lambda>req (n, st). case handle (worlds n) req st of (r, events, st) \<Rightarrow> (r, events, (Suc n, st))),
      be_handle_runtime_event = (\<lambda>event (n, st). case handle_runtime_event (worlds n) event st of
        (r, st) \<Rightarrow> (r, (Suc n, st))),
      be_runtime_ended = (\<lambda>i r (n, st). (Suc n, runtime_ended i r st)),
      be_session_has_active_turn = (\<lambda>i (n, st). session_has_active_turn i st)\<rparr>"

section \<open>Starting the daemon\<close>

fun settle_tasks :: "'d world \<Rightarrow> nat \<Rightarrow> uuid list \<Rightarrow> ('d, unit) op" where
  "settle_tasks W n [] = return_op ()"
| "settle_tasks W n (i # is) = bind_op (loaded_task W [] i) (\<lambda>s.
     bind_op (modify (\<lambda>st. if active_turn_id s = None then st
         else set_tasks (mark_session_dirty i \<circ> update_task i (\<lambda>s. fst (snd (reducer_apply (wd_lib W) (wd_env W n)
           reducer_default s (TurnFinished False None) context_default)))) st))
       (\<lambda>_. settle_tasks W (Suc n) is))"

definition settle_orphaned_turns :: "'d world \<Rightarrow> ('d, unit) op" where
  "settle_orphaned_turns W st =
     bind_op (settle_tasks W 0 (map s_id (filter (\<lambda>s. status_is_busy (s_status s)) (tk_sessions (dm_tasks st)))))
       (\<lambda>_. save_tasks W) st"

fun path_text :: "path \<Rightarrow> rstring" where
  "path_text (RootDir # p) = lit ''/'' @ join (lit ''/'') (map component_text p)"
| "path_text p = join (lit ''/'') (map component_text p)"

definition projectless_name :: rstring where "projectless_name = lit ''No project''"

text \<open>The workspaces of the old layout move one by one, each move stored before the next.\<close>

fun migrate_projects ::
    "'d world \<Rightarrow> fs_env \<Rightarrow> (rstring \<Rightarrow> rstring) \<Rightarrow> rstring list \<Rightarrow> rstring \<Rightarrow> path \<Rightarrow> uuid list \<Rightarrow> fs \<Rightarrow>
     ('d, fs) op" where
  "migrate_projects W E lower uuids date root [] fs = return_op fs"
| "migrate_projects W E lower uuids date root (i # is) fs = (\<lambda>st.
     case List.find (\<lambda>p. p_id p = i) (tk_projects (dm_tasks st)) of
       None \<Rightarrow> migrate_projects W E lower uuids date root is fs st
     | Some p \<Rightarrow> (case migrate_workspace_in E lower uuids date root (components (p_path p)) fs of
         (Inl _, fs) \<Rightarrow> bail (lit ''could not move projectless workspace '' @ p_path p @
           lit '' under ~/.shidou/projects'') st
       | (Inr w, fs) \<Rightarrow>
           bind_op (modify (set_tasks (\<lambda>tasks. tasks\<lparr>tk_projects := update_first (\<lambda>q. p_id q = i)
               (\<lambda>q. q\<lparr>p_name := projectless_name, p_path := path_text (w_cwd w)\<rparr>) (tk_projects tasks)\<rparr>)))
             (\<lambda>_. bind_op (context_op (lit ''could not persist migrated projectless workspace'') (save_tasks W))
               (\<lambda>_. migrate_projects W E lower uuids date root is fs)) st))"

definition migrate_projectless_state ::
    "'d world \<Rightarrow> fs_env \<Rightarrow> (rstring \<Rightarrow> rstring) \<Rightarrow> rstring list \<Rightarrow> rstring \<Rightarrow> fs \<Rightarrow> ('d, fs) op" where
  "migrate_projectless_state W E lower uuids date fs st =
     (case wd_projectless_root W of
        None \<Rightarrow> (Inr fs, st)
      | Some root \<Rightarrow> migrate_projects W E lower uuids date root
          (map p_id (filter (\<lambda>p. needs_migration (Some root) (components (p_path p)))
            (tk_projects (dm_tasks st)))) fs st)"

definition loaded_daemon ::
    "'d world \<Rightarrow> (nat \<Rightarrow> uuid) \<Rightarrow> daemon_settings \<Rightarrow> repos \<Rightarrow> database \<Rightarrow> 'd daemon" where
  "loaded_daemon W fresh settings repos db =
     (case load_store (wd_lib W) fresh db of
        (store, tasks) \<Rightarrow> \<lparr>dm_sessions = [], dm_terminals = Map.empty, dm_settings = settings,
          dm_store = store, dm_tasks = tasks, dm_reducers = Map.empty, dm_removed_sessions = {},
          dm_removed_projects = {}, dm_removed_queued = {}, dm_credentials = [],
          dm_listen_address = None, dm_repos = repos, dm_calls = []\<rparr>)"

definition daemon_new ::
    "'d world \<Rightarrow> 'd world \<Rightarrow> (nat \<Rightarrow> uuid) \<Rightarrow> fs_env \<Rightarrow> (rstring \<Rightarrow> rstring) \<Rightarrow> rstring list \<Rightarrow> rstring \<Rightarrow>
     daemon_settings \<Rightarrow> repos \<Rightarrow> fs \<Rightarrow> database \<Rightarrow> (backend_error + unit) \<times> 'd daemon" where
  "daemon_new W1 W2 fresh E lower uuids date settings repos fs db =
     bind_op (migrate_projectless_state W1 E lower uuids date fs) (\<lambda>_. settle_orphaned_turns W2)
       (loaded_daemon W1 fresh settings repos db)"

end
