(* ===== verification/Reducer_Invariant.thy ===== *)
theory Reducer_Invariant
  imports Reducer
begin

text \<open>
  What every driver event keeps of a session: the three vectors stay well formed, one assistant
  message streams exactly while the phase is text, and the transcript only grows. The last
  section is the fold over a stream of events, an instance of the contract of \<open>Interfaces\<close>.
\<close>

section \<open>What the operations do to turns, messages and blocks\<close>

text \<open>A well-formed session through its three vectors.\<close>

definition wf_parts :: "agent_turn list \<Rightarrow> message list \<Rightarrow> transcript_block list \<Rightarrow> bool" where
  "wf_parts ts ms bs \<longleftrightarrow> turns_ok ts \<and> messages_ok (t_id ` set ts) ms \<and>
     blocks_ok (t_id ` set ts) (length ms) bs"

lemma wf_session_parts: "wf_session s = wf_parts (s_turns s) (s_messages s) (s_transcript_blocks s)"
  by (simp add: wf_session_def wf_parts_def turn_ids_def)

lemma all_map: "map f xs = map g ys \<Longrightarrow> (\<And>y. y \<in> set ys \<Longrightarrow> P (g y)) \<Longrightarrow> x \<in> set xs \<Longrightarrow> P (f x)"
  by (metis (mono_tags, lifting) imageE image_eqI image_set)

lemma wf_parts_messages:
  assumes "wf_parts ts ms bs" "map m_id ms' = map m_id ms" "map m_turn_id ms' = map m_turn_id ms"
  shows "wf_parts ts ms' bs"
proof -
  have "length ms' = length ms" using assms(2) by (metis length_map)
  then show ?thesis
    using assms all_map [OF assms(3), where P = "owned_by (t_id ` set ts)"]
    by (auto simp: wf_parts_def messages_ok_def)
qed

lemma wf_parts_blocks:
  assumes "wf_parts ts ms bs" "map b_after_message bs' = map b_after_message bs"
    and "map b_turn_id bs' = map b_turn_id bs"
  shows "wf_parts ts ms bs'"
  using assms all_map [OF assms(3), where P = "owned_by (t_id ` set ts)"]
    all_map [OF assms(2), where P = "\<lambda>k. k \<le> length ms"]
  by (auto simp: wf_parts_def blocks_ok_def)

lemma wf_parts_turns:
  assumes "wf_parts ts ms bs" "map t_id ts' = map t_id ts" "turns_ok ts'"
  shows "wf_parts ts' ms bs"
proof -
  have "t_id ` set ts' = t_id ` set ts" using assms(2) by (metis image_set)
  with assms show ?thesis by (simp add: wf_parts_def)
qed

lemma wf_parts_push_message:
  assumes "wf_parts ts ms bs" "m_id m \<notin> m_id ` set ms" "owned_by (t_id ` set ts) (m_turn_id m)"
  shows "wf_parts ts (ms @ [m]) bs"
  using assms by (auto simp: wf_parts_def messages_ok_def elim: blocks_ok_mono)

lemma wf_parts_push_block:
  assumes "wf_parts ts ms bs" "b_after_message b = length ms" "owned_by (t_id ` set ts) (b_turn_id b)"
  shows "wf_parts ts ms (bs @ [b])"
  using assms by (auto simp: wf_parts_def blocks_ok_def sorted_append)

text \<open>What a later step never takes back: a message keeps its role and its text as a prefix.\<close>

definition message_grows :: "message \<Rightarrow> message \<Rightarrow> bool" where
  "message_grows a b \<longleftrightarrow> m_role a = m_role b \<and> prefix (m_content a) (m_content b)"

definition messages_grow :: "message list \<Rightarrow> message list \<Rightarrow> bool" where
  "messages_grow xs ys \<longleftrightarrow> length xs \<le> length ys \<and> (\<forall>i<length xs. message_grows (xs ! i) (ys ! i))"

definition activity_ids :: "agent_session \<Rightarrow> uuid list" where
  "activity_ids s = map a_id (all_activities (s_transcript_blocks s))"

definition session_grows :: "agent_session \<Rightarrow> agent_session \<Rightarrow> bool" where
  "session_grows s t \<longleftrightarrow> messages_grow (s_messages s) (s_messages t) \<and>
     prefix (activity_ids s) (activity_ids t) \<and> length (s_turns s) \<le> length (s_turns t)"

definition streaming_count :: "message list \<Rightarrow> nat" where
  "streaming_count ms = length (filter m_streaming ms)"

definition only_assistant_streams :: "message list \<Rightarrow> bool" where
  "only_assistant_streams ms \<longleftrightarrow> (\<forall>m\<in>set ms. m_streaming m \<longrightarrow> m_role m = Assistant)"

lemma message_grows_refl [simp]: "message_grows m m"
  by (simp add: message_grows_def)

lemma messages_grow_refl [simp]: "messages_grow ms ms"
  by (simp add: messages_grow_def)

lemma message_grows_trans: "message_grows a b \<Longrightarrow> message_grows b c \<Longrightarrow> message_grows a c"
  by (auto simp: message_grows_def)

lemma messages_grow_trans: "messages_grow xs ys \<Longrightarrow> messages_grow ys zs \<Longrightarrow> messages_grow xs zs"
  unfolding messages_grow_def using message_grows_trans by (meson order_less_le_trans order_trans)

lemma messages_grow_append [simp]: "messages_grow ms (ms @ ns)"
  by (simp add: messages_grow_def nth_append)

lemma messages_grow_map: "(\<And>m. message_grows m (f m)) \<Longrightarrow> messages_grow ms (map f ms)"
  by (simp add: messages_grow_def)

lemma messages_grow_list_all2: "list_all2 message_grows xs ys \<Longrightarrow> messages_grow xs ys"
  by (simp add: messages_grow_def list_all2_conv_all_nth)

lemma session_grows_refl [simp]: "session_grows s s"
  by (simp add: session_grows_def)

lemma session_grows_trans: "session_grows s t \<Longrightarrow> session_grows t u \<Longrightarrow> session_grows s u"
  unfolding session_grows_def by (meson messages_grow_trans order_trans prefix_order.trans)

lemma streaming_count_simps [simp]:
  "streaming_count [] = 0"
  "streaming_count (m # ms) = (if m_streaming m then 1 else 0) + streaming_count ms"
  "streaming_count (ms @ ns) = streaming_count ms + streaming_count ns"
  by (simp_all add: streaming_count_def)

lemma only_assistant_streams_simps [simp]:
  "only_assistant_streams []"
  "only_assistant_streams (m # ms) \<longleftrightarrow>
     (m_streaming m \<longrightarrow> m_role m = Assistant) \<and> only_assistant_streams ms"
  "only_assistant_streams (ms @ ns) \<longleftrightarrow> only_assistant_streams ms \<and> only_assistant_streams ns"
  by (auto simp: only_assistant_streams_def)

lemma streaming_exists: "0 < streaming_count ms \<Longrightarrow> only_assistant_streams ms \<Longrightarrow>
  list_ex streaming_assistant ms"
  by (induction ms) (auto simp: streaming_assistant_def split: if_splits)

subsection \<open>Finishing a message\<close>

lemma finish_streaming_fields [simp]:
  "s_turns (finish_streaming_assistant s) = s_turns s"
  "s_transcript_blocks (finish_streaming_assistant s) = s_transcript_blocks s"
  "s_status (finish_streaming_assistant s) = s_status s"
  "active_turn_id (finish_streaming_assistant s) = active_turn_id s"
  "map m_id (s_messages (finish_streaming_assistant s)) = map m_id (s_messages s)"
  "map m_turn_id (s_messages (finish_streaming_assistant s)) = map m_turn_id (s_messages s)"
  "map m_role (s_messages (finish_streaming_assistant s)) = map m_role (s_messages s)"
  "map m_content (s_messages (finish_streaming_assistant s)) = map m_content (s_messages s)"
  "length (s_messages (finish_streaming_assistant s)) = length (s_messages s)"
  by (auto simp: finish_streaming_assistant_def active_turn_id_def)

lemma wf_finish_streaming [inv_intros]:
  "wf_session s \<Longrightarrow> wf_session (finish_streaming_assistant s)"
  unfolding wf_session_parts by (auto elim: wf_parts_messages)

lemma finish_streaming_count:
  "only_assistant_streams (s_messages s) \<Longrightarrow>
   streaming_count (s_messages (finish_streaming_assistant s)) = 0 \<and>
   only_assistant_streams (s_messages (finish_streaming_assistant s))"
  by (auto simp: finish_streaming_assistant_def streaming_count_def only_assistant_streams_def
      filter_empty_conv)

lemma finish_streaming_grows: "session_grows s (finish_streaming_assistant s)"
  by (auto simp: session_grows_def finish_streaming_assistant_def activity_ids_def message_grows_def
      intro!: messages_grow_map)

lemma finish_streaming_none:
  "streaming_count (s_messages s) = 0 \<Longrightarrow> finish_streaming_assistant s = s"
  by (auto simp: finish_streaming_assistant_def streaming_count_def filter_empty_conv map_idI)

subsection \<open>Activities\<close>

lemma all_activities_simps [simp]:
  "all_activities [] = []" "all_activities (b # bs) = b_activities b @ all_activities bs"
  "all_activities (bs @ cs) = all_activities bs @ all_activities cs"
  by (simp_all add: all_activities_def)

lemma update_last_activity_fields [simp]:
  "map b_after_message (update_last_activity P f bs) = map b_after_message bs"
  "map b_turn_id (update_last_activity P f bs) = map b_turn_id bs"
  by (simp_all add: update_last_activity_def map_update_last)

lemma update_last_activity_all:
  "all_activities (update_last_activity P f bs) = update_last P f (all_activities bs)"
proof (induction bs rule: rev_induct)
  case Nil
  then show ?case by (simp add: update_last_activity_def update_last_def)
next
  case (snoc b bs)
  have split: "update_last P f (xs @ ys) =
      (if list_ex P ys then xs @ update_last P f ys else update_last P f xs @ ys)" for xs ys
  proof (induction ys rule: rev_induct)
    case (snoc y ys)
    then show ?case by (simp add: update_last_append append_assoc [symmetric] del: append_assoc)
  qed simp
  from snoc show ?case
    by (simp add: update_last_activity_def update_last_append split)
qed

lemma update_last_activity_ids:
  "(\<And>a. a_id (f a) = a_id a) \<Longrightarrow>
   map a_id (all_activities (update_last_activity P f bs)) = map a_id (all_activities bs)"
  by (simp add: update_last_activity_all map_update_last)

lemma complete_turn_blocks_fields [simp]:
  "s_turns (complete_turn_blocks s) = s_turns s"
  "s_messages (complete_turn_blocks s) = s_messages s"
  "s_status (complete_turn_blocks s) = s_status s"
  "active_turn_id (complete_turn_blocks s) = active_turn_id s"
  "activity_ids (complete_turn_blocks s) = activity_ids s"
  by (simp_all add: complete_turn_blocks_def active_turn_id_def activity_ids_def all_activities_def
      map_concat comp_def)

lemma complete_turn_blocks_complete:
  "\<forall>a\<in>set (all_activities (s_transcript_blocks (complete_turn_blocks s))). a_complete a"
  by (auto simp: complete_turn_blocks_def all_activities_def)

lemma wf_complete_turn_blocks [inv_intros]:
  "wf_session s \<Longrightarrow> wf_session (complete_turn_blocks s)"
  unfolding wf_session_parts
  by (auto simp: comp_def complete_turn_blocks_def elim!: wf_parts_blocks)

lemma complete_reasoning_fields [simp]:
  "s_turns (complete_reasoning_activity now s) = s_turns s"
  "s_messages (complete_reasoning_activity now s) = s_messages s"
  "s_status (complete_reasoning_activity now s) = s_status s"
  "s_id (complete_reasoning_activity now s) = s_id s"
  "active_turn_id (complete_reasoning_activity now s) = active_turn_id s"
  "activity_ids (complete_reasoning_activity now s) = activity_ids s"
  by (simp_all add: complete_reasoning_activity_def active_turn_id_def activity_ids_def
      update_last_activity_ids)

lemma wf_complete_reasoning [inv_intros]:
  "wf_session s \<Longrightarrow> wf_session (complete_reasoning_activity now s)"
  unfolding wf_session_parts
  by (auto simp: complete_reasoning_activity_def elim!: wf_parts_blocks)

lemma push_activity_fields [simp]:
  "s_turns (push_transcript_activity item c s) = s_turns s"
  "s_messages (push_transcript_activity item c s) = s_messages s"
  "s_status (push_transcript_activity item c s) = s_status s"
  "active_turn_id (push_transcript_activity item c s) = active_turn_id s"
  by (simp_all add: push_transcript_activity_def Let_def active_turn_id_def)

lemma push_activity_all:
  "all_activities (s_transcript_blocks (push_transcript_activity item c s)) =
   all_activities (s_transcript_blocks s) @ [item]"
  by (cases "s_transcript_blocks s" rule: rev_cases)
    (simp_all add: push_transcript_activity_def Let_def)

lemma active_turn_owned: "owned_by (t_id ` set (s_turns s)) (active_turn_id s)"
  using active_turn_id_in [of s] by (cases "active_turn_id s") (auto simp: turn_ids_def)

lemma wf_push_activity [inv_intros]:
  assumes "wf_session s"
  shows "wf_session (push_transcript_activity item c s)"
proof (cases "s_transcript_blocks (push_transcript_activity item c s) =
    map_last (\<lambda>b. b\<lparr>b_activities := b_activities b @ [item]\<rparr>) (s_transcript_blocks s)")
  case True
  with assms show ?thesis
    unfolding wf_session_parts by (auto simp: map_map_last elim!: wf_parts_blocks)
next
  case False
  then have "s_transcript_blocks (push_transcript_activity item c s) = s_transcript_blocks s @
      [\<lparr>b_after_message = length (s_messages s), b_turn_id = active_turn_id s, b_activities = [item]\<rparr>]"
    by (auto simp: push_transcript_activity_def Let_def)
  with assms show ?thesis
    unfolding wf_session_parts by (auto intro!: wf_parts_push_block simp: active_turn_owned)
qed

section \<open>Every event keeps the session well formed\<close>

text \<open>
  The invariant of the fold: the session is well formed and an assistant message is streaming
  exactly while the phase is text, one at a time.
\<close>

definition phase_ok :: "reducer \<Rightarrow> agent_session \<Rightarrow> bool" where
  "phase_ok r s \<longleftrightarrow> only_assistant_streams (s_messages s) \<and>
     streaming_count (s_messages s) = (if r_stream_phase r = Some Phase_Text then 1 else 0)"

definition reducer_ok :: "reducer \<times> agent_session \<Rightarrow> bool" where
  "reducer_ok st \<longleftrightarrow> wf_session (snd st) \<and> phase_ok (fst st) (snd st)"

text \<open>One step that keeps the invariant, and one that does when its identifier is fresh.\<close>

definition keeps :: "reducer \<times> agent_session \<Rightarrow> reducer \<times> agent_session \<Rightarrow> bool" where
  "keeps st st' \<longleftrightarrow> (reducer_ok st \<longrightarrow> reducer_ok st' \<and> session_grows (snd st) (snd st'))"

definition step_ok :: "uuid \<Rightarrow> reducer \<times> agent_session \<Rightarrow> reducer \<times> agent_session \<Rightarrow> bool" where
  "step_ok i st st' \<longleftrightarrow> (i \<notin> set (message_ids (snd st)) \<longrightarrow> keeps st st')"

lemma keepsI:
  "(wf_session s \<Longrightarrow> phase_ok r s \<Longrightarrow> wf_session s' \<and> phase_ok r' s' \<and> session_grows s s') \<Longrightarrow>
   keeps (r, s) (r', s')"
  by (simp add: keeps_def reducer_ok_def)

lemma step_okI:
  "(wf_session s \<Longrightarrow> phase_ok r s \<Longrightarrow> i \<notin> set (message_ids s) \<Longrightarrow>
    wf_session s' \<and> phase_ok r' s' \<and> session_grows s s') \<Longrightarrow> step_ok i (r, s) (r', s')"
  by (simp add: step_ok_def keeps_def reducer_ok_def)

lemma keeps_refl [simp]: "keeps st st" and step_ok_refl [simp]: "step_ok i st st"
  by (simp_all add: step_ok_def keeps_def)

lemma keeps_step_ok: "keeps st st' \<Longrightarrow> step_ok i st st'"
  by (simp add: step_ok_def)

lemma keeps_trans: "keeps a b \<Longrightarrow> keeps b c \<Longrightarrow> keeps a c"
  unfolding keeps_def using session_grows_trans by blast

lemma step_ok_keeps: "step_ok i a b \<Longrightarrow> keeps b c \<Longrightarrow> step_ok i a c"
  unfolding step_ok_def using keeps_trans by blast

lemma keeps_step_ok_trans:
  "keeps (r, s) (r', s') \<Longrightarrow> message_ids s' = message_ids s \<Longrightarrow> step_ok i (r', s') st \<Longrightarrow>
   step_ok i (r, s) st"
  unfolding step_ok_def using keeps_trans by (metis snd_conv)

lemma keeps_frame:
  assumes "s_turns s' = s_turns s" "s_messages s' = s_messages s"
    "s_transcript_blocks s' = s_transcript_blocks s" "r_stream_phase r' = r_stream_phase r"
  shows "keeps (r, s) (r', s')"
  by (rule keepsI)
    (use assms in \<open>simp add: wf_session_parts phase_ok_def session_grows_def activity_ids_def\<close>)

lemma keeps_turns:
  assumes "s_turns s' = map_last f (s_turns s)" "\<And>t. t_id (f t) = t_id t"
    "s_messages s' = s_messages s" "s_transcript_blocks s' = s_transcript_blocks s"
    "r_stream_phase r' = r_stream_phase r"
  shows "keeps (r, s) (r', s')"
proof (rule keepsI)
  assume "wf_session s" "phase_ok r s"
  moreover have "wf_parts (map_last f (s_turns s)) (s_messages s) (s_transcript_blocks s)"
    using \<open>wf_session s\<close> unfolding wf_session_parts
    by (rule wf_parts_turns) (use \<open>wf_session s\<close> in
      \<open>auto simp: map_map_last assms(2) wf_session_def intro: turns_ok_map_last\<close>)
  ultimately show "wf_session s' \<and> phase_ok r' s' \<and> session_grows s s'"
    using assms by (simp add: wf_session_parts phase_ok_def session_grows_def activity_ids_def)
qed

text \<open>A message that does not stream joins the active turn.\<close>

lemma step_ok_push:
  assumes "s_turns s' = s_turns s" "s_messages s' = s_messages s @ [m]"
    "s_transcript_blocks s' = s_transcript_blocks s" "r_stream_phase r' = r_stream_phase r"
    "m_id m = i" "m_turn_id m = active_turn_id s" "\<not> m_streaming m"
  shows "step_ok i (r, s) (r', s')"
proof (rule step_okI)
  assume "wf_session s" "phase_ok r s" "i \<notin> set (message_ids s)"
  with assms show "wf_session s' \<and> phase_ok r' s' \<and> session_grows s s'"
    by (auto simp: wf_session_parts phase_ok_def session_grows_def activity_ids_def message_ids_def
        active_turn_owned intro!: wf_parts_push_message)
qed

lemma message_ids_fields [simp]:
  "message_ids (finish_streaming_assistant s) = message_ids s"
  "message_ids (complete_turn_blocks s) = message_ids s"
  "message_ids (complete_reasoning_activity now s) = message_ids s"
  "message_ids (push_transcript_activity item c s) = message_ids s"
  by (simp_all add: message_ids_def)

subsection \<open>The gate of turn output\<close>

lemma accepts_keeps: "keeps (r, s) (r, fst (accepts_turn_output ctx s))"
  unfolding accepts_turn_output_def session_accepts_turn_output_def Let_def
  by (cases "x_suppress_turn_output ctx"; cases "active_turn_id s = None \<or> \<not> status_is_busy (s_status s)")
    (auto intro!: keeps_turns [where f = "\<lambda>t. if is_running t then t\<lparr>t_provider_turn_started := True\<rparr> else t"]
      simp: mark_active_turn_provider_started_def)

lemma mark_started_active [simp]:
  "active_turn_id (mark_active_turn_provider_started s) = active_turn_id s"
  by (cases "s_turns s" rule: rev_cases)
    (auto simp: active_turn_id_def mark_active_turn_provider_started_def is_running_def)

lemma mark_started_fields [simp]:
  "s_messages (mark_active_turn_provider_started s) = s_messages s"
  "s_transcript_blocks (mark_active_turn_provider_started s) = s_transcript_blocks s"
  "s_status (mark_active_turn_provider_started s) = s_status s"
  "s_id (mark_active_turn_provider_started s) = s_id s"
  by (simp_all add: mark_active_turn_provider_started_def)

lemma active_turn_status [simp]: "active_turn_id (s\<lparr>s_status := st\<rparr>) = active_turn_id s"
  by (simp add: active_turn_id_def)

lemma accepts_fields:
  assumes "accepts_turn_output ctx s = (s', ok)"
  shows "s_messages s' = s_messages s" "s_transcript_blocks s' = s_transcript_blocks s"
    "active_turn_id s' = active_turn_id s" "message_ids s' = message_ids s" "s_id s' = s_id s"
    "ok \<Longrightarrow> active_turn_id s \<noteq> None" "ok \<Longrightarrow> s_status s' \<in> {Working, Waiting}" "\<not> ok \<Longrightarrow> s' = s"
  using assms
  by (cases "s_status s"; auto simp: accepts_turn_output_def session_accepts_turn_output_def Let_def
      message_ids_def split: if_splits)+

subsection \<open>Text\<close>

lemma hd_append_text_delta:
  "hd (append_text_delta_to_session env [s] (s_id s) c d) = text_delta_into env c d s"
  by (simp add: append_text_delta_to_session_def)

definition text_message :: "env \<Rightarrow> rstring \<Rightarrow> agent_session \<Rightarrow> message" where
  "text_message env delta s =
     \<lparr>m_id = e_uuid env, m_turn_id = active_turn_id s, m_role = Assistant, m_content = delta,
      m_display_content = None, m_attachments = [], m_created_at = e_secs env 1, m_streaming = True\<rparr>"

lemma text_delta_new:
  "s_messages (text_delta_into env False d s) =
     s_messages (finish_streaming_assistant s) @ [text_message env d s]"
  by (simp add: text_delta_into_def text_message_def message_new_for_turn_def message_new_def Let_def
      split: option.split)

lemma text_delta_continue:
  "list_ex streaming_assistant (s_messages s) \<Longrightarrow>
   s_messages (text_delta_into env True d s) =
     update_last streaming_assistant (\<lambda>m. m\<lparr>m_content := m_content m @ d\<rparr>) (s_messages s)"
  by (simp add: text_delta_into_def)

lemma text_delta_fields [simp]:
  "s_turns (text_delta_into env c d s) = s_turns s"
  "s_transcript_blocks (text_delta_into env c d s) = s_transcript_blocks s"
  "s_status (text_delta_into env c d s) = s_status s"
  "s_id (text_delta_into env c d s) = s_id s"
  "active_turn_id (text_delta_into env c d s) = active_turn_id s"
  by (auto simp: text_delta_into_def Let_def finish_streaming_assistant_def active_turn_id_def)

lemma messages_grow_update_last:
  "(\<And>m. message_grows m (f m)) \<Longrightarrow> messages_grow ms (update_last P f ms)"
proof (rule messages_grow_list_all2)
  assume f: "\<And>m. message_grows m (f m)"
  show "list_all2 message_grows ms (update_last P f ms)"
    by (induction ms rule: rev_induct)
      (auto simp: update_last_append f list_all2_appendI list_all2_refl update_last_def)
qed

lemma update_last_streaming:
  "streaming_count (update_last P (\<lambda>m. m\<lparr>m_content := g m\<rparr>) ms) = streaming_count ms \<and>
   only_assistant_streams (update_last P (\<lambda>m. m\<lparr>m_content := g m\<rparr>) ms) = only_assistant_streams ms"
  by (induction ms rule: rev_induct) (auto simp: update_last_append update_last_def)

lemma wf_session_pushI:
  assumes "wf_session u" "s_turns s = s_turns u" "s_transcript_blocks s = s_transcript_blocks u"
    "s_messages s = s_messages u @ [m]" "m_id m \<notin> set (message_ids u)" "m_turn_id m = active_turn_id u"
  shows "wf_session s"
  using assms by (auto simp: wf_session_parts message_ids_def active_turn_owned
      intro!: wf_parts_push_message)

lemma append_text_delta_step:
  "step_ok (e_uuid env) (r, s) (append_text_delta env d r s)"
proof -
  let ?s0 = "if r_stream_phase r = Some Phase_Reasoning
    then complete_reasoning_activity (e_secs env 0) s else s"
  let ?c = "r_stream_phase r = Some Phase_Text"
  have eq: "append_text_delta env d r s =
      (r\<lparr>r_stream_phase := Some Phase_Text\<rparr>, text_delta_into env ?c d ?s0)"
    unfolding append_text_delta_def Let_def hd_append_text_delta [symmetric] by (auto)
  have s0: "s_turns ?s0 = s_turns s" "s_messages ?s0 = s_messages s" "wf_session s \<Longrightarrow> wf_session ?s0"
    "activity_ids ?s0 = activity_ids s" "active_turn_id ?s0 = active_turn_id s"
    by (auto intro: wf_complete_reasoning)
  show ?thesis
  proof (unfold eq, rule step_okI)
    assume wf: "wf_session s" and ph: "phase_ok r s" and fresh: "e_uuid env \<notin> set (message_ids s)"
    have ids: "activity_ids (text_delta_into env ?c d ?s0) = activity_ids ?s0"
      by (simp add: activity_ids_def)
    show "wf_session (text_delta_into env ?c d ?s0) \<and>
        phase_ok (r\<lparr>r_stream_phase := Some Phase_Text\<rparr>) (text_delta_into env ?c d ?s0) \<and>
        session_grows s (text_delta_into env ?c d ?s0)"
    proof (cases ?c)
      case True
      with ph have ex: "list_ex streaming_assistant (s_messages s)"
        by (intro streaming_exists) (simp_all add: phase_ok_def)
      then show ?thesis
        using True wf ph by (auto simp: wf_session_parts phase_ok_def session_grows_def activity_ids_def
            text_delta_continue update_last_streaming map_update_last message_grows_def
            intro!: messages_grow_update_last elim!: wf_parts_messages)
    next
      case False
      note fin = finish_streaming_count [of ?s0]
      have "wf_session (finish_streaming_assistant ?s0)" by (intro wf_finish_streaming s0(3) wf)
      then have "wf_session (text_delta_into env False d ?s0)"
        by (rule wf_session_pushI [OF _ _ _ text_delta_new])
          (use fresh in \<open>simp_all add: text_message_def\<close>)
      moreover have "messages_grow (s_messages s) (s_messages (text_delta_into env False d ?s0))"
        using finish_streaming_grows [of ?s0] messages_grow_trans [OF _ messages_grow_append]
        by (simp add: text_delta_new session_grows_def s0)
      ultimately show ?thesis
        using fin ph False ids s0 by (simp add: phase_ok_def session_grows_def text_delta_new text_message_def)
    qed
  qed
qed

subsection \<open>Reasoning and activities\<close>

lemma map_last_activity_fields:
  assumes "\<And>a. a_id (f a) = a_id a"
  shows "map b_after_message (map_last (\<lambda>b. b\<lparr>b_activities := map_last f (b_activities b)\<rparr>) bs) =
      map b_after_message bs"
    and "map b_turn_id (map_last (\<lambda>b. b\<lparr>b_activities := map_last f (b_activities b)\<rparr>) bs) = map b_turn_id bs"
    and "map a_id (all_activities (map_last (\<lambda>b. b\<lparr>b_activities := map_last f (b_activities b)\<rparr>) bs)) =
      map a_id (all_activities bs)"
  by (cases bs rule: rev_cases; simp add: map_map_last assms)+

lemma keeps_blocks:
  assumes "s_turns s' = s_turns s" "s_messages s' = s_messages u"
    and "u = s \<and> r_stream_phase r \<noteq> Some Phase_Text \<or> u = finish_streaming_assistant s"
    and "wf_session s \<Longrightarrow> wf_session s'" "prefix (activity_ids s) (activity_ids s')"
    and "r_stream_phase r' \<noteq> Some Phase_Text"
  shows "keeps (r, s) (r', s')"
proof (rule keepsI)
  assume "wf_session s" "phase_ok r s"
  moreover have "messages_grow (s_messages s) (s_messages u)"
    using assms(3) finish_streaming_grows [of s] by (auto simp: session_grows_def)
  moreover have "only_assistant_streams (s_messages u) \<and> streaming_count (s_messages u) = 0"
    using assms(3) \<open>phase_ok r s\<close> finish_streaming_count [of s]
    by (auto simp: phase_ok_def)
  ultimately show "wf_session s' \<and> phase_ok r' s' \<and> session_grows s s'"
    using assms by (simp add: phase_ok_def session_grows_def)
qed

lemma activity_ids_push [simp]:
  "activity_ids (push_transcript_activity item c s) = activity_ids s @ [a_id item]"
  by (simp add: activity_ids_def push_activity_all)

lemma activity_ids_finish [simp]: "activity_ids (finish_streaming_assistant s) = activity_ids s"
  by (simp add: activity_ids_def)

lemma wf_updated_at [simp]: "wf_session (s\<lparr>s_updated_at := t\<rparr>) = wf_session s"
  by (simp add: wf_session_parts)

lemma activity_ids_updated_at [simp]: "activity_ids (s\<lparr>s_updated_at := t\<rparr>) = activity_ids s"
  by (simp add: activity_ids_def)

lemma append_reasoning_delta_keeps:
  assumes "append_reasoning_delta L env d r s = (r', s', entered)"
  shows "keeps (r, s) (r', s')"
proof (cases "r_stream_phase r \<noteq> Some Phase_Reasoning \<and> trim d = []")
  case True
  with assms show ?thesis by (simp add: append_reasoning_delta_def)
next
  case False
  let ?c = "r_stream_phase r = Some Phase_Reasoning"
  let ?u = "if ?c then s else finish_streaming_assistant s"
  from False assms have r': "r_stream_phase r' = Some Phase_Reasoning"
    by (auto simp: append_reasoning_delta_def Let_def)
  let ?f = "\<lambda>a. a\<lparr>a_reasoning := map_option (\<lambda>r.
      r\<lparr>rb_content := rb_content r @ d, rb_finished_at_ms := e_millis env\<rparr>) (a_reasoning a)\<rparr>"
  have id: "a_id (?f a) = a_id a" for a by simp
  note mf = map_last_activity_fields [where f = ?f, OF id]
  consider (extend) "s' = s\<lparr>s_transcript_blocks := map_last (\<lambda>b. b\<lparr>b_activities :=
        map_last ?f (b_activities b)\<rparr>) (s_transcript_blocks s), s_updated_at := e_secs env 0\<rparr>" "?c"
    | (push) item c where "s' = (push_transcript_activity item c ?u)\<lparr>s_updated_at := e_secs env 0\<rparr>"
    using False assms by (fastforce simp: append_reasoning_delta_def Let_def split: option.splits if_splits)
  then show ?thesis
  proof cases
    case extend
    show ?thesis
      by (rule keeps_blocks [where u = s])
        (use extend r' in \<open>auto simp: wf_session_parts activity_ids_def mf elim: wf_parts_blocks\<close>)
  next
    case push
    show ?thesis
      by (rule keeps_blocks [where u = ?u])
        (use push r' in \<open>auto intro: wf_push_activity wf_finish_streaming\<close>)
  qed
qed

lemma merge_activity_id [simp]: "a_id (merge_activity item a) = a_id a"
  by (simp add: merge_activity_def Let_def)

lemma wf_update_last_activity:
  assumes "wf_session u"
  shows "wf_session (u\<lparr>s_transcript_blocks := update_last_activity P f (s_transcript_blocks u),
    s_updated_at := t\<rparr>)"
  using assms wf_parts_blocks [of _ _ "s_transcript_blocks u"] by (simp add: wf_session_parts)

lemma apply_activity_keeps:
  assumes "apply_activity env ctx item r s = (r', s', rd)"
  shows "keeps (r, s) (r', s')"
proof -
  obtain s0 ok where acc: "accepts_turn_output ctx s = (s0, ok)" by fastforce
  have first: "keeps (r, s) (r, s0)" using accepts_keeps [of r s ctx] acc by simp
  have "keeps (r, s0) (r', s')"
  proof (cases ok)
    case False
    with assms acc show ?thesis by (simp add: apply_activity_def)
  next
    case True
    let ?u = "if r_stream_phase r = Some Phase_Text then finish_streaming_assistant s0 else s0"
    let ?v = "if r_stream_phase r = Some Phase_Reasoning
      then complete_reasoning_activity (e_secs env 0) ?u else ?u"
    from True assms acc have r': "r_stream_phase r' = Some Phase_Activity"
      by (auto simp: apply_activity_def Let_def split: option.splits)
    have v: "s_turns ?v = s_turns s0" "s_messages ?v = s_messages ?u" "activity_ids ?v = activity_ids s0"
      "wf_session s0 \<Longrightarrow> wf_session ?v"
      by (auto intro: wf_complete_reasoning wf_finish_streaming)
    consider (merge) "s' = ?v\<lparr>s_transcript_blocks := update_last_activity (activity_matches item)
          (merge_activity item) (s_transcript_blocks ?v), s_updated_at := e_secs env 1\<rparr>"
      | (push) c where "s' = (push_transcript_activity item c ?v)\<lparr>s_updated_at := e_secs env 1\<rparr>"
      using True assms acc by (fastforce simp: apply_activity_def Let_def split: option.splits)
    then show ?thesis
    proof cases
      case merge
      have "activity_ids s' = activity_ids ?v"
        unfolding merge by (simp add: activity_ids_def update_last_activity_ids)
      moreover have "wf_session s'" if "wf_session ?v"
        using that unfolding merge by (rule wf_update_last_activity)
      ultimately show ?thesis
        using v r' by (intro keeps_blocks [where u = ?u]) (auto simp: merge)
    next
      case push
      with v r' show ?thesis
        by (intro keeps_blocks [where u = ?u]) (auto intro!: wf_push_activity)
    qed
  qed
  with first show ?thesis by (rule keeps_trans)
qed

subsection \<open>Turns that end\<close>

lemma finish_active_turn_keeps: "keeps (r, s) (r, fst (finish_active_turn now st s))"
proof (cases "opt_filter is_running (last_opt (s_turns s))")
  case None
  then show ?thesis by (simp add: finish_active_turn_def)
next
  case (Some t)
  then show ?thesis
    by (intro keeps_turns [where f = "\<lambda>t. t\<lparr>t_status := st, t_completed_at := Some now\<rparr>"])
      (simp_all add: finish_active_turn_def)
qed

lemma push_message_step: "step_ok i (r, s) (r, push_message i now Assistant text s)"
  by (rule step_ok_push [where m = "message_new i now Assistant text\<lparr>m_turn_id := active_turn_id s\<rparr>"])
    (auto simp: push_message_def message_new_def message_new_for_turn_def split: option.split)

text \<open>The transcript settled: nothing streams and every activity is complete.\<close>

definition settled :: "agent_session \<Rightarrow> agent_session" where
  "settled s = complete_turn_blocks (finish_streaming_assistant s)"

lemma settled_fields [simp]:
  "s_turns (settled s) = s_turns s" "s_status (settled s) = s_status s"
  "active_turn_id (settled s) = active_turn_id s" "message_ids (settled s) = message_ids s"
  by (simp_all add: settled_def)

lemma settled_keeps: "keeps (r, s) (reducer_reset r, settled s)"
proof (rule keepsI)
  assume "wf_session s" "phase_ok r s"
  then show "wf_session (settled s) \<and> phase_ok (reducer_reset r) (settled s) \<and> session_grows s (settled s)"
    using finish_streaming_count [of s] finish_streaming_grows [of s]
    by (simp add: settled_def phase_ok_def reducer_reset_def session_grows_def
        wf_complete_turn_blocks wf_finish_streaming)
qed

text \<open>What ends a turn: the status, the fallback message if one is needed, the turn's own end.\<close>

definition end_turn ::
    "env \<Rightarrow> nat \<Rightarrow> rstring \<Rightarrow> turn_status \<Rightarrow> agent_session \<Rightarrow> agent_session \<times> (uuid \<times> nat) option" where
  "end_turn env k text status s =
     finish_active_turn (e_secs env (Suc k)) status
       (if active_turn_has_assistant_message s then s
        else push_message (e_uuid env) (e_secs env k) Assistant text s)"

lemma end_turn_step: "step_ok (e_uuid env) (r, s) (r, fst (end_turn env k text st s))"
  using step_ok_keeps [OF push_message_step finish_active_turn_keeps]
    keeps_step_ok [OF finish_active_turn_keeps]
  by (simp add: end_turn_def)

subsection \<open>An accepted turn\<close>

text \<open>What adoption keeps of a message.\<close>

definition message_core :: "message \<Rightarrow> message_role \<times> rstring \<times> bool" where
  "message_core m = (m_role m, m_content m, m_streaming m)"

text \<open>Old messages stay, up to their identifiers; new ones do not stream.\<close>

definition extends_cores :: "message list \<Rightarrow> message list \<Rightarrow> bool" where
  "extends_cores ms ns \<longleftrightarrow> (\<exists>ks. map message_core ns = map message_core ms @ map message_core ks \<and>
     (\<forall>k\<in>set ks. \<not> m_streaming k))"

lemma extends_cores_refl [simp]: "extends_cores ms ms"
  by (auto simp: extends_cores_def intro!: exI [of _ "[]"])

lemma extends_cores_snoc: "extends_cores ms ns \<Longrightarrow> \<not> m_streaming m \<Longrightarrow> extends_cores ms (ns @ [m])"
proof -
  assume "extends_cores ms ns" and m: "\<not> m_streaming m"
  then obtain ks where "map message_core ns = map message_core ms @ map message_core ks"
    "\<forall>k\<in>set ks. \<not> m_streaming k" by (auto simp: extends_cores_def)
  with m show ?thesis unfolding extends_cores_def by (intro exI [of _ "ks @ [m]"]) auto
qed

lemma extends_cores_map: "extends_cores ms ns \<Longrightarrow> map message_core ps = map message_core ns \<Longrightarrow>
  extends_cores ms ps"
  by (simp add: extends_cores_def)

lemma map_list_update_same: "i < length xs \<Longrightarrow> f y = f (xs ! i) \<Longrightarrow> map f (xs[i := y]) = map f xs"
  by (simp add: map_update list_update_same_conv)

lemma extends_cores_streaming:
  assumes "extends_cores ms ns"
  shows "streaming_count ns = streaming_count ms"
    and "only_assistant_streams ms \<Longrightarrow> only_assistant_streams ns" and "messages_grow ms ns"
proof -
  obtain ks where eq: "map message_core ns = map message_core (ms @ ks)" and ks: "\<forall>k\<in>set ks. \<not> m_streaming k"
    using assms by (auto simp: extends_cores_def)
  have count: "streaming_count xs = length (filter (\<lambda>c. snd (snd c)) (map message_core xs))" for xs
    by (induction xs) (auto simp: message_core_def)
  have only: "only_assistant_streams xs \<longleftrightarrow>
      (\<forall>c\<in>set (map message_core xs). snd (snd c) \<longrightarrow> fst c = Assistant)" for xs
    by (auto simp: only_assistant_streams_def message_core_def)
  have "streaming_count ks = 0" using ks by (auto simp: streaming_count_def filter_empty_conv)
  then show "streaming_count ns = streaming_count ms"
    using eq count [of ns] count [of "ms @ ks"] by simp
  have "only_assistant_streams ks" using ks by (auto simp: only_assistant_streams_def)
  then show "only_assistant_streams ms \<Longrightarrow> only_assistant_streams ns"
    using eq only [of ns] only [of "ms @ ks"] by simp
  show "messages_grow ms ns"
  proof -
    have len: "length ns = length ms + length ks" using eq by (metis length_append length_map)
    moreover have "message_core (ns ! i) = message_core (ms ! i)" if "i < length ms" for i
      using that len eq by (metis length_append length_map nth_append nth_map trans_less_add1)
    ultimately show ?thesis by (auto simp: messages_grow_def message_grows_def message_core_def)
  qed
qed

definition adopting :: "uuid set \<Rightarrow> message list \<Rightarrow> message list \<times> nat list \<Rightarrow> bool" where
  "adopting I ms0 st \<longleftrightarrow> (case st of (ms, available) \<Rightarrow>
     distinct (map m_id ms) \<and> (\<forall>i\<in>set available. i < length ms) \<and>
     (\<forall>i<length ms. i \<in> set available \<or> owned_by I (m_turn_id (ms ! i))) \<and> extends_cores ms0 ms)"

lemma remove_nth_other:
  assumes "x \<in> set xs" "x \<noteq> xs ! p"
  shows "x \<in> set (remove_nth p xs)"
proof (cases "p < length xs")
  case True
  have "xs = take p xs @ xs ! p # drop (Suc p) xs" by (rule id_take_nth_drop [OF True])
  then have "set xs = insert (xs ! p) (set (take p xs) \<union> set (drop (Suc p) xs))"
    by (metis Un_insert_right list.simps(15) set_append)
  with assms show ?thesis by (simp add: remove_nth_def)
next
  case False
  with assms show ?thesis by (simp add: remove_nth_def)
qed

lemma list_ex_message_id: "list_ex (\<lambda>e. m_id e = i) ms \<longleftrightarrow> i \<in> m_id ` set ms"
  by (metis (mono_tags, lifting) image_iff list_ex_iff)

lemma list_ex_turn_id: "list_ex (\<lambda>t. t_id t = i) ts \<longleftrightarrow> i \<in> t_id ` set ts"
  by (metis (mono_tags, lifting) image_iff list_ex_iff)

lemma remove_nth_subset: "set (remove_nth p xs) \<subseteq> set xs"
  by (auto simp: remove_nth_def dest: in_set_takeD in_set_dropD)

lemma adopt_message_adopting:
  assumes "adopting I ms0 st" "tid \<in> I" "m_turn_id m = Some tid" "\<not> m_streaming m"
  shows "adopting I ms0 (adopt_message tid st m)"
proof (cases st)
  case (Pair ms av)
  show ?thesis
  proof (cases "list_ex (\<lambda>e. m_id e = m_id m) ms")
    case True
    with assms(1) Pair show ?thesis by (simp add: adopt_message_def)
  next
    case False
    then have fresh: "m_id m \<notin> set (map m_id ms)" by (auto simp: list_ex_iff)
    show ?thesis
    proof (cases "position (\<lambda>i. m_role (ms ! i) = m_role m) av")
      case None
      then show ?thesis
        using assms False fresh Pair
        by (auto simp: adopting_def adopt_message_def nth_append less_Suc_eq extends_cores_snoc)
    next
      case (Some p)
      let ?i = "av ! p" and ?ms = "ms[av ! p := (ms ! (av ! p))\<lparr>m_id := m_id m, m_turn_id := Some tid\<rparr>]"
      from position_Some [OF Some] have p: "p < length av" by simp
      then have i: "?i < length ms" using assms(1) Pair by (auto simp: adopting_def)
      have "adopt_message tid st m = (?ms, remove_nth p av)"
        using Some False Pair by (simp add: adopt_message_def Let_def)
      moreover have "map m_id ?ms = (map m_id ms)[?i := m_id m]" by (simp add: map_update)
      moreover have "distinct ((map m_id ms)[?i := m_id m])"
        using assms(1) Pair fresh by (auto simp: adopting_def intro!: distinct_list_update)
      moreover have "map message_core ?ms = map message_core ms"
        by (rule map_list_update_same [OF i]) (simp add: message_core_def)
      moreover have "\<forall>j<length ms. j \<in> set (remove_nth p av) \<or> owned_by I (m_turn_id (?ms ! j))"
        using assms(1,2) Pair i by (auto simp: adopting_def nth_list_update intro: remove_nth_other)
      ultimately show ?thesis
        using assms(1) Pair remove_nth_subset [of p av] by (auto simp: adopting_def extends_cores_map)
    qed
  qed
qed

lemma own_messages_all:
  assumes "\<forall>i\<in>set av. i < length ms"
  shows "map m_id (own_messages tid av ms) = map m_id ms"
    and "map message_core (own_messages tid av ms) = map message_core ms"
    and "i < length ms \<Longrightarrow> m_turn_id (own_messages tid av ms ! i) =
      (if i \<in> set av then Some tid else m_turn_id (ms ! i))"
  using assms
proof (induction av arbitrary: ms)
  case Nil
  { case 1 show ?case by (simp add: own_messages_def) next
    case 2 show ?case by (simp add: own_messages_def) next
    case 3 show ?case by (simp add: own_messages_def) }
next
  case (Cons a av)
  let ?u = "\<lambda>ms :: message list. ms[a := (ms ! a)\<lparr>m_turn_id := Some tid\<rparr>]"
  have step: "own_messages tid (a # av) ms = own_messages tid av (?u ms)" for ms
    by (simp add: own_messages_def)
  have same: "map m_id (?u ms) = map m_id ms" "map message_core (?u ms) = map message_core ms"
    if "a < length ms" for ms
    using that map_list_update_same [where f = m_id, OF that]
      map_list_update_same [where f = message_core, OF that] by (simp_all add: message_core_def)
  { case (1 ms) with Cons.IH(1) [of "?u ms"] same(1) [of ms] show ?case by (simp add: step)
  next
    case (2 ms) with Cons.IH(2) [of "?u ms"] same(2) [of ms] show ?case by (simp add: step)
  next
    case (3 ms) with Cons.IH(3) [of "?u ms"] show ?case by (auto simp: step nth_list_update) }
qed

text \<open>A turn the daemon may announce: its messages belong to it and it can become the newest.\<close>

definition accept_ok :: "uuid \<Rightarrow> agent_turn \<Rightarrow> message list \<Rightarrow> agent_session \<Rightarrow> bool" where
  "accept_ok submission_id turn messages s \<longleftrightarrow>
     list_all (\<lambda>m. m_turn_id m = Some (t_id turn) \<and> \<not> m_streaming m) messages \<and>
     (t_id turn \<in> set (turn_ids s) \<or> provisional_turn submission_id turn s \<noteq> None \<or>
      active_turn_id s = None)"

lemma accept_remote_turn_parts:
  "s_turns (accept_remote_turn sub turn ms s) =
     (case provisional_turn sub turn s of
        Some k \<Rightarrow> (s_turns s)[k := turn]
      | None \<Rightarrow> if list_ex (\<lambda>t. t_id t = t_id turn) (s_turns s) then s_turns s else s_turns s @ [turn])"
  "s_messages (accept_remote_turn sub turn ms s) =
     (case provisional_turn sub turn s of
        Some k \<Rightarrow> (case foldl (adopt_message (t_id turn)) (s_messages s,
            filter (\<lambda>i. m_turn_id (s_messages s ! i) = Some (t_id (s_turns s ! k)))
              [0..<length (s_messages s)]) ms of (ns, av) \<Rightarrow> own_messages (t_id turn) av ns)
      | None \<Rightarrow> foldl push_new_message (s_messages s) ms)"
  "s_transcript_blocks (accept_remote_turn sub turn ms s) =
     (case provisional_turn sub turn s of
        Some k \<Rightarrow> map (\<lambda>b. if b_turn_id b = Some (t_id (s_turns s ! k))
           then b\<lparr>b_turn_id := Some (t_id turn)\<rparr> else b) (s_transcript_blocks s)
      | None \<Rightarrow> s_transcript_blocks s)"
  by (simp_all add: accept_remote_turn_def Let_def split: option.split prod.split)

lemma provisional_turn_Some:
  assumes "provisional_turn sub turn s = Some k" "turns_ok (s_turns s)"
  shows "k < length (s_turns s)" "Suc k = length (s_turns s)" "t_id turn \<notin> t_id ` set (s_turns s)"
    "t_id (s_turns s ! k) = sub" "is_running (s_turns s ! k)"
proof -
  have pos: "position (\<lambda>t. t_id t = sub \<and> t_status t = Running) (s_turns s) = Some k"
    and "t_id turn \<notin> t_id ` set (s_turns s)"
    using assms(1) by (auto simp: provisional_turn_def list_ex_turn_id split: if_splits)
  from position_Some [OF pos] show k: "k < length (s_turns s)" "t_id (s_turns s ! k) = sub"
    and run: "is_running (s_turns s ! k)" by (auto simp: is_running_def)
  show "t_id turn \<notin> t_id ` set (s_turns s)" by fact
  show "Suc k = length (s_turns s)"
  proof (rule ccontr)
    assume "Suc k \<noteq> length (s_turns s)"
    with k have "s_turns s ! k \<in> set (butlast (s_turns s))"
      by (auto simp: in_set_conv_nth nth_butlast intro!: exI [of _ k])
    with assms(2) run show False by (auto simp: turns_ok_def)
  qed
qed

lemma wf_adopted:
  assumes wf: "wf_parts ts ms bs" and k: "Suc k = length ts" and new: "t_id turn \<notin> t_id ` set ts"
    and msgs: "\<forall>m\<in>set ns. m_turn_id m = Some (t_id turn) \<and> \<not> m_streaming m"
    and fold: "foldl (adopt_message (t_id turn)) (ms,
      filter (\<lambda>i. m_turn_id (ms ! i) = Some (t_id (ts ! k))) [0..<length ms]) ns = (ps, av)"
  shows "wf_parts (ts[k := turn]) (own_messages (t_id turn) av ps)
      (map (\<lambda>b. if b_turn_id b = Some (t_id (ts ! k)) then b\<lparr>b_turn_id := Some (t_id turn)\<rparr> else b) bs) \<and>
    extends_cores ms (own_messages (t_id turn) av ps)"
proof -
  let ?ts = "ts[k := turn]" and ?pid = "t_id (ts ! k)"
  let ?I = "t_id ` set ?ts"
  have kl: "k < length ts" using k by simp
  have upd: "?ts = butlast ts @ [turn]" and old: "ts = butlast ts @ [ts ! k]"
    using k by (metis append_butlast_last_id butlast_list_update diff_Suc_1 last_conv_nth length_0_conv
        list_update_append1 nat.simps(3) length_list_update last_list_update)
      (metis append_butlast_last_id diff_Suc_1 k last_conv_nth length_0_conv nat.simps(3))
  have "t_id ` set ts = insert ?pid (t_id ` set (butlast ts))" by (subst old) simp
  moreover have I: "?I = insert (t_id turn) (t_id ` set (butlast ts))" by (simp add: upd)
  ultimately have own: "owned_by ?I x" if "owned_by (t_id ` set ts) x" "x \<noteq> Some ?pid" for x
    using that by (cases x) auto
  have tok: "turns_ok ?ts"
  proof -
    have "turns_ok (butlast ts @ [ts ! k])" using wf old by (simp add: wf_parts_def)
    moreover have "t_id turn \<notin> t_id ` set (butlast ts)" using new by (auto dest: in_set_butlastD)
    ultimately show ?thesis by (simp add: upd turns_ok_def)
  qed
  have "\<forall>i<length ms. m_turn_id (ms ! i) = Some ?pid \<or> owned_by ?I (m_turn_id (ms ! i))"
    using wf own by (metis messages_ok_def nth_mem wf_parts_def)
  then have "adopting ?I ms (ms, filter (\<lambda>i. m_turn_id (ms ! i) = Some ?pid) [0..<length ms])"
    using wf by (auto simp: adopting_def wf_parts_def messages_ok_def)
  then have "adopting ?I ms (foldl (adopt_message (t_id turn)) (ms,
      filter (\<lambda>i. m_turn_id (ms ! i) = Some ?pid) [0..<length ms]) ns)"
  proof (rule foldl_inv)
    fix st m assume "m \<in> set ns" "adopting ?I ms st"
    with msgs I show "adopting ?I ms (adopt_message (t_id turn) st m)"
      by (intro adopt_message_adopting) auto
  qed
  then have "adopting ?I ms (ps, av)" by (simp only: fold)
  then have ad: "distinct (map m_id ps)" "\<forall>i\<in>set av. i < length ps"
    "\<forall>i<length ps. i \<in> set av \<or> owned_by ?I (m_turn_id (ps ! i))" "extends_cores ms ps"
    by (auto simp: adopting_def)
  note all = own_messages_all [OF ad(2), where tid = "t_id turn"]
  have len: "length (own_messages (t_id turn) av ps) = length ps" using all(1) by (metis length_map)
  have "\<forall>i<length ps. owned_by ?I (m_turn_id (own_messages (t_id turn) av ps ! i))"
    using ad(3) I by (auto simp: all(3))
  then have "messages_ok ?I (own_messages (t_id turn) av ps)"
    using ad(1) unfolding messages_ok_def all(1) by (auto simp: in_set_conv_nth len)
  moreover have ext: "extends_cores ms (own_messages (t_id turn) av ps)"
    by (rule extends_cores_map [OF ad(4) all(2)])
  moreover have "blocks_ok ?I (length ps) (map (\<lambda>b. if b_turn_id b = Some ?pid
      then b\<lparr>b_turn_id := Some (t_id turn)\<rparr> else b) bs)"
  proof -
    let ?f = "\<lambda>b. if b_turn_id b = Some ?pid then b\<lparr>b_turn_id := Some (t_id turn)\<rparr> else b"
    have eq: "map b_after_message (map ?f bs) = map b_after_message bs" by auto
    have "length ms \<le> length ps"
      using extends_cores_streaming(3) [OF ad(4)] by (simp add: messages_grow_def)
    moreover have "sorted (map b_after_message bs)" "\<forall>b\<in>set bs. b_after_message b \<le> length ms"
      "\<forall>b\<in>set bs. owned_by (t_id ` set ts) (b_turn_id b)"
      using wf by (simp_all add: blocks_ok_def wf_parts_def)
    ultimately have "\<forall>b\<in>set (map ?f bs). b_after_message b \<le> length ps \<and> owned_by ?I (b_turn_id b)"
      using own I by (auto intro: order_trans)
    then show ?thesis
      unfolding blocks_ok_def eq using \<open>sorted (map b_after_message bs)\<close> by blast
  qed
  ultimately show ?thesis using tok by (simp add: wf_parts_def len)
qed

lemma push_new_messages:
  assumes "messages_ok I ms" "I \<subseteq> J" "tid \<in> J"
    and "\<forall>m\<in>set ns. m_turn_id m = Some tid \<and> \<not> m_streaming m"
  shows "messages_ok J (foldl push_new_message ms ns) \<and> extends_cores ms (foldl push_new_message ms ns)"
proof (rule foldl_inv)
  show "messages_ok J ms \<and> extends_cores ms ms"
    using assms by (auto simp: messages_ok_def intro: owned_by_mono)
next
  fix ps m assume m: "m \<in> set ns" and ok: "messages_ok J ps \<and> extends_cores ms ps"
  then show "messages_ok J (push_new_message ps m) \<and> extends_cores ms (push_new_message ps m)"
    using assms(3,4) by (auto simp: push_new_message_def list_ex_message_id
        intro!: messages_ok_snoc [of J _ J] extends_cores_snoc)
qed

lemma accept_remote_turn_keeps:
  assumes ok: "accept_ok sub turn ms s"
  shows "keeps (r, s) (r, accept_remote_turn sub turn ms s)"
proof (rule keepsI)
  let ?t = "accept_remote_turn sub turn ms s"
  assume wf: "wf_session s" and ph: "phase_ok r s"
  have msgs: "\<forall>m\<in>set ms. m_turn_id m = Some (t_id turn) \<and> \<not> m_streaming m"
    using ok by (auto simp: accept_ok_def list_all_iff)
  have "wf_session ?t \<and> extends_cores (s_messages s) (s_messages ?t) \<and>
      activity_ids ?t = activity_ids s \<and> length (s_turns s) \<le> length (s_turns ?t)"
  proof (cases "provisional_turn sub turn s")
    case (Some k)
    have tok: "turns_ok (s_turns s)" using wf by (simp add: wf_session_def)
    note p = provisional_turn_Some [OF Some tok]
    obtain ps av where fold: "foldl (adopt_message (t_id turn)) (s_messages s,
        filter (\<lambda>i. m_turn_id (s_messages s ! i) = Some (t_id (s_turns s ! k)))
          [0..<length (s_messages s)]) ms = (ps, av)" by fastforce
    have "map a_id (all_activities (map (\<lambda>b. if b_turn_id b = Some x then b\<lparr>b_turn_id := y\<rparr> else b) bs)) =
        map a_id (all_activities bs)" for x y bs by (induction bs) auto
    with wf_adopted [OF wf [unfolded wf_session_parts] p(2,3) msgs fold] Some show ?thesis
      by (simp add: wf_session_parts accept_remote_turn_parts fold activity_ids_def)
  next
    case None
    let ?ts = "if list_ex (\<lambda>t. t_id t = t_id turn) (s_turns s) then s_turns s else s_turns s @ [turn]"
    have sub: "t_id ` set (s_turns s) \<subseteq> t_id ` set ?ts" "t_id turn \<in> t_id ` set ?ts"
      by (auto simp: list_ex_turn_id)
    have "turns_ok ?ts"
      using wf ok None by (auto simp: wf_session_def accept_ok_def turn_ids_def list_ex_turn_id
          active_turn_id_None intro!: turns_ok_snoc)
    moreover note push_new_messages [OF _ sub msgs, of "s_messages s"]
    moreover have "blocks_ok (t_id ` set ?ts) (length (foldl push_new_message (s_messages s) ms))
        (s_transcript_blocks s)"
    proof -
      have "prefix (s_messages s) (foldl push_new_message (s_messages s) ms)"
        by (rule foldl_inv) (auto simp: push_new_message_def)
      then show ?thesis
        using wf sub(1) by (auto simp: wf_session_parts wf_parts_def elim!: blocks_ok_mono
            dest: prefix_length_le)
    qed
    ultimately show ?thesis
      using wf None by (simp add: wf_session_parts wf_parts_def accept_remote_turn_parts activity_ids_def)
  qed
  with ph extends_cores_streaming [of "s_messages s" "s_messages ?t"]
  show "wf_session ?t \<and> phase_ok r ?t \<and> session_grows s ?t"
    by (simp add: phase_ok_def session_grows_def)
qed

subsection \<open>The fold\<close>

type_synonym fold_event = "env \<times> reduce_context \<times> driver_event"

definition reducer_step ::
    "lib \<Rightarrow> reducer \<times> agent_session \<Rightarrow> fold_event \<Rightarrow> reducer \<times> agent_session" where
  "reducer_step L st e = (case (st, e) of ((r, s), (env, ctx, ev)) \<Rightarrow>
     case reducer_apply L env r s ev ctx of (r', s', _) \<Rightarrow> (r', s'))"

definition event_ok :: "reducer \<times> agent_session \<Rightarrow> fold_event \<Rightarrow> bool" where
  "event_ok st e = (case e of (env, ctx, ev) \<Rightarrow>
     e_uuid env \<notin> set (message_ids (snd st)) \<and>
     (case ev of TurnAccepted sub turn ms \<Rightarrow> accept_ok sub turn ms (snd st) | _ \<Rightarrow> True))"

lemma reducer_step_simps [simp]:
  "reducer_step L (r, s) (env, ctx, ev) =
     (case reducer_apply L env r s ev ctx of (r', s', _) \<Rightarrow> (r', s'))"
  by (simp add: reducer_step_def)

lemma has_assistant_status [simp]:
  "active_turn_has_assistant_message (s\<lparr>s_status := st\<rparr>) = active_turn_has_assistant_message s"
  "active_turn_has_assistant_message (s\<lparr>s_status := st, s_updated_at := t\<rparr>) =
     active_turn_has_assistant_message s"
proof -
  have "active_turn_id (s\<lparr>s_status := st, s_updated_at := t\<rparr>) = active_turn_id s"
    by (simp add: active_turn_id_def)
  then show "active_turn_has_assistant_message (s\<lparr>s_status := st\<rparr>) = active_turn_has_assistant_message s"
    "active_turn_has_assistant_message (s\<lparr>s_status := st, s_updated_at := t\<rparr>) =
       active_turn_has_assistant_message s"
    by (simp_all add: active_turn_has_assistant_message_def split: option.split)
qed

definition finish_text :: "lib \<Rightarrow> bool \<Rightarrow> rstring option \<Rightarrow> rstring" where
  "finish_text L success summary = (case summary of Some text \<Rightarrow> text
     | None \<Rightarrow> if success then tr L ''session.turn_completed''
               else tr L ''session.stopped_before_response'')"

definition finish_status :: "bool \<Rightarrow> turn_status" where
  "finish_status success = (if success then Completed else Turn_Failed)"

lemma reduce_turn_finished_eq:
  "active_turn_id s = Some tid \<Longrightarrow>
   reduce_turn_finished L env success summary r s =
     (let (s', fin) = end_turn env 0 (finish_text L success summary) (finish_status success)
            ((settled s)\<lparr>s_status := (if success then Idle else Session_Failed)\<rparr>) in
      (reducer_reset r, s',
       reduction_applied\<lparr>rd_finished_turn := finished_turn_of (finish_status success) fin\<rparr>))"
  by (cases "active_turn_has_assistant_message (settled s)")
    (simp_all add: reduce_turn_finished_def end_turn_def settled_def finish_text_def
      finish_status_def Let_def split_def)

lemma reduce_process_exited_eq:
  "status_is_busy (s_status s) \<Longrightarrow>
   reduce_process_exited L env ctx r s =
     (let (s', fin) = end_turn env 1 (case x_process_exit_error ctx of Some error \<Rightarrow> error
              | None \<Rightarrow> tr L ''session.codex_exited_before_response'') Turn_Failed
            ((settled s)\<lparr>s_status := Session_Failed, s_updated_at := e_secs env 0\<rparr>) in
      (reducer_reset r, s', reduction_applied\<lparr>rd_finished_turn := finished_turn_of Turn_Failed fin\<rparr>))"
  by (cases "active_turn_has_assistant_message (settled s)")
    (simp_all add: reduce_process_exited_def end_turn_def settled_def Let_def split_def numeral_2_eq_2)

lemma settled_then:
  assumes "step_ok i (reducer_reset r, u) (r', s')" "s_turns u = s_turns (settled s)"
    "s_messages u = s_messages (settled s)" "s_transcript_blocks u = s_transcript_blocks (settled s)"
  shows "step_ok i (r, s) (r', s')"
proof (rule keeps_step_ok_trans)
  show "keeps (r, s) (reducer_reset r, u)"
    by (rule keeps_trans [OF settled_keeps keeps_frame]) (use assms in auto)
  show "message_ids u = message_ids s"
    using assms(3) by (simp add: message_ids_def settled_def)
qed (rule assms(1))

lemma fst_end_turn: "end_turn env k t st u = (s', fin) \<Longrightarrow> s' = fst (end_turn env k t st u)"
  by simp

lemma reducer_apply_step_ok:
  assumes "reducer_apply L env r s ev ctx = (r', s', rd)"
    and "case ev of TurnAccepted sub turn ms \<Rightarrow> accept_ok sub turn ms s | _ \<Rightarrow> True"
  shows "step_ok (e_uuid env) (r, s) (r', s')"
proof -
  obtain s0 ok where acc: "accepts_turn_output ctx s = (s0, ok)" by fastforce
  have gate: "keeps (r, s) (r, s0)" "message_ids s0 = message_ids s"
    using accepts_keeps [of r s ctx] acc accepts_fields(4) [OF acc] by simp_all
  show ?thesis
  proof (cases ev)
    case (Connected c)
    have "keeps (r, s) (r, mark_active_turn_provider_resume_at m s)" for m
      unfolding mark_active_turn_provider_resume_at_def
      by (rule keeps_turns [where f = "\<lambda>t. if is_running t then t\<lparr>t_provider_resume_at := Some m\<rparr> else t"]) auto
    then have "keeps (r, s) (r, case c of Some (Claude_Cursor _ (Some m)) \<Rightarrow>
        mark_active_turn_provider_resume_at m s | _ \<Rightarrow> s)"
      by (auto split: option.split provider_resume_cursor.split)
    moreover have "keeps (r, u) (r, u\<lparr>s_provider_cursor := c\<rparr>)"
      "keeps (r, u) (r, u\<lparr>s_provider_cursor := c, s_status := Working\<rparr>)" for u
      by (auto intro: keeps_frame)
    ultimately have "keeps (r, s) (r, reduce_connected c s)"
      using keeps_trans by (auto simp: reduce_connected_def Let_def)
    with assms Connected show ?thesis by (auto intro: keeps_step_ok)
  next
    case (TurnAccepted sub turn ms)
    with assms show ?thesis by (auto intro: keeps_step_ok accept_remote_turn_keeps)
  next
    case TurnStarted
    have "keeps (r, s) (r, (mark_active_turn_provider_started s)\<lparr>s_status := Working\<rparr>)"
      by (rule keeps_turns [where f = "\<lambda>t. if is_running t then t\<lparr>t_provider_turn_started := True\<rparr> else t"])
        (auto simp: mark_active_turn_provider_started_def)
    with assms TurnStarted show ?thesis by (auto intro: keeps_step_ok split: if_splits)
  next
    case (TextDelta d)
    with assms acc have "(r', s') = append_text_delta env d r s0 \<or> (r', s') = (r, s0)"
      by (auto split: if_splits prod.splits)
    with keeps_step_ok_trans [OF gate append_text_delta_step [of env r s0 d]] keeps_step_ok [OF gate(1)]
    show ?thesis by metis
  next
    case (ReasoningDelta d)
    with assms acc have "(\<exists>b. append_reasoning_delta L env d r s0 = (r', s', b)) \<or> (r', s') = (r, s0)"
      by (auto split: if_splits prod.splits)
    with keeps_trans [OF gate(1) append_reasoning_delta_keeps] gate(1)
    show ?thesis by (metis keeps_step_ok)
  next
    case (Activity a b c d e)
    with assms show ?thesis by (auto intro: keeps_step_ok apply_activity_keeps)
  next
    case (RichActivity item)
    with assms show ?thesis by (auto intro: keeps_step_ok apply_activity_keeps)
  next
    case (Permission a b c d)
    have "keeps (r, s0) (r\<lparr>r_pending_permission := Some a\<rparr>, s0\<lparr>s_status := Waiting\<rparr>)"
      by (rule keeps_frame) auto
    with Permission assms acc show ?thesis
      using keeps_trans [OF gate(1)] gate(1) by (auto intro!: keeps_step_ok split: if_splits)
  next
    case (UserInputRequested a b)
    have "keeps (r, s0) (r\<lparr>r_pending_user_input := Some a\<rparr>, s0\<lparr>s_status := Waiting\<rparr>)"
      by (rule keeps_frame) auto
    with UserInputRequested assms acc show ?thesis
      using keeps_trans [OF gate(1)] gate(1) by (auto intro!: keeps_step_ok split: if_splits)
  next
    case (InteractionResolved a)
    with assms show ?thesis
      by (auto simp: reduce_interaction_resolved_def Let_def intro!: keeps_step_ok keeps_frame
          split: if_splits)
  next
    case (SteerAccepted t)
    let ?p = "unwrap_or (x_steer_presentation ctx) \<lparr>sp_display_content = None, sp_attachments = []\<rparr>"
    have "step_ok (e_uuid env) (r, s) (r, reduce_steer_accepted env ctx t s)"
      by (rule step_ok_push [where m = "\<lparr>m_id = e_uuid env, m_turn_id = active_turn_id s, m_role = User,
            m_content = t, m_display_content = sp_display_content ?p,
            m_attachments = sp_attachments ?p, m_created_at = e_secs env 0, m_streaming = False\<rparr>"])
        (auto simp: reduce_steer_accepted_def push_user_message_with_presentation_def Let_def
          message_with_presentation_def message_new_for_turn_def message_new_def split: option.split)
    with SteerAccepted assms show ?thesis by simp
  next
    case (TurnFinished success summary)
    show ?thesis
    proof (cases "active_turn_id s")
      case None
      with assms TurnFinished show ?thesis by (simp add: reduce_turn_finished_def)
    next
      case (Some tid)
      with assms TurnFinished show ?thesis
        by (auto simp: reduce_turn_finished_eq [OF Some] intro!: settled_then [OF end_turn_step]
            dest!: fst_end_turn split: prod.splits)
    qed
  next
    case (Error t)
    let ?p = "\<lambda>x. push_message (e_uuid env) (e_secs env 0) Assistant x (s\<lparr>s_status := Session_Failed\<rparr>)"
    have failed: "keeps (r, s) (r, s\<lparr>s_status := Session_Failed\<rparr>)" by (rule keeps_frame) auto
    have "step_ok (e_uuid env) (r, s) (r, ?p x)" for x
      by (rule keeps_step_ok_trans [OF failed _ push_message_step]) (simp add: message_ids_def)
    with Error assms show ?thesis
      using keeps_step_ok [OF failed] by (auto simp: reduce_error_def Let_def split: if_splits)
  next
    case ProcessExited
    show ?thesis
    proof (cases "status_is_busy (s_status s)")
      case True
      with assms ProcessExited show ?thesis
        by (auto simp: reduce_process_exited_eq intro!: settled_then [OF end_turn_step]
            dest!: fst_end_turn split: prod.splits)
    next
      case False
      with assms ProcessExited have "r' = reducer_reset r" "s' = settled s"
        by (auto simp: reduce_process_exited_def settled_def)
      then show ?thesis using keeps_step_ok [OF settled_keeps] by simp
    qed
  qed (use assms in \<open>auto simp: set_auto_title_def reduce_usage_updated_def Let_def
      intro!: keeps_step_ok keeps_frame split: if_splits\<close>)
qed

lemma reducer_step_keeps: "event_ok st e \<Longrightarrow> keeps st (reducer_step L st e)"
proof (cases st; cases e)
  fix r s env ctx ev assume ok: "event_ok st e" and eq: "st = (r, s)" "e = (env, ctx, ev)"
  obtain r' s' rd where "reducer_apply L env r s ev ctx = (r', s', rd)" by (metis surj_pair)
  with reducer_apply_step_ok [OF this] ok eq show "keeps st (reducer_step L st e)"
    by (simp add: event_ok_def step_ok_def)
qed

text \<open>The order in which a session moves forward, on fold states.\<close>

definition state_grows :: "reducer \<times> agent_session \<Rightarrow> reducer \<times> agent_session \<Rightarrow> bool" where
  "state_grows st st' = session_grows (snd st) (snd st')"

interpretation red: observed_fold "reducer_step L" reducer_ok event_ok state_grows for L :: lib
proof unfold_locales
  show "reducer_ok st \<Longrightarrow> event_ok st e \<Longrightarrow> reducer_ok (reducer_step L st e)" for st e
    using reducer_step_keeps by (simp add: keeps_def)
  show "reducer_ok st \<Longrightarrow> event_ok st e \<Longrightarrow> state_grows st (reducer_step L st e)" for st e
    using reducer_step_keeps by (simp add: keeps_def state_grows_def)
  show "state_grows a b \<Longrightarrow> state_grows b c \<Longrightarrow> state_grows a c" for a b c
    unfolding state_grows_def by (rule session_grows_trans)
qed (simp add: state_grows_def)

end
