(* ===== verification/Reducer_Properties.thy ===== *)
theory Reducer_Properties
  imports Reducer_Invariant
begin

text \<open>
  The properties of the fold as the program's users see them.
\<close>

section \<open>Every run\<close>

text \<open>
  C1: whatever admissible stream of driver events a runtime emits, the session stays well formed
  (unique identifiers, at most the newest turn running, every reference resolved, blocks
  anchored in order) and one assistant message streams exactly while the phase is text.
\<close>

theorem reducer_run_ok:
  assumes "wf_session s" "phase_ok r s" "admissible event_ok (reducer_step L) (r, s) es"
  shows "wf_session (snd (foldl (reducer_step L) (r, s) es)) \<and>
    phase_ok (fst (foldl (reducer_step L) (r, s) es)) (snd (foldl (reducer_step L) (r, s) es))"
  using red.run_inv [of "(r, s)" L es] assms by (simp add: reducer_ok_def)

text \<open>
  Along every admissible stream nothing the transcript shows is taken back: a message keeps
  its place, its role and its text as a prefix, activities keep their order, and turns are never
  removed.
\<close>

theorem reducer_run_grows:
  assumes "wf_session s" "phase_ok r s" "admissible event_ok (reducer_step L) (r, s) (es @ fs)"
  shows "session_grows (snd (foldl (reducer_step L) (r, s) es))
    (snd (foldl (reducer_step L) (r, s) (es @ fs)))"
  using red.run_le_append [of "(r, s)" L es fs] assms by (simp add: reducer_ok_def state_grows_def)

definition demo_env :: "uuid \<Rightarrow> env" where
  "demo_env i = \<lparr>e_uuid = i, e_secs = (\<lambda>_. 7), e_millis = 7000\<rparr>"

definition demo_session :: agent_session where
  "demo_session = (begin_turn 10 20 5 5 (lit ''do'') (session_new 1 5 2 Claude))\<lparr>s_status := Connecting\<rparr>"

definition demo_stream :: "fold_event list" where
  "demo_stream = [(demo_env 30, context_default, TurnStarted),
     (demo_env 31, context_default, TextDelta (lit ''Hel'')),
     (demo_env 32, context_default, TextDelta (lit ''lo''))]"

lemma demo_session_ok: "wf_session demo_session" "phase_ok reducer_default demo_session"
  by (simp_all add: demo_session_def session_new_def begin_turn_def begin_turn_with_presentation_def
      wf_session_def turns_ok_def messages_ok_def blocks_ok_def turn_ids_def phase_ok_def
      reducer_default_def message_with_presentation_def message_new_for_turn_def message_new_def)

lemmas demo_defs = demo_session_def session_new_def begin_turn_def begin_turn_with_presentation_def
  message_with_presentation_def message_new_for_turn_def message_new_def demo_env_def
  context_default_def reducer_default_def active_turn_id_def is_running_def

lemma demo_stream_ok: "admissible event_ok (reducer_step L) (reducer_default, demo_session) demo_stream"
  by (simp add: demo_stream_def event_ok_def demo_defs message_ids_def
      mark_active_turn_provider_started_def accepts_turn_output_def session_accepts_turn_output_def
      append_text_delta_def append_text_delta_to_session_def text_delta_into_def
      finish_streaming_assistant_def map_last_def last_opt_def Let_def)

theorem reducer_run_ok_witness:
  "wf_session (snd (foldl (reducer_step plain_lib) (reducer_default, demo_session) demo_stream))"
  using reducer_run_ok [OF demo_session_ok demo_stream_ok] by simp

theorem reducer_run_grows_witness:
  "session_grows (snd (foldl (reducer_step plain_lib) (reducer_default, demo_session) []))
    (snd (foldl (reducer_step plain_lib) (reducer_default, demo_session) demo_stream))"
  using reducer_run_grows [OF demo_session_ok, of plain_lib "[]" demo_stream] demo_stream_ok by simp

section \<open>Single events\<close>

definition is_turn_output :: "driver_event \<Rightarrow> bool" where
  "is_turn_output ev = (case ev of
     TextDelta _ \<Rightarrow> True | ReasoningDelta _ \<Rightarrow> True | Activity _ _ _ _ _ \<Rightarrow> True
   | RichActivity _ \<Rightarrow> True | Permission _ _ _ _ \<Rightarrow> True | UserInputRequested _ _ \<Rightarrow> True
   | _ \<Rightarrow> False)"

text \<open>
  Turn output that arrives when the host suppresses it, when no turn is running or when the
  session is not busy changes neither the session nor the fold state, and is reported as dropped.
\<close>

theorem turn_output_dropped:
  assumes "is_turn_output ev"
    and "x_suppress_turn_output ctx \<or> active_turn_id s = None \<or> \<not> status_is_busy (s_status s)"
  shows "reducer_apply L env r s ev ctx = (r, s, reduction_default)"
proof -
  have "accepts_turn_output ctx s = (s, False)"
    using assms(2) by (auto simp: accepts_turn_output_def session_accepts_turn_output_def)
  with assms(1) show ?thesis
    by (cases ev) (auto simp: is_turn_output_def apply_activity_def)
qed

theorem turn_output_dropped_witness:
  "reducer_apply plain_lib (demo_env 30) reducer_default (session_new 1 5 2 Claude)
     (TextDelta (lit ''x'')) context_default =
   (reducer_default, session_new 1 5 2 Claude, reduction_default)"
  by (rule turn_output_dropped) (simp_all add: is_turn_output_def demo_defs)

text \<open>A turn that ended: what the transcript and the turn look like afterwards.\<close>

definition turn_ended :: "uuid \<Rightarrow> turn_status \<Rightarrow> u64 \<Rightarrow> reducer \<Rightarrow> agent_session \<Rightarrow> reduction \<Rightarrow> bool" where
  "turn_ended tid status now r s rd \<longleftrightarrow>
     r = reducer_default \<and> active_turn_id s = None \<and>
     (\<forall>m\<in>set (s_messages s). \<not> streaming_assistant m) \<and>
     (\<forall>a\<in>set (all_activities (s_transcript_blocks s)). a_complete a) \<and>
     (\<exists>m\<in>set (s_messages s). m_role m = Assistant \<and> m_turn_id m = Some tid) \<and>
     (\<exists>t. last_opt (s_turns s) = Some t \<and> t_id t = tid \<and> t_status t = status \<and>
        t_completed_at t = Some now \<and>
        rd_finished_turn rd =
          Some \<lparr>ft_turn_id = tid, ft_turn_count = t_turn_count t, ft_status = status\<rparr>) \<and>
     s_last_reply_at s = Some now \<and> rd_applied rd"

lemma end_turn_ended:
  assumes act: "active_turn_id s = Some tid" and st: "status \<noteq> Running"
    and ms: "\<forall>m\<in>set (s_messages s). \<not> streaming_assistant m"
    and acts: "\<forall>a\<in>set (all_activities (s_transcript_blocks s)). a_complete a"
    and e: "end_turn env k txt status s = (s', fin)"
  shows "turn_ended tid status (e_secs env (Suc k)) reducer_default s'
      (reduction_applied\<lparr>rd_finished_turn := finished_turn_of status fin\<rparr>)" "s_status s' = s_status s"
proof -
  from act obtain ts t where ts: "s_turns s = ts @ [t]" "is_running t" "t_id t = tid"
    by (auto simp: active_turn_id_def opt_filter_eq_Some last_opt_eq_Some)
  let ?p = "if active_turn_has_assistant_message s then s
    else push_message (e_uuid env) (e_secs env k) Assistant txt s"
  have p: "s_turns ?p = s_turns s" "s_transcript_blocks ?p = s_transcript_blocks s"
    "s_status ?p = s_status s" by (auto simp: push_message_def)
  have has: "\<exists>m\<in>set (s_messages ?p). m_role m = Assistant \<and> m_turn_id m = Some tid"
    using act by (auto simp: active_turn_has_assistant_message_def push_message_def list_ex_iff
        message_new_for_turn_def message_new_def)
  have stream: "\<forall>m\<in>set (s_messages ?p). \<not> streaming_assistant m"
    using act ms by (auto simp: push_message_def streaming_assistant_def
        message_new_for_turn_def message_new_def)
  have s': "s' = ?p\<lparr>s_turns := ts @ [t\<lparr>t_status := status, t_completed_at := Some (e_secs env (Suc k))\<rparr>],
      s_last_reply_at := Some (e_secs env (Suc k))\<rparr>" "fin = Some (tid, t_turn_count t)"
    using e ts p by (auto simp: end_turn_def finish_active_turn_def)
  show "turn_ended tid status (e_secs env (Suc k)) reducer_default s'
      (reduction_applied\<lparr>rd_finished_turn := finished_turn_of status fin\<rparr>)"
    using has stream acts p st ts unfolding turn_ended_def s'
    by (simp add: active_turn_id_def is_running_def finished_turn_of_def reduction_applied_def)
  show "s_status s' = s_status s" unfolding s' using p by simp
qed

lemma settled_no_streaming: "\<forall>m\<in>set (s_messages (settled s)). \<not> streaming_assistant m"
  by (auto simp: settled_def finish_streaming_assistant_def streaming_assistant_def)

lemma has_assistant_settled:
  "active_turn_has_assistant_message (settled s) = active_turn_has_assistant_message s"
proof -
  have "s_messages (settled s) = map (\<lambda>m. if m_role m = Assistant \<and> m_streaming m
      then m\<lparr>m_streaming := False\<rparr> else m) (s_messages s)"
    by (simp add: settled_def finish_streaming_assistant_def)
  then have "list_ex (\<lambda>m. m_role m = Assistant \<and> m_turn_id m = Some i) (s_messages (settled s)) =
      list_ex (\<lambda>m. m_role m = Assistant \<and> m_turn_id m = Some i) (s_messages s)" for i
    by (simp add: list.pred_map list_ex_iff ex_in_conv image_iff Bex_def) (metis (no_types, lifting)
        message.select_convs(2,3) message.surjective message.update_convs(8))
  then show ?thesis by (simp add: active_turn_has_assistant_message_def split: option.split)
qed

lemma settled_complete: "\<forall>a\<in>set (all_activities (s_transcript_blocks (settled s))). a_complete a"
  unfolding settled_def by (rule complete_turn_blocks_complete)

lemma reducer_reset_default: "reducer_reset r = reducer_default"
  by (simp add: reducer_reset_def reducer_default_def)



text \<open>
  When the process of a busy session exits in the middle of a turn, the turn settles as
  failed the same way and its transcript names the error, the last driver error if there was one.
\<close>

theorem process_exit_settles:
  assumes "active_turn_id s = Some tid" "status_is_busy (s_status s)"
    and "reducer_apply L env r s ProcessExited ctx = (r', s', rd)"
  shows "turn_ended tid Turn_Failed (e_secs env 2) r' s' rd \<and> s_status s' = Session_Failed \<and>
    (active_turn_has_assistant_message s \<or> (\<exists>m\<in>set (s_messages s'). m_turn_id m = Some tid \<and>
       m_content m = unwrap_or (x_process_exit_error ctx) (tr L ''session.codex_exited_before_response'')))"
proof -
  let ?u = "(settled s)\<lparr>s_status := Session_Failed, s_updated_at := e_secs env 0\<rparr>"
  let ?t = "unwrap_or (x_process_exit_error ctx) (tr L ''session.codex_exited_before_response'')"
  have act: "active_turn_id ?u = Some tid"
    using assms(1) settled_fields(3) [of s] by (simp add: active_turn_id_def)
  obtain fin where e: "end_turn env 1 ?t Turn_Failed ?u = (s', fin)" and "r' = reducer_default"
    "rd = reduction_applied\<lparr>rd_finished_turn := finished_turn_of Turn_Failed fin\<rparr>"
    using assms by (auto simp: reduce_process_exited_eq reducer_reset_default unwrap_or_def
        split: prod.splits option.splits)
  with end_turn_ended [OF act _ _ _ e] settled_no_streaming [of s] settled_complete [of s]
  have "turn_ended tid Turn_Failed (e_secs env 2) r' s' rd" "s_status s' = Session_Failed"
    by (simp_all add: numeral_2_eq_2)
  moreover have "active_turn_has_assistant_message (settled s) = active_turn_has_assistant_message s"
    by (rule has_assistant_settled)
  moreover have "\<exists>m\<in>set (s_messages s'). m_turn_id m = Some tid \<and> m_content m = ?t"
    if "\<not> active_turn_has_assistant_message (settled s)"
    using e that act by (auto simp: end_turn_def finish_active_turn_def push_message_def
        message_new_for_turn_def message_new_def split: option.splits)
  ultimately show ?thesis by metis
qed

theorem process_exit_settles_witness:
  "\<exists>r' s' rd. reducer_apply plain_lib (demo_env 30) reducer_default demo_session ProcessExited
      context_default = (r', s', rd) \<and> turn_ended 10 Turn_Failed 7 r' s' rd"
proof -
  obtain r' s' rd where e: "reducer_apply plain_lib (demo_env 30) reducer_default demo_session
      ProcessExited context_default = (r', s', rd)" by (metis surj_pair)
  have "active_turn_id demo_session = Some 10" "status_is_busy (s_status demo_session)"
    by (simp_all add: demo_defs last_opt_def)
  from process_exit_settles [OF this e] e show ?thesis by (simp add: demo_env_def)
qed

section \<open>Streams of text\<close>

definition text_events :: "(env \<times> rstring) list \<Rightarrow> fold_event list" where
  "text_events ds = map (\<lambda>(env, d). (env, context_default, TextDelta d)) ds"

lemma accepts_busy:
  assumes "active_turn_id s = Some tid" "status_is_busy (s_status s)"
  obtains s0 where "accepts_turn_output context_default s = (s0, True)"
    "active_turn_id s0 = Some tid" "status_is_busy (s_status s0)" "s_messages s0 = s_messages s"
    "s_id s0 = s_id s" "s_transcript_blocks s0 = s_transcript_blocks s"
proof -
  obtain s0 ok where acc: "accepts_turn_output context_default s = (s0, ok)" by fastforce
  moreover have ok using acc assms
    by (auto simp: accepts_turn_output_def session_accepts_turn_output_def context_default_def Let_def
        split: if_splits)
  moreover have "status_is_busy (s_status s0)" using accepts_fields(7) [OF acc] \<open>ok\<close> by auto
  ultimately show thesis
    using that accepts_fields(1,2,3,5) [OF acc] assms(1) by simp
qed

text \<open>Once a message streams, every delta of the run is appended to it.\<close>

lemma text_run_continues:
  assumes "active_turn_id s = Some tid" "status_is_busy (s_status s)"
    and "r_stream_phase r = Some Phase_Text" "s_messages s = ms @ [m]" "streaming_assistant m"
  shows "s_messages (snd (foldl (reducer_step L) (r, s) (text_events ds))) =
    ms @ [m\<lparr>m_content := m_content m @ concat (map snd ds)\<rparr>]"
  using assms
proof (induction ds arbitrary: r s m)
  case Nil
  then show ?case by (simp add: text_events_def)
next
  case (Cons d ds)
  obtain env t where d: "d = (env, t)" by fastforce
  obtain s0 where acc: "accepts_turn_output context_default s = (s0, True)"
    "active_turn_id s0 = Some tid" "status_is_busy (s_status s0)" "s_messages s0 = s_messages s"
    using accepts_busy [OF Cons.prems(1,2)] by metis
  let ?s1 = "text_delta_into env True t s0" and ?r1 = "r\<lparr>r_stream_phase := Some Phase_Text\<rparr>"
  let ?m1 = "m\<lparr>m_content := m_content m @ t\<rparr>"
  have step: "reducer_step L (r, s) (env, context_default, TextDelta t) = (?r1, ?s1)"
    using acc Cons.prems(3) by (simp add: append_text_delta_def hd_append_text_delta)
  have "list_ex streaming_assistant (s_messages s0)"
    using Cons.prems acc(4) by simp
  then have "s_messages ?s1 = ms @ [?m1]"
    using Cons.prems acc(4) by (simp add: text_delta_continue update_last_append)
  moreover have "streaming_assistant ?m1" using Cons.prems(5) by (simp add: streaming_assistant_def)
  ultimately show ?case
    using Cons.IH [of ?s1 ?r1 ?m1] acc step d by (simp add: text_events_def)
qed

text \<open>
  A run of text deltas while a turn is running becomes exactly one streaming assistant
  message of that turn, after the messages already there, and its text is the concatenation of
  the deltas in order.
\<close>

theorem text_deltas_concatenate:
  assumes "active_turn_id s = Some tid" "status_is_busy (s_status s)"
    and "r_stream_phase r \<noteq> Some Phase_Text"
  shows "\<exists>m. s_messages (snd (foldl (reducer_step L) (r, s) (text_events (d # ds)))) =
      s_messages (finish_streaming_assistant s) @ [m] \<and> m_role m = Assistant \<and>
      m_turn_id m = Some tid \<and> m_streaming m \<and> m_content m = concat (map snd (d # ds))"
proof -
  obtain env t where d: "d = (env, t)" by fastforce
  obtain s0 where acc: "accepts_turn_output context_default s = (s0, True)"
    "active_turn_id s0 = Some tid" "status_is_busy (s_status s0)" "s_messages s0 = s_messages s"
    using accepts_busy [OF assms(1,2)] by metis
  let ?u = "if r_stream_phase r = Some Phase_Reasoning
    then complete_reasoning_activity (e_secs env 0) s0 else s0"
  have u: "active_turn_id ?u = Some tid" "status_is_busy (s_status ?u)" "s_messages ?u = s_messages s"
    using acc by simp_all
  let ?s1 = "text_delta_into env False t ?u" and ?r1 = "r\<lparr>r_stream_phase := Some Phase_Text\<rparr>"
  have step: "reducer_step L (r, s) (env, context_default, TextDelta t) = (?r1, ?s1)"
    using acc assms(3) hd_append_text_delta [of env ?u False t]
    by (simp add: append_text_delta_def Let_def)
  have "s_messages ?s1 = s_messages (finish_streaming_assistant ?u) @ [text_message env t ?u]"
    by (rule text_delta_new)
  moreover have "s_messages (finish_streaming_assistant ?u) = s_messages (finish_streaming_assistant s)"
    using u(3) by (simp add: finish_streaming_assistant_def)
  moreover have "streaming_assistant (text_message env t ?u)"
    by (simp add: text_message_def streaming_assistant_def)
  ultimately have "s_messages (snd (foldl (reducer_step L) (?r1, ?s1) (text_events ds))) =
      s_messages (finish_streaming_assistant s) @
        [(text_message env t ?u)\<lparr>m_content := t @ concat (map snd ds)\<rparr>]"
    using text_run_continues [of ?s1 tid ?r1] u by (simp add: text_message_def)
  then show ?thesis
    using step d u(1) by (simp add: text_events_def text_message_def)
qed

theorem text_deltas_concatenate_witness:
  "\<exists>m. s_messages (snd (foldl (reducer_step plain_lib) (reducer_default, demo_session)
      (text_events [(demo_env 30, lit ''Hel''), (demo_env 31, lit ''lo'')]))) =
    s_messages demo_session @ [m] \<and> m_content m = lit ''Hello''"
proof -
  have "active_turn_id demo_session = Some 10" "status_is_busy (s_status demo_session)"
    "r_stream_phase reducer_default \<noteq> Some Phase_Text"
    by (simp_all add: demo_defs last_opt_def)
  from text_deltas_concatenate [OF this, of plain_lib "(demo_env 30, lit ''Hel'')" "[(demo_env 31, lit ''lo'')]"]
  have "\<exists>m. s_messages (snd (foldl (reducer_step plain_lib) (reducer_default, demo_session)
      (text_events [(demo_env 30, lit ''Hel''), (demo_env 31, lit ''lo'')]))) =
    s_messages (finish_streaming_assistant demo_session) @ [m] \<and> m_content m = lit ''Hello''"
    by (auto simp: lit_def)
  moreover have "finish_streaming_assistant demo_session = demo_session"
    by (simp add: finish_streaming_assistant_def demo_defs)
  ultimately show ?thesis by simp
qed

section \<open>Turns accepted twice\<close>

lemma push_known_messages: "m_id ` set ns \<subseteq> m_id ` set ms \<Longrightarrow> foldl push_new_message ms ns = ms"
  by (induction ns) (simp_all add: push_new_message_def list_ex_message_id)

lemma push_new_ids: "m_id ` set ns \<subseteq> m_id ` set (foldl push_new_message ms ns)"
proof (induction ns rule: rev_induct)
  case Nil
  then show ?case by simp
next
  case (snoc n ns)
  then show ?case by (auto simp: push_new_message_def list_ex_message_id)
qed

text \<open>While messages are adopted: those seen have a place that is no longer available.\<close>

definition adopted :: "message list \<Rightarrow> uuid set \<Rightarrow> message list \<times> nat list \<Rightarrow> bool" where
  "adopted seen incoming st \<longleftrightarrow> (case st of (ms, av) \<Rightarrow>
     distinct av \<and> (\<forall>i\<in>set av. i < length ms \<and> m_id (ms ! i) \<notin> incoming) \<and>
     (\<forall>m\<in>set seen. \<exists>i<length ms. i \<notin> set av \<and> m_id (ms ! i) = m_id m))"

lemma set_remove_nth: "distinct xs \<Longrightarrow> p < length xs \<Longrightarrow> set (remove_nth p xs) = set xs - {xs ! p}"
  using id_take_nth_drop [of p xs]
  by (auto simp: remove_nth_def dest: in_set_takeD in_set_dropD)
    (metis Cons_nth_drop_Suc append_take_drop_id disjoint_iff distinct_append distinct.simps(2)
      list.set_intros(1), metis Cons_nth_drop_Suc distinct.simps(2) distinct_drop,
      metis Un_iff id_take_nth_drop set_ConsD set_append)

lemma distinct_remove_nth: "distinct xs \<Longrightarrow> distinct (remove_nth p xs)"
  by (auto simp: remove_nth_def set_take_disj_set_drop_if_distinct)

lemma adopt_message_adopted:
  assumes "adopted seen incoming st" "m_id m \<in> incoming"
  shows "adopted (seen @ [m]) incoming (adopt_message tid st m)"
proof (cases st)
  case (Pair ms av)
  with assms have inv: "distinct av" "\<forall>i\<in>set av. i < length ms \<and> m_id (ms ! i) \<notin> incoming"
    "\<forall>m\<in>set seen. \<exists>i<length ms. i \<notin> set av \<and> m_id (ms ! i) = m_id m"
    by (auto simp: adopted_def)
  show ?thesis
  proof (cases "m_id m \<in> m_id ` set ms")
    case True
    then obtain i where i: "i < length ms" "m_id (ms ! i) = m_id m" by (auto simp: in_set_conv_nth)
    with inv(2) assms(2) have "i \<notin> set av" by metis
    with True i inv Pair show ?thesis
      by (auto simp: adopted_def adopt_message_def list_ex_message_id)
  next
    case False
    show ?thesis
    proof (cases "position (\<lambda>i. m_role (ms ! i) = m_role m) av")
      case None
      have "\<forall>m\<in>set seen. \<exists>i<Suc (length ms). i \<notin> set av \<and> m_id ((ms @ [m0]) ! i) = m_id m" for m0
        using inv(3) by (metis less_Suc_eq nth_append)
      moreover have "length ms \<notin> set av" using inv(2) by blast
      ultimately show ?thesis
        using None False inv Pair
        by (auto simp: adopted_def adopt_message_def list_ex_message_id nth_append)
    next
      case (Some p)
      let ?i = "av ! p" and ?ms = "ms[av ! p := (ms ! (av ! p))\<lparr>m_id := m_id m, m_turn_id := Some tid\<rparr>]"
      from position_Some [OF Some] have p: "p < length av" by simp
      have eq: "adopt_message tid st m = (?ms, remove_nth p av)"
        using Some False Pair by (simp add: adopt_message_def Let_def list_ex_message_id)
      have set: "set (remove_nth p av) = set av - {?i}" by (rule set_remove_nth [OF inv(1) p])
      have iav: "?i \<in> set av" "?i < length ms" using p inv(2) by auto
      have "\<exists>i<length ?ms. i \<notin> set (remove_nth p av) \<and> m_id (?ms ! i) = m_id n"
        if n: "n \<in> set (seen @ [m])" for n
      proof (cases "n \<in> set seen")
        case True
        with inv(3) obtain i where i: "i < length ms" "i \<notin> set av" "m_id (ms ! i) = m_id n" by blast
        with iav set show ?thesis by (intro exI [of _ i]) (auto simp: nth_list_update)
      next
        case False
        with n iav set show ?thesis by (intro exI [of _ ?i]) auto
      qed
      with set inv(1,2) show ?thesis
        unfolding eq by (simp add: adopted_def distinct_remove_nth nth_list_update)
    qed
  qed
qed

lemma adopt_messages_adopted:
  assumes "adopted [] incoming st" "m_id ` set ns \<subseteq> incoming"
  shows "adopted ns incoming (foldl (adopt_message tid) st ns)"
  using assms(2)
proof (induction ns rule: rev_induct)
  case Nil
  with assms show ?case by simp
next
  case (snoc n ns)
  then show ?case by (simp add: adopt_message_adopted)
qed

lemma accept_known:
  assumes "t_id turn \<in> t_id ` set (s_turns s)" "m_id ` set ms \<subseteq> m_id ` set (s_messages s)"
    and "t_started_at turn \<le> s_updated_at s" "t_status turn = Running \<longrightarrow> status_is_busy (s_status s)"
  shows "accept_remote_turn sub turn ms s = s"
  using assms by (cases "t_status turn = Running")
    (simp_all add: accept_remote_turn_def provisional_turn_def list_ex_turn_id
      push_known_messages max_absorb1 Let_def)

lemma accept_remote_turn_fields:
  "t_started_at turn \<le> s_updated_at (accept_remote_turn sub turn ms s)"
  "t_status turn = Running \<longrightarrow> status_is_busy (s_status (accept_remote_turn sub turn ms s))"
  by (simp_all add: accept_remote_turn_def Let_def)

text \<open>
  The announcement of a turn is idempotent: whether it replaces the client's provisional turn
  or joins a session that has none, receiving it again changes nothing, provided the messages of
  the provisional turn do not already carry the announced identifiers.
\<close>

theorem turn_accepted_idempotent:
  assumes "\<forall>m\<in>set (s_messages s). m_turn_id m = Some sub \<longrightarrow> m_id m \<notin> m_id ` set ms"
  shows "accept_remote_turn sub turn ms (accept_remote_turn sub turn ms s) =
    accept_remote_turn sub turn ms s"
proof (rule accept_known)
  let ?t = "accept_remote_turn sub turn ms s"
  show "t_started_at turn \<le> s_updated_at ?t"
    "t_status turn = Running \<longrightarrow> status_is_busy (s_status ?t)"
    by (rule accept_remote_turn_fields)+
  have prov: "k < length (s_turns s) \<and> t_id (s_turns s ! k) = sub"
    if "provisional_turn sub turn s = Some k" for k
    using that position_Some [of _ "s_turns s" k] by (auto simp: provisional_turn_def split: if_splits)
  then show "t_id turn \<in> t_id ` set (s_turns ?t)"
    by (auto simp: accept_remote_turn_parts list_ex_turn_id set_update_memI split: option.split
        intro: image_eqI [of _ _ turn])
  show "m_id ` set ms \<subseteq> m_id ` set (s_messages ?t)"
  proof (cases "provisional_turn sub turn s")
    case None
    then show ?thesis by (simp add: accept_remote_turn_parts push_new_ids)
  next
    case (Some k)
    let ?av = "filter (\<lambda>i. m_turn_id (s_messages s ! i) = Some (t_id (s_turns s ! k)))
      [0..<length (s_messages s)]"
    obtain ps av where fold: "foldl (adopt_message (t_id turn)) (s_messages s, ?av) ms = (ps, av)"
      by fastforce
    have "adopted [] (m_id ` set ms) (s_messages s, ?av)"
      using assms prov [OF Some] by (auto simp: adopted_def)
    from adopt_messages_adopted [OF this order_refl, of "t_id turn"]
    have ad: "\<forall>i\<in>set av. i < length ps" "\<forall>m\<in>set ms. \<exists>i<length ps. m_id (ps ! i) = m_id m"
      by (auto simp: fold adopted_def)
    have "m_id m \<in> set (map m_id ps)" if m: "m \<in> set ms" for m
    proof -
      from ad(2) m obtain i where "i < length ps" "m_id (ps ! i) = m_id m" by blast
      then show ?thesis by (metis length_map nth_map nth_mem)
    qed
    then have "m_id ` set ms \<subseteq> set (map m_id ps)" by blast
    also have "\<dots> = m_id ` set (own_messages (t_id turn) av ps)"
      using own_messages_all(1) [OF ad(1), of "t_id turn"] by (metis set_map)
    finally show ?thesis using Some fold by (simp add: accept_remote_turn_parts)
  qed
qed

theorem turn_accepted_idempotent_witness:
  "accept_remote_turn 10 (hd (s_turns demo_session)\<lparr>t_id := 11\<rparr>) [message_new_for_turn 21 5 User (lit ''do'') 11]
     (accept_remote_turn 10 (hd (s_turns demo_session)\<lparr>t_id := 11\<rparr>)
        [message_new_for_turn 21 5 User (lit ''do'') 11] demo_session) =
   accept_remote_turn 10 (hd (s_turns demo_session)\<lparr>t_id := 11\<rparr>)
     [message_new_for_turn 21 5 User (lit ''do'') 11] demo_session"
  by (rule turn_accepted_idempotent) (simp add: demo_defs)

section \<open>What no event touches\<close>

text \<open>The part of a session that belongs to its user and to the task it runs.\<close>

definition session_identity where
  "session_identity s = (s_id s, s_title s, s_project_id s, s_workspace s, s_provider s, s_model s,
     s_runtime_mode s, s_interaction_mode s, s_reasoning_effort s, s_service_tier s,
     s_context_window s, s_created_at s, s_archived_at s, s_parent_task_id s,
     s_provider_session_id s, s_queued_messages s, s_detail_loaded s)"

lemma identity_updates [simp]:
  "session_identity (s\<lparr>s_messages := a\<rparr>) = session_identity s"
  "session_identity (s\<lparr>s_turns := b\<rparr>) = session_identity s"
  "session_identity (s\<lparr>s_transcript_blocks := c\<rparr>) = session_identity s"
  "session_identity (s\<lparr>s_status := d\<rparr>) = session_identity s"
  "session_identity (s\<lparr>s_updated_at := e\<rparr>) = session_identity s"
  "session_identity (s\<lparr>s_last_reply_at := f\<rparr>) = session_identity s"
  "session_identity (s\<lparr>s_auto_title := g\<rparr>) = session_identity s"
  "session_identity (s\<lparr>s_provider_cursor := h\<rparr>) = session_identity s"
  "session_identity (s\<lparr>s_runtime_event_cursor := i\<rparr>) = session_identity s"
  "session_identity (s\<lparr>s_agent_preset := j\<rparr>) = session_identity s"
  "session_identity (s\<lparr>s_available_commands := k\<rparr>) = session_identity s"
  "session_identity (s\<lparr>s_context_usage := l\<rparr>) = session_identity s"
  by (simp_all add: session_identity_def)

lemma identity_split:
  "session_identity (s\<lparr>s_messages := a, s_updated_at := e\<rparr>) = session_identity s"
  "session_identity (s\<lparr>s_transcript_blocks := c, s_updated_at := e\<rparr>) = session_identity s"
  "session_identity (s\<lparr>s_turns := b, s_last_reply_at := f\<rparr>) = session_identity s"
  "session_identity (s\<lparr>s_turns := b, s_messages := a, s_transcript_blocks := c\<rparr>) = session_identity s"
  "session_identity (s\<lparr>s_messages := a, s_turns := b\<rparr>) = session_identity s"
  "session_identity (s\<lparr>s_auto_title := g, s_updated_at := e\<rparr>) = session_identity s"
  "session_identity (s\<lparr>s_provider_cursor := h, s_status := d\<rparr>) = session_identity s"
  "session_identity (s\<lparr>s_status := d, s_updated_at := e\<rparr>) = session_identity s"
  by (simp_all add: session_identity_def)

lemma identity_operations [simp]:
  "session_identity (finish_streaming_assistant s) = session_identity s"
  "session_identity (complete_turn_blocks s) = session_identity s"
  "session_identity (settled s) = session_identity s"
  "session_identity (complete_reasoning_activity now s) = session_identity s"
  "session_identity (push_transcript_activity item c s) = session_identity s"
  "session_identity (mark_active_turn_provider_started s) = session_identity s"
  "session_identity (mark_active_turn_provider_resume_at m s) = session_identity s"
  "session_identity (push_message i now role t s) = session_identity s"
  "session_identity (push_user_message_with_presentation i now t dc atts s) = session_identity s"
  "session_identity (text_delta_into env k d s) = session_identity s"
  "session_identity (fst (finish_active_turn now st s)) = session_identity s"
  by (simp_all add: finish_streaming_assistant_def complete_turn_blocks_def settled_def identity_split
      complete_reasoning_activity_def push_transcript_activity_def mark_active_turn_provider_started_def
      mark_active_turn_provider_resume_at_def push_message_def push_user_message_with_presentation_def
      text_delta_into_def finish_active_turn_def Let_def split: option.split)

lemma identity_accepts [simp]:
  "accepts_turn_output ctx s = (s0, ok) \<Longrightarrow> session_identity s0 = session_identity s"
  by (auto simp: accepts_turn_output_def session_accepts_turn_output_def Let_def split: if_splits)

lemma identity_end_turn: "session_identity (fst (end_turn env k t st s)) = session_identity s"
  by (simp add: end_turn_def)

lemma identity_reasoning:
  "append_reasoning_delta L env d r s = (r', s', b) \<Longrightarrow> session_identity s' = session_identity s"
  by (auto simp: append_reasoning_delta_def Let_def identity_split split: if_splits option.splits)

lemma identity_text: "append_text_delta env d r s = (r', s') \<Longrightarrow> session_identity s' = session_identity s"
  using hd_append_text_delta [of env s] hd_append_text_delta [of env "complete_reasoning_activity (e_secs env 0) s"]
  by (auto simp: append_text_delta_def Let_def split: if_splits)

lemma identity_activity:
  "apply_activity env ctx item r s = (r', s', rd) \<Longrightarrow> session_identity s' = session_identity s"
  by (auto simp: apply_activity_def Let_def identity_split split: if_splits option.splits prod.splits)

lemma identity_accept_remote [simp]:
  "session_identity (accept_remote_turn sub turn ms s) = session_identity s"
  by (simp add: accept_remote_turn_def Let_def identity_split split: option.split prod.split)

text \<open>
  No event of a runtime touches what belongs to the user and to the task: identity, project,
  workspace, provider and model choices, the title the user set, the archive mark, the parent
  task and the queued follow-ups.
\<close>

theorem events_keep_identity:
  "session_identity (fst (snd (reducer_apply L env r s ev ctx))) = session_identity s"
proof -
  obtain r' s' rd where e: "reducer_apply L env r s ev ctx = (r', s', rd)" by (metis surj_pair)
  obtain s0 ok where acc: "accepts_turn_output ctx s = (s0, ok)" by fastforce
  note i0 = identity_accepts [OF acc]
  have "session_identity s' = session_identity s"
  proof (cases ev)
    case (TurnFinished a b)
    show ?thesis
    proof (cases "active_turn_id s")
      case None
      with e TurnFinished show ?thesis by (simp add: reduce_turn_finished_def)
    next
      case (Some tid)
      with e TurnFinished identity_end_turn show ?thesis
        by (auto simp: reduce_turn_finished_eq [OF Some] split_def Let_def)
    qed
  next
    case ProcessExited
    show ?thesis
    proof (cases "status_is_busy (s_status s)")
      case True
      with e ProcessExited identity_end_turn show ?thesis
        by (auto simp: reduce_process_exited_eq split_def Let_def identity_split)
    next
      case False
      with e ProcessExited show ?thesis by (auto simp: reduce_process_exited_def settled_def [symmetric])
    qed
  next
    case (TextDelta d)
    with e acc i0 show ?thesis by (auto dest!: identity_text split: if_splits prod.splits)
  next
    case (ReasoningDelta d)
    with e acc i0 show ?thesis by (auto dest!: identity_reasoning split: if_splits prod.splits)
  next
    case (Activity a b c d f)
    with e show ?thesis by (auto dest: identity_activity)
  next
    case (RichActivity a)
    with e show ?thesis by (auto dest: identity_activity)
  next
    case (Permission a b c d)
    with e acc i0 show ?thesis by (auto split: if_splits)
  next
    case (UserInputRequested a b)
    with e acc i0 show ?thesis by (auto split: if_splits)
  qed (use e in \<open>auto simp: reduce_connected_def reduce_interaction_resolved_def set_auto_title_def
      reduce_steer_accepted_def reduce_usage_updated_def reduce_error_def Let_def identity_split
      split: if_splits option.splits provider_resume_cursor.splits\<close>)
  with e show ?thesis by simp
qed

section \<open>Activities reported more than once\<close>

definition source_known :: "rstring \<Rightarrow> agent_session \<Rightarrow> bool" where
  "source_known i s \<longleftrightarrow> list_ex (\<lambda>a. a_source_id a = Some i) (all_activities (s_transcript_blocks s))"

lemma find_rev_update_last:
  assumes "list_ex P xs" "\<And>x. P x \<Longrightarrow> P (f x)"
  shows "\<exists>x. List.find P (rev xs) = Some x \<and> List.find P (rev (update_last P f xs)) = Some (f x)"
  using assms by (induction xs rule: rev_induct) (auto simp: update_last_append)

lemma find_rev_None: "\<not> list_ex P xs \<Longrightarrow> List.find P (rev xs) = None"
  by (auto simp: find_None_iff list_ex_iff)

lemma source_known_update:
  "(\<And>a. a_source_id (f a) = a_source_id a) \<Longrightarrow>
   list_ex (\<lambda>a. a_source_id a = i) (update_last P f xs) = list_ex (\<lambda>a. a_source_id a = i) xs"
  by (induction xs rule: rev_induct) (auto simp: update_last_append update_last_def)

text \<open>
  An accepted activity with a provider identifier never duplicates its entry: if the
  identifier is known, the transcript keeps the same activities in the same order and the newest
  one with that identifier takes the reported kind, title and state; otherwise it becomes the
  last activity.
\<close>

theorem activity_updates_in_place:
  assumes "active_turn_id s = Some tid" "status_is_busy (s_status s)"
    and "a_source_id item = Some i"
    and "reducer_apply L env r s (RichActivity item) context_default = (r', s', rd)"
  shows "activity_ids s' = activity_ids s @ (if source_known i s then [] else [a_id item]) \<and>
    (\<exists>a. List.find (\<lambda>a. a_source_id a = Some i) (rev (all_activities (s_transcript_blocks s'))) = Some a \<and>
       a_kind a = a_kind item \<and> a_title a = a_title item \<and> a_complete a = a_complete item \<and>
       a_failed a = a_failed item)"
proof -
  obtain s0 where acc: "accepts_turn_output context_default s = (s0, True)"
    "s_transcript_blocks s0 = s_transcript_blocks s"
    using accepts_busy [OF assms(1,2)] by metis
  let ?u = "if r_stream_phase r = Some Phase_Text then finish_streaming_assistant s0 else s0"
  let ?v = "if r_stream_phase r = Some Phase_Reasoning
    then complete_reasoning_activity (e_secs env 0) ?u else ?u"
  let ?P = "\<lambda>a. a_source_id a = Some i"
  have P: "activity_matches item = ?P" using assms(3) by (auto simp: activity_matches_def)
  have "activity_ids ?v = activity_ids s0" by simp
  then have ids: "activity_ids ?v = activity_ids s" using acc(2) unfolding activity_ids_def by metis
  have known: "list_ex ?P (all_activities (s_transcript_blocks ?v)) = source_known i s"
    using acc(2) by (simp add: source_known_def complete_reasoning_activity_def
        update_last_activity_all source_known_update)
  show ?thesis
  proof (cases "source_known i s")
    case True
    from find_rev_update_last [of ?P "all_activities (s_transcript_blocks ?v)" "merge_activity item"] known True
    obtain a where a: "List.find ?P (rev (all_activities (s_transcript_blocks ?v))) = Some a"
      "List.find ?P (rev (update_last ?P (merge_activity item) (all_activities (s_transcript_blocks ?v)))) =
        Some (merge_activity item a)" by (auto simp: merge_activity_def Let_def)
    have s': "s' = ?v\<lparr>s_transcript_blocks := update_last_activity ?P (merge_activity item)
        (s_transcript_blocks ?v), s_updated_at := e_secs env 1\<rparr>"
      using assms(4) acc a(1) P by (auto simp: apply_activity_def Let_def split: if_splits)
    have "activity_ids s' = activity_ids ?v"
      unfolding s' by (simp add: activity_ids_def update_last_activity_ids)
    moreover have "List.find ?P (rev (all_activities (s_transcript_blocks s'))) = Some (merge_activity item a)"
      unfolding s' using a(2) by (simp add: update_last_activity_all)
    ultimately show ?thesis using ids True by (simp add: merge_activity_def Let_def)
  next
    case False
    then have "List.find ?P (rev (all_activities (s_transcript_blocks ?v))) = None"
      using known by (simp add: find_rev_None)
    then obtain c where s': "s' = (push_transcript_activity item c ?v)\<lparr>s_updated_at := e_secs env 1\<rparr>"
      using assms(4) acc P by (auto simp: apply_activity_def Let_def split: if_splits)
    have "all_activities (s_transcript_blocks s') = all_activities (s_transcript_blocks ?v) @ [item]"
      unfolding s' using push_activity_all [of item c ?v] by simp
    then show ?thesis
      using ids False assms(3) unfolding activity_ids_def by simp
  qed
qed

theorem activity_updates_in_place_witness:
  "\<exists>r' s' rd. reducer_apply plain_lib (demo_env 30) reducer_default demo_session
      (RichActivity (activity_new plain_lib 40 (Some (lit ''call'')) Command (lit ''bash'') None False))
      context_default = (r', s', rd) \<and> activity_ids s' = [40]"
proof -
  let ?item = "activity_new plain_lib 40 (Some (lit ''call'')) Command (lit ''bash'') None False"
  obtain r' s' rd where e: "reducer_apply plain_lib (demo_env 30) reducer_default demo_session
      (RichActivity ?item) context_default = (r', s', rd)" by (metis surj_pair)
  have pre: "active_turn_id demo_session = Some 10" "status_is_busy (s_status demo_session)"
    "a_source_id ?item = Some (lit ''call'')"
    by (simp_all add: demo_defs last_opt_def activity_new_def)
  have "\<not> source_known (lit ''call'') demo_session" "activity_ids demo_session = []" "a_id ?item = 40"
    by (simp_all add: source_known_def activity_ids_def demo_defs activity_new_def)
  with activity_updates_in_place [OF pre e] e show ?thesis by auto
qed

section \<open>Driver errors\<close>

lemma join_newlines: "\<forall>l\<in>set ls. 10 \<notin> set l \<Longrightarrow>
  length (filter (\<lambda>c. c = 10) (join [10] ls)) = length ls - 1"
  by (induction "[10 :: nat]" ls rule: join.induct) (auto simp: filter_empty_conv)

text \<open>
  A driver error shown in the transcript has at most 800 characters and at most six line
  breaks whatever the driver printed, and an error of at most six lines and 800 characters is
  shown in full.
\<close>

theorem compact_driver_error_bounds:
  "length (compact_driver_error e) \<le> 800 \<and>
   length (filter (\<lambda>c. c = 10) (compact_driver_error e)) \<le> 6 \<and>
   (length (lines e) \<le> 6 \<longrightarrow> length (join [10] (lines e)) \<le> 800 \<longrightarrow>
      compact_driver_error e = join [10] (lines e))"
proof -
  have nl: "length (filter (\<lambda>c. c = 10) (join [10] (take 6 (lines e)))) = length (take 6 (lines e)) - 1"
    by (rule join_newlines) (meson in_set_takeD lines_no_newline)
  define c where "c = (if 6 < length (lines e) then join [10] (take 6 (lines e)) @ [10, ellipsis]
    else join [10] (take 6 (lines e)))"
  have le: "length (filter (\<lambda>c. c = 10) c) \<le> 6"
    using nl by (cases "6 < length (lines e)") (simp_all add: ellipsis_def c_def)
  have "length (filter (\<lambda>c. c = 10) (take 799 c)) \<le> length (filter (\<lambda>c. c = 10) c)"
    by (metis append_take_drop_id filter_append length_append le_add1)
  with le have "length (filter (\<lambda>c. c = 10) (take 799 c)) \<le> 6" by simp
  moreover have eq: "compact_driver_error e = (if 800 < length c then take 799 c @ [ellipsis] else c)"
    by (simp add: compact_driver_error_def c_def Let_def)
  moreover have "length (lines e) \<le> 6 \<Longrightarrow> c = join [10] (lines e)" by (simp add: c_def)
  ultimately show ?thesis using le by (auto simp: ellipsis_def)
qed

theorem compact_driver_error_bounds_witness:
  "compact_driver_error (lit ''boom'') = lit ''boom''"
  using compact_driver_error_bounds [of "lit ''boom''"]
  by (simp add: lines_def split_char_def lit_def)

end
