(* ===== verification/Daemon_Logic.thy ===== *)
theory Daemon_Logic
  imports Backend Reducer_Properties
begin

text \<open>
  The logic for the backend's operations. \<open>task_inv ok F\<close> is what every request keeps of the
  state: each stored task is \<open>ok\<close>, task ids are unique and none of them has been removed, a task
  has one live runtime, and the identifiers in \<open>F\<close> are unused. \<open>spec\<close> says what an operation makes of it;
  the locale \<open>task_law\<close> collects the operations that keep it for any \<open>ok\<close> that depends only on the
  id and the archive mark of a task.
\<close>

definition task_ids :: "'d daemon \<Rightarrow> uuid list" where
  "task_ids st = map s_id (tk_sessions (dm_tasks st))"

definition task_inv :: "(agent_session \<Rightarrow> bool) \<Rightarrow> uuid set \<Rightarrow> 'd daemon \<Rightarrow> bool" where
  "task_inv ok F st \<longleftrightarrow>
     list_all ok (tk_sessions (dm_tasks st)) \<and> distinct (task_ids st) \<and>
     set (task_ids st) \<inter> (dm_removed_sessions st \<union> F) = {} \<and> dm_removed_sessions st \<inter> F = {} \<and>
     distinct (map fst (dm_sessions st))"

text \<open>
  \<open>spec ok F V G f\<close>: from a state of \<open>task_inv ok F\<close> the operation gives a value of \<open>V\<close> in one of
  \<open>task_inv ok G\<close>, or fails in one of \<open>task_inv ok {}\<close>, and what is removed stays removed.
\<close>

definition spec ::
    "(agent_session \<Rightarrow> bool) \<Rightarrow> uuid set \<Rightarrow> ('a \<Rightarrow> bool) \<Rightarrow> uuid set \<Rightarrow> ('d, 'a) op \<Rightarrow> bool" where
  "spec ok F V G f \<longleftrightarrow> (\<forall>st r st'. task_inv ok F st \<longrightarrow> f st = (r, st') \<longrightarrow>
     dm_removed_sessions st \<subseteq> dm_removed_sessions st' \<and>
     (case r of Inr x \<Rightarrow> V x \<and> task_inv ok G st' | Inl _ \<Rightarrow> task_inv ok {} st'))"

abbreviation keeps :: "(agent_session \<Rightarrow> bool) \<Rightarrow> uuid set \<Rightarrow> ('d, 'a) op \<Rightarrow> bool" where
  "keeps ok F f \<equiv> spec ok F (\<lambda>_. True) F f"

lemma task_inv_mono: "task_inv ok F st \<Longrightarrow> G \<subseteq> F \<Longrightarrow> task_inv ok G st"
  by (auto simp: task_inv_def)

lemma specI:
  "(\<And>st r st'. task_inv ok F st \<Longrightarrow> f st = (r, st') \<Longrightarrow>
     dm_removed_sessions st \<subseteq> dm_removed_sessions st' \<and>
     (case r of Inr x \<Rightarrow> V x \<and> task_inv ok G st' | Inl _ \<Rightarrow> task_inv ok {} st')) \<Longrightarrow> spec ok F V G f"
  by (simp add: spec_def)

lemma specD:
  "spec ok F V G f \<Longrightarrow> task_inv ok F st \<Longrightarrow> f st = (r, st') \<Longrightarrow>
     dm_removed_sessions st \<subseteq> dm_removed_sessions st' \<and>
     (case r of Inr x \<Rightarrow> V x \<and> task_inv ok G st' | Inl _ \<Rightarrow> task_inv ok {} st')"
  by (simp add: spec_def)

lemma spec_result:
  "spec ok F V {} f \<Longrightarrow> task_inv ok F st \<Longrightarrow>
   task_inv ok {} (snd (f st)) \<and> dm_removed_sessions st \<subseteq> dm_removed_sessions (snd (f st))"
  using specD [of ok F V "{}" f st "fst (f st)" "snd (f st)"] by (auto split: sum.splits)

lemma spec_weaken:
  "spec ok F V G f \<Longrightarrow> (\<And>x. V x \<Longrightarrow> U x) \<Longrightarrow> H \<subseteq> G \<Longrightarrow> spec ok F U H f"
proof (rule specI)
  fix st r st'
  assume f: "spec ok F V G f" and v: "\<And>x. V x \<Longrightarrow> U x" "H \<subseteq> G" and i: "task_inv ok F st" "f st = (r, st')"
  from specD [OF f i] v task_inv_mono [of ok G st' H]
  show "dm_removed_sessions st \<subseteq> dm_removed_sessions st' \<and>
     (case r of Inr x \<Rightarrow> U x \<and> task_inv ok H st' | Inl _ \<Rightarrow> task_inv ok {} st')"
    by (auto split: sum.splits)
qed

lemma spec_bind:
  assumes f: "spec ok F V G f" and g: "\<And>x. V x \<Longrightarrow> spec ok G U H (g x)"
  shows "spec ok F U H (bind_op f g)"
proof (rule specI)
  fix st r st'
  assume i: "task_inv ok F st" and e: "bind_op f g st = (r, st')"
  obtain x s1 where x: "f st = (x, s1)" by fastforce
  note fd = specD [OF f i x]
  show "dm_removed_sessions st \<subseteq> dm_removed_sessions st' \<and>
     (case r of Inr x \<Rightarrow> U x \<and> task_inv ok H st' | Inl _ \<Rightarrow> task_inv ok {} st')"
  proof (cases x)
    case (Inl error)
    with e x fd show ?thesis by (auto simp: bind_op_def)
  next
    case (Inr a)
    with e x have "g a s1 = (r, st')" by (simp add: bind_op_def)
    with Inr fd g [of a] show ?thesis by (auto dest: specD)
  qed
qed

lemma bind_modify: "bind_op (modify f) g st = g () (f st)"
  by (simp add: bind_op_def modify_def)

lemma spec_return: "V x \<Longrightarrow> G \<subseteq> F \<Longrightarrow> spec ok F V G (return_op x)"
  by (auto simp: spec_def return_op_def intro: task_inv_mono)

lemma spec_error [intro]: "spec ok F V G (bail m)" "spec ok F V G (refuse m)"
  by (auto simp: spec_def bail_def refuse_def intro: task_inv_mono)

lemma spec_pure: "(\<And>st. snd (f st) = st) \<Longrightarrow> (\<And>st x st'. f st = (Inr x, st') \<Longrightarrow> V x) \<Longrightarrow> spec ok F V F f"
proof (rule specI)
  fix st r st'
  assume f: "\<And>st. snd (f st) = st" and v: "\<And>st x st'. f st = (Inr x, st') \<Longrightarrow> V x"
    and i: "task_inv ok F st" "f st = (r, st')"
  from f [of st] i(2) have "st' = st" by simp
  with i v [of st _ st'] task_inv_mono [of ok F st "{}"]
  show "dm_removed_sessions st \<subseteq> dm_removed_sessions st' \<and>
     (case r of Inr x \<Rightarrow> V x \<and> task_inv ok F st' | Inl _ \<Rightarrow> task_inv ok {} st')"
    by (auto split: sum.splits)
qed

lemma spec_state:
  "(\<And>st. task_inv ok F st \<Longrightarrow> spec ok F V G (f st)) \<Longrightarrow> spec ok F V G (\<lambda>st. f st st)"
  by (simp add: spec_def)

lemma spec_point:
  assumes "\<And>st. spec ok F V G (g st)" and "\<And>st. f st = g st st"
  shows "spec ok F V G f"
  using spec_state [of ok F V G g] assms by (simp add: spec_def)

section \<open>Parts of the state\<close>

lemma tasks_frame [simp]:
  "dm_removed_sessions (set_tasks f st) = dm_removed_sessions st" "dm_sessions (set_tasks f st) = dm_sessions st"
  "dm_tasks (set_tasks f st) = f (dm_tasks st)" "dm_tasks (tell i c st) = dm_tasks st"
  "dm_removed_sessions (tell i c st) = dm_removed_sessions st" "dm_sessions (tell i c st) = dm_sessions st"
  by (simp_all add: set_tasks_def tell_def)

lemma dirty_frame [simp]:
  "tk_sessions (mark_session_dirty i tasks) = tk_sessions tasks"
  "tk_projects (mark_session_dirty i tasks) = tk_projects tasks"
  "tk_sessions (update_task i f tasks) = update_first (\<lambda>s. s_id s = i) f (tk_sessions tasks)"
  "tk_sessions (push_session s tasks) = tk_sessions tasks @ [s]"
  by (simp_all add: mark_session_dirty_def update_task_def push_session_def)

lemma task_inv_cong:
  "dm_tasks st = dm_tasks st' \<Longrightarrow> dm_removed_sessions st = dm_removed_sessions st' \<Longrightarrow>
   dm_sessions st = dm_sessions st' \<Longrightarrow> task_inv ok F st = task_inv ok F st'"
  by (simp add: task_inv_def task_ids_def)

lemma spec_elsewhere:
  assumes "\<And>st. dm_tasks (f st) = dm_tasks st" "\<And>st. dm_removed_sessions (f st) = dm_removed_sessions st"
    "\<And>st. dm_sessions (f st) = dm_sessions st"
  shows "spec ok F (\<lambda>_. True) F (modify f)"
  using assms by (auto simp: spec_def modify_def task_inv_def task_ids_def)

lemma find_task_in: "find_task i st = Some s \<Longrightarrow> s \<in> set (tk_sessions (dm_tasks st)) \<and> s_id s = i"
  by (auto simp: find_task_def find_Some_iff)

lemma task_inv_find: "task_inv ok F st \<Longrightarrow> find_task i st = Some s \<Longrightarrow> ok s \<and> s_id s = i"
  using find_task_in [of i st s] by (auto simp: task_inv_def list_all_iff)

section \<open>Operations that change a task in place\<close>

lemma hydrate_identity [simp]: "s_id (hydrate db s) = s_id s" "s_archived_at (hydrate db s) = s_archived_at s"
  by (auto simp: hydrate_def split: option.split)

lemma externalize_identity [simp]:
  "s_id (externalize_blobs E s) = s_id s" "s_archived_at (externalize_blobs E s) = s_archived_at s"
  by (simp_all add: externalize_blobs_def)

lemma list_all_update_first:
  "list_all ok xs \<Longrightarrow> (\<And>x. P x \<Longrightarrow> ok x \<Longrightarrow> ok (f x)) \<Longrightarrow> list_all ok (update_first P f xs)"
  by (induction xs) auto

lemma task_inv_update:
  assumes "task_inv ok F st" "\<And>s. s_id s = i \<Longrightarrow> ok s \<Longrightarrow> ok (f s) \<and> s_id (f s) = i"
    and "dm_removed_sessions st' = dm_removed_sessions st" "dm_sessions st' = dm_sessions st"
    and "tk_sessions (dm_tasks st') = update_first (\<lambda>s. s_id s = i) f (tk_sessions (dm_tasks st))"
  shows "task_inv ok F st'"
proof -
  have "map s_id (update_first (\<lambda>s. s_id s = i) f xs) = map s_id xs" if "list_all ok xs" for xs
    using that assms(2) by (induction xs) auto
  then show ?thesis
    using assms by (auto simp: task_inv_def task_ids_def intro: list_all_update_first)
qed

lemma save_state_sessions:
  "save_state E budget store tasks = ((store', tasks'), r) \<Longrightarrow>
   tk_sessions tasks' = map (\<lambda>s. if s_id s \<in> tk_dirty_sessions tasks then externalize_blobs E s else s)
     (tk_sessions tasks)"
  by (auto simp: save_state_def Let_def split: prod.splits bool.splits)

section \<open>Operations that leave the tasks alone\<close>

text \<open>Such an operation may drop runtimes or install one, but not two for a task.\<close>

definition frame :: "'d daemon \<Rightarrow> 'd daemon \<Rightarrow> bool" where
  "frame st st' \<longleftrightarrow> dm_tasks st' = dm_tasks st \<and> dm_removed_sessions st' = dm_removed_sessions st \<and>
     (distinct (map fst (dm_sessions st)) \<longrightarrow> distinct (map fst (dm_sessions st')))"

definition quiet :: "('d daemon \<Rightarrow> 'a \<times> 'd daemon) \<Rightarrow> bool" where
  "quiet f \<longleftrightarrow> (\<forall>st. frame st (snd (f st)))"

named_theorems quiet_intros

lemma frame_refl [simp]: "frame st st"
  by (simp add: frame_def)

lemma frame_trans: "frame a b \<Longrightarrow> frame b c \<Longrightarrow> frame a c"
  by (auto simp: frame_def)

lemma frame_inv: "frame st st' \<Longrightarrow> task_inv ok F st \<Longrightarrow> task_inv ok F st'"
  by (simp add: frame_def task_inv_def task_ids_def)

lemma quietI: "(\<And>st. frame st (snd (f st))) \<Longrightarrow> quiet f"
  by (simp add: quiet_def)

lemma quietD: "quiet f \<Longrightarrow> f st = (r, st') \<Longrightarrow> frame st st'"
  by (metis quiet_def snd_conv)

lemma quiet_at: "quiet f \<Longrightarrow> frame st (snd (f st))"
  by (simp add: quiet_def)

lemma quiet_state: "(\<And>st. quiet (f st)) \<Longrightarrow> quiet (\<lambda>st. f st st)"
  by (simp add: quiet_def)

lemma quiet_bind [quiet_intros]: "quiet f \<Longrightarrow> (\<And>x. quiet (g x)) \<Longrightarrow> quiet (bind_op f g)"
  by (fastforce simp: quiet_def bind_op_def split: prod.split sum.split intro: frame_trans dest: quietD)

lemma quiet_pure [quiet_intros]:
  "quiet (return_op x)" "quiet (bail m)" "quiet (refuse m)" "quiet (of_outside y)" "quiet (of_typed e)"
  "quiet (provider_binary W p)" "quiet (fork_provider_session W q)" "quiet (no_native w)"
  "quiet (decode_op W names v)" "quiet (decode_cursor W c)" "quiet (runtime_driver W i r)"
  "quiet (terminal_of W i r)"
  by (auto simp: quiet_def return_op_def bail_def refuse_def of_outside_def of_typed_def provider_binary_def
      fork_provider_session_def no_native_def decode_op_def decode_cursor_def runtime_driver_def
      terminal_of_def split: sum.splits option.splits)

lemma quiet_run_git [quiet_intros]: "quiet (run_git f)"
  by (auto simp: quiet_def run_git_def frame_def split: prod.splits)

lemma frame_tell [simp]: "frame st (tell i c st') = frame st st'"
  by (simp add: frame_def tell_def)

lemma quiet_tell [quiet_intros]: "quiet f \<Longrightarrow> quiet (\<lambda>st. f (tell i c st))"
  by (auto simp: quiet_def) (meson frame_refl frame_tell frame_trans)

lemma quiet_modify_tell [quiet_intros]: "quiet (modify (tell i c))" "quiet (tell_ack i c)"
  by (simp_all add: quiet_def modify_def tell_ack_def bind_op_def return_op_def)

lemma quiet_spec: "quiet f \<Longrightarrow> spec ok F (\<lambda>_. True) F f"
proof (rule specI)
  fix st r st'
  assume f: "quiet f" and i: "task_inv ok F st" "f st = (r, st')"
  from quietD [OF f i(2)] have fr: "frame st st'" .
  from frame_inv [OF fr i(1)] fr show "dm_removed_sessions st \<subseteq> dm_removed_sessions st' \<and>
     (case r of Inr x \<Rightarrow> True \<and> task_inv ok F st' | Inl _ \<Rightarrow> task_inv ok {} st')"
    by (auto simp: frame_def split: sum.split intro: task_inv_mono)
qed

lemma spec_try:
  assumes f: "quiet f" and a: "\<And>e. spec ok F V G (A e)" and b: "\<And>x. spec ok F V G (B x)"
  shows "spec ok F V G (\<lambda>st. case f st of (Inl e, st) \<Rightarrow> A e st | (Inr x, st) \<Rightarrow> B x st)"
proof (rule specI)
  fix st r st'
  assume i: "task_inv ok F st" and e: "(case f st of (Inl e, st) \<Rightarrow> A e st | (Inr x, st) \<Rightarrow> B x st) = (r, st')"
  obtain x s1 where x: "f st = (x, s1)" by fastforce
  from quietD [OF f x] have fr: "frame st s1" .
  note i1 = frame_inv [OF fr i]
  from fr have rm: "dm_removed_sessions s1 = dm_removed_sessions st" by (simp add: frame_def)
  show "dm_removed_sessions st \<subseteq> dm_removed_sessions st' \<and>
     (case r of Inr x \<Rightarrow> V x \<and> task_inv ok G st' | Inl _ \<Rightarrow> task_inv ok {} st')"
  proof (cases x)
    case (Inl m)
    with e x have "A m s1 = (r, st')" by simp
    from specD [OF a i1 this] rm show ?thesis by simp
  next
    case (Inr m)
    with e x have "B m s1 = (r, st')" by simp
    from specD [OF b i1 this] rm show ?thesis by simp
  qed
qed

lemma spec_run:
  fixes f :: "'d daemon \<Rightarrow> 'b \<times> 'd daemon"
  assumes f: "quiet f" and b: "\<And>x. spec ok F V G (B x)"
  shows "spec ok F V G (\<lambda>st. case f st of (x, st) \<Rightarrow> B x st)"
proof -
  have "(case f st of (x, st) \<Rightarrow> B x st) =
      (case (case f st of (x, st) \<Rightarrow> (Inr x :: unit + 'b, st)) of (Inl e, st) \<Rightarrow> B undefined st | (Inr x, st) \<Rightarrow> B x st)" for st
    by (auto split: prod.split)
  moreover have "quiet (\<lambda>st. case f st of (x, st) \<Rightarrow> (Inr x :: unit + 'b, st))"
    by (rule quietI) (auto dest: quietD [OF f] split: prod.split)
  ultimately show ?thesis using spec_try [of "\<lambda>st. case f st of (x, st) \<Rightarrow> (Inr x :: unit + 'b, st)" ok F V G "\<lambda>_. B undefined" B] b
    by simp
qed

lemma spec_pre: "spec ok F V G f \<Longrightarrow> F \<subseteq> H \<Longrightarrow> spec ok H V G f"
  unfolding spec_def using task_inv_mono by blast

lemma context_op_state [simp]: "snd (context_op m f st) = snd (f st)"
  by (auto simp: context_op_def split: prod.split sum.split backend_error.split)

lemma spec_context: "spec ok F V G f \<Longrightarrow> spec ok F V G (context_op m f)"
proof (rule specI)
  fix st r st'
  assume f: "spec ok F V G f" and i: "task_inv ok F st" and e: "context_op m f st = (r, st')"
  obtain x s1 where x: "f st = (x, s1)" by fastforce
  from specD [OF f i x] e x show "dm_removed_sessions st \<subseteq> dm_removed_sessions st' \<and>
      (case r of Inr x \<Rightarrow> V x \<and> task_inv ok G st' | Inl _ \<Rightarrow> task_inv ok {} st')"
    by (auto simp: context_op_def split: sum.splits backend_error.splits)
qed

lemma quiet_context [quiet_intros]: "quiet f \<Longrightarrow> quiet (context_op m f)"
  by (simp add: quiet_def)

lemma quiet_driver_forks [quiet_intros]:
  "quiet (fork_response_with_driver W source cwd n)" "quiet (rollback_response_with_driver W source cwd binary n)"
  unfolding fork_response_with_driver_def [abs_def] rollback_response_with_driver_def [abs_def]
  by (auto intro!: quietI split: option.split
      simp: quiet_intros [unfolded quiet_def, rule_format] bind_op_def of_outside_def bail_def provider_binary_def
      split: sum.split)

lemma quiet_with_cursor [quiet_intros]: "quiet f \<Longrightarrow> quiet (with_cursor f)"
  by (auto simp: with_cursor_def intro!: quiet_intros)

lemma quiet_fork_provider [quiet_intros]: "quiet (fork_provider_response W p source cwd title n k m)"
  by (cases p) (auto intro!: quiet_intros split: option.split provider_resume_cursor.split)

lemma quiet_rewind_opencode: "quiet (rewind_native_session W OpenCode source cwd binary a b c d)"
  by (rule quietI) (auto intro!: quiet_at quiet_intros split: option.split provider_resume_cursor.split)

lemma quiet_rewind_native [quiet_intros]: "quiet (rewind_native_session W p source cwd binary a b c d)"
  by (cases p) (auto intro!: quiet_intros quiet_rewind_opencode simp del: rewind_native_session.simps(2)
      split: option.split provider_resume_cursor.split)

lemma quiet_rewind_provider [quiet_intros]: "quiet (rewind_provider_response W source cwd binary a b c d)"
  by (simp add: rewind_provider_response_def quiet_intros)

lemma quiet_restore_safety [quiet_intros]: "quiet (restore_rewind_safety W cwd safety m e)"
proof (rule quietI)
  fix st :: "'a daemon"
  obtain r s1 where g: "run_git (restore_ref (wd_git W) cwd safety) st = (r, s1)" by fastforce
  from quietD [OF quiet_run_git g] have "frame st s1" .
  with g show "frame st (snd (restore_rewind_safety W cwd safety m e st))"
    by (auto simp: restore_rewind_safety_def bail_def run_git_def frame_def split: sum.split prod.split)
qed

section \<open>Runtimes, terminals and settings\<close>

lemma frame_tells: "frame st (foldl (\<lambda>st (i, x). tell i c st) st xs)"
proof (induction xs arbitrary: st)
  case (Cons x xs)
  have "frame st (tell (fst x) c st)" by simp
  from frame_trans [OF this Cons.IH] show ?case by (simp add: case_prod_unfold)
qed simp

lemma quiet_update_settings: "quiet (update_settings W settings)"
proof (rule quietI)
  fix st :: "'a daemon"
  have "frame st (foldl (\<lambda>st (i, x). tell i c st) (st\<lparr>dm_settings := v\<rparr>) xs)" for c v and xs :: "(uuid \<times> uuid \<times> 'a) list"
    by (rule frame_trans [OF _ frame_tells]) (simp add: frame_def)
  then show "frame st (snd (update_settings W settings st))"
    by (auto simp: update_settings_def bail_def Let_def split: option.split)
qed

lemma quiet_requests:
  "quiet (attach_session W i)" "quiet (load_task_state W)" "quiet (list_provider_models W i p)"
  "quiet (open_terminal W i r)" "quiet (close_terminal W i r)" "quiet (close_session i r)"
  by (auto simp: quiet_def frame_def attach_session_def load_task_state_def list_provider_models_def bail_def
      open_terminal_def close_terminal_def close_session_def terminal_of_def return_op_def bind_op_def tell_def
      Let_def distinct_delete split: option.split sum.split)

lemma frame_credential: "frame st (snd (runtime_task_credential W i st))"
  by (auto simp: runtime_task_credential_def frame_def Let_def split: option.split prod.split)

lemma quiet_start_driver [quiet_intros]: "quiet (start_driver W i options p m im c)"
proof (rule quietI)
  fix st :: "'a daemon"
  obtain cr s1 where c: "runtime_task_credential W i st = (cr, s1)" by fastforce
  with frame_credential [of st W i] have "frame st s1" by simp
  with c show "frame st (snd (start_driver W i options p m im c st))"
    by (auto simp: start_driver_def of_outside_def bail_def split: sum.split)
qed

lemma quiet_install [quiet_intros]: "quiet (install_runtime W i r d)"
  by (auto simp: quiet_def frame_def install_runtime_def Let_def bail_def tell_def distinct_update split: option.split)

lemma quiet_stop_previous [quiet_intros]: "quiet (modify (stop_previous i))"
  by (auto simp: quiet_def modify_def stop_previous_def forget_reducers_def frame_def Let_def tell_def
      distinct_delete split: option.split)

lemma quiet_start_session: "quiet (start_session W i r options)"
  by (simp add: start_session_def quiet_intros)

lemma quiet_driver_command [quiet_intros]: "quiet (handle_driver_command W i d c)"
  by (cases c) (auto simp: handle_driver_command_def session_options_of_def
      intro!: quiet_intros split: option.split)

section \<open>Snapshots\<close>

lemma merge_stale_identity [simp]:
  "s_id (merge_stale_session_metadata e s) = s_id e" "s_archived_at (merge_stale_session_metadata e s) = s_archived_at e"
  by (auto simp: merge_stale_session_metadata_def merge_appended_client_turns_def merge_stale_metadata_fields_def
      Let_def split: prod.splits if_splits)

lemma merge_saved_identity:
  assumes "s_id s = s_id e"
  shows "s_id (merge_saved_session e s r) = s_id e" "s_archived_at (merge_saved_session e s r) = s_archived_at e"
  using assms by (simp_all add: merge_saved_session_def preserve_daemon_checkpoints_def Let_def)

lemma dirties_frame [simp]:
  "tk_sessions (foldl (\<lambda>tasks s. mark_session_dirty (s_id s) tasks) tasks xs) = tk_sessions tasks"
  by (induction xs arbitrary: tasks) auto

section \<open>Events\<close>

lemma reduce_event_task:
  assumes e: "reducer_apply L env r s ev context_default = (r2, s2, rd)"
    and "reduce_event L env r s ev cursor = (r', s', changed, stored)"
  shows "s' = (if s_archived_at s2 \<noteq> None \<and> rd_applied rd \<and> (returns_an_archived_task ev \<or>
      s_status s \<noteq> Session_Failed \<and> s_status s2 = Session_Failed)
    then s2\<lparr>s_runtime_event_cursor := Some cursor, s_archived_at := None\<rparr>
    else s2\<lparr>s_runtime_event_cursor := Some cursor\<rparr>)"
    and "s_archived_at s2 \<noteq> None \<and> rd_applied rd \<and> (returns_an_archived_task ev \<or>
      s_status s \<noteq> Session_Failed \<and> s_status s2 = Session_Failed) \<longrightarrow> changed \<and> stored"
  using assms(2) unfolding reduce_event_def e Let_def prod.case by (simp, simp only: prod.inject, force)

section \<open>What keeps its identity\<close>

lemma truncate_identity [simp]:
  "s_id (truncate_after_turn now n s) = s_id s" "s_archived_at (truncate_after_turn now n s) = s_archived_at s"
  by (simp_all add: truncate_after_turn_def Let_def)

lemma rewound_identity: "s_id (rewound_task W n x s) = s_id s \<and> s_archived_at (rewound_task W n x s) = s_archived_at s"
  by (simp add: rewound_task_def Let_def split: prod.split option.split)

lemma begin_identity [simp]:
  "s_id (begin_turn a b c d p s) = s_id s" "s_archived_at (begin_turn a b c d p s) = s_archived_at s"
  "s_id (set_title_from_prompt p s) = s_id s" "s_archived_at (set_title_from_prompt p s) = s_archived_at s"
  by (simp_all add: begin_turn_def begin_turn_with_presentation_def set_title_from_prompt_def Let_def)

lemma accept_prompt_identity:
  "accept_prompt_turn a b c d p sub s = Some (t, ev) \<Longrightarrow> s_id t = s_id s \<and> s_archived_at t = s_archived_at s"
  by (auto simp: accept_prompt_turn_def Let_def split: option.splits)

lemma child_id: "s_id (child_session W p parent req prov m e) = wd_uuid W 0"
  by (auto simp: child_session_def Let_def session_new_def split: option.split)

lemma fork_id: "fork_through_turn fresh a b n c t s = Some f \<Longrightarrow> s_id (finished_fork G ids f) = fresh 0"
  by (auto simp: fork_through_turn_def finished_fork_def Let_def split: if_splits)

lemma quiet_child_checks: "quiet (child_project parent)" "quiet (child_provider W p)"
  by (auto simp: quiet_def child_project_def child_provider_def refuse_def bail_def provider_binary_def
      split: option.split)

section \<open>The logic\<close>

locale task_law =
  fixes ok :: "agent_session \<Rightarrow> bool"
  assumes ok_cong: "s_id s = s_id t \<Longrightarrow> s_archived_at s = s_archived_at t \<Longrightarrow> ok s = ok t"
begin

lemma ok_same: "ok s \<Longrightarrow> s_id t = s_id s \<Longrightarrow> s_archived_at t = s_archived_at s \<Longrightarrow> ok t"
  using ok_cong by blast

lemma save_inv: "task_inv ok F st \<Longrightarrow> task_inv ok F (snd (save_tasks W st)) \<and>
    dm_removed_sessions (snd (save_tasks W st)) = dm_removed_sessions st"
proof -
  assume i: "task_inv ok F st"
  obtain store tasks r where
    e: "save_state (wd_store_env W) (wd_budget W) (dm_store st) (dm_tasks st) = ((store, tasks), r)"
    by (metis surj_pair)
  have "list_all ok (tk_sessions tasks)" "map s_id (tk_sessions tasks) = task_ids st"
    using i ok_same
    by (auto simp: save_state_sessions [OF e] task_inv_def list_all_iff task_ids_def)
  with i e show ?thesis by (auto simp: save_tasks_def task_inv_def task_ids_def)
qed

lemma spec_save: "keeps ok F (save_tasks W)"
proof (rule specI)
  fix st r st'
  assume "task_inv ok F st" "save_tasks W st = (r, st')"
  with save_inv [of F st W] show "dm_removed_sessions st \<subseteq> dm_removed_sessions st' \<and>
      (case r of Inr x \<Rightarrow> True \<and> task_inv ok F st' | Inl _ \<Rightarrow> task_inv ok {} st')"
    by (auto split: sum.split intro: task_inv_mono)
qed

lemma spec_update:
  assumes "\<And>s. s_id s = i \<Longrightarrow> ok s \<Longrightarrow> ok (f s) \<and> s_id (f s) = i"
    and "\<And>st. dm_removed_sessions (g st) = dm_removed_sessions st" "\<And>st. dm_sessions (g st) = dm_sessions st"
    and "\<And>st. tk_sessions (dm_tasks (g st)) = update_first (\<lambda>s. s_id s = i) f (tk_sessions (dm_tasks st))"
  shows "keeps ok F (modify g)"
proof (rule specI)
  fix st r st'
  assume i: "task_inv ok F st" and e: "modify g st = (r, st')"
  from e have r: "r = Inr ()" "st' = g st" by (simp_all add: modify_def)
  have "task_inv ok F st'"
    unfolding r(2) by (rule task_inv_update [OF i assms])
  with r assms(2) show "dm_removed_sessions st \<subseteq> dm_removed_sessions st' \<and>
      (case r of Inr x \<Rightarrow> True \<and> task_inv ok F st' | Inl _ \<Rightarrow> task_inv ok {} st')" by simp
qed

lemma spec_hydrate: "ok s \<Longrightarrow> spec ok F (\<lambda>t. ok t \<and> s_id t = s_id s \<and> s_archived_at t = s_archived_at s) F (hydrate_task W s)"
proof (rule specI)
  fix st r st'
  assume s: "ok s" and i: "task_inv ok F st" and e: "hydrate_task W s st = (r, st')"
  let ?t = "hydrate (ts_database (dm_store st)) s"
  have t: "ok ?t" using s ok_same by simp
  have "task_inv ok F (set_tasks (update_task (s_id s) (\<lambda>_. ?t)) st)"
    by (rule task_inv_update [OF i, of "s_id s" "\<lambda>_. ?t"]) (simp_all add: t)
  with i e t show "dm_removed_sessions st \<subseteq> dm_removed_sessions st' \<and>
      (case r of Inr t \<Rightarrow> (ok t \<and> s_id t = s_id s \<and> s_archived_at t = s_archived_at s) \<and> task_inv ok F st'
       | Inl _ \<Rightarrow> task_inv ok {} st')"
    by (auto simp: hydrate_task_def Let_def split: if_splits intro: task_inv_mono)
qed

lemma spec_loaded: "spec ok F (\<lambda>t. ok t \<and> s_id t = i) F (loaded_task W m i)"
proof -
  have "spec ok F (\<lambda>t. ok t \<and> s_id t = i) F
      (case find_task i st of None \<Rightarrow> bail m | Some s \<Rightarrow> hydrate_task W s)" if "task_inv ok F st" for st :: "'d daemon"
  proof (cases "find_task i st")
    case (Some s)
    with task_inv_find [OF that Some] spec_hydrate [of s F W] show ?thesis
      by (auto intro: spec_weaken)
  qed auto
  from spec_state [OF this] show ?thesis by (simp add: loaded_task_def [abs_def] option.case_distrib [of "\<lambda>f. f _"])
qed

lemma keeps_bind: "keeps ok F f \<Longrightarrow> (\<And>x. keeps ok F (g x)) \<Longrightarrow> keeps ok F (bind_op f g)"
  by (rule spec_bind [where V = "\<lambda>_. True" and G = F])

lemma keeps_return: "keeps ok F (return_op x)"
  by (rule spec_return) auto

lemma keeps_weak: "keeps ok F f \<Longrightarrow> spec ok F (\<lambda>_. True) {} f"
  by (rule spec_weaken) auto

lemma keeps_found:
  assumes "\<And>s. ok s \<Longrightarrow> s_id s = i \<Longrightarrow> spec ok F V G (g s)" and "spec ok F V G f"
  shows "spec ok F V G (\<lambda>st. case find_task i st of None \<Rightarrow> f st | Some s \<Rightarrow> g s st)"
proof (rule specI)
  fix st r st'
  assume i: "task_inv ok F st"
    and e: "(case find_task i st of None \<Rightarrow> f st | Some s \<Rightarrow> g s st) = (r, st')"
  show "dm_removed_sessions st \<subseteq> dm_removed_sessions st' \<and>
     (case r of Inr x \<Rightarrow> V x \<and> task_inv ok G st' | Inl _ \<Rightarrow> task_inv ok {} st')"
  proof (cases "find_task i st")
    case None
    with e specD [OF assms(2) i] show ?thesis by simp
  next
    case (Some s)
    with e have "g s st = (r, st')" by simp
    from specD [OF assms(1) i this] task_inv_find [OF i Some] show ?thesis by simp
  qed
qed

lemma keeps_summary: "keeps ok F (read_task_summary W i)"
  unfolding read_task_summary_def by (rule spec_bind [OF spec_loaded keeps_return])

lemma keeps_summarise: "list_all ok ss \<Longrightarrow> keeps ok F (summarise W ss)"
proof (induction ss)
  case (Cons s ss)
  then have "ok s" "keeps ok F (summarise W ss)" by simp_all
  show ?case unfolding summarise.simps
    by (rule spec_bind [OF spec_hydrate [OF \<open>ok s\<close>]])
      (intro keeps_bind keeps_return \<open>keeps ok F (summarise W ss)\<close>)
qed (simp add: keeps_return)

lemma keeps_children: "keeps ok F (list_child_tasks W i)"
proof -
  have "keeps ok F (bind_op (summarise W (filter (\<lambda>s. s_parent_task_id s = Some i) (tk_sessions (dm_tasks st))))
       (\<lambda>summaries. return_op (Pay_TaskSummaries summaries)))" if "task_inv ok F st" for st :: "'d daemon"
    using that by (intro keeps_bind keeps_summarise keeps_return) (auto simp: task_inv_def list_all_iff)
  from spec_state [OF this] show ?thesis by (simp add: list_child_tasks_def [abs_def])
qed

lemma keeps_queued: "keeps ok F (remove_queued_message W i q)"
  unfolding remove_queued_message_def
  by (rule spec_bind [OF spec_loaded], rule keeps_bind, rule spec_update [where i = i and
        f = "\<lambda>s. s\<lparr>s_queued_messages := filter (\<lambda>m. q_id m \<noteq> q) (s_queued_messages s)\<rparr>"])
    (auto intro!: keeps_bind spec_save keeps_return elim: ok_same simp: set_tasks_def)

lemma keeps_archive:
  assumes "\<And>s. s_id s = i \<Longrightarrow> ok s \<Longrightarrow> ok (s\<lparr>s_archived_at := if a then Some (wd_now W 0) else None\<rparr>)"
  shows "keeps ok F (archive_session W i a)"
proof -
  have "keeps ok F (modify (set_tasks (mark_session_dirty i \<circ> update_task i
      (\<lambda>s. s\<lparr>s_archived_at := if a then Some (wd_now W 0) else None\<rparr>))))"
    by (rule spec_update [where i = i and f = "\<lambda>s. s\<lparr>s_archived_at := if a then Some (wd_now W 0) else None\<rparr>"])
      (use assms in auto)
  then show ?thesis
    unfolding archive_session_def [abs_def]
  proof (intro keeps_found spec_error)
    fix s
    show "keeps ok F (\<lambda>st. if a \<and> status_is_busy (s_status s)
        then refuse (lit ''this task is still running or waiting for you'') st
        else bind_op (modify (set_tasks (mark_session_dirty i \<circ> update_task i
            (\<lambda>s. s\<lparr>s_archived_at := if a then Some (wd_now W 0) else None\<rparr>))))
          (\<lambda>_. bind_op (save_tasks W) (\<lambda>_. return_op Pay_Ack)) st)"
      using keeps_bind [OF \<open>keeps ok F (modify _)\<close> keeps_bind [OF spec_save keeps_return]]
      by (cases "a \<and> status_is_busy (s_status s)") (simp_all only: if_True if_False simp_thms spec_error)
  qed
qed

lemma keeps_hydrate: "keeps ok F (hydrate_session W i)"
  unfolding hydrate_session_def [abs_def]
  by (intro keeps_found) (auto intro!: spec_bind [OF spec_hydrate] keeps_return
      spec_return [unfolded return_op_def])

text \<open>Removing tasks: they are noted as removed in the same step.\<close>

lemma task_inv_drop:
  assumes i: "task_inv ok {} st"
    and t: "tk_sessions (dm_tasks st') = filter P (tk_sessions (dm_tasks st))"
    and r: "dm_removed_sessions st \<subseteq> dm_removed_sessions st'"
    "\<And>s. s \<in> set (tk_sessions (dm_tasks st)) \<Longrightarrow> P s \<Longrightarrow> s_id s \<in> dm_removed_sessions st' \<Longrightarrow>
       s_id s \<in> dm_removed_sessions st"
    and d: "distinct (map fst (dm_sessions st'))"
  shows "task_inv ok {} st'"
  using i d r(2) unfolding task_inv_def task_ids_def t
  by (auto simp: list_all_iff distinct_map_filter)

lemma keeps_remove_project: "keeps ok {} (remove_project W p)"
proof -
  let ?stranded = "\<lambda>st. map s_id (filter (\<lambda>s. s_project_id s = p) (tk_sessions (dm_tasks st)))"
  let ?f = "\<lambda>st st1. st1\<lparr>dm_removed_projects := insert p (dm_removed_projects st1),
            dm_removed_sessions := dm_removed_sessions st1 \<union> set (?stranded st),
            dm_tasks := (dm_tasks st)\<lparr>
              tk_projects := filter (\<lambda>q. p_id q \<noteq> p) (tk_projects (dm_tasks st)),
              tk_sessions := filter (\<lambda>s. s_project_id s \<noteq> p) (tk_sessions (dm_tasks st))\<rparr>\<rparr>"
  have drop: "task_inv ok {} (?f st st)" if i: "task_inv ok {} st" for st :: "'d daemon"
  proof (rule task_inv_drop [OF i, of _ "\<lambda>s. s_project_id s \<noteq> p"])
    fix s
    assume s: "s \<in> set (tk_sessions (dm_tasks st))" "s_project_id s \<noteq> p" "s_id s \<in> dm_removed_sessions (?f st st)"
    have "inj_on s_id (set (tk_sessions (dm_tasks st)))"
      using i by (simp add: task_inv_def task_ids_def distinct_map)
    with s show "s_id s \<in> dm_removed_sessions st" by (auto dest: inj_onD)
  qed (use i in \<open>auto simp: task_inv_def\<close>)
  have m: "keeps ok {} (\<lambda>st. modify (?f st) st)"
    by (rule specI) (auto simp: modify_def dest: drop)
  have fin: "keeps ok {} (modify (\<lambda>st. st\<lparr>dm_sessions := filter (\<lambda>(i, _). i \<notin> set (xs)) (dm_sessions st)\<rparr>))"
    for xs by (rule quiet_spec) (auto simp: quiet_def modify_def frame_def distinct_map_filter)
  show ?thesis
  proof (rule specI)
    fix st r st'
    assume i: "task_inv ok {} st" and e: "remove_project W p st = (r, st')"
    let ?k = "bind_op (save_tasks W) (\<lambda>_. bind_op (modify (\<lambda>st1. st1\<lparr>dm_sessions :=
        filter (\<lambda>(i, _). i \<notin> set (?stranded st)) (dm_sessions st1)\<rparr>)) (\<lambda>_. return_op Pay_Ack))"
    from e have k: "?k (?f st st) = (r, st')"
      by (simp only: remove_project_def Let_def bind_modify)
    have "keeps ok {} ?k" by (intro keeps_bind spec_save fin keeps_return)
    from specD [OF this drop [OF i] k]
    show "dm_removed_sessions st \<subseteq> dm_removed_sessions st' \<and>
      (case r of Inr x \<Rightarrow> True \<and> task_inv ok {} st' | Inl _ \<Rightarrow> task_inv ok {} st')" by auto
  qed
qed

lemma keeps_remove_session: "keeps ok {} (remove_session W i)"
proof (rule specI)
  fix st r st'
  assume inv: "task_inv ok {} st" and e: "remove_session W i st = (r, st')"
  let ?s = "set_tasks (forget_task (wd_projectless_root W) i) ((forget_reducers i st)\<lparr>
      dm_removed_sessions := insert i (dm_removed_sessions st),
      dm_removed_queued := {(j, q) \<in> dm_removed_queued st. j \<noteq> i}\<rparr>)"
  let ?k = "bind_op (save_tasks W) (\<lambda>_. bind_op (modify (\<lambda>st. st\<lparr>dm_sessions := AList.delete i (dm_sessions st)\<rparr>))
      (\<lambda>_. return_op Pay_Ack))"
  have fr: "dm_removed_sessions (forget_reducers i st) = dm_removed_sessions st"
    "dm_removed_queued (forget_reducers i st) = dm_removed_queued st" "dm_tasks (forget_reducers i st) = dm_tasks st"
    "dm_sessions (forget_reducers i st) = dm_sessions st" by (simp_all add: forget_reducers_def)
  from e have k: "?k ?s = (r, st')" by (simp only: remove_session_def bind_modify fr)
  have s: "task_inv ok {} ?s"
  proof (rule task_inv_drop [OF inv, of _ "\<lambda>s. s_id s \<noteq> i"])
    show "tk_sessions (dm_tasks ?s) = filter (\<lambda>s. s_id s \<noteq> i) (tk_sessions (dm_tasks st))"
      by (auto simp: forget_task_def fr Let_def split: option.split)
  qed (use inv in \<open>auto simp: fr task_inv_def\<close>)
  have "keeps ok {} (modify (\<lambda>st. st\<lparr>dm_sessions := AList.delete i (dm_sessions st)\<rparr>))"
    by (rule quiet_spec) (simp add: quiet_def modify_def frame_def distinct_delete)
  then have "keeps ok {} ?k" by (intro keeps_bind spec_save keeps_return)
  from specD [OF this s k]
  show "dm_removed_sessions st \<subseteq> dm_removed_sessions st' \<and>
    (case r of Inr x \<Rightarrow> True \<and> task_inv ok {} st' | Inl _ \<Rightarrow> task_inv ok {} st')" by auto
qed

lemma snapshot_sessions:
  assumes "list_all ok xs" "distinct (map s_id xs)"
    and "s_id s \<notin> set (map s_id xs) \<Longrightarrow> ok s"
  shows "list_all ok (merge_snapshot_session live xs s) \<and> distinct (map s_id (merge_snapshot_session live xs s)) \<and>
    set (map s_id (merge_snapshot_session live xs s)) = insert (s_id s) (set (map s_id xs))"
proof (cases "list_ex (\<lambda>e. s_id e = s_id s) xs")
  case True
  let ?f = "\<lambda>e. merge_saved_session e s (map_option fst (map_of live (s_id s)))"
  have f: "s_id e = s_id s \<Longrightarrow> ok e \<Longrightarrow> ok (?f e) \<and> s_id (?f e) = s_id s" for e
    using merge_saved_identity [of s e] ok_same [of e "?f e"] by simp
  have "map s_id (update_first (\<lambda>e. s_id e = s_id s) ?f xs) = map s_id xs"
    using assms(1) f by (induction xs) auto
  moreover have "list_all ok (update_first (\<lambda>e. s_id e = s_id s) ?f xs)"
    using assms(1) f by (intro list_all_update_first) auto
  moreover from True obtain e where "e \<in> set xs" "s_id s = s_id e" by (auto simp: list_ex_iff)
  then have "s_id s \<in> set (map s_id xs)" by simp
  ultimately show ?thesis using True assms(2) by (auto simp: merge_snapshot_session_def)
next
  case False
  then have "s_id s \<notin> set (map s_id xs)" by (auto simp: list_ex_iff)
  with False assms show ?thesis by (auto simp: merge_snapshot_session_def)
qed

lemma snapshot_fold:
  assumes "list_all ok xs" "distinct (map s_id xs)"
    and "\<And>s. s \<in> set ss \<Longrightarrow> s_id s \<notin> set (map s_id xs) \<Longrightarrow> ok s"
  shows "list_all ok (foldl (merge_snapshot_session live) xs ss) \<and>
    distinct (map s_id (foldl (merge_snapshot_session live) xs ss)) \<and>
    set (map s_id (foldl (merge_snapshot_session live) xs ss)) = set (map s_id xs) \<union> set (map s_id ss)"
  using assms
proof (induction ss arbitrary: xs)
  case (Cons s ss)
  note one = snapshot_sessions [OF Cons.prems(1,2), of s live]
  have "ok s" if "s_id s \<notin> set (map s_id xs)" using Cons.prems(3) that by auto
  note one = one [OF this]
  have "list_all ok (foldl (merge_snapshot_session live) (merge_snapshot_session live xs s) ss) \<and>
    distinct (map s_id (foldl (merge_snapshot_session live) (merge_snapshot_session live xs s) ss)) \<and>
    set (map s_id (foldl (merge_snapshot_session live) (merge_snapshot_session live xs s) ss)) =
      set (map s_id (merge_snapshot_session live xs s)) \<union> set (map s_id ss)"
    by (rule Cons.IH) (use one Cons.prems(3) in auto)
  with one show ?case by auto
qed simp

lemma save_state_inv:
  assumes inv: "task_inv ok {} st" and e: "save_task_state W projects sessions st = (r, st')"
    and new: "\<And>s. s_id s \<notin> set (task_ids st) \<Longrightarrow> s_archived_at s = None \<Longrightarrow> ok s"
  shows "task_inv ok {} st' \<and> dm_removed_sessions st' = dm_removed_sessions st"
proof -
  let ?ss = "admitted_snapshot st sessions"
  let ?s = "set_tasks (merge_snapshot W projects ?ss st) st"
  have t: "tk_sessions (dm_tasks ?s) = foldl (merge_snapshot_session (dm_sessions st)) (tk_sessions (dm_tasks st)) ?ss"
    by (simp add: merge_snapshot_def drop_unused_projects_def Let_def)
  have adm: "s_archived_at s = None \<and> s_id s \<notin> dm_removed_sessions st" if "s \<in> set ?ss" for s
    using that by (auto simp: admitted_snapshot_def)
  have s: "task_inv ok {} ?s"
    using snapshot_fold [of "tk_sessions (dm_tasks st)" ?ss "dm_sessions st"] inv new adm
    unfolding task_inv_def task_ids_def t by auto
  obtain y s1 where y: "save_tasks W ?s = (y, s1)" by fastforce
  from e have "bind_op (save_tasks W) (\<lambda>_ st. (Inr (Pay_TaskStateSaved
      (List.map_filter (\<lambda>s. find_task (s_id s) st) ?ss)), st)) ?s = (r, st')"
    by (simp only: save_task_state_def Let_def bind_modify)
  with y have "st' = s1" by (simp add: bind_op_def split: sum.splits)
  with save_inv [OF s, of W] y show ?thesis by simp
qed

text \<open>A new task takes an identifier nobody used.\<close>

lemma push_inv:
  assumes i: "task_inv ok F st" and s: "s_id s \<in> F" "ok s"
  shows "task_inv ok (F - {s_id s}) (set_tasks (push_session s) st)"
  using assms by (auto simp: task_inv_def task_ids_def)

lemma spec_push: "s_id s \<in> F \<Longrightarrow> ok s \<Longrightarrow> spec ok F (\<lambda>_. True) (F - {s_id s}) (modify (set_tasks (push_session s)))"
  by (rule specI) (use push_inv in \<open>auto simp: modify_def\<close>)

lemma spec_store_fork:
  assumes "s_id s \<in> F" "ok s"
  shows "spec ok F (\<lambda>_. True) {} (store_fork W cwd s)"
proof (rule specI)
  fix st r st'
  assume i: "task_inv ok F st" and e: "store_fork W cwd s st = (r, st')"
  let ?p = "set_tasks (push_session s) st"
  obtain x s1 where x: "save_tasks W ?p = (x, s1)" by fastforce
  have s1: "task_inv ok {} s1" "dm_removed_sessions s1 = dm_removed_sessions st"
    using save_inv [OF push_inv [OF i assms], of W] x task_inv_mono by auto
  let ?drop = "set_tasks (\<lambda>tasks. tasks\<lparr>tk_sessions := filter (\<lambda>t. s_id t \<noteq> s_id s) (tk_sessions tasks)\<rparr>)"
  have d: "task_inv ok {} (?drop s1)"
    by (rule task_inv_drop [OF s1(1), of _ "\<lambda>t. s_id t \<noteq> s_id s"]) (use s1 in \<open>auto simp: task_inv_def\<close>)
  show "dm_removed_sessions st \<subseteq> dm_removed_sessions st' \<and>
    (case r of Inr x \<Rightarrow> True \<and> task_inv ok {} st' | Inl _ \<Rightarrow> task_inv ok {} st')"
  proof (cases x)
    case (Inr u)
    with e x s1 show ?thesis by (auto simp: store_fork_def)
  next
    case (Inl m)
    obtain y s2 where y: "run_git (delete_all_session_refs (wd_git W) cwd (s_id s)) (?drop s1) = (y, s2)" by fastforce
    from quietD [OF quiet_run_git y] have fr: "frame (?drop s1) s2" .
    from Inl e x y have "st' = s2" "r = Inl (Plain_Error (lit ''could not save the forked task''))"
      by (simp_all add: store_fork_def bail_def)
    with frame_inv [OF fr d] fr s1 show ?thesis by (simp add: frame_def)
  qed
qed

lemma spec_fork_with_provider:
  assumes "wd_uuid W 0 \<in> F" "\<And>s. s_id s = wd_uuid W 0 \<Longrightarrow> ok s"
  shows "spec ok F (\<lambda>_. True) {} (fork_with_provider W source cwd title n)"
  unfolding fork_with_provider_def
proof (rule spec_bind [OF quiet_spec [OF quiet_fork_provider]])
  fix x :: "provider_resume_cursor \<times> message_map"
  show "spec ok F (\<lambda>_. True) {} (case x of (provider_cursor, ids) \<Rightarrow> \<lambda>st.
          case fork_through_turn (wd_uuid W) (wd_now W 0) (wd_now W 1) n provider_cursor title source of
            None \<Rightarrow> bail (lit ''the selected response cannot be copied'') st
          | Some forked \<Rightarrow>
              let forked = finished_fork (wd_git W) ids forked;
                  (copied, st) = run_git (copy_session_refs (wd_git W) cwd (s_id source) (s_id forked) n) st in
              bind_op (store_fork W cwd forked)
                (\<lambda>_. return_op (Pay_SessionForked forked (error_text copied))) st)"
  proof (cases x)
    case (Pair c ids)
    show ?thesis
    proof (cases "fork_through_turn (wd_uuid W) (wd_now W 0) (wd_now W 1) n c title source")
      case (Some f)
      let ?f = "finished_fork (wd_git W) ids f"
      have st: "spec ok F (\<lambda>_. True) {} (bind_op (store_fork W cwd ?f) (\<lambda>_. return_op (p :: response_payload)))" for p
        by (rule spec_bind [OF spec_store_fork keeps_return]) (use fork_id [OF Some] assms in auto)
      have "spec ok F (\<lambda>_. True) {} (\<lambda>st. case run_git (copy_session_refs (wd_git W) cwd (s_id source) (s_id ?f) n) st of
          (copied, st) \<Rightarrow> bind_op (store_fork W cwd ?f) (\<lambda>_. return_op (Pay_SessionForked ?f (error_text copied))) st)"
        by (rule spec_run [OF quiet_run_git st])
      with Pair Some show ?thesis by (simp add: Let_def)
    qed (use Pair spec_error in simp)
  qed
qed

lemma spec_fork:
  assumes "wd_uuid W 0 \<in> F" "\<And>s. s_id s = wd_uuid W 0 \<Longrightarrow> ok s"
  shows "spec ok F (\<lambda>_. True) {} (fork_session_from_response W i n)"
  unfolding fork_session_from_response_def [abs_def]
proof (intro keeps_found spec_error)
  fix s assume "ok s" "s_id s = i"
  have h: "spec ok F (\<lambda>_. True) F (context_op (lit ''could not load the source task'') (hydrate_task W s))"
    by (rule spec_context) (rule spec_weaken [OF spec_hydrate [OF \<open>ok s\<close>]], auto)
  show "spec ok F (\<lambda>_. True) {} (bind_op (context_op (lit ''could not load the source task'') (hydrate_task W s))
          (\<lambda>source st. case project_of st source of
              None \<Rightarrow> bail (lit ''the source task project is unavailable'') st
            | Some project \<Rightarrow>
                let cwd = task_cwd source project;
                    fork_title = next_response_fork_title (display_title source)
                      (map display_title (filter (\<lambda>t. s_project_id t = s_project_id source)
                        (tk_sessions (dm_tasks st)))) in
                (case validate_response_fork source n of
                   Inl message \<Rightarrow> bail message st
                 | Inr _ \<Rightarrow> fork_with_provider W source cwd fork_title n st)))"
  proof (rule spec_bind [OF h])
    fix source
    show "spec ok F (\<lambda>_. True) {} (\<lambda>st. case project_of st source of
              None \<Rightarrow> bail (lit ''the source task project is unavailable'') st
            | Some project \<Rightarrow>
                let cwd = task_cwd source project;
                    fork_title = next_response_fork_title (display_title source)
                      (map display_title (filter (\<lambda>t. s_project_id t = s_project_id source)
                        (tk_sessions (dm_tasks st)))) in
                (case validate_response_fork source n of
                   Inl message \<Rightarrow> bail message st
                 | Inr _ \<Rightarrow> fork_with_provider W source cwd fork_title n st))"
      by (rule spec_point [where g = "\<lambda>st. case project_of st source of
              None \<Rightarrow> bail (lit ''the source task project is unavailable'')
            | Some project \<Rightarrow>
                (case validate_response_fork source n of
                   Inl message \<Rightarrow> bail message
                 | Inr _ \<Rightarrow> fork_with_provider W source (task_cwd source project)
                    (next_response_fork_title (display_title source)
                      (map display_title (filter (\<lambda>t. s_project_id t = s_project_id source)
                        (tk_sessions (dm_tasks st))))) n)"])
        (use spec_fork_with_provider [OF assms] in \<open>auto simp: spec_error Let_def split: option.split sum.split\<close>)
  qed
qed

lemma spec_replace:
  assumes "ok t" "s_id t = i"
  shows "keeps ok F (modify (set_tasks (mark_session_dirty i \<circ> update_task i (\<lambda>_. t))))"
  by (rule spec_update [where i = i and f = "\<lambda>_. t"]) (use assms in auto)

lemma spec_store_rewound: "ok t \<Longrightarrow> s_id t = i \<Longrightarrow> keeps ok F (store_rewound W i t)"
proof -
  assume t: "ok t" "s_id t = i"
  have "store_rewound W i t = (\<lambda>st. case find_task i st of
        None \<Rightarrow> bail (lit ''the task was removed while it was being rewound'') st
      | Some _ \<Rightarrow> bind_op (modify (set_tasks (mark_session_dirty i \<circ> update_task i (\<lambda>_. t))))
          (\<lambda>_. context_op (lit ''could not save the rewound task'') (save_tasks W)) st)"
    by (rule ext) (auto simp: store_rewound_def bind_modify split: option.split)
  then show ?thesis
    by (simp only:) (intro keeps_found keeps_bind spec_replace [OF t] spec_context spec_save spec_error)
qed

lemma spec_rewind_worktree:
  assumes s: "ok source"
  shows "keeps ok F (rewind_worktree W source cwd binary restore n)"
proof -
  let ?i = "s_id source" and ?r = "n - 1"
  let ?safe = "safety_ref_name W ?i"
  define settle where "settle rewound = (\<lambda>st.
      let (_, st) = run_git (delete_ref (wd_git W) cwd ?safe) st;
          (deleted, st) = run_git (delete_turn_refs_after (wd_git W) cwd ?i ?r (length (s_turns source))) st;
          st = st\<lparr>dm_sessions := AList.delete ?i (dm_sessions st)\<rparr>;
          task = rewound_task W ?r rewound source in
      bind_op (store_rewound W ?i task) (\<lambda>_. return_op (Pay_SessionRewound task (error_text deleted))) st)" for rewound
  have settle: "keeps ok F (settle rewound)" for rewound
  proof -
    have "keeps ok F (bind_op (store_rewound W ?i (rewound_task W ?r rewound source))
        (\<lambda>_. return_op (p :: response_payload)))" for p
      using rewound_identity [of W ?r rewound source] ok_same [OF s]
      by (intro keeps_bind spec_store_rewound keeps_return) auto
    note b = keeps_bind [OF quiet_spec [of "modify (\<lambda>st. st\<lparr>dm_sessions := AList.delete ?i (dm_sessions st)\<rparr>)"] this]
    have "quiet (modify (\<lambda>st :: 'd daemon. st\<lparr>dm_sessions := AList.delete ?i (dm_sessions st)\<rparr>))"
      by (simp add: quiet_def modify_def frame_def distinct_delete)
    note b = b [OF this]
    have "keeps ok F (\<lambda>st. case run_git (delete_ref (wd_git W) cwd ?safe) st of (_, st) \<Rightarrow>
        (\<lambda>st. case run_git (delete_turn_refs_after (wd_git W) cwd ?i ?r (length (s_turns source))) st of (deleted, st) \<Rightarrow>
          bind_op (modify (\<lambda>st. st\<lparr>dm_sessions := AList.delete ?i (dm_sessions st)\<rparr>))
            (\<lambda>_. bind_op (store_rewound W ?i (rewound_task W ?r rewound source))
              (\<lambda>_. return_op (Pay_SessionRewound (rewound_task W ?r rewound source) (error_text deleted)))) st) st)"
      by (rule spec_run [OF quiet_run_git], rule spec_run [OF quiet_run_git], rule b)
    then show ?thesis by (simp add: settle_def Let_def bind_modify)
  qed
  have safe: "keeps ok F (restore_rewind_safety W cwd ?safe m e)" for m e
    by (rule quiet_spec [OF quiet_restore_safety])
  have e: "rewind_worktree W source cwd binary restore n =
      (\<lambda>st. case run_git (capture_ref (wd_git W) cwd ?safe) st of
        (Inl _, st) \<Rightarrow> bail (lit ''could not create a rewind safety snapshot'') st
      | (Inr _, st) \<Rightarrow> (\<lambda>st. case run_git (restore_ref (wd_git W) cwd restore) st of
          (Inl error, st) \<Rightarrow>
            restore_rewind_safety W cwd ?safe (lit ''could not restore the selected checkpoint'') error st
        | (Inr _, st) \<Rightarrow> (\<lambda>st. case rewind_provider_response W source cwd binary ?r
              (provider_turns_after ?r source)
              (length (filter t_provider_turn_started (take ?r (s_turns source))))
              (if ?r = 0 then None else Option.bind (nth_opt (s_turns source) (?r - 1)) t_provider_resume_at) st of
            (Inl error, st) \<Rightarrow> restore_rewind_safety W cwd ?safe (lit ''the provider rejected the rewind'')
              (error_message error) st
          | (Inr rewound, st) \<Rightarrow> settle rewound st) st) st)"
    by (rule ext) (simp only: rewind_worktree_def settle_def Let_def)
  show ?thesis
    unfolding e
    by (rule spec_try [OF quiet_run_git spec_error(1)], rule spec_try [OF quiet_run_git safe],
        rule spec_try [OF quiet_rewind_provider safe settle])
qed

lemma spec_rewind: "keeps ok F (rewind_session_to_message W i n)"
  unfolding rewind_session_to_message_def [abs_def]
proof (intro keeps_found spec_error)
  fix s assume "ok s" "s_id s = i"
  have h: "spec ok F ok F (context_op (lit ''could not load the task'') (hydrate_task W s))"
    by (rule spec_context) (rule spec_weaken [OF spec_hydrate [OF \<open>ok s\<close>]], auto)
  let ?load = "\<lambda>source st. case project_of st source of
      None \<Rightarrow> bail (lit ''the task project is unavailable'')
    | Some project \<Rightarrow> (case validate_message_rewind source n of
         Inl message \<Rightarrow> bail message
       | Inr _ \<Rightarrow> bind_op (provider_binary W (s_provider source)) (\<lambda>binary st.
          let turn_start = turn_start_ref (wd_git W) i n;
              restore = (if has_ref (task_cwd source project) turn_start (dm_repos st) then turn_start
                else checkpoint_ref (wd_git W) i (n - 1)) in
          if \<not> has_ref (task_cwd source project) restore (dm_repos st)
          then bail (lit ''the checkpoint before this message is unavailable'') st
          else rewind_worktree W source (task_cwd source project) binary restore n st))"
  have body: "keeps ok F (\<lambda>st. if \<not> has_ref cwd (restore st) (dm_repos st)
      then bail (lit ''the checkpoint before this message is unavailable'') st
      else rewind_worktree W source cwd binary (restore st) n st)" if "ok source" for source cwd binary restore
    by (rule spec_point [where g = "\<lambda>st. if \<not> has_ref cwd (restore st) (dm_repos st)
        then bail (lit ''the checkpoint before this message is unavailable'')
        else rewind_worktree W source cwd binary (restore st) n"])
      (auto simp: spec_error spec_rewind_worktree [OF that])
  show "keeps ok F (bind_op (context_op (lit ''could not load the task'') (hydrate_task W s))
      (\<lambda>source st. case project_of st source of
              None \<Rightarrow> bail (lit ''the task project is unavailable'') st
            | Some project \<Rightarrow>
                let cwd = task_cwd source project in
                (case validate_message_rewind source n of
                   Inl message \<Rightarrow> bail message st
                 | Inr _ \<Rightarrow> bind_op (provider_binary W (s_provider source))
                     (\<lambda>binary st.
                        let turn_start = turn_start_ref (wd_git W) i n;
                            restore = (if has_ref cwd turn_start (dm_repos st) then turn_start
                              else checkpoint_ref (wd_git W) i (n - 1)) in
                        if \<not> has_ref cwd restore (dm_repos st)
                        then bail (lit ''the checkpoint before this message is unavailable'') st
                        else rewind_worktree W source cwd binary restore n st) st)))"
  proof (rule spec_bind [OF h])
    fix source assume "ok source"
    have g: "keeps ok F (?load source st)" for st :: "'d daemon"
      by (auto simp: Let_def intro!: spec_error keeps_bind [OF quiet_spec [OF quiet_pure(6)]] body [OF \<open>ok source\<close>]
          split: option.split sum.split)
    show "keeps ok F (\<lambda>st. case project_of st source of
              None \<Rightarrow> bail (lit ''the task project is unavailable'') st
            | Some project \<Rightarrow>
                let cwd = task_cwd source project in
                (case validate_message_rewind source n of
                   Inl message \<Rightarrow> bail message st
                 | Inr _ \<Rightarrow> bind_op (provider_binary W (s_provider source))
                     (\<lambda>binary st.
                        let turn_start = turn_start_ref (wd_git W) i n;
                            restore = (if has_ref cwd turn_start (dm_repos st) then turn_start
                              else checkpoint_ref (wd_git W) i (n - 1)) in
                        if \<not> has_ref cwd restore (dm_repos st)
                        then bail (lit ''the checkpoint before this message is unavailable'') st
                        else rewind_worktree W source cwd binary restore n st) st))"
      by (rule spec_point [where g = "?load source"], rule g) (auto simp: Let_def split: option.split sum.split)
  qed
qed

lemma spec_turn_checkpoint:
  assumes "ok s" "s_id s = i"
  shows "keeps ok F (modify (set_tasks (mark_session_dirty i \<circ> update_task i (\<lambda>s. s\<lparr>s_turns :=
      update_first (\<lambda>t. t_turn_count t = n) (\<lambda>t. t\<lparr>t_checkpoint := Some c\<rparr>) (s_turns s)\<rparr>))))"
  by (rule spec_update [where i = i and f = "\<lambda>s. s\<lparr>s_turns :=
      update_first (\<lambda>t. t_turn_count t = n) (\<lambda>t. t\<lparr>t_checkpoint := Some c\<rparr>) (s_turns s)\<rparr>"])
    (auto elim: ok_same)

lemma keeps_capture: "keeps ok F (capture_turn_checkpoint W cwd i n)"
proof -
  have settled: "keeps ok F (\<lambda>st. case find_task i st of None \<Rightarrow> (Inr None, st)
        | Some s \<Rightarrow> bind_op (hydrate_task W s) (\<lambda>s. return_op (settled_checkpoint n s)) st)"
    by (intro keeps_found)
      (auto intro!: spec_bind [OF spec_hydrate] keeps_return keeps_return [unfolded return_op_def])
  have store: "keeps ok F (\<lambda>st. case find_task i st of None \<Rightarrow> (Inr c, st)
      | Some s \<Rightarrow> bind_op (hydrate_task W s)
          (\<lambda>s. if list_ex (\<lambda>t. t_turn_count t = n) (s_turns s)
            then bind_op (modify (set_tasks (mark_session_dirty i \<circ>
                update_task i (\<lambda>s. s\<lparr>s_turns := update_first (\<lambda>t. t_turn_count t = n)
                  (\<lambda>t. t\<lparr>t_checkpoint := Some c\<rparr>) (s_turns s)\<rparr>))))
              (\<lambda>_. bind_op (save_tasks W) (\<lambda>_. return_op c))
            else return_op c) st)" for c
  proof (rule keeps_found)
    fix s assume s: "ok s" "s_id s = i"
    show "keeps ok F (bind_op (hydrate_task W s)
          (\<lambda>s. if list_ex (\<lambda>t. t_turn_count t = n) (s_turns s)
            then bind_op (modify (set_tasks (mark_session_dirty i \<circ>
                update_task i (\<lambda>s. s\<lparr>s_turns := update_first (\<lambda>t. t_turn_count t = n)
                  (\<lambda>t. t\<lparr>t_checkpoint := Some c\<rparr>) (s_turns s)\<rparr>))))
              (\<lambda>_. bind_op (save_tasks W) (\<lambda>_. return_op c))
            else return_op c))"
      by (rule spec_bind [OF spec_hydrate [OF s(1)]])
        (auto intro!: keeps_bind spec_turn_checkpoint [OF s] spec_save keeps_return)
  qed (rule keeps_return [unfolded return_op_def])
  show ?thesis
    unfolding capture_turn_checkpoint_def
    by (intro keeps_bind settled)
      (auto split: option.split intro!: keeps_return keeps_bind store quiet_spec [OF quiet_pure(4)])
qed

lemma spec_create_child_of:
  assumes "wd_uuid W 0 \<in> F" "\<And>s. s_id s = wd_uuid W 0 \<Longrightarrow> ok s"
  shows "spec ok F (\<lambda>_. True) {} (create_child_of W req parent)"
proof -
  have push: "spec ok F (\<lambda>_. True) {} (bind_op (modify (set_tasks (push_session (child_session W p parent req prov m e))))
      (\<lambda>_. bind_op (save_tasks W) (\<lambda>_. return_op (x :: response_payload))))" for p prov m e x
    by (rule spec_bind [OF spec_push keeps_weak])
      (simp_all add: assms child_id keeps_bind spec_save keeps_return)
  have body: "spec ok F (\<lambda>_. True) {} (\<lambda>st.
       let catalog = pw_models (wd_provider W) (dm_settings st) provider in
           bind_op (of_typed (child_model W catalog provider parent (cr_model req))) (\<lambda>model.
             bind_op (of_typed (child_effort W
                 (Option.bind model (\<lambda>i. List.find (\<lambda>known. pm_id known = i) catalog))
                 provider parent model (cr_reasoning_effort req))) (\<lambda>effort.
               let s = child_session W project parent req provider model effort in
               bind_op (modify (set_tasks (push_session s))) (\<lambda>_.
                 bind_op (save_tasks W) (\<lambda>_. return_op (Pay_ChildTaskCreated s
                   (child_start_options binary (task_cwd parent project) s)))))) st)" for provider binary project
    unfolding Let_def
    by (rule spec_state, rule spec_bind [OF quiet_spec [OF quiet_pure(5)]],
        rule spec_bind [OF quiet_spec [OF quiet_pure(5)]], rule push)
  show ?thesis
    unfolding create_child_of_def Let_def
    by (rule spec_bind [OF quiet_spec [OF quiet_child_checks(1)]],
        rule spec_bind [OF quiet_spec [OF quiet_child_checks(2)]])
      (use body in \<open>auto simp: spec_error Let_def\<close>)
qed

lemma spec_create_child:
  assumes "wd_uuid W 0 \<in> F" "\<And>s. s_id s = wd_uuid W 0 \<Longrightarrow> ok s"
  shows "spec ok F (\<lambda>_. True) {} (create_child_task W req)"
proof -
  have b: "spec ok F (\<lambda>_. True) {} (bind_op (loaded_task W (lit ''the parent task is no longer available'') (cr_parent_task_id req))
        (create_child_of W req))"
    by (rule spec_bind [OF spec_loaded spec_create_child_of [OF assms]])
  show ?thesis
    by (rule spec_point [where g = "\<lambda>st. if \<not> ds_subtasks_enabled (dm_settings st)
      then refuse (lit ''Subtasks are disabled in Settings '' @ [0x2192] @ lit '' Features'')
      else bind_op (loaded_task W (lit ''the parent task is no longer available'') (cr_parent_task_id req))
        (create_child_of W req)"])
      (auto simp: b spec_error create_child_task_def)
qed

lemma keeps_accept_prompt: "keeps ok F (accept_prompt W i prompt sub)"
  unfolding accept_prompt_def [abs_def]
proof (intro keeps_found spec_error)
  fix s assume s: "ok s" "s_id s = i"
  have "keeps ok F (case accept_prompt_turn (wd_uuid W 0) (wd_uuid W 1) (wd_now W 0) (wd_now W 1) prompt sub s of
        None \<Rightarrow> bail []
      | Some (t, accepted) \<Rightarrow> bind_op (modify (set_tasks (mark_session_dirty i \<circ> update_task i (\<lambda>_. t))))
          (\<lambda>_. bind_op (save_tasks W) (\<lambda>_. return_op accepted)))"
    using s ok_same [OF s(1)]
    by (auto simp: spec_error split: option.split prod.split dest!: accept_prompt_identity
        intro!: keeps_bind spec_replace spec_save keeps_return)
  moreover have "(\<lambda>st. case accept_prompt_turn (wd_uuid W 0) (wd_uuid W 1) (wd_now W 0) (wd_now W 1) prompt sub s of
        None \<Rightarrow> bail [] st
      | Some (t, accepted) \<Rightarrow> bind_op (modify (set_tasks (mark_session_dirty i \<circ> update_task i (\<lambda>_. t))))
          (\<lambda>_. bind_op (save_tasks W) (\<lambda>_. return_op accepted)) st) =
      (case accept_prompt_turn (wd_uuid W 0) (wd_uuid W 1) (wd_now W 0) (wd_now W 1) prompt sub s of
        None \<Rightarrow> bail []
      | Some (t, accepted) \<Rightarrow> bind_op (modify (set_tasks (mark_session_dirty i \<circ> update_task i (\<lambda>_. t))))
          (\<lambda>_. bind_op (save_tasks W) (\<lambda>_. return_op accepted)))"
    by (auto split: option.split)
  ultimately show "keeps ok F (\<lambda>st. case accept_prompt_turn (wd_uuid W 0) (wd_uuid W 1) (wd_now W 0) (wd_now W 1) prompt sub s of
        None \<Rightarrow> bail [] st
      | Some (t, accepted) \<Rightarrow> bind_op (modify (set_tasks (mark_session_dirty i \<circ> update_task i (\<lambda>_. t))))
          (\<lambda>_. bind_op (save_tasks W) (\<lambda>_. return_op accepted)) st)" by simp
qed

lemma keeps_prompt: "keeps ok F (handle_prompt W i r prompt sub)"
proof -
  have "keeps ok F (\<lambda>st. bind_op (handle_driver_command W i d (c st)) (\<lambda>payload. return_op (payload, ev)) st)"
    for d c and ev :: events
    by (rule spec_point [where g = "\<lambda>st. bind_op (handle_driver_command W i d (c st)) (\<lambda>payload. return_op (payload, ev))"])
      (auto intro!: keeps_bind quiet_spec [OF quiet_driver_command] keeps_return)
  then show ?thesis
    unfolding handle_prompt_def Let_def
    by (intro keeps_bind keeps_accept_prompt quiet_spec [OF quiet_pure(11)] quiet_spec [OF quiet_pure(4)])
qed

text \<open>Every request but a saved snapshot and the archive mark's own.\<close>

lemma keeps_command:
  assumes "wd_uuid W 0 \<in> F" "\<And>s. s_id s = wd_uuid W 0 \<Longrightarrow> ok s"
    and "\<And>ps live ss. c \<noteq> Cmd_SaveTaskState ps live ss"
    and "\<And>a s. c = Cmd_ArchiveSession a \<Longrightarrow> s_id s = i \<Longrightarrow> ok s \<Longrightarrow>
      ok (s\<lparr>s_archived_at := if a then Some (wd_now W 0) else None\<rparr>)"
  shows "spec ok F (\<lambda>_. True) {} (handle_command W i r c)"
proof -
  note q = quiet_requests [THEN quiet_spec, THEN keeps_weak] quiet_update_settings [THEN quiet_spec, THEN keeps_weak]
    quiet_start_session [THEN quiet_spec, THEN keeps_weak]
  have t: "spec ok F (\<lambda>_. True) {} (bind_op (terminal_of W i r) (\<lambda>_. tell_ack i call))" for call
    by (intro keeps_weak keeps_bind quiet_spec quiet_pure quiet_modify_tell)
  have d: "spec ok F (\<lambda>_. True) {} (bind_op (runtime_driver W i r) (\<lambda>driver. handle_driver_command W i driver c))" for c
    by (intro keeps_weak keeps_bind quiet_spec quiet_pure quiet_driver_command)
  have o: "spec ok F (\<lambda>_. True) {} (\<lambda>st. (f st, st))" for f :: "'d daemon \<Rightarrow> backend_error + response_payload"
    by (rule keeps_weak, rule quiet_spec) (simp add: quiet_def)
  have w: "spec ok F (\<lambda>_. True) {} (bind_op (capture_turn_checkpoint W cwd j n) (\<lambda>x. return_op (f x)))"
    for cwd j n and f :: "checkpoint \<Rightarrow> response_payload"
    by (intro keeps_weak keeps_bind keeps_capture keeps_return)
  note k = keeps_summary keeps_children keeps_queued keeps_hydrate spec_rewind
  note drop = keeps_remove_project keeps_remove_session
  show ?thesis
    using assms q(1,2,4,5,6) spec_fork [OF assms(1,2)] spec_create_child [OF assms(1,2)]
    by (cases c) (simp_all add: handle_command_def t d o w k [THEN keeps_weak] drop [THEN spec_pre]
        keeps_archive [THEN keeps_weak] q split: option.split, blast)
qed

end

end
