(* ===== verification/Demo_Daemon.thy ===== *)
theory Demo_Daemon
  imports Backend Task_Store_Properties
begin

text \<open>
  A small concrete daemon for the witnesses of the backend's properties: drivers are numbers that
  accept everything, the store writes up to ten statements per call, and task 5 in project 1 is
  what the store holds. Witnesses vary single fields of \<open>demo_world\<close>.
\<close>

definition demo_settings :: daemon_settings where
  "demo_settings = \<lparr>ds_subtasks_enabled = True, ds_computer_use_enabled = False,
     ds_disabled_providers = [], ds_binary_overrides = Map.empty, ds_computer_use_allowed_apps = [],
     ds_conventional_commit_messages = False, ds_extra = []\<rparr>"

definition demo_provider_world :: provider_world where
  "demo_provider_world = \<lparr>pw_models = (\<lambda>_ _. []), pw_binary = (\<lambda>_ _. Some (lit ''agent'')),
     pw_fork_session = (\<lambda>_. Inl (lit ''no session'')), pw_outside = (\<lambda>_ _. Inr Pay_Ack)\<rparr>"

definition demo_git :: git_world where
  "demo_git = \<lparr>gw_uuid_text = (\<lambda>i. dec (unat i)), gw_capture_turn = (\<lambda>_ _ _. Inl []),
     gw_capture_error = (\<lambda>_. None), gw_restore_error = (\<lambda>_. None), gw_delete_error = (\<lambda>_. None),
     gw_transaction_error = None\<rparr>"

definition demo_world :: "nat world" where
  "demo_world = \<lparr>wd_lib = plain_lib, wd_codec = demo_codec, wd_settings_from = (\<lambda>_. demo_settings),
     wd_settings_to = (\<lambda>_. JNull), wd_settings_error = None, wd_store_env = plain_store_env,
     wd_budget = 20, wd_readable = True, wd_store_error = lit ''disk full'',
     wd_uuid = (\<lambda>n. 100 + of_nat n), wd_uuid_text = (\<lambda>i. dec (unat i)), wd_debug_text = id,
     wd_now = (\<lambda>_. 50), wd_env = (\<lambda>n. \<lparr>e_uuid = 200 + of_nat n, e_secs = (\<lambda>_. 60), e_millis = 60000\<rparr>),
     wd_token = [84], wd_projectless_root = None, wd_root_text = None, wd_default_cwd = lit ''/'',
     wd_supports_steer = (\<lambda>_. False), wd_start = (\<lambda>_ _. Inr 1), wd_set_computer_use = (\<lambda>_ _. None),
     wd_apply_options = (\<lambda>_ _. True), wd_rollback = (\<lambda>_ _. Inr None), wd_fork = (\<lambda>_ _. Inl []),
     wd_work_key = (\<lambda>_. None), wd_capture_request = (\<lambda>_. None), wd_checkpoint_json = (\<lambda>_. JNull),
     wd_open_terminal = None, wd_provider = demo_provider_world, wd_git = demo_git\<rparr>"

definition demo_project :: project where
  "demo_project = \<lparr>p_id = 1, p_name = [80], p_path = lit ''/p'', p_created_at = 1, p_workspace_default = Default_Local\<rparr>"

definition demo_database :: database where
  "demo_database = \<lparr>db_projects = [(0, demo_project)], db_sessions = [session_params (demo_task [7])],
     db_details = [(5, session_data (demo_task [7]))],
     db_messages = [message_row_of 5 0 (message_new 7 10 User [65])]\<rparr>"

definition demo_new :: "(backend_error + unit) \<times> nat daemon" where
  "demo_new = daemon_new demo_world demo_world (\<lambda>n. 300 + of_nat n) \<lparr>fs_denied = (\<lambda>_. False)\<rparr> id [] []
     demo_settings Map.empty Map.empty demo_database"

definition demo_row :: agent_session where
  "demo_row = session_skeleton (titled (first_prompts demo_database) (session_params (demo_task [7])))"

definition demo_opened :: "nat daemon" where
  "demo_opened = \<lparr>dm_sessions = [], dm_terminals = Map.empty, dm_settings = demo_settings,
     dm_store = \<lparr>ts_database = demo_database\<lparr>db_sessions := [session_params demo_row]\<rparr>,
       ts_storage = \<lparr>st_persisted_sessions = [5], st_written_messages = Map.empty,
         st_saved_projects = fingerprint (se_projects_text plain_store_env [demo_project])\<rparr>\<rparr>,
     dm_tasks = \<lparr>tk_projects = [demo_project], tk_sessions = [demo_row], tk_dirty_sessions = {}\<rparr>,
     dm_reducers = Map.empty, dm_removed_sessions = {}, dm_removed_projects = {}, dm_removed_queued = {},
     dm_credentials = [], dm_listen_address = None, dm_repos = Map.empty, dm_calls = []\<rparr>"

lemma demo_row_fields [simp]:
  "s_id demo_row = 5" "s_project_id demo_row = 1" "s_status demo_row = Idle" "s_archived_at demo_row = None"
  "s_parent_task_id demo_row = None" "s_provider demo_row = Claude" "\<not> s_detail_loaded demo_row"
  "session_params demo_row = titled (first_prompts demo_database) (session_params (demo_task [7]))"
  by (simp_all add: demo_row_def demo_task_started titled_def session_params_def session_skeleton_def demo_task_def session_new_def
      split: option.split)

lemma demo_opened_new: "demo_new = (Inr (), demo_opened)"
proof -
  have d: "distinct (map sr_id (db_sessions demo_database))" by (simp add: demo_database_def)
  have i: "sr_id (session_params (demo_task [7])) = 5" by (simp add: session_params_def demo_task_started)
  have l: "loaded_daemon demo_world (\<lambda>n. 300 + of_nat n) demo_settings Map.empty demo_database =
      demo_opened\<lparr>dm_store := \<lparr>ts_database = demo_database\<lparr>db_sessions := [session_params demo_row]\<rparr>,
       ts_storage = \<lparr>st_persisted_sessions = [5], st_written_messages = Map.empty, st_saved_projects = 0\<rparr>\<rparr>\<rparr>"
    unfolding loaded_daemon_def load_store_eq [OF d]
    by (simp add: demo_opened_def demo_database_def i load_projects_def) (simp add: demo_row_def demo_database_def demo_task_started)
  show ?thesis
    unfolding demo_new_def daemon_new_def l
    using demo_projects_fingerprint(2) [of demo_project]
    by (simp add: bind_op_def migrate_projectless_state_def demo_world_def settle_orphaned_turns_def demo_opened_def
        return_op_def save_tasks_def save_evaluation demo_database_def has_started_def)
qed

end
