(* ===== verification/Backend_Properties.thy ===== *)
theory Backend_Properties
  imports Daemon_Logic Demo_Daemon
begin

text \<open>
  What the daemon keeps over all its requests, events and ends of runtimes: task ids are unique, a
  removed task never returns, a task has one runtime; and the archive mark of a task is changed by
  nobody but its own request and the events that bring a task back.
\<close>

section \<open>The invariant of the daemon\<close>

interpretation any_task: task_law "\<lambda>_. True"
  by unfold_locales simp

definition marked_as :: "(uuid \<Rightarrow> u64 option option) \<Rightarrow> agent_session \<Rightarrow> bool" where
  "marked_as marks s \<longleftrightarrow> (case marks (s_id s) of None \<Rightarrow> True | Some m \<Rightarrow> s_archived_at s = m)"

interpretation mark: task_law "marked_as marks" for marks
  by unfold_locales (simp add: marked_as_def split: option.split)

definition daemon_inv :: "'d daemon \<Rightarrow> bool" where
  "daemon_inv = task_inv (\<lambda>_. True) {}"

lemma daemon_inv_fresh: "daemon_inv st \<Longrightarrow> i \<notin> set (task_ids st) \<union> dm_removed_sessions st \<Longrightarrow>
    task_inv (\<lambda>_. True) {i} st"
  by (auto simp: daemon_inv_def task_inv_def)

lemma handle_command_state:
  "snd (snd (handle W req st)) = (case q_command req of
     Cmd_Prompt prompt sub \<Rightarrow> snd (handle_prompt W (q_session_id req) (q_runtime_id req) prompt sub st)
   | c \<Rightarrow> snd (handle_command W (q_session_id req) (q_runtime_id req) c st))"
  by (cases "q_command req") (simp_all add: handle_def split: prod.split sum.split)

lemma handle_inv:
  assumes "daemon_inv st" "wd_uuid W 0 \<notin> set (task_ids st) \<union> dm_removed_sessions st"
  shows "daemon_inv (snd (snd (handle W req st))) \<and>
    dm_removed_sessions st \<subseteq> dm_removed_sessions (snd (snd (handle W req st)))"
proof -
  let ?i = "q_session_id req" and ?r = "q_runtime_id req"
  note f = daemon_inv_fresh [OF assms]
  consider (prompt) p sub where "q_command req = Cmd_Prompt p sub"
    | (save) ps live ss where "q_command req = Cmd_SaveTaskState ps live ss"
    | (other) "snd (snd (handle W req st)) = snd (handle_command W ?i ?r (q_command req) st)"
        "\<And>ps live ss. q_command req \<noteq> Cmd_SaveTaskState ps live ss"
    by (cases "q_command req") (simp_all add: handle_command_state)
  then show ?thesis
  proof cases
    case prompt
    from spec_result [OF any_task.keeps_prompt, of st W ?i ?r p sub] assms(1) prompt show ?thesis
      by (simp add: handle_command_state daemon_inv_def)
  next
    case save
    obtain x st' where e: "save_task_state W ps ss st = (x, st')" by fastforce
    from any_task.save_state_inv [OF assms(1) [unfolded daemon_inv_def] e] e save show ?thesis
      by (simp add: handle_command_state handle_command_def daemon_inv_def)
  next
    case other
    have "spec (\<lambda>_. True) {wd_uuid W 0} (\<lambda>_. True) {} (handle_command W ?i ?r (q_command req))"
      using other(2) by (intro any_task.keeps_command) simp_all
    from spec_result [OF this f] other(1) show ?thesis by (simp add: daemon_inv_def)
  qed
qed

lemma quiet_forget_reducer: "quiet (modify (\<lambda>st. if c then st\<lparr>dm_reducers := (dm_reducers st)(k := None)\<rparr> else st))"
  by (simp add: quiet_def modify_def frame_def)

lemma reduce_identity:
  assumes "reduce_event L env r s ev cursor = (r', s', changed, stored)"
  shows "s_id s' = s_id s"
proof -
  obtain r2 s2 rd where e: "reducer_apply L env r s ev context_default = (r2, s2, rd)" by (metis surj_pair)
  with events_keep_identity [of L env r s ev context_default] have "s_id s2 = s_id s"
    by (simp add: session_identity_def)
  with reduce_event_task(1) [OF e assms] show ?thesis by simp
qed

lemma update_first_id: "update_first P id xs = xs"
  by (induction xs) auto

lemma keeps_driver_event: "spec (\<lambda>_. True) {} (\<lambda>_. True) {} (handle_driver_event W event ev)"
proof -
  let ?i = "se_session_id event" and ?k = "(se_session_id event, se_runtime_id event)"
  let ?store = "\<lambda>changed r s' stored. bind_op (modify (\<lambda>st. set_tasks (update_task ?i (\<lambda>_. s'))
                  (st\<lparr>dm_reducers := (dm_reducers st)(?k \<mapsto> r)\<rparr>))) (\<lambda>_.
                bind_op (if stored
                    then bind_op (modify (set_tasks (mark_session_dirty ?i))) (\<lambda>_. save_tasks W)
                    else return_op ()) (\<lambda>_.
                  bind_op (modify (\<lambda>st. if ev = ProcessExited
                      then st\<lparr>dm_reducers := (dm_reducers st)(?k := None)\<rparr> else st)) (\<lambda>_.
                    return_op (changed :: bool))))"
  have dirty: "spec (\<lambda>_. True) {} (\<lambda>_. True) {} (modify (set_tasks (mark_session_dirty ?i)))"
    by (rule any_task.spec_update [where i = ?i and f = id]) (simp_all add: update_first_id)
  have store: "spec (\<lambda>_. True) {} (\<lambda>_. True) {} (?store changed r s' stored)" if "s_id s' = ?i" for r s' changed stored
    by (rule any_task.keeps_bind, rule any_task.spec_update [where i = ?i and f = "\<lambda>_. s'"])
      (auto simp: that intro!: any_task.keeps_bind dirty any_task.spec_save any_task.keeps_return
        quiet_spec [OF quiet_forget_reducer])
  let ?reduced = "\<lambda>s st. case reduce_event (wd_lib W) (wd_env W 0) (reducer_of ?k st) s ev (event_cursor event) of
      (r, s', changed, stored) \<Rightarrow> ?store changed r s' stored"
  have reduced_at: "spec (\<lambda>_. True) {} (\<lambda>_. True) {} (?reduced s st)" if "s_id s = ?i" for s and st :: "'a daemon"
  proof -
    obtain r s' changed stored where e: "reduce_event (wd_lib W) (wd_env W 0) (reducer_of ?k st) s ev (event_cursor event) =
        (r, s', changed, stored)" by (metis surj_pair)
    have "s_id s' = ?i" using reduce_identity [OF e] that by simp
    from store [OF this] e show ?thesis by (simp only: prod.case)
  qed
  have reduced: "spec (\<lambda>_. True) {} (\<lambda>_. True) {} (\<lambda>st. case reduce_event (wd_lib W) (wd_env W 0) (reducer_of ?k st) s ev (event_cursor event) of
      (r, s', changed, stored) \<Rightarrow> ?store changed r s' stored st)" if "s_id s = ?i" for s
    by (rule spec_point [where g = "?reduced s", OF reduced_at [OF that]]) (simp split: prod.split)
  have body: "spec (\<lambda>_. True) {} (\<lambda>_. True) {} (bind_op (hydrate_task W s) (\<lambda>s st.
      case reduce_event (wd_lib W) (wd_env W 0) (reducer_of ?k st) s ev (event_cursor event) of
      (r, s', changed, stored) \<Rightarrow> ?store changed r s' stored st))" if "s_id s = ?i" for s
    by (rule spec_bind [OF any_task.spec_hydrate]) (use reduced that in auto)
  show ?thesis
    unfolding handle_driver_event_def [abs_def] Let_def
    by (rule any_task.keeps_found [OF body spec_error(1)]) simp
qed

lemma event_inv:
  assumes "daemon_inv st"
  shows "daemon_inv (snd (handle_runtime_event W event st)) \<and>
    dm_removed_sessions st \<subseteq> dm_removed_sessions (snd (handle_runtime_event W event st))"
proof (cases "event_from_wire (wd_codec W) (se_event event)")
  case (Some ev)
  obtain x s1 where x: "handle_driver_event W event ev st = (x, s1)" by fastforce
  from spec_result [OF keeps_driver_event, of st W event ev] assms Some x show ?thesis
    by (auto simp: handle_runtime_event_def daemon_inv_def split: sum.split)
qed (simp add: handle_runtime_event_def assms)

section \<open>Reachable states\<close>

text \<open>
  The daemon opens on the tables of its store and then serves requests, reduces events and hears
  of ended runtimes in any order, each call in a world of its own. New identifiers are ones no
  task has or had.
\<close>

inductive daemon_step :: "'d daemon \<Rightarrow> 'd daemon \<Rightarrow> bool" where
  Served: "wd_uuid W 0 \<notin> set (task_ids st) \<union> dm_removed_sessions st \<Longrightarrow>
    daemon_step st (snd (snd (handle W req st)))"
| Reduced: "daemon_step st (snd (handle_runtime_event W event st))"
| Ended: "daemon_step st (runtime_ended i r st)"
| Listening: "daemon_step st (listening show_address ip port st)"
| Stopped: "daemon_step st (shutdown st)"

inductive daemon_reachable :: "'d daemon \<Rightarrow> bool" where
  Opened: "distinct (map sr_id (db_sessions db)) \<Longrightarrow>
    daemon_new W1 W2 fresh E lower uuids date settings repos fs db = (Inr (), st) \<Longrightarrow> daemon_reachable st"
| Stepped: "daemon_reachable st \<Longrightarrow> daemon_step st st' \<Longrightarrow> daemon_reachable st'"

lemma shutdown_frame: "frame st (shutdown st)"
  using frame_tells [of st Call_Cancel "dm_sessions st"] by (simp add: shutdown_def frame_def)

lemma runtime_ended_frame: "frame st (runtime_ended i r st)"
  by (auto simp: runtime_ended_def frame_def Let_def split: option.split prod.split)

lemma step_inv:
  assumes "daemon_step st st'" "daemon_inv st"
  shows "daemon_inv st' \<and> dm_removed_sessions st \<subseteq> dm_removed_sessions st'"
  using assms
proof (induction rule: daemon_step.induct)
  case (Served W st req)
  then show ?case using handle_inv by blast
next
  case (Reduced st W event)
  then show ?case using event_inv by blast
next
  case (Ended st i r)
  with frame_inv [OF runtime_ended_frame] runtime_ended_frame [of st i r] show ?case
    by (auto simp: daemon_inv_def frame_def)
next
  case (Listening st show_address ip port)
  then show ?case by (simp add: daemon_inv_def task_inv_def task_ids_def listening_def)
next
  case (Stopped st)
  with frame_inv [OF shutdown_frame] shutdown_frame [of st] show ?case
    by (auto simp: daemon_inv_def frame_def)
qed

lemma steps_inv: "daemon_step\<^sup>*\<^sup>* st st' \<Longrightarrow> daemon_inv st \<Longrightarrow>
    daemon_inv st' \<and> dm_removed_sessions st \<subseteq> dm_removed_sessions st'"
  by (induction rule: rtranclp_induct) (use step_inv in blast)+

lemma keeps_projects: "spec (\<lambda>_. True) {} (\<lambda>_. True) {} (modify (set_tasks (\<lambda>tasks. tasks\<lparr>tk_projects := f tasks\<rparr>)))"
  by (rule any_task.spec_update [where i = 0 and f = id]) (simp_all add: update_first_id)

lemma keeps_migration: "spec (\<lambda>_. True) {} (\<lambda>_. True) {} (migrate_projects W E lower uuids date root is fs)"
proof (induction "is" arbitrary: fs)
  case (Cons i "is")
  let ?next = "\<lambda>st. case List.find (\<lambda>p. p_id p = i) (tk_projects (dm_tasks st)) of
       None \<Rightarrow> migrate_projects W E lower uuids date root is fs
     | Some p \<Rightarrow> (case migrate_workspace_in E lower uuids date root (components (p_path p)) fs of
         (Inl _, fs) \<Rightarrow> bail (lit ''could not move projectless workspace '' @ p_path p @
           lit '' under ~/.shidou/projects'')
       | (Inr w, fs) \<Rightarrow>
           bind_op (modify (set_tasks (\<lambda>tasks. tasks\<lparr>tk_projects := update_first (\<lambda>q. p_id q = i)
               (\<lambda>q. q\<lparr>p_name := projectless_name, p_path := path_text (w_cwd w)\<rparr>) (tk_projects tasks)\<rparr>)))
             (\<lambda>_. bind_op (context_op (lit ''could not persist migrated projectless workspace'') (save_tasks W))
               (\<lambda>_. migrate_projects W E lower uuids date root is fs)))"
  have "spec (\<lambda>_. True) {} (\<lambda>_. True) {} (?next st)" for st :: "'a daemon"
    by (auto split: option.split prod.split sum.split
        intro!: Cons.IH spec_error any_task.keeps_bind keeps_projects spec_context any_task.spec_save)
  then show ?case
    by (rule spec_point [where g = ?next]) (simp split: option.split prod.split sum.split)
qed (simp add: any_task.keeps_return)

lemma keeps_settle: "spec (\<lambda>_. True) {} (\<lambda>_. True) {} (settle_tasks W n is)"
proof (induction "is" arbitrary: n)
  case (Cons i "is")
  have "spec (\<lambda>_. True) {} (\<lambda>_. True) {} (modify (\<lambda>st. if c then st
      else set_tasks (mark_session_dirty i \<circ> update_task i (\<lambda>s. fst (snd (reducer_apply (wd_lib W) (wd_env W n)
           reducer_default s (TurnFinished False None) context_default)))) st))" for c
    using events_keep_identity [of "wd_lib W" "wd_env W n" reducer_default _ "TurnFinished False None" context_default]
    by (rule_tac any_task.spec_update [where i = i and f = "\<lambda>s. if c then s else fst (snd (reducer_apply (wd_lib W) (wd_env W n)
           reducer_default s (TurnFinished False None) context_default))"])
      (auto simp: session_identity_def update_first_id [unfolded id_def])
  with Cons show ?case
    unfolding settle_tasks.simps
    by (intro spec_bind [OF any_task.spec_loaded] any_task.keeps_bind)
qed (simp add: any_task.keeps_return)

lemma loaded_inv: "distinct (map sr_id (db_sessions db)) \<Longrightarrow> daemon_inv (loaded_daemon W fresh settings repos db)"
  by (simp add: loaded_daemon_def load_store_eq daemon_inv_def task_inv_def task_ids_def comp_def
      split: prod.split) (simp add: distinct_map list_all_iff)

lemma opened_inv:
  assumes "distinct (map sr_id (db_sessions db))"
    and "daemon_new W1 W2 fresh E lower uuids date settings repos fs db = (Inr (), st)"
  shows "daemon_inv st"
proof -
  have "spec (\<lambda>_. True) {} (\<lambda>_. True) {} (bind_op (migrate_projectless_state W1 E lower uuids date fs) (\<lambda>_. settle_orphaned_turns W2))"
  proof (rule any_task.keeps_bind)
    show "spec (\<lambda>_. True) {} (\<lambda>_. True) {} (migrate_projectless_state W1 E lower uuids date fs)"
      by (rule spec_point [where g = "\<lambda>st. case wd_projectless_root W1 of
          None \<Rightarrow> return_op fs
        | Some root \<Rightarrow> migrate_projects W1 E lower uuids date root
            (map p_id (filter (\<lambda>p. needs_migration (Some root) (components (p_path p)))
              (tk_projects (dm_tasks st)))) fs"])
        (auto simp: migrate_projectless_state_def return_op_def split: option.split
          intro!: keeps_migration any_task.keeps_return)
    show "spec (\<lambda>_. True) {} (\<lambda>_. True) {} (settle_orphaned_turns W2)"
      unfolding settle_orphaned_turns_def [abs_def]
      by (rule spec_state, intro any_task.keeps_bind keeps_settle any_task.spec_save)
  qed
  from spec_result [OF this, of "loaded_daemon W1 fresh settings repos db"] 
    loaded_inv [OF assms(1), of W1 fresh settings repos] assms(2)
  show ?thesis by (simp add: daemon_new_def daemon_inv_def)
qed

lemma reachable_inv: "daemon_reachable st \<Longrightarrow> daemon_inv st"
  by (induction rule: daemon_reachable.induct) (use opened_inv step_inv in blast)+

section \<open>Properties\<close>

text \<open>
  C24: in every state the daemon can reach, no two tasks have one id, no task that was removed is
  there, and a task has at most one runtime.
\<close>

theorem daemon_invariant:
  assumes "daemon_reachable st"
  shows "distinct (task_ids st) \<and> set (task_ids st) \<inter> dm_removed_sessions st = {} \<and>
    distinct (map fst (dm_sessions st))"
  using reachable_inv [OF assms] by (simp add: daemon_inv_def task_inv_def)

text \<open>The tasks a request removes.\<close>

definition removes :: "request \<Rightarrow> 'd daemon \<Rightarrow> uuid set" where
  "removes req st = (case q_command req of
       Cmd_RemoveSession \<Rightarrow> {q_session_id req}
     | Cmd_RemoveProject p \<Rightarrow> s_id ` {s \<in> set (tk_sessions (dm_tasks st)). s_project_id s = p}
     | _ \<Rightarrow> {})"

lemma removed_noted: "daemon_inv st \<Longrightarrow> removes req st \<subseteq> dm_removed_sessions (snd (snd (handle W req st)))"
proof -
  assume inv: "daemon_inv st"
  have save: "dm_removed_sessions (snd (save_tasks W st1)) = dm_removed_sessions st1" for st1 :: "'a daemon"
    by (auto simp: save_tasks_def split: prod.splits)
  have rest: "dm_removed_sessions (snd (bind_op (save_tasks W) (\<lambda>_. bind_op (modify (\<lambda>st. st\<lparr>dm_sessions := f st\<rparr>))
      (\<lambda>_. return_op Pay_Ack)) st1)) = dm_removed_sessions st1" for f and st1 :: "'a daemon"
    using save [of st1] by (cases "save_tasks W st1"; cases "fst (save_tasks W st1)")
      (simp_all add: bind_op_def modify_def return_op_def)
  show ?thesis
  proof (cases "q_command req")
    case Cmd_RemoveSession
    then show ?thesis
      by (simp add: removes_def handle_command_state handle_command_def remove_session_def bind_modify rest)
  next
    case (Cmd_RemoveProject p)
    then show ?thesis
      by (auto simp: removes_def handle_command_state handle_command_def remove_project_def bind_modify rest Let_def)
  qed (simp_all add: removes_def)
qed

text \<open>
  C7: a task that is removed, alone or with its project, never returns: whatever requests, runtime
  events and snapshots of clients that still have it come later, and even if storing the removal
  failed.
\<close>

theorem removed_task_never_returns:
  assumes "daemon_reachable st" "wd_uuid W 0 \<notin> set (task_ids st) \<union> dm_removed_sessions st"
    and "i \<in> removes req st" "daemon_step\<^sup>*\<^sup>* (snd (snd (handle W req st))) st'"
  shows "find_task i st' = None"
proof -
  note inv = reachable_inv [OF assms(1)]
  from removed_noted [OF inv] assms(3) have "i \<in> dm_removed_sessions (snd (snd (handle W req st)))" by blast
  with steps_inv [OF assms(4)] handle_inv [OF inv assms(2)] have "daemon_inv st'" "i \<in> dm_removed_sessions st'"
    by blast+
  then show ?thesis by (auto simp: daemon_inv_def task_inv_def task_ids_def find_task_def find_None_iff)
qed

text \<open>The marks of the stored tasks.\<close>

definition marks :: "'d daemon \<Rightarrow> uuid \<Rightarrow> u64 option option" where
  "marks st i = map_option s_archived_at (find_task i st)"

lemma find_own:
  assumes "distinct (task_ids st)" "s \<in> set (tk_sessions (dm_tasks st))"
  shows "find_task (s_id s) st = Some s"
proof -
  have "List.find (\<lambda>t. s_id t = s_id s) xs = Some s" if "distinct (map s_id xs)" "s \<in> set xs" for xs
    using that by (induction xs) (auto simp: image_iff)
  with assms show ?thesis by (simp add: find_task_def task_ids_def)
qed

lemma marks_inv: "task_inv (\<lambda>_. True) F st \<Longrightarrow> task_inv (marked_as (marks st)) F st"
  by (auto simp: task_inv_def list_all_iff marked_as_def marks_def find_own split: option.split)

lemma marked_found: "task_inv (marked_as ms) F st \<Longrightarrow> find_task i st = Some s \<Longrightarrow> ms i = Some m \<Longrightarrow> s_archived_at s = m"
  by (drule (1) task_inv_find) (auto simp: marked_as_def)

lemma marked_update: "distinct (map s_id xs) \<Longrightarrow>
    list_all (marked_as [i \<mapsto> m]) (update_first (\<lambda>s. s_id s = i) (\<lambda>s. s\<lparr>s_archived_at := m\<rparr>) xs)"
proof (induction xs)
  case (Cons x xs)
  then have "marked_as [i \<mapsto> m] t" if "t \<in> set xs" "s_id x = i" for t
    using that by (auto simp: marked_as_def image_iff)
  with Cons show ?case by (auto simp: list_all_iff marked_as_def)
qed simp

lemma unknown_unmarked: "s_id t \<notin> set (task_ids st) \<Longrightarrow> marked_as (marks st) t"
  by (auto simp: marked_as_def marks_def task_ids_def dest!: find_task_in split: option.split) (metis imageI)

lemma archive_request:
  assumes inv: "daemon_inv st" and s: "find_task i st = Some s"
    and s': "find_task i (snd (archive_session W i a st)) = Some s'"
    and changed: "s_archived_at s' \<noteq> s_archived_at s"
  shows "s_archived_at s' = (if a then Some (wd_now W 0) else None) \<and> (a \<longrightarrow> \<not> status_is_busy (s_status s))"
proof (cases "a \<and> status_is_busy (s_status s)")
  case True
  with s s' changed show ?thesis by (simp add: archive_session_def refuse_def)
next
  case False
  let ?m = "if a then Some (wd_now W 0) else None"
  let ?st = "set_tasks (mark_session_dirty i \<circ> update_task i (\<lambda>s. s\<lparr>s_archived_at := ?m\<rparr>)) st"
  have e: "snd (archive_session W i a st) = snd (save_tasks W ?st)"
    using s by (simp only: archive_session_def False option.case if_False bind_modify)
      (simp add: bind_op_def return_op_def split: prod.split sum.split)
  from inv have "distinct (task_ids st)" by (simp add: daemon_inv_def task_inv_def)
  then have "task_inv (marked_as [i \<mapsto> ?m]) {} ?st"
  proof -
    let ?f = "\<lambda>s. s\<lparr>s_archived_at := ?m\<rparr>"
    have "task_inv (\<lambda>_. True) {} ?st"
      by (rule task_inv_update [OF inv [unfolded daemon_inv_def], where i = i and f = ?f]) simp_all
    then show ?thesis
      using \<open>distinct (task_ids st)\<close> by (simp add: task_inv_def task_ids_def marked_update)
  qed
  from mark.save_inv [OF this, of W] have "task_inv (marked_as [i \<mapsto> ?m]) {} (snd (save_tasks W ?st))" by blast
  from marked_found [OF this s' [unfolded e], of ?m] False show ?thesis by simp
qed

text \<open>
  C8: a request changes the archive mark of a task that stays only if it is the task's own
  \<open>ArchiveSession\<close>: the mark is then the one asked for, and it was not set on a busy task. No
  snapshot of a client, no prompt, rewind, start or fork touches the mark of any task.
\<close>

theorem archive_mark_kept:
  assumes "daemon_reachable st" "wd_uuid W 0 \<notin> set (task_ids st) \<union> dm_removed_sessions st"
    and s: "find_task i st = Some s" and s': "find_task i (snd (snd (handle W req st))) = Some s'"
    and changed: "s_archived_at s' \<noteq> s_archived_at s"
  shows "\<exists>a. q_command req = Cmd_ArchiveSession a \<and> q_session_id req = i \<and>
    s_archived_at s' = (if a then Some (wd_now W 0) else None) \<and> (a \<longrightarrow> \<not> status_is_busy (s_status s))"
proof -
  let ?i = "q_session_id req" and ?r = "q_runtime_id req" and ?ms = "(marks st)(q_session_id req := None)"
  note inv = reachable_inv [OF assms(1)]
  note f = daemon_inv_fresh [OF inv assms(2)]
  have fresh: "marked_as (marks st) t" if "s_id t = wd_uuid W 0" for t
    using that assms(2) by (intro unknown_unmarked) simp
  have here: "marks st i = Some (s_archived_at s)" using s by (simp add: marks_def)
  have no: "\<not> task_inv (marked_as (marks st)) {} (snd (snd (handle W req st)))"
    using marked_found [of "marks st" "{}", OF _ s' here] changed by blast
  consider (prompt) p sub where "q_command req = Cmd_Prompt p sub"
    | (save) ps live ss where "q_command req = Cmd_SaveTaskState ps live ss"
    | (archive) a where "q_command req = Cmd_ArchiveSession a"
    | (other) "snd (snd (handle W req st)) = snd (handle_command W ?i ?r (q_command req) st)"
        "\<And>ps live ss. q_command req \<noteq> Cmd_SaveTaskState ps live ss" "\<And>a. q_command req \<noteq> Cmd_ArchiveSession a"
    by (cases "q_command req") (simp_all add: handle_command_state)
  then show ?thesis
  proof cases
    case prompt
    from spec_result [OF mark.keeps_prompt, of "marks st" st W ?i ?r p sub] marks_inv [of "{}" st] inv prompt no
    show ?thesis by (simp add: handle_command_state daemon_inv_def)
  next
    case save
    obtain x st' where e: "save_task_state W ps ss st = (x, st')" by fastforce
    from mark.save_state_inv [OF marks_inv [OF inv [unfolded daemon_inv_def]] e unknown_unmarked] e save no show ?thesis
      by (simp add: handle_command_state handle_command_def)
  next
    case archive
    then have st': "snd (snd (handle W req st)) = snd (archive_session W ?i a st)"
      by (simp add: handle_command_state handle_command_def)
    show ?thesis
    proof (cases "?i = i")
      case True
      from archive_request [OF inv s _ changed, of W a] s' [unfolded st'] True archive show ?thesis by simp
    next
      case False
      have ok: "marked_as ?ms (t\<lparr>s_archived_at := v\<rparr>)" if "s_id t = ?i" for t v
        using that by (simp add: marked_as_def)
      have "task_inv (marked_as ?ms) {} st"
        using marks_inv [OF inv [unfolded daemon_inv_def]]
        by (auto simp: task_inv_def list_all_iff marked_as_def)
      from spec_result [OF mark.keeps_archive this, of ?i a W] ok
      have "task_inv (marked_as ?ms) {} (snd (archive_session W ?i a st))" by blast
      from marked_found [OF this s' [unfolded st'], of "s_archived_at s"] False here changed show ?thesis by simp
    qed
  next
    case other
    have "spec (marked_as (marks st)) {wd_uuid W 0} (\<lambda>_. True) {} (handle_command W ?i ?r (q_command req))"
      using other(2,3) fresh by (intro mark.keeps_command) (simp, blast+)
    from spec_result [OF this marks_inv [OF f]] other(1) no show ?thesis by simp
  qed
qed

section \<open>Witnesses\<close>

lemma demo_reachable: "daemon_reachable demo_opened"
  by (rule Opened [OF _ demo_opened_new [unfolded demo_new_def]]) (simp add: demo_database_def)

definition demo_call :: "command \<Rightarrow> request" where
  "demo_call c = \<lparr>q_request_id = 1, q_session_id = 5, q_runtime_id = 9, q_command = c\<rparr>"

definition demo_after :: "command \<Rightarrow> nat daemon \<Rightarrow> nat daemon" where
  "demo_after c st = snd (snd (handle demo_world (demo_call c) st))"

lemmas demo_evaluation = demo_after_def demo_call_def handle_command_state handle_command_def bind_op_def
  modify_def return_op_def save_tasks_def save_evaluation set_tasks_def find_task_def update_task_def
  mark_session_dirty_def demo_world_def demo_database_def has_started_def task_ids_def

lemma demo_unused_id: "wd_uuid demo_world 0 \<notin> set (task_ids demo_opened) \<union> dm_removed_sessions demo_opened"
  by (simp add: demo_world_def demo_opened_def task_ids_def)

lemma demo_removed:
  "task_ids (demo_after Cmd_RemoveSession demo_opened) = []"
  "dm_removed_sessions (demo_after Cmd_RemoveSession demo_opened) = {5}"
  by (simp_all add: demo_evaluation demo_opened_def remove_session_def forget_task_def forget_reducers_def
      is_projectless_def)

theorem daemon_invariant_witness: "distinct (map fst (dm_sessions demo_opened)) \<and> task_ids demo_opened = [5]"
  using daemon_invariant [OF demo_reachable] by (simp add: demo_opened_def task_ids_def)

theorem removed_task_never_returns_witness:
  "find_task 5 (demo_after (Cmd_SaveTaskState [demo_project] [] [demo_task [7]])
     (demo_after Cmd_RemoveSession demo_opened)) = None"
proof (rule removed_task_never_returns [OF demo_reachable demo_unused_id])
  show "5 \<in> removes (demo_call Cmd_RemoveSession) demo_opened"
    by (simp add: removes_def demo_call_def)
  have "wd_uuid demo_world 0 \<notin> set (task_ids (demo_after Cmd_RemoveSession demo_opened)) \<union>
      dm_removed_sessions (demo_after Cmd_RemoveSession demo_opened)"
    by (simp add: demo_removed) (simp add: demo_world_def)
  from daemon_step.Served [OF this, of "demo_call (Cmd_SaveTaskState [demo_project] [] [demo_task [7]])"]
  show "daemon_step\<^sup>*\<^sup>* (snd (snd (handle demo_world (demo_call Cmd_RemoveSession) demo_opened)))
      (demo_after (Cmd_SaveTaskState [demo_project] [] [demo_task [7]]) (demo_after Cmd_RemoveSession demo_opened))"
    by (simp add: demo_after_def r_into_rtranclp)
qed

theorem archive_mark_kept_witness:
  "\<exists>s. find_task 5 (demo_after (Cmd_ArchiveSession True) demo_opened) = Some s \<and> s_archived_at s = Some 50"
proof -
  have s: "find_task 5 demo_opened = Some demo_row" by (simp add: find_task_def demo_opened_def)
  have s': "find_task 5 (demo_after (Cmd_ArchiveSession True) demo_opened) = Some (demo_row\<lparr>s_archived_at := Some 50\<rparr>)"
    by (simp add: demo_evaluation demo_opened_def archive_session_def)
  from archive_mark_kept [OF demo_reachable demo_unused_id s s' [unfolded demo_after_def]] s' show ?thesis
    by (auto simp: demo_call_def demo_world_def)
qed

end
