(* ===== verification/Backend_Effects.thy ===== *)
theory Backend_Effects
  imports Demo_Daemon Daemon_Logic Protocol
begin

text \<open>
  What single operations of the daemon's backend do, errors included: events on archived tasks,
  orphaned turns, children, failed starts, prompts that could not be stored, and rewinds the
  provider rejects.
\<close>

section \<open>Events on an archived task\<close>

lemma rest_refuses_output: "\<not> status_is_busy (s_status s) \<Longrightarrow> accepts_turn_output context_default s = (s, False)"
  by (simp add: accepts_turn_output_def context_default_def session_accepts_turn_output_def)

definition resolves :: "driver_event \<Rightarrow> reducer \<Rightarrow> bool" where
  "resolves ev r \<longleftrightarrow> (\<exists>q. ev = InteractionResolved q \<and>
     (r_pending_permission r = Some q \<or> r_pending_user_input r = Some q))"

lemma status_fields [simp]:
  "s_status (push_message a b c d s) = s_status s" "s_status (fst (finish_active_turn n st s)) = s_status s"
  "s_status (mark_active_turn_provider_resume_at m s) = s_status s"
  "s_status (push_user_message_with_presentation a b d f g s) = s_status s"
  "s_status (fst (set_auto_title n t s)) = s_status s"
  by (auto simp: push_message_def finish_active_turn_def mark_active_turn_provider_resume_at_def
      push_user_message_with_presentation_def set_auto_title_def Let_def split: option.split)

text \<open>What an event other than the returning ones makes of a task at rest.\<close>

lemma event_at_rest:
  assumes rest: "\<not> status_is_busy (s_status s)" and ev: "\<not> returns_an_archived_task ev"
    and e: "reducer_apply L env r s ev context_default = (r2, s2, rd)"
  shows "s_status s2 = s_status s \<or> resolves ev r \<or> (rd_applied rd \<and> s_status s2 \<in> {Idle, Session_Failed})"
proof (cases ev)
  case (TurnFinished ok summary)
  with e show ?thesis
    by (auto simp: reduce_turn_finished_def Let_def reduction_applied_def split: prod.splits if_splits
        dest!: arg_cong [of _ _ fst])
next
  case (AutoTitleUpdated title)
  obtain s1 b where "set_auto_title (e_secs env 0) title s = (s1, b)" by fastforce
  with e AutoTitleUpdated status_fields(5) [of "e_secs env 0" title s] show ?thesis by simp
qed (use assms in \<open>auto simp: rest_refuses_output apply_activity_def reduce_connected_def Let_def
      reduce_interaction_resolved_def resolves_def reduce_steer_accepted_def reduce_usage_updated_def
      reduce_error_def reduce_process_exited_def reduction_applied_def
      split: option.splits provider_resume_cursor.splits prod.splits if_splits\<close>)

lemma returning_at_rest:
  assumes rest: "\<not> status_is_busy (s_status s)" and ev: "returns_an_archived_task ev"
    and e: "reducer_apply L env r s ev context_default = (r2, s2, rd)"
  shows "rd_applied rd \<or> s2 = s"
  using assms by (cases ev) (auto simp: rest_refuses_output reduction_applied_def split: if_splits)

text \<open>
  C23: an archived task at rest is not hidden when it becomes active. Whatever event arrives, either
  the mark is deleted, announced and stored, or the task stays at rest and does not newly fail. The
  one exception is the answer to an interaction the fold state still holds open, as it does after
  an error: it sets the task to working and leaves it in the archive.
\<close>

theorem archived_task_not_hidden:
  assumes "s_archived_at s = Some t" "\<not> status_is_busy (s_status s)"
    and "reduce_event L env r s ev cursor = (r', s', changed, stored)"
  shows "if resolves ev r then s_status s' = Working \<and> s_archived_at s' = Some t
    else s_archived_at s' = None \<and> changed \<and> stored \<or>
      s_archived_at s' = Some t \<and> \<not> status_is_busy (s_status s') \<and>
      (s_status s' = Session_Failed \<longrightarrow> s_status s = Session_Failed)"
proof -
  obtain r2 s2 rd where e: "reducer_apply L env r s ev context_default = (r2, s2, rd)" by (metis surj_pair)
  have arch: "s_archived_at s2 = Some t"
    using events_keep_identity [of L env r s ev context_default] e assms(1) by (simp add: session_identity_def)
  note s' = reduce_event_task [OF e assms(3)]
  show ?thesis
  proof (cases "resolves ev r")
    case True
    then obtain q where "ev = InteractionResolved q" by (auto simp: resolves_def)
    with True e have "s_status s2 = Working"
      by (auto simp: resolves_def reduce_interaction_resolved_def Let_def split: if_splits)
    with True \<open>ev = _\<close> s'(1) arch show ?thesis by simp
  next
    case False
    show ?thesis
    proof (cases "returns_an_archived_task ev")
      case True
      with returning_at_rest [OF assms(2) True e] s' arch assms(1,2) False show ?thesis by auto
    next
      case ev: False
      with event_at_rest [OF assms(2) ev e] s' arch assms(2) False show ?thesis by auto
    qed
  qed
qed

theorem archived_task_not_hidden_witness:
  "\<exists>r' s' changed stored. reduce_event plain_lib (demo_env 30) (reducer_default\<lparr>r_pending_permission := Some [1]\<rparr>)
      (demo_session\<lparr>s_archived_at := Some 3, s_status := Session_Failed\<rparr>) (InteractionResolved [1])
      \<lparr>rc_runtime_id = 1, rc_epoch = 2, rc_sequence = 3\<rparr> = (r', s', changed, stored) \<and>
    s_status s' = Working \<and> s_archived_at s' = Some 3"
proof -
  let ?r = "reducer_default\<lparr>r_pending_permission := Some [1]\<rparr>"
  let ?s = "demo_session\<lparr>s_archived_at := Some 3, s_status := Session_Failed\<rparr>"
  obtain r' s' changed stored where e: "reduce_event plain_lib (demo_env 30) ?r ?s (InteractionResolved [1])
      \<lparr>rc_runtime_id = 1, rc_epoch = 2, rc_sequence = 3\<rparr> = (r', s', changed, stored)" by (metis surj_pair)
  have "resolves (InteractionResolved [1]) ?r" by (simp add: resolves_def)
  with archived_task_not_hidden [of ?s 3, OF _ _ e] e show ?thesis by simp
qed

section \<open>Turns a restart orphaned\<close>

definition turn_settled :: "agent_session \<Rightarrow> bool" where
  "turn_settled s \<longleftrightarrow> (status_is_busy (s_status s) \<longrightarrow> active_turn_id s = None)"

lemma orphan_fails:
  "active_turn_id s \<noteq> None \<Longrightarrow> s_status (fst (snd (reducer_apply L env r s (TurnFinished False x) ctx))) = Session_Failed"
  by (auto simp: reduce_turn_finished_def Let_def split: prod.split dest!: arg_cong [of _ _ fst])

lemma update_first_twice: "P y \<Longrightarrow> update_first P f (update_first P (\<lambda>_. y) xs) = update_first P (\<lambda>_. f y) xs"
  by (induction xs) auto

lemma loaded_tasks:
  assumes "loaded_task W m i st = (Inr h, st')"
  shows "s_id h = i \<and> tk_sessions (dm_tasks st') = update_first (\<lambda>s. s_id s = i) (\<lambda>_. h) (tk_sessions (dm_tasks st))"
  using assms find_task_in [of i st]
  by (auto simp: loaded_task_def hydrate_task_def bail_def Let_def split: option.splits if_splits)

lemma settle_step:
  assumes "settle_tasks W n (i # is) st = (Inr (), st')"
  shows "\<exists>t st1. s_id t = i \<and> turn_settled t \<and> settle_tasks W (Suc n) is st1 = (Inr (), st') \<and>
    tk_sessions (dm_tasks st1) = update_first (\<lambda>s. s_id s = i) (\<lambda>_. t) (tk_sessions (dm_tasks st))"
proof -
  let ?f = "\<lambda>s. fst (snd (reducer_apply (wd_lib W) (wd_env W n) reducer_default s (TurnFinished False None) context_default))"
  from assms obtain h s1 where l: "loaded_task W [] i st = (Inr h, s1)"
    by (auto simp: bind_op_def split: prod.splits sum.splits)
  note h = loaded_tasks [OF l]
  let ?st1 = "if active_turn_id h = None then s1 else set_tasks (mark_session_dirty i \<circ> update_task i ?f) s1"
  let ?t = "if active_turn_id h = None then h else ?f h"
  from assms l have rest: "settle_tasks W (Suc n) is ?st1 = (Inr (), st')"
    by (simp only: settle_tasks.simps bind_op_def [of "loaded_task W [] i"] prod.case sum.case bind_modify)
  have id: "s_id (?f h) = s_id h"
    using events_keep_identity [of "wd_lib W" "wd_env W n" reducer_default h "TurnFinished False None" context_default]
    by (simp add: session_identity_def)
  have "turn_settled ?t"
    using orphan_fails [of h "wd_lib W" "wd_env W n" reducer_default None context_default]
    by (simp add: turn_settled_def)
  moreover have "tk_sessions (dm_tasks ?st1) = update_first (\<lambda>s. s_id s = i) (\<lambda>_. ?t) (tk_sessions (dm_tasks st))"
    using h by (simp add: update_first_twice)
  ultimately show ?thesis using rest id h by (intro exI [of _ ?t] exI [of _ ?st1]) simp
qed

lemma settle_all:
  assumes "settle_tasks W n is st = (Inr (), st')" "distinct (task_ids st)"
    and "\<And>s. s \<in> set (tk_sessions (dm_tasks st)) \<Longrightarrow> s_id s \<in> set is \<or> turn_settled s"
  shows "\<forall>s\<in>set (tk_sessions (dm_tasks st')). turn_settled s"
  using assms
proof (induction "is" arbitrary: n st)
  case (Cons i "is")
  from settle_step [OF Cons.prems(1)] obtain t st1 where t: "s_id t = i" "turn_settled t"
    and rest: "settle_tasks W (Suc n) is st1 = (Inr (), st')"
    and st1: "tk_sessions (dm_tasks st1) = update_first (\<lambda>s. s_id s = i) (\<lambda>_. t) (tk_sessions (dm_tasks st))" by blast
  have ids: "task_ids st1 = task_ids st"
    using t(1) by (simp add: task_ids_def st1 map_update_first)
  have upd: "s = t \<or> s \<in> set xs \<and> s_id s \<noteq> i"
    if "s \<in> set (update_first (\<lambda>s. s_id s = i) (\<lambda>_. t) xs)" "distinct (map s_id xs)" for s xs
    using that by (induction xs) (auto simp: image_iff split: if_splits)
  show ?case
  proof (rule Cons.IH [OF rest])
    show "distinct (task_ids st1)" using Cons.prems(2) ids by simp
    fix s assume "s \<in> set (tk_sessions (dm_tasks st1))"
    with upd [of s "tk_sessions (dm_tasks st)"] st1 Cons.prems(2)
    have "s = t \<or> s \<in> set (tk_sessions (dm_tasks st)) \<and> s_id s \<noteq> i" by (simp add: task_ids_def)
    with t(2) Cons.prems(3) [of s] show "s_id s \<in> set is \<or> turn_settled s" by auto
  qed
qed (simp add: return_op_def)


definition demo_orphan :: "nat daemon" where
  "demo_orphan = demo_opened\<lparr>dm_tasks := \<lparr>tk_projects = [demo_project],
     tk_sessions = [demo_session\<lparr>s_id := 5\<rparr>], tk_dirty_sessions = {}\<rparr>\<rparr>"

lemma demo_orphan_settled:
  "settle_tasks demo_world 0 [5] demo_orphan = (Inr (), demo_orphan\<lparr>dm_tasks := \<lparr>tk_projects = [demo_project],
     tk_sessions = [fst (snd (reducer_apply plain_lib (wd_env demo_world 0) reducer_default (demo_session\<lparr>s_id := 5\<rparr>)
       (TurnFinished False None) context_default))], tk_dirty_sessions = {5}\<rparr>\<rparr>)"
proof -
  have "s_detail_loaded demo_session" "active_turn_id (demo_session\<lparr>s_id := 5\<rparr>) = Some 10"
    by (simp_all add: demo_defs last_opt_def)
  moreover have "hydrate db (demo_session\<lparr>s_id := 5\<rparr>) = demo_session\<lparr>s_id := 5\<rparr>" for db
    using calculation by (simp add: hydrate_def)
  ultimately have l: "loaded_task demo_world [] 5 demo_orphan = (Inr (demo_session\<lparr>s_id := 5\<rparr>), demo_orphan)"
    by (simp add: demo_orphan_def loaded_task_def find_task_def hydrate_task_def set_tasks_def update_task_def Let_def)
  have w: "wd_lib demo_world = plain_lib" by (simp add: demo_world_def)
  show ?thesis
    unfolding settle_tasks.simps bind_op_def [of "loaded_task _ _ _"] l prod.case sum.case bind_modify
      return_op_def w using \<open>active_turn_id _ = _\<close>
    by (simp add: demo_orphan_def set_tasks_def update_task_def mark_session_dirty_def del: reducer_apply.simps)
qed

lemma demo_orphan_saved:
  assumes "s_id u = 5" "s_messages u = [a, b]"
  shows "snd (save_state plain_store_env 20 (dm_store demo_opened)
    \<lparr>tk_projects = [demo_project], tk_sessions = [u], tk_dirty_sessions = {5}\<rparr>)"
  using assms demo_projects_fingerprint(2) [of demo_project]
  by (simp add: demo_opened_def save_evaluation has_started_def demo_database_def)


section \<open>How far an operation reaches\<close>

text \<open>
  \<open>confined C D f\<close>: beside stored tasks, reducers and credentials the operation only tells drivers
  of the tasks \<open>C\<close> something and installs or drops runtimes of the tasks \<open>D\<close>.
\<close>

definition reaches :: "uuid set \<Rightarrow> uuid set \<Rightarrow> 'd daemon \<Rightarrow> 'd daemon \<Rightarrow> bool" where
  "reaches C D st st' \<longleftrightarrow> (\<exists>cs. dm_calls st' = dm_calls st @ cs \<and> fst ` set cs \<subseteq> C) \<and>
     (\<forall>j. j \<notin> D \<longrightarrow> map_of (dm_sessions st') j = map_of (dm_sessions st) j) \<and>
     dm_settings st' = dm_settings st \<and> dm_terminals st' = dm_terminals st \<and>
     dm_removed_sessions st' = dm_removed_sessions st \<and> dm_removed_projects st' = dm_removed_projects st \<and>
     dm_repos st' = dm_repos st"

definition confined :: "uuid set \<Rightarrow> uuid set \<Rightarrow> ('d daemon \<Rightarrow> 'a \<times> 'd daemon) \<Rightarrow> bool" where
  "confined C D f \<longleftrightarrow> (\<forall>st. reaches C D st (snd (f st)))"

named_theorems confined_intros

lemma reaches_refl [simp]: "reaches C D st st"
  by (simp add: reaches_def)

lemma reaches_trans: "reaches C D a b \<Longrightarrow> reaches C D b c \<Longrightarrow> reaches C D a c"
  unfolding reaches_def by (metis (no_types, lifting) append.assoc image_Un set_append le_sup_iff)

lemma confinedI: "(\<And>st. reaches C D st (snd (f st))) \<Longrightarrow> confined C D f"
  by (simp add: confined_def)

lemma confinedD: "confined C D f \<Longrightarrow> f st = (r, st') \<Longrightarrow> reaches C D st st'"
  by (metis confined_def snd_conv)

lemma confined_at: "confined C D f \<Longrightarrow> reaches C D st (snd (f st))"
  by (simp add: confined_def)

lemma confined_point: "(\<And>st. confined C D (g st)) \<Longrightarrow> (\<And>st. f st = g st st) \<Longrightarrow> confined C D f"
  by (simp add: confined_def)

lemma confined_bind [confined_intros]:
  "confined C D f \<Longrightarrow> (\<And>x. confined C D (g x)) \<Longrightarrow> confined C D (bind_op f g)"
  by (fastforce simp: confined_def bind_op_def split: prod.split sum.split intro: reaches_trans dest: confinedD)

lemma confined_pure [confined_intros]:
  "confined C D (return_op x)" "confined C D (bail m)" "confined C D (refuse m)" "confined C D (of_outside y)"
  "confined C D (of_typed e)" "confined C D (provider_binary W p)" "confined C D (fork_provider_session W q)"
  "confined C D (no_native w)" "confined C D (decode_op W names v)" "confined C D (decode_cursor W c)"
  "confined C D (runtime_driver W i r)" "confined C D (child_project parent)" "confined C D (child_provider W p)"
  by (auto simp: confined_def return_op_def bail_def refuse_def of_outside_def of_typed_def provider_binary_def
      fork_provider_session_def no_native_def decode_op_def decode_cursor_def runtime_driver_def
      child_project_def child_provider_def split: sum.splits option.splits)

lemma confined_save [confined_intros]: "confined C D (save_tasks W)"
  by (auto simp: confined_def save_tasks_def reaches_def split: prod.split)

lemma confined_tasks [confined_intros]: "confined C D (modify (set_tasks f))"
  by (simp add: confined_def modify_def set_tasks_def reaches_def)

lemma confined_hydrate [confined_intros]: "confined C D (hydrate_task W s)"
  by (simp add: confined_def hydrate_task_def set_tasks_def reaches_def Let_def)

lemma confined_loaded [confined_intros]: "confined C D (loaded_task W m i)"
  by (rule confinedI) (auto simp: loaded_task_def intro!: confined_at confined_intros split: option.split)

lemma reaches_tell [simp]: "i \<in> C \<Longrightarrow> reaches C D st (tell i c st)"
  by (simp add: reaches_def tell_def)

lemma confined_tell [confined_intros]: "i \<in> C \<Longrightarrow> confined C D (modify (tell i c))" "i \<in> C \<Longrightarrow> confined C D (tell_ack i c)"
  by (auto simp: confined_def modify_def tell_ack_def bind_op_def return_op_def)

lemma confined_after_tell [confined_intros]: "i \<in> C \<Longrightarrow> confined C D f \<Longrightarrow> confined C D (\<lambda>st. f (tell i c st))"
  using reaches_tell reaches_trans by (fastforce simp: confined_def)

lemma confined_driver_forks [confined_intros]:
  "s_id source \<in> C \<Longrightarrow> confined C D (fork_response_with_driver W source cwd n)"
  "s_id source \<in> C \<Longrightarrow> confined C D (rollback_response_with_driver W source cwd binary n)"
  by (rule confinedI, auto simp: fork_response_with_driver_def rollback_response_with_driver_def
      intro!: confined_at confined_intros reaches_trans [OF reaches_tell confined_at] split: option.split)+

lemma confined_with_cursor [confined_intros]: "confined C D f \<Longrightarrow> confined C D (with_cursor f)"
  by (auto simp: with_cursor_def intro!: confined_intros)

lemma confined_rewind_opencode: "s_id source \<in> C \<Longrightarrow> confined C D (rewind_native_session W OpenCode source cwd binary a b c d)"
  by (rule confinedI) (auto intro!: confined_at confined_intros split: option.split provider_resume_cursor.split)

lemma confined_rewind_native [confined_intros]:
  "s_id source \<in> C \<Longrightarrow> confined C D (rewind_native_session W p source cwd binary a b c d)"
  by (cases p) (auto intro!: confined_intros confined_rewind_opencode simp del: rewind_native_session.simps(2)
      split: option.split provider_resume_cursor.split)

lemma confined_rewind_provider [confined_intros]:
  "s_id source \<in> C \<Longrightarrow> confined C D (rewind_provider_response W source cwd binary a b c d)"
  by (simp add: rewind_provider_response_def confined_intros)

section \<open>What an agent can reach\<close>

lemma confined_summarise [confined_intros]: "confined C D (summarise W ss)"
  by (induction ss) (auto intro!: confined_intros)

lemma confined_reads:
  "confined C D (read_task_summary W i)" "confined C D (list_child_tasks W i)" "confined C D (attach_session W i)"
  "confined C D (list_provider_models W i p)" "confined C D (hydrate_session W i)"
  by (auto simp: read_task_summary_def list_child_tasks_def attach_session_def list_provider_models_def
      hydrate_session_def intro!: confinedI confined_intros confined_at [OF confined_bind] confined_at [OF confined_pure(2)]
      split: option.split)

lemma confined_create_child: "confined C D (create_child_task W req)"
proof -
  have "confined C D (create_child_of W req parent)" for parent
    unfolding create_child_of_def Let_def
    by (intro confined_bind confined_pure)
      (auto intro!: confinedI confined_at [OF confined_bind] confined_intros split: if_splits)
  then have "confined C D (bind_op (loaded_task W m i) (create_child_of W req))" for m i
    by (intro confined_bind confined_loaded)
  note reach = confined_at [OF this] confined_at [OF confined_pure(3)]
  show ?thesis by (rule confinedI) (simp add: create_child_task_def reach)
qed

lemma confined_start: "confined {i} {i} (start_session W i r options)"
proof -
  have stop: "confined {i} {i} (modify (stop_previous i))"
    by (auto simp: confined_def modify_def stop_previous_def forget_reducers_def reaches_def tell_def Let_def
        map_of_delete split: option.split)
  have driver: "confined {i} {i} (start_driver W i options p m im c)" for p m im c
    by (auto simp: confined_def start_driver_def runtime_task_credential_def reaches_def of_outside_def bail_def Let_def
        split: option.split prod.split sum.split)
  have install: "confined {i} {i} (install_runtime W i r d)" for d
    by (auto simp: confined_def install_runtime_def reaches_def tell_def bail_def Let_def update_conv
        split: option.split)
  show ?thesis
    unfolding start_session_def by (intro confined_bind confined_pure stop driver install)
qed

lemma confined_driver_command: "confined {i} D (handle_driver_command W i d c)"
  by (cases c) (auto simp: handle_driver_command_def session_options_of_def intro!: confined_intros split: option.split)

lemma confined_prompt: "confined {i} D (handle_prompt W i r prompt sub)"
proof -
  have "confined {i} D (accept_prompt W i prompt sub)"
    by (rule confinedI) (auto simp: accept_prompt_def comp_def intro!: confined_at [OF confined_bind] confined_at [OF confined_pure(2)]
        confined_intros split: option.split)
  moreover have "confined {i} D (\<lambda>st. bind_op (handle_driver_command W i d (c st)) (\<lambda>x. return_op (x, ev)) st)"
    for d c and ev :: events
    by (rule confined_point [where g = "\<lambda>st. bind_op (handle_driver_command W i d (c st)) (\<lambda>x. return_op (x, ev))"])
      (auto intro!: confined_intros confined_driver_command)
  ultimately show ?thesis
    unfolding handle_prompt_def Let_def by (intro confined_bind confined_pure)
qed

text \<open>
  C9: with a Task Credential an agent reaches nothing but its own children: whatever request it
  sends, if it is let through then only drivers of direct children of its task are told anything,
  only their runtimes start or stop, and settings, terminals, removals and worktrees stay as they
  are. This composes the gate of the server with the handlers of the backend.
\<close>

theorem agent_reaches_own_children:
  assumes "authorize_scoped_request (task_parent st) scope req = Inr req'"
    and "handle W req' st = (result, events, st')"
  shows "\<exists>cs. dm_calls st' = dm_calls st @ cs \<and> (\<forall>(i, call)\<in>set cs. task_parent st i = Some scope) \<and>
    (\<forall>j. task_parent st j \<noteq> Some scope \<longrightarrow> map_of (dm_sessions st') j = map_of (dm_sessions st) j) \<and>
    dm_settings st' = dm_settings st \<and> dm_terminals st' = dm_terminals st \<and>
    dm_removed_sessions st' = dm_removed_sessions st \<and> dm_removed_projects st' = dm_removed_projects st \<and>
    dm_repos st' = dm_repos st"
proof -
  let ?i = "q_session_id req'" and ?r = "q_runtime_id req'"
  have reach: "reaches C D st st'" if "confined C D (handle_command W ?i ?r (q_command req'))"
      "\<And>p sub. q_command req' \<noteq> Cmd_Prompt p sub" for C D
  proof -
    have "handle W req' st = (case handle_command W ?i ?r (q_command req') st of (result, st) \<Rightarrow> (result, [], st))"
      using that(2) by (cases "q_command req'") (simp_all add: handle_def, blast)
    with assms(2) confined_at [OF that(1), of st] show ?thesis by (auto split: prod.splits)
  qed
  have "\<exists>C D. reaches C D st st' \<and> (\<forall>i\<in>C \<union> D. task_parent st i = Some scope)"
  proof (cases "q_command req")
    case (Cmd_Prompt p sub)
    with assms have i: "task_parent st ?i = Some scope" and req': "q_command req' = Cmd_Prompt p sub"
      by (auto simp: authorize_scoped_request_def Let_def split: if_splits)
    obtain x s1 where "handle_prompt W ?i ?r p sub st = (x, s1)" by fastforce
    with assms(2) req' have "st' = s1" by (auto simp: handle_def split: sum.splits)
    with confinedD [OF confined_prompt \<open>handle_prompt _ _ _ _ _ _ = _\<close>, of "{}"] i show ?thesis
      by (intro exI [of _ "{?i}"] exI [of _ "{}"]) simp
  next
    case (Cmd_Start options)
    with assms have i: "task_parent st ?i = Some scope" and req': "q_command req' = Cmd_Start options"
      by (auto simp: authorize_scoped_request_def Let_def split: if_splits)
    from reach [of "{?i}" "{?i}"] i show ?thesis
      by (intro exI [of _ "{?i}"] exI [of _ "{?i}"]) (simp add: req' handle_command_def confined_start)
  next
    case Cmd_Cancel
    with assms have i: "task_parent st ?i = Some scope" and req': "q_command req' = Cmd_Cancel"
      by (auto simp: authorize_scoped_request_def Let_def split: if_splits)
    have "confined {?i} {} (handle_command W ?i ?r Cmd_Cancel)"
      by (simp add: handle_command_def) (intro confined_intros confined_driver_command)
    from reach [of "{?i}" "{}"] this i show ?thesis
      by (intro exI [of _ "{?i}"] exI [of _ "{}"]) (simp add: req')
  qed (use assms reach [of "{}" "{}"] in
      \<open>auto simp: confined_reads confined_create_child authorize_scoped_request_def handle_command_def Let_def intro!: exI [of _ "{}"] split: if_splits\<close>)
  then show ?thesis by (fastforce simp: reaches_def)
qed

definition demo_family :: "nat daemon" where
  "demo_family = demo_opened\<lparr>dm_sessions := [(6, 9, 1)], dm_tasks := \<lparr>tk_projects = [demo_project],
     tk_sessions = [demo_row, demo_row\<lparr>s_id := 6, s_parent_task_id := Some 5\<rparr>], tk_dirty_sessions = {}\<rparr>\<rparr>"

theorem agent_reaches_own_children_witness:
  "\<exists>result events st'. handle demo_world \<lparr>q_request_id = 1, q_session_id = 6, q_runtime_id = 9, q_command = Cmd_Cancel\<rparr>
      demo_family = (result, events, st') \<and> dm_calls st' = [(6, Call_Cancel)] \<and> map_of (dm_sessions st') 5 = None"
proof -
  let ?req = "\<lparr>q_request_id = 1, q_session_id = 6, q_runtime_id = 9, q_command = Cmd_Cancel\<rparr>"
  have parents: "task_parent demo_family 6 = Some 5" "task_parent demo_family 5 = None"
    by (simp_all add: task_parent_def find_task_def demo_family_def)
  then have gate: "authorize_scoped_request (task_parent demo_family) 5 ?req = Inr ?req"
    by (simp add: authorize_scoped_request_def Let_def)
  obtain result events st' where h: "handle demo_world ?req demo_family = (result, events, st')" by (metis surj_pair)
  then have "dm_calls st' = [(6, Call_Cancel)]"
    by (auto simp: handle_def handle_command_def bind_op_def runtime_driver_def demo_family_def handle_driver_command_def
        tell_ack_def modify_def tell_def return_op_def demo_opened_def)
  with agent_reaches_own_children [OF gate h] parents h show ?thesis by (auto simp: demo_family_def)
qed

end
