(* ===== verification/Backend_Errors.thy ===== *)
theory Backend_Errors
  imports Backend_Effects
begin

text \<open>
  What the backend leaves behind when an operation fails half way, and what it has done when it
  succeeds: rewinds, prompts, starts of runtimes and the creation of child tasks.
\<close>

section \<open>Rewinds the provider rejects\<close>

text \<open>Worktrees and git references are the same, but for one reference.\<close>

definition same_repos :: "rstring \<Rightarrow> repos \<Rightarrow> repos \<Rightarrow> bool" where
  "same_repos safety R R' \<longleftrightarrow> (\<forall>cwd. map_option rp_tree (R' cwd) = map_option rp_tree (R cwd) \<and>
     (\<forall>git_ref. git_ref \<noteq> safety \<longrightarrow>
        Option.bind (R' cwd) (\<lambda>r. rp_refs r git_ref) = Option.bind (R cwd) (\<lambda>r. rp_refs r git_ref)))"

lemma same_repos_refl [simp]: "same_repos safety R R"
  by (simp add: same_repos_def)

lemma capture_captures:
  "capture_ref G cwd git_ref R = (Inr u, R') \<Longrightarrow>
   \<exists>r. R cwd = Some r \<and> R' = R(cwd \<mapsto> r\<lparr>rp_refs := (rp_refs r)(git_ref \<mapsto> rp_tree r)\<rparr>)"
  by (auto simp: capture_ref_def split: option.splits)

lemma restore_moves_tree:
  "restore_ref G cwd git_ref R = (x, R') \<Longrightarrow> R cwd = Some r \<Longrightarrow> \<exists>t. R' = R(cwd \<mapsto> r\<lparr>rp_tree := t\<rparr>)"
  by (auto simp: restore_ref_def map_option_case split: option.splits prod.splits bind_splits)
    (metis fun_upd_triv repo.surjective repo.update_convs(1))

text \<open>Wherever the worktree went meanwhile, the safety snapshot brings it back.\<close>

lemma safety_restores:
  assumes r: "R cwd = Some r"
    and now: "dm_repos st = R(cwd \<mapsto> r\<lparr>rp_refs := (rp_refs r)(safety \<mapsto> rp_tree r), rp_tree := t\<rparr>)"
    and "gw_restore_error (wd_git W) safety = None"
    and "restore_rewind_safety W cwd safety m e st = (x, st')"
  shows "same_repos safety R (dm_repos st')"
proof -
  let ?saved = "R(cwd \<mapsto> r\<lparr>rp_refs := (rp_refs r)(safety \<mapsto> rp_tree r)\<rparr>)"
  have brought: "restore_ref (wd_git W) cwd safety (dm_repos st) = (Inr (), ?saved)"
    using assms(3) by (simp add: now restore_ref_def fun_upd_upd)
  obtain y R' where d: "delete_ref (wd_git W) cwd safety ?saved = (y, R')" by fastforce
  have "same_repos safety R R'"
    using d r by (auto simp: delete_ref_def same_repos_def split: option.splits prod.splits)
  moreover have "dm_repos st' = R'"
    using assms(4) brought d by (auto simp: restore_rewind_safety_def run_git_def bail_def)
  ultimately show ?thesis by simp
qed

definition store_errors :: "backend_error set" where
  "store_errors = {Plain_Error (lit ''could not save the rewound task''),
     Plain_Error (lit ''the task was removed while it was being rewound'')}"

lemma store_rewound_error:
  assumes "store_rewound W i t st = (Inl e, st')"
  shows "e \<in> store_errors"
  using assms by (auto simp: store_rewound_def bail_def store_errors_def context_op_def save_tasks_def
      split: option.splits prod.splits sum.splits backend_error.splits if_splits)

lemma rejected_worktree:
  assumes "rewind_worktree W source cwd binary restore n st = (Inl e, st')"
    and safe: "gw_restore_error (wd_git W) (safety_ref_name W (s_id source)) = None"
  shows "same_repos (safety_ref_name W (s_id source)) (dm_repos st) (dm_repos st') \<or> e \<in> store_errors"
proof -
  let ?safety = "safety_ref_name W (s_id source)" and ?r = "n - 1"
  define provider where "provider = rewind_provider_response W source cwd binary ?r (provider_turns_after ?r source)
      (length (filter t_provider_turn_started (take ?r (s_turns source))))
      (if ?r = 0 then None else Option.bind (nth_opt (s_turns source) (?r - 1)) t_provider_resume_at)"
  note worktree = assms(1) [unfolded rewind_worktree_def Let_def, folded provider_def]
  have pc: "confined {s_id source} {} provider" by (simp add: provider_def confined_rewind_provider)
  obtain x R1 where c: "capture_ref (wd_git W) cwd ?safety (dm_repos st) = (x, R1)" by fastforce
  show ?thesis
  proof (cases x)
    case (Inl m)
    with c have "R1 = dm_repos st" by (auto simp: capture_ref_def split: option.splits)
    with worktree c Inl show ?thesis
      by (auto simp: run_git_def bail_def)
  next
    case (Inr u)
    with capture_captures c obtain r where r: "dm_repos st cwd = Some r"
      and R1: "R1 = (dm_repos st)(cwd \<mapsto> r\<lparr>rp_refs := (rp_refs r)(?safety \<mapsto> rp_tree r)\<rparr>)" by blast
    let ?st1 = "st\<lparr>dm_repos := R1\<rparr>"
    obtain y R2 where rs: "restore_ref (wd_git W) cwd restore R1 = (y, R2)" by fastforce
    from restore_moves_tree [OF rs, of "r\<lparr>rp_refs := (rp_refs r)(?safety \<mapsto> rp_tree r)\<rparr>"] obtain t where
      R2: "R2 = (dm_repos st)(cwd \<mapsto> r\<lparr>rp_refs := (rp_refs r)(?safety \<mapsto> rp_tree r), rp_tree := t\<rparr>)"
      by (auto simp: R1)
    let ?st2 = "st\<lparr>dm_repos := R2\<rparr>"
    show ?thesis
    proof (cases y)
      case (Inl m)
      with worktree c Inr rs have "restore_rewind_safety W cwd ?safety (lit ''could not restore the selected checkpoint'') m ?st2 = (Inl e :: backend_error + response_payload, st')"
        by (simp add: run_git_def)
      from safety_restores [of "dm_repos st" cwd r ?st2 t ?safety W, OF r _ safe this] R2 show ?thesis by simp
    next
      case ok: (Inr v)
      obtain z st3 where p: "provider ?st2 = (z, st3)" by fastforce
      from confinedD [OF pc p] have st3: "dm_repos st3 = R2"
        by (simp add: reaches_def)
      show ?thesis
      proof (cases z)
        case (Inl m)
        with worktree c Inr rs ok p have "restore_rewind_safety W cwd ?safety (lit ''the provider rejected the rewind'') (error_message m) st3 = (Inl e :: backend_error + response_payload, st')"
          by (simp add: run_git_def)
        from safety_restores [of "dm_repos st" cwd r st3 t ?safety W, OF r _ safe this] st3 R2 show ?thesis by simp
      next
        case (Inr rewound)
        with worktree c \<open>x = Inr u\<close> rs ok p have
          "\<exists>st4 t. store_rewound W (s_id source) t st4 = (Inl e, st')"
          by (auto simp: run_git_def bind_op_def return_op_def split: prod.splits sum.splits)
        with store_rewound_error have "e \<in> store_errors" by blast
        then show ?thesis by simp
      qed
    qed
  qed
qed

text \<open>
  C13: a rewind that is refused, that cannot move the worktree or that the provider rejects leaves
  every worktree and every git reference but its own safety snapshot as they were, if git can
  restore that snapshot. Only when the rewound task could not be stored does the worktree stay
  rewound, and the error says so.
\<close>

theorem rejected_rewind_restores_worktree:
  assumes "rewind_session_to_message W i n st = (Inl e, st')"
    and "gw_restore_error (wd_git W) (safety_ref_name W i) = None"
  shows "same_repos (safety_ref_name W i) (dm_repos st) (dm_repos st') \<or> e \<in> store_errors"
proof (cases "find_task i st")
  case None
  with assms(1) show ?thesis by (auto simp: rewind_session_to_message_def bail_def)
next
  case (Some s)
  obtain x st1 where h: "context_op (lit ''could not load the task'') (hydrate_task W s) st = (x, st1)" by fastforce
  with context_op_state [of "lit ''could not load the task''" "hydrate_task W s" st]
  have st1: "snd (hydrate_task W s st) = st1" by simp
  have repos: "dm_repos st1 = dm_repos st"
    using confined_at [OF confined_hydrate, of "{}" "{}" st W s] st1 by (simp add: reaches_def)
  show ?thesis
  proof (cases x)
    case (Inl m)
    with assms(1) Some h repos show ?thesis by (simp add: rewind_session_to_message_def bind_op_def)
  next
    case (Inr source)
    have id: "s_id source = i"
      using h Inr find_task_in [OF Some]
      by (auto simp: context_op_def hydrate_task_def Let_def split: prod.splits sum.splits backend_error.splits if_splits)
    from assms(1) Some h Inr consider "dm_repos st' = dm_repos st1"
      | cwd binary restore where "rewind_worktree W source cwd binary restore n st1 = (Inl e, st')"
      by (auto simp: rewind_session_to_message_def bind_op_def bail_def provider_binary_def Let_def
          split: option.splits sum.splits if_splits)
    then show ?thesis
    proof cases
      case 1
      with repos show ?thesis by simp
    next
      case 2
      from rejected_worktree [OF 2] assms(2) id repos show ?thesis by simp
    qed
  qed
qed

definition demo_turn :: "uuid \<Rightarrow> nat \<Rightarrow> agent_turn" where
  "demo_turn i n = \<lparr>t_id = i, t_turn_count = n, t_status = Completed, t_provider_turn_started = True,
     t_provider_resume_at = None, t_started_at = 5, t_completed_at = Some 6, t_checkpoint = None\<rparr>"

definition demo_talk :: agent_session where
  "demo_talk = (session_new 5 10 1 Claude)\<lparr>s_turns := [demo_turn 1 1, demo_turn 2 2],
     s_messages := [(message_new 7 10 User [65])\<lparr>m_turn_id := Some 1\<rparr>, (message_new 8 10 User [66])\<lparr>m_turn_id := Some 2\<rparr>],
     s_provider_cursor := Some (Claude_Cursor [1] None)\<rparr>"

definition demo_repos :: repos where
  "demo_repos = [lit ''/p'' \<mapsto> \<lparr>rp_tree = [65], rp_refs = [turn_start_ref demo_git 5 2 \<mapsto> [66]]\<rparr>]"

definition demo_talking :: "nat daemon" where
  "demo_talking = demo_opened\<lparr>dm_repos := demo_repos,
     dm_tasks := \<lparr>tk_projects = [demo_project], tk_sessions = [demo_talk], tk_dirty_sessions = {}\<rparr>\<rparr>"

lemma demo_rejected:
  "fst (rewind_session_to_message demo_world 5 2 demo_talking) =
     Inl (Plain_Error (lit ''the provider rejected the rewind'' @ lit '': '' @ lit ''no session'' @
       lit ''; the original worktree was restored''))"
proof -
  have ne: "safety_ref_name demo_world 5 \<noteq> turn_start_ref demo_git 5 2"
    by (simp add: safety_ref_name_def turn_start_ref_def lit_def)
  have find: "find_task 5 demo_talking = Some demo_talk"
    by (simp add: find_task_def demo_talking_def demo_talk_def session_new_def)
  have h: "context_op m (hydrate_task demo_world demo_talk) demo_talking = (Inr demo_talk, demo_talking)" for m
    by (simp add: context_op_def hydrate_task_def hydrate_def demo_talk_def session_new_def Let_def set_tasks_def
        update_task_def demo_talking_def)
  have p: "project_of demo_talking demo_talk = Some demo_project" "task_cwd demo_talk demo_project = lit ''/p''"
    by (simp_all add: project_of_def task_cwd_def demo_talking_def demo_talk_def session_new_def demo_project_def)
  have v: "validate_message_rewind demo_talk 2 = Inr ()"
    by (simp add: validate_message_rewind_def demo_talk_def session_new_def demo_turn_def message_new_def
        at_rest_def provider_turns_after_def)
  have b: "provider_binary demo_world (s_provider demo_talk) demo_talking = (Inr (lit ''agent''), demo_talking)"
    by (simp add: provider_binary_def demo_world_def demo_provider_world_def)
  have g: "wd_git demo_world = demo_git" by (simp add: demo_world_def)
  have r: "has_ref (lit ''/p'') (turn_start_ref demo_git 5 2) (dm_repos demo_talking)"
    by (simp add: has_ref_def demo_talking_def demo_repos_def)
  have w: "fst (rewind_worktree demo_world demo_talk (lit ''/p'') (lit ''agent'') (turn_start_ref demo_git 5 2) 2 demo_talking) =
     Inl (Plain_Error (lit ''the provider rejected the rewind'' @ lit '': '' @ lit ''no session'' @
       lit ''; the original worktree was restored''))"
  proof -
    have git: "gw_capture_error demo_git x = None" "gw_restore_error demo_git x = None" "gw_delete_error demo_git x = None" for x
      by (simp_all add: demo_git_def)
    have t: "s_id demo_talk = 5" "provider_turns_after 1 demo_talk = 1" "s_provider demo_talk = Claude"
      "s_provider_cursor demo_talk = Some (Claude_Cursor [1] None)"
      by (simp_all add: demo_talk_def session_new_def provider_turns_after_def demo_turn_def)
    have "rewind_provider_response demo_world demo_talk cwd binary 1 1 k x st = (Inl (Plain_Error (lit ''no session'')), st)"
      for cwd binary k x st
      by (simp add: rewind_provider_response_def resets_native_session_def t bind_op_def fork_provider_session_def
          of_outside_def bail_def demo_world_def demo_provider_world_def)
    with ne t show ?thesis
      by (simp add: rewind_worktree_def run_git_def capture_ref_def restore_ref_def demo_talking_def demo_repos_def g git
          restore_rewind_safety_def delete_ref_def bail_def error_message_def)
  qed
  from find h p v b r w show ?thesis
    by (simp add: rewind_session_to_message_def bind_op_def g Let_def)
qed

theorem rejected_rewind_restores_worktree_witness:
  "map_option rp_tree (dm_repos (snd (rewind_session_to_message demo_world 5 2 demo_talking)) (lit ''/p'')) = Some [65]"
proof -
  obtain r st' where e: "rewind_session_to_message demo_world 5 2 demo_talking = (r, st')" by fastforce
  with demo_rejected have "r = Inl (Plain_Error (lit ''the provider rejected the rewind'' @ lit '': '' @ lit ''no session'' @
       lit ''; the original worktree was restored''))" by simp
  moreover have "Plain_Error (lit ''the provider rejected the rewind'' @ lit '': '' @ lit ''no session'' @
       lit ''; the original worktree was restored'') \<notin> store_errors"
    by (simp add: store_errors_def lit_def)
  ultimately have "same_repos (safety_ref_name demo_world 5) (dm_repos demo_talking) (dm_repos st')"
    using rejected_rewind_restores_worktree [of demo_world 5 2 demo_talking _ st'] e
    by (simp add: demo_world_def demo_git_def)
  then have "map_option rp_tree (dm_repos st' (lit ''/p'')) = map_option rp_tree (dm_repos demo_talking (lit ''/p''))"
    by (simp add: same_repos_def)
  then show ?thesis unfolding e snd_conv by (simp add: demo_talking_def demo_repos_def)
qed

section \<open>Prompts\<close>

lemma find_mapped: "(\<And>x. P (f x) = P x) \<Longrightarrow> List.find P (map f xs) = map_option f (List.find P xs)"
  by (induction xs) auto

lemma find_update: "List.find P xs = Some x \<Longrightarrow> P y \<Longrightarrow> List.find P (update_first P (\<lambda>_. y) xs) = Some y"
  by (induction xs) (auto split: if_splits)

lemma saved_task:
  assumes "find_task i st = Some t" "save_tasks W st = (x, st')"
  shows "(\<exists>u. find_task i st' = Some u \<and> active_turn_id u = active_turn_id t) \<and> dm_calls st' = dm_calls st \<and>
    dm_sessions st' = dm_sessions st \<and> (x = Inr () \<longrightarrow> tk_dirty_sessions (dm_tasks st') = {})"
proof -
  obtain store tasks ok where e: "save_state (wd_store_env W) (wd_budget W) (dm_store st) (dm_tasks st) = ((store, tasks), ok)"
    by (metis surj_pair)
  have t: "dm_tasks st' = tasks" "x = Inr () \<longrightarrow> ok" "dm_calls st' = dm_calls st" "dm_sessions st' = dm_sessions st"
    using assms(2) e by (auto simp: save_tasks_def split: if_splits)
  have d: "ok \<longrightarrow> tk_dirty_sessions tasks = {}"
    using e by (auto simp: save_state_def Let_def split: prod.splits bool.splits)
  have a: "active_turn_id (externalize_blobs E u) = active_turn_id u" for E u
    by (simp add: externalize_blobs_def active_turn_id_def)
  from assms(1) show ?thesis
    using t d by (auto simp: find_task_def save_state_sessions [OF e] find_mapped a)
qed

lemma begun_running:
  "active_turn_id (begin_turn a b c e p s) = Some a"
  "active_turn_id (set_title_from_prompt p s) = active_turn_id s"
  by (simp_all add: begin_turn_def begin_turn_with_presentation_def active_turn_id_def set_title_from_prompt_def
      is_running_def last_opt_def Let_def)

lemma accepted_running:
  "accept_prompt_turn a b c e p sub s = Some (t, ev) \<Longrightarrow> active_turn_id t \<noteq> None"
  by (auto simp: accept_prompt_turn_def Let_def begun_running split: option.splits)

lemma find_appended: "P x \<Longrightarrow> \<exists>y. List.find P (xs @ [x]) = Some y"
  by (induction xs) auto

lemma rest_accepts:
  assumes "active_turn_id s = None"
  shows "\<exists>t ev. accept_prompt_turn a b c e p sub s = Some (t, ev)"
proof -
  have "\<exists>turn. s_turns (begin_turn a b c e p u) = s_turns u @ [turn] \<and> t_id turn = a" for u
    by (simp add: begin_turn_def begin_turn_with_presentation_def)
  with find_appended [of "\<lambda>t. t_id t = a"] have "\<exists>y. List.find (\<lambda>t. t_id t = a) (s_turns (begin_turn a b c e p u)) = Some y" for u
    by metis
  with assms show ?thesis by (simp add: accept_prompt_turn_def Let_def begun_running)
qed

lemma driver_prompted: "handle_driver_command W i d (Cmd_Prompt text sub) st = (Inr Pay_Ack, tell i (Call_Prompt text) st)"
  by (simp add: handle_driver_command_def tell_ack_def bind_op_def modify_def return_op_def)


definition demo_live :: "nat daemon" where
  "demo_live = demo_talking\<lparr>dm_sessions := [(5, 9, 1)]\<rparr>"


section \<open>Starts that fail\<close>

lemma bind_failedE:
  assumes "bind_op f g st = (Inl e, st')"
  obtains "f st = (Inl e, st')" | x s1 where "f st = (Inr x, s1)" "g x s1 = (Inl e, st')"
  using assms by (auto simp: bind_op_def split: prod.splits sum.splits)

lemma decode_same:
  "decode_op W names v st = (x, st') \<Longrightarrow> st' = st" "decode_cursor W c st = (y, st') \<Longrightarrow> st' = st"
  by (auto simp: decode_op_def decode_cursor_def return_op_def bail_def split: option.splits)

lemma bound_token:
  assumes "runtime_task_credential W i st = (c, st1)" "task_for_credential token st1 = Some i"
  shows "token = wd_token W"
proof -
  have no: "map_of (filter (\<lambda>(_, bound). bound \<noteq> i) xs) token \<noteq> Some i" for xs :: credential_registry
    by (auto dest: map_of_SomeD)
  show ?thesis
    using assms no
    by (auto simp: runtime_task_credential_def task_for_credential_def task_for_token_def revoke_def mint_def
        update_conv Let_def split: option.splits if_splits prod.splits)
qed

lemma stop_previous_state:
  "map_of (dm_sessions (stop_previous i st)) i = None" "dm_reducers (stop_previous i st) (i, rt) = None"
  "dm_tasks (stop_previous i st) = dm_tasks st" "dm_credentials (stop_previous i st) = dm_credentials st"
  "j \<noteq> i \<Longrightarrow> map_of (dm_sessions (stop_previous i st)) j = map_of (dm_sessions st) j"
  "map_of (dm_sessions st) i \<noteq> None \<Longrightarrow> (i, Call_Cancel) \<in> set (dm_calls (stop_previous i st))"
  by (auto simp: stop_previous_def forget_reducers_def tell_def Let_def delete_conv split: option.split)

lemma credential_state:
  assumes "runtime_task_credential W i st = (c, st1)"
  shows "dm_sessions st1 = dm_sessions st" "dm_reducers st1 = dm_reducers st" "dm_tasks st1 = dm_tasks st"
    "dm_calls st1 = dm_calls st"
  using assms by (auto simp: runtime_task_credential_def Let_def split: option.splits if_splits prod.splits)

text \<open>
  C26: a start that fails, whether an option is malformed, the provider does not start or its live
  settings are refused, leaves the task without a runtime: the previous one has been cancelled, its
  fold state is gone, and no other task's runtime changed. What does not go is the credential:
  after it, a token of the task is one it had before or the one minted for the failed start.
\<close>

theorem failed_start_leaves_no_runtime:
  assumes "start_session W i r options st = (Inl e, st')"
  shows "map_of (dm_sessions st') i = None \<and> (\<forall>rt. dm_reducers st' (i, rt) = None) \<and>
    (map_of (dm_sessions st) i \<noteq> None \<longrightarrow> (i, Call_Cancel) \<in> set (dm_calls st')) \<and>
    (\<forall>j. j \<noteq> i \<longrightarrow> map_of (dm_sessions st') j = map_of (dm_sessions st) j) \<and> dm_tasks st' = dm_tasks st \<and>
    (\<forall>token. task_for_credential token st' = Some i \<longrightarrow>
       task_for_credential token st = Some i \<or> token = wd_token W)"
proof -
  let ?st = "stop_previous i st"
  obtain c st1 where c: "runtime_task_credential W i ?st = (c, st1)" by fastforce
  note token = bound_token [OF c]
  have driver: "s1 = st1" if "start_driver W i options p m im cur ?st = (x, s1)" for p m im cur x s1
    using that c by (auto simp: start_driver_def of_outside_def bail_def split: sum.splits)
  have install: "\<exists>call1 call2. st' = tell i call2 (tell i call1 s1)" if "install_runtime W i r d s1 = (Inl e, st')" for d s1
    using that by (auto simp: install_runtime_def Let_def bail_def split: option.splits)
  have "bind_op (decode_op W provider_wire_names (ws_provider options)) (\<lambda>provider.
         bind_op (decode_op W mode_wire_names (ws_mode options)) (\<lambda>mode.
           bind_op (decode_op W interaction_wire_names (ws_interaction_mode options)) (\<lambda>interaction_mode.
             bind_op (decode_cursor W (ws_provider_cursor options)) (\<lambda>cursor.
               bind_op (start_driver W i options provider mode interaction_mode cursor)
                 (install_runtime W i r))))) ?st = (Inl e, st')"
    using assms by (simp only: start_session_def bind_modify)
  then consider "st' = ?st" | "st' = st1" | call1 call2 where "st' = tell i call2 (tell i call1 st1)"
    by (elim bind_failedE) (blast dest: decode_same driver install)+
  then show ?thesis
  proof cases
    case 1
    with stop_previous_state(6) [of st i] show ?thesis
      by (simp add: stop_previous_state(1-5) task_for_credential_def)
  next
    case 2
    with stop_previous_state(6) [of st i] token show ?thesis
      by (auto simp: stop_previous_state(1-5) credential_state [OF c])
  next
    case 3
    with stop_previous_state(6) [of st i] token show ?thesis
      by (auto simp: tell_def task_for_credential_def stop_previous_state(1-5) credential_state [OF c])
  qed
qed

definition demo_start :: wire_start_options where
  "demo_start = \<lparr>ws_provider = lit ''claude'', ws_binary = lit ''claude'', ws_cwd = lit ''/p'', ws_mode = lit ''ask'',
     ws_interaction_mode = lit ''build'', ws_model = None, ws_reasoning_effort = None, ws_service_tier = None,
     ws_context_window = None, ws_agent_preset = None, ws_computer_use_enabled = False, ws_provider_cursor = None\<rparr>"

theorem failed_start_leaves_no_runtime_witness:
  "\<exists>e st'. start_session (demo_world\<lparr>wd_start := (\<lambda>_ _. Inl [88])\<rparr>) 5 9 demo_start
      (demo_live\<lparr>dm_listen_address := Some [76]\<rparr>) = (Inl e, st') \<and>
    map_of (dm_sessions st') 5 = None \<and> task_for_credential [84] st' = Some 5"
proof -
  let ?W = "demo_world\<lparr>wd_start := (\<lambda>_ _. Inl [88])\<rparr>" and ?st = "demo_live\<lparr>dm_listen_address := Some [76]\<rparr>"
  have d: "decode_op ?W provider_wire_names (lit ''claude'') = return_op Claude"
    "decode_op ?W mode_wire_names (lit ''ask'') = return_op Ask"
    "decode_op ?W interaction_wire_names (lit ''build'') = return_op Interaction_Build"
    by (simp_all add: decode_op_def decode_enum_def provider_wire_names_def mode_wire_names_def interaction_wire_names_def lit_def)
  obtain r st' where s: "start_session ?W 5 9 demo_start ?st = (r, st')" by fastforce
  have f: "find_task 5 (stop_previous 5 ?st) = Some demo_talk"
    by (simp add: stop_previous_def forget_reducers_def tell_def find_task_def demo_live_def demo_talking_def
        demo_talk_def session_new_def)
  have rest: "dm_settings (stop_previous 5 ?st) = demo_settings" "dm_listen_address (stop_previous 5 ?st) = Some [76]"
    "dm_credentials (stop_previous 5 ?st) = []"
    by (simp_all add: stop_previous_def forget_reducers_def tell_def demo_live_def demo_talking_def demo_opened_def)
  have "r = Inl (Plain_Error [88]) \<and> task_for_credential [84] st' = Some 5"
    using s f rest
    by (simp add: start_session_def demo_start_def bind_modify d bind_op_def [of "return_op _"] return_op_def decode_cursor_def)
      (auto simp: bind_op_def start_driver_def runtime_task_credential_def revoke_def mint_def demo_settings_def
        find_task_def demo_talk_def session_new_def of_outside_def bail_def task_for_credential_def task_for_token_def
        demo_world_def)
  with failed_start_leaves_no_runtime [of ?W 5 9 demo_start ?st] s show ?thesis by auto
qed

section \<open>Child tasks\<close>

lemma child_mode_cap: "permissiveness (child_runtime_mode m requested) \<le> permissiveness m"
  by (cases m) (auto simp: child_runtime_mode_def Let_def split: option.split)

lemma bind_valueE:
  assumes "bind_op f g st = (Inr y, st')"
  obtains x s1 where "f st = (Inr x, s1)" "g x s1 = (Inr y, st')"
  using assms by (auto simp: bind_op_def split: prod.splits sum.splits)

lemma child_session_fields:
  "s_parent_task_id (child_session W p parent req prov m e) = Some (s_id parent)"
  "s_project_id (child_session W p parent req prov m e) = p_id p"
  "s_workspace (child_session W p parent req prov m e) = s_workspace parent"
  "s_provider (child_session W p parent req prov m e) = prov"
  "s_model (child_session W p parent req prov m e) = m"
  "s_runtime_mode (child_session W p parent req prov m e) = child_runtime_mode (s_runtime_mode parent) (cr_mode req)"
  by (auto simp: child_session_def Let_def session_new_def split: option.split)

text \<open>The last part of \<open>create_child_task\<close>: the checked child is filed and answered.\<close>

definition offered_model :: "provider_model list \<Rightarrow> child_task_request \<Rightarrow> agent_session \<Rightarrow> bool" where
  "offered_model catalog req child \<longleftrightarrow> (\<forall>m. cr_model req = Some m \<and> catalog \<noteq> [] \<longrightarrow>
     s_model child = Some m \<and> m \<in> pm_id ` set catalog)"

lemma bind_typed:
  "bind_op (of_typed r) g st = (case r of Inl e \<Rightarrow> (Inl (Typed_Error e), st) | Inr x \<Rightarrow> g x st)"
  by (simp add: bind_op_def of_typed_def split: sum.split)

lemma child_filed:
  assumes "(let catalog = pw_models (wd_provider W) (dm_settings st) provider in
           bind_op (of_typed (child_model W catalog provider parent (cr_model req))) (\<lambda>model.
             bind_op (of_typed (child_effort W
                 (Option.bind model (\<lambda>i. List.find (\<lambda>known. pm_id known = i) catalog))
                 provider parent model (cr_reasoning_effort req))) (\<lambda>effort.
               let s = child_session W project parent req provider model effort in
               bind_op (modify (set_tasks (push_session s))) (\<lambda>_.
                 bind_op (save_tasks W) (\<lambda>_. return_op (Pay_ChildTaskCreated s
                   (child_start_options binary (task_cwd parent project) s)))))) st) = (Inr payload, st')"
  shows "\<exists>model effort. payload = Pay_ChildTaskCreated (child_session W project parent req provider model effort)
      (child_start_options binary (task_cwd parent project) (child_session W project parent req provider model effort)) \<and>
    offered_model (pw_models (wd_provider W) (dm_settings st) provider) req
      (child_session W project parent req provider model effort) \<and>
    wd_uuid W 0 \<in> set (task_ids st') \<and> tk_dirty_sessions (dm_tasks st') = {}"
proof -
  let ?catalog = "pw_models (wd_provider W) (dm_settings st) provider"
  from assms obtain model effort where model: "child_model W ?catalog provider parent (cr_model req) = Inr model"
    and made: "bind_op (save_tasks W) (\<lambda>_. return_op (Pay_ChildTaskCreated
        (child_session W project parent req provider model effort)
        (child_start_options binary (task_cwd parent project) (child_session W project parent req provider model effort))))
      (set_tasks (push_session (child_session W project parent req provider model effort)) st) = (Inr payload, st')"
    by (auto simp: Let_def bind_typed bind_modify split: sum.splits)
  let ?child = "child_session W project parent req provider model effort"
  from made obtain x where save: "save_tasks W (set_tasks (push_session ?child) st) = (Inr x, st')"
    and payload: "payload = Pay_ChildTaskCreated ?child (child_start_options binary (task_cwd parent project) ?child)"
    by (auto simp: return_op_def elim!: bind_valueE)
  have "task_ids st' = task_ids (set_tasks (push_session ?child) st)"
    using save by (auto simp: save_tasks_def task_ids_def dest!: save_state_sessions split: prod.splits if_splits)
  then have "wd_uuid W 0 \<in> set (task_ids st')" by (simp add: task_ids_def child_id)
  moreover have "tk_dirty_sessions (dm_tasks st') = {}"
    using save by (auto simp: save_tasks_def save_state_def Let_def split: prod.splits if_splits bool.splits)
  moreover have "offered_model ?catalog req ?child"
    using model by (auto simp: offered_model_def child_model_def child_session_fields list_ex_iff split: if_splits)
  ultimately show ?thesis using payload by blast
qed

text \<open>The checks in front of it.\<close>

lemma child_checked:
  assumes "create_child_of W req parent st = (Inr payload, st')"
  shows "\<exists>project binary model effort. let provider = unwrap_or (cr_provider req) (s_provider parent);
      child = child_session W project parent req provider model effort in
    payload = Pay_ChildTaskCreated child (child_start_options binary (task_cwd parent project) child) \<and>
    s_parent_task_id parent = None \<and> active_children (s_id parent) st < 8 \<and> p_id project = s_project_id parent \<and>
    provider \<notin> set (ds_disabled_providers (dm_settings st)) \<and>
    pw_binary (wd_provider W) (dm_settings st) provider = Some binary \<and>
    offered_model (pw_models (wd_provider W) (dm_settings st) provider) req child \<and>
    wd_uuid W 0 \<in> set (task_ids st') \<and> tk_dirty_sessions (dm_tasks st') = {}"
proof -
  let ?provider = "unwrap_or (cr_provider req) (s_provider parent)"
  from assms [unfolded create_child_of_def Let_def] obtain project s2 where project: "child_project parent st = (Inr project, s2)"
    and made: "bind_op (child_provider W ?provider) (\<lambda>binary.
         if (case s_workspace parent of NewWorktree _ \<Rightarrow> True | _ \<Rightarrow> False)
         then bail (lit ''the parent task has not materialized its worktree yet'')
         else (\<lambda>st. bind_op (of_typed (child_model W (pw_models (wd_provider W) (dm_settings st) ?provider) ?provider parent (cr_model req))) (\<lambda>model.
             bind_op (of_typed (child_effort W
                 (Option.bind model (\<lambda>i. List.find (\<lambda>known. pm_id known = i) (pw_models (wd_provider W) (dm_settings st) ?provider)))
                 ?provider parent model (cr_reasoning_effort req))) (\<lambda>effort.
               bind_op (modify (set_tasks (push_session (child_session W project parent req ?provider model effort)))) (\<lambda>_.
                 bind_op (save_tasks W) (\<lambda>_. return_op (Pay_ChildTaskCreated (child_session W project parent req ?provider model effort)
                   (child_start_options binary (task_cwd parent project) (child_session W project parent req ?provider model effort))))))) st)) s2 = (Inr payload, st')"
    by (rule bind_valueE)
  have s2: "s2 = st" "s_parent_task_id parent = None" "active_children (s_id parent) st < 8"
      "p_id project = s_project_id parent"
    using project by (auto simp: child_project_def refuse_def bail_def max_active_children_def project_of_def
        find_Some_iff split: if_splits option.splits)
  from made obtain binary s3 where binary: "child_provider W ?provider st = (Inr binary, s3)"
    and filed: "bind_op (of_typed (child_model W (pw_models (wd_provider W) (dm_settings s3) ?provider) ?provider parent (cr_model req))) (\<lambda>model.
             bind_op (of_typed (child_effort W
                 (Option.bind model (\<lambda>i. List.find (\<lambda>known. pm_id known = i) (pw_models (wd_provider W) (dm_settings s3) ?provider)))
                 ?provider parent model (cr_reasoning_effort req))) (\<lambda>effort.
               bind_op (modify (set_tasks (push_session (child_session W project parent req ?provider model effort)))) (\<lambda>_.
                 bind_op (save_tasks W) (\<lambda>_. return_op (Pay_ChildTaskCreated (child_session W project parent req ?provider model effort)
                   (child_start_options binary (task_cwd parent project) (child_session W project parent req ?provider model effort))))))) s3 = (Inr payload, st')"
    unfolding s2(1) by (rule bind_valueE) (auto simp: bail_def split: if_splits)
  have s3: "s3 = st" "?provider \<notin> set (ds_disabled_providers (dm_settings st))"
      "pw_binary (wd_provider W) (dm_settings st) ?provider = Some binary"
    using binary by (auto simp: child_provider_def provider_binary_def refuse_def bail_def
        split: if_splits option.splits)
  from child_filed [unfolded Let_def, OF filed] s2 s3 show ?thesis unfolding Let_def by blast
qed


definition demo_child :: child_task_request where
  "demo_child = \<lparr>cr_parent_task_id = 5, cr_provider = None, cr_model = Some [77], cr_mode = Some FullAccess,
     cr_reasoning_effort = None, cr_interaction_mode = None, cr_title = None\<rparr>"


end
