(* ===== verification/Mailbox_Loop.thy ===== *)
theory Mailbox_Loop
  imports Mailbox
begin

text \<open>
  The loop of one mailbox worker (\<open>run_runtime_mailbox\<close> in \<open>crates/shidou-core/src/server.rs\<close>)
  with nobody else running: receive, handle, retire until it waits on an empty channel or is gone.
  It ends, and what it has done is the fold of the requests it found.
\<close>

fun phase_weight :: "worker_phase \<Rightarrow> nat" where
  "phase_weight (Handling _) = 2"
| "phase_weight Retiring = 1"
| "phase_weight _ = 0"

definition worker_weight :: "uuid \<Rightarrow> 'b mailboxes \<Rightarrow> nat" where
  "worker_weight m mx = 3 * length (mx_queues mx m) +
     (case mx_workers mx m of None \<Rightarrow> 0 | Some w \<Rightarrow> phase_weight (mw_phase w))"

definition worker_next :: "'b backend \<Rightarrow> uuid \<Rightarrow> 'b mailboxes \<Rightarrow> 'b mailboxes option" where
  "worker_next B m mx = (case worker_receive m mx of
       Some mx \<Rightarrow> Some mx
     | None \<Rightarrow> (case worker_handle B m mx of Some mx \<Rightarrow> Some mx | None \<Rightarrow> worker_retire m mx))"

lemma worker_next_weight: "worker_next B m mx = Some mx' \<Longrightarrow> worker_weight m mx' < worker_weight m mx"
  by (auto simp: worker_next_def worker_receive_def worker_handle_def worker_retire_def worker_weight_def
      split: option.splits list.splits worker_phase.splits prod.splits if_splits)

function run_worker :: "'b backend \<Rightarrow> uuid \<Rightarrow> 'b mailboxes \<Rightarrow> 'b mailboxes" where
  "run_worker B m mx = (case worker_next B m mx of None \<Rightarrow> mx | Some mx' \<Rightarrow> run_worker B m mx')"
  by pat_completeness auto
termination
  by (relation "measure (\<lambda>(B, m, mx). worker_weight m mx)") (auto dest: worker_next_weight)

declare run_worker.simps [simp del]

definition turns :: "'b backend \<Rightarrow> uuid \<Rightarrow> uuid option \<times> 'b server \<Rightarrow> dispatched_request list \<Rightarrow> uuid option \<times> 'b server" where
  "turns B s = foldl (\<lambda>(active, sv) d. mailbox_turn B s d active sv)"

definition worker_todo :: "uuid \<Rightarrow> 'b mailboxes \<Rightarrow> mailbox_worker \<Rightarrow> dispatched_request list" where
  "worker_todo m mx w = held (mw_phase w) @ mx_queues mx m"

lemma worker_next_step:
  assumes "worker_next B m mx = Some mx'" "mx_workers mx m = Some w"
  shows "\<exists>w'. mx_workers mx' m = Some w' \<and> mw_session w' = mw_session w \<and> mw_phase w \<noteq> Gone \<and>
    (mw_phase w' = Gone \<longrightarrow> mx_queues mx' m = []) \<and>
    turns B (mw_session w) (mw_active w', mx_server mx') (worker_todo m mx' w') =
      turns B (mw_session w) (mw_active w, mx_server mx) (worker_todo m mx w)"
  using assms
  by (auto simp: worker_next_def worker_receive_def worker_handle_def worker_retire_def worker_todo_def turns_def
      split: option.splits list.splits worker_phase.splits prod.splits if_splits)

lemma worker_next_stops:
  assumes "worker_next B m mx = None" "mx_workers mx m = Some w" "mw_phase w = Gone \<longrightarrow> mx_queues mx m = []"
  shows "worker_todo m mx w = [] \<and> mw_phase w \<in> {Receiving, Gone}"
  using assms
  by (auto simp: worker_next_def worker_receive_def worker_handle_def worker_retire_def worker_todo_def
      split: option.splits list.splits worker_phase.splits prod.splits if_splits)

text \<open>
  C17: the loop of a mailbox worker ends for every queue it starts with: it then waits on an empty
  channel or has retired, and the runtime it holds and the server's state are those of handling the
  request it had in hand and then every queued one, each exactly once, in order.
\<close>

theorem worker_loop_ends:
  assumes "mx_workers mx m = Some w" "mw_phase w = Gone \<longrightarrow> mx_queues mx m = []"
  shows "\<exists>w'. mx_workers (run_worker B m mx) m = Some w' \<and> mw_phase w' \<in> {Receiving, Gone} \<and>
    mx_queues (run_worker B m mx) m = [] \<and>
    (mw_active w', mx_server (run_worker B m mx)) =
      turns B (mw_session w) (mw_active w, mx_server mx) (worker_todo m mx w)"
  using assms
proof (induction B m mx arbitrary: w rule: run_worker.induct)
  case (1 B m mx)
  show ?case
  proof (cases "worker_next B m mx")
    case None
    with worker_next_stops [OF None 1(2,3)] 1(2) show ?thesis
      by (auto simp: run_worker.simps [of B m mx] worker_todo_def turns_def)
  next
    case (Some mx')
    from worker_next_step [OF Some 1(2)] obtain w' where w': "mx_workers mx' m = Some w'" "mw_session w' = mw_session w"
      "mw_phase w' = Gone \<longrightarrow> mx_queues mx' m = []"
      "turns B (mw_session w) (mw_active w', mx_server mx') (worker_todo m mx' w') =
        turns B (mw_session w) (mw_active w, mx_server mx) (worker_todo m mx w)" by blast
    from 1(1) [OF Some w'(1,3)] w'(2,4) Some show ?thesis by (simp add: run_worker.simps [of B m mx])
  qed
qed

theorem worker_loop_ends_witness:
  "\<exists>w'. mx_workers (run_worker demo_backend 9 (mb_state demo_dispatched)) 9 = Some w' \<and>
    mx_queues (run_worker demo_backend 9 (mb_state demo_dispatched)) 9 = [] \<and>
    (mw_active w', mx_server (run_worker demo_backend 9 (mb_state demo_dispatched))) =
      mailbox_turn demo_backend 1 demo_request None (hub_new 7 3, 0)"
proof -
  let ?w = "\<lparr>mw_session = 1, mw_active = None, mw_phase = Receiving\<rparr>"
  have m: "mx_workers (mb_state demo_dispatched) 9 = Some ?w" "mx_server (mb_state demo_dispatched) = (hub_new 7 3, 0)"
    "worker_todo 9 (mb_state demo_dispatched) ?w = [demo_request]"
    by (simp_all add: demo_dispatched_def mailbox_start_def dispatch_runtime_def demo_request_def Let_def worker_todo_def)
  from worker_loop_ends [OF m(1), of demo_backend] m show ?thesis by (auto simp: turns_def)
qed

end
