(* ===== verification/Turn_Edits.thy ===== *)
theory Turn_Edits
  imports Session_Types "HOL-Library.Multiset"
begin

text \<open>
  The edits a provider recorded for one turn (\<open>crates/shidou-protocol/src/turn_edits.rs\<close>): counts
  are sums of the reported operations, and a count that is missing or does not fit a \<open>u64\<close> is
  unknown, for the file and for the turn.
\<close>

section \<open>The accumulator\<close>

record recorded_file_edit =
  rf_path :: rstring
  rf_additions :: "u64 option"
  rf_deletions :: "u64 option"

record recorded_turn_edits =
  re_files :: "recorded_file_edit list"
  re_additions :: "u64 option"
  re_deletions :: "u64 option"
  re_activity_ids :: "uuid list"

record edit_accumulator =
  ea_result :: recorded_turn_edits
  ea_file_indices :: "rstring \<rightharpoonup> nat"

definition edit_accumulator_default :: edit_accumulator where
  "edit_accumulator_default =
     \<lparr>ea_result = \<lparr>re_files = [], re_additions = None, re_deletions = None, re_activity_ids = []\<rparr>,
      ea_file_indices = Map.empty\<rparr>"

definition add_counts :: "u64 option \<Rightarrow> u64 option \<Rightarrow> u64 option" where
  "add_counts left right =
     Option.bind left (\<lambda>l. Option.bind right (\<lambda>r. checked_add_u64 l r))"

definition is_recorded_edit :: "activity_item \<Rightarrow> bool" where
  "is_recorded_edit activity \<longleftrightarrow>
     a_kind activity = FileChange \<and> a_complete activity \<and> \<not> a_failed activity \<and>
     list_ex (\<lambda>change. trim (fc_path change) \<noteq> []) (a_file_changes activity)"

definition edit_add_change :: "edit_accumulator \<Rightarrow> activity_file_change \<Rightarrow> edit_accumulator" where
  "edit_add_change self change =
     (if trim (fc_path change) = [] then self
      else
        let files = re_files (ea_result self) in
        case ea_file_indices self (fc_path change) of
          Some index \<Rightarrow>
            self\<lparr>ea_result := (ea_result self)\<lparr>re_files := files[index := (files ! index)
              \<lparr>rf_additions := add_counts (rf_additions (files ! index)) (fc_additions change),
               rf_deletions := add_counts (rf_deletions (files ! index)) (fc_deletions change)\<rparr>]\<rparr>\<rparr>
        | None \<Rightarrow>
            self\<lparr>ea_file_indices := (ea_file_indices self)(fc_path change \<mapsto> length files),
              ea_result := (ea_result self)\<lparr>re_files := files @
                [\<lparr>rf_path = fc_path change, rf_additions = fc_additions change,
                  rf_deletions = fc_deletions change\<rparr>]\<rparr>\<rparr>)"

definition edit_add :: "edit_accumulator \<Rightarrow> activity_item \<Rightarrow> edit_accumulator" where
  "edit_add self activity =
     (if \<not> is_recorded_edit activity then self
      else
        let self = foldl edit_add_change self (a_file_changes activity);
            result = ea_result self in
        self\<lparr>ea_result := result\<lparr>re_activity_ids := re_activity_ids result @ [a_id activity]\<rparr>\<rparr>)"

definition try_sum :: "u64 option list \<Rightarrow> u64 option" where
  "try_sum counts =
     foldl (\<lambda>sum count. Option.bind sum (\<lambda>s. Option.bind count (checked_add_u64 s))) (Some 0) counts"

definition edit_finish :: "edit_accumulator \<Rightarrow> recorded_turn_edits" where
  "edit_finish self =
     (let result = ea_result self in
      result\<lparr>re_additions := try_sum (map rf_additions (re_files result)),
             re_deletions := try_sum (map rf_deletions (re_files result))\<rparr>)"

definition recorded_turn_edits_of :: "agent_session \<Rightarrow> agent_turn \<Rightarrow> recorded_turn_edits" where
  "recorded_turn_edits_of session turn =
     edit_finish (foldl edit_add edit_accumulator_default
       (concat (map b_activities
         (filter (\<lambda>block. b_turn_id block = Some (t_id turn)) (s_transcript_blocks session)))))"

text \<open>The hash map of accumulators is a map from turns.\<close>

definition by_turn_activity ::
    "uuid \<Rightarrow> (uuid \<rightharpoonup> edit_accumulator) \<Rightarrow> activity_item \<Rightarrow> (uuid \<rightharpoonup> edit_accumulator)" where
  "by_turn_activity turn_id turns activity =
     (if is_recorded_edit activity
      then turns(turn_id \<mapsto> edit_add (unwrap_or (turns turn_id) edit_accumulator_default) activity)
      else turns)"

definition by_turn_block ::
    "(uuid \<rightharpoonup> edit_accumulator) \<Rightarrow> transcript_block \<Rightarrow> (uuid \<rightharpoonup> edit_accumulator)" where
  "by_turn_block turns block =
     (case b_turn_id block of
        None \<Rightarrow> turns
      | Some turn_id \<Rightarrow> foldl (by_turn_activity turn_id) turns (b_activities block))"

definition recorded_edits_by_turn :: "agent_session \<Rightarrow> (uuid \<rightharpoonup> recorded_turn_edits)" where
  "recorded_edits_by_turn session =
     map_option edit_finish \<circ> foldl by_turn_block Map.empty (s_transcript_blocks session)"

section \<open>Exact sums\<close>

text \<open>The specification: the sum of the counts, if all are known and it fits.\<close>

definition exact_sum :: "u64 option list \<Rightarrow> u64 option" where
  "exact_sum cs = (if None \<notin> set cs \<and> sum_list (map (\<lambda>c. unat (the c)) cs) < 2 ^ 64
     then Some (of_nat (sum_list (map (\<lambda>c. unat (the c)) cs))) else None)"

lemma unat_u64_less [simp]: "unat (x :: u64) < 18446744073709551616"
  using unsigned_less [of x, where ?'a = nat] by simp

lemma exact_sum_Nil [simp]: "exact_sum [] = Some 0"
  by (simp add: exact_sum_def)

lemma exact_sum_one [simp]: "exact_sum [c] = c"
  by (cases c) (auto simp: exact_sum_def)

lemma add_counts_exact: "add_counts (exact_sum cs) c = exact_sum (cs @ [c])"
proof (cases c)
  case None
  then show ?thesis by (cases "exact_sum cs") (auto simp: add_counts_def exact_sum_def)
next
  case (Some x)
  let ?n = "sum_list (map (\<lambda>c. unat (the c)) cs)"
  show ?thesis
  proof (cases "None \<notin> set cs \<and> ?n < 2 ^ 64")
    case True
    then have "unat (of_nat ?n :: u64) = ?n" by (simp add: unat_of_nat)
    with True Some show ?thesis
      by (auto simp: add_counts_def exact_sum_def checked_add_u64_def)
  next
    case False
    with Some show ?thesis by (auto simp: add_counts_def exact_sum_def)
  qed
qed

lemma add_counts_commute: "add_counts a b = Option.bind a (\<lambda>s. Option.bind b (checked_add_u64 s))"
  by (simp add: add_counts_def)

lemma try_sum_exact: "try_sum cs = exact_sum cs"
proof -
  have "foldl (\<lambda>sum count. Option.bind sum (\<lambda>s. Option.bind count (checked_add_u64 s)))
      (exact_sum as) cs = exact_sum (as @ cs)" for as
  proof (induction cs arbitrary: as)
    case Nil
    then show ?case by simp
  next
    case (Cons c cs)
    from Cons.IH [of "as @ [c]"] show ?case
      by (simp add: add_counts_exact [symmetric] add_counts_commute)
  qed
  from this [of "[]"] show ?thesis by (simp add: try_sum_def)
qed

lemma exact_sum_append:
  "exact_sum (as @ bs) = add_counts (exact_sum as) (exact_sum bs)"
proof (induction bs rule: rev_induct)
  case Nil
  then show ?case by (cases "exact_sum as") (auto simp: add_counts_def checked_add_u64_def)
next
  case (snoc b bs)
  have assoc: "add_counts (add_counts x y) z = add_counts x (add_counts y z)" for x y z
    by (cases x; cases y; cases z)
      (auto simp: add_counts_def checked_add_u64_def unat_word_ariths bind_eq_Some_conv add.assoc)
  from snoc show ?case
    by (simp add: append_assoc [symmetric] add_counts_exact [symmetric] assoc del: append_assoc)
qed

text \<open>The order of the summands and their grouping do not matter.\<close>

lemma exact_sum_perm: "mset as = mset bs \<Longrightarrow> exact_sum as = exact_sum bs"
proof -
  assume eq: "mset as = mset bs"
  then have "mset (map (\<lambda>c. unat (the c)) as) = mset (map (\<lambda>c. unat (the c)) bs)" by simp
  then have "sum_list (map (\<lambda>c. unat (the c)) as) = sum_list (map (\<lambda>c. unat (the c)) bs)"
    by (metis sum_mset_sum_list)
  moreover have "set as = set bs" using eq by (metis set_mset_mset)
  ultimately show ?thesis by (simp add: exact_sum_def)
qed

section \<open>What the accumulator computes\<close>

text \<open>The reported changes that count, and the paths they name in order of first report.\<close>

definition counted_changes :: "activity_item list \<Rightarrow> activity_file_change list" where
  "counted_changes acts =
     filter (\<lambda>c. trim (fc_path c) \<noteq> []) (concat (map a_file_changes (filter is_recorded_edit acts)))"

definition first_paths :: "activity_file_change list \<Rightarrow> rstring list" where
  "first_paths cs = rev (remdups (rev (map fc_path cs)))"

definition file_total :: "activity_file_change list \<Rightarrow> rstring \<Rightarrow> recorded_file_edit" where
  "file_total cs p =
     \<lparr>rf_path = p, rf_additions = exact_sum (map fc_additions (filter (\<lambda>c. fc_path c = p) cs)),
      rf_deletions = exact_sum (map fc_deletions (filter (\<lambda>c. fc_path c = p) cs))\<rparr>"

lemma first_paths_snoc:
  "first_paths (cs @ [c]) =
     (if fc_path c \<in> set (map fc_path cs) then first_paths cs else first_paths cs @ [fc_path c])"
  by (simp add: first_paths_def)

lemma set_first_paths [simp]: "set (first_paths cs) = set (map fc_path cs)"
  by (simp add: first_paths_def)

lemma distinct_first_paths: "distinct (first_paths cs)"
  by (simp add: first_paths_def)

lemma file_total_snoc:
  "file_total (cs @ [c]) p = (if fc_path c = p
     then (file_total cs p)\<lparr>rf_additions := add_counts (rf_additions (file_total cs p)) (fc_additions c),
       rf_deletions := add_counts (rf_deletions (file_total cs p)) (fc_deletions c)\<rparr>
     else file_total cs p)"
  by (simp add: file_total_def add_counts_exact)

definition accumulates ::
    "edit_accumulator \<Rightarrow> activity_file_change list \<Rightarrow> bool" where
  "accumulates acc cs \<longleftrightarrow>
     re_files (ea_result acc) = map (file_total cs) (first_paths cs) \<and>
     (\<forall>p. ea_file_indices acc p = position (\<lambda>q. q = p) (first_paths cs))"

lemma position_eq_None: "position (\<lambda>q. q = p) xs = None \<longleftrightarrow> p \<notin> set xs"
  by (auto simp: position_None)

lemma position_snoc: "position P (xs @ [x]) =
  (case position P xs of Some i \<Rightarrow> Some i | None \<Rightarrow> if P x then Some (length xs) else None)"
  by (induction xs) (auto split: option.splits)

lemma accumulates_change:
  assumes acc: "accumulates acc cs" and c: "trim (fc_path c) \<noteq> []"
  shows "accumulates (edit_add_change acc c) (cs @ [c])"
proof (cases "fc_path c \<in> set (map fc_path cs)")
  case False
  then have "position (\<lambda>q. q = fc_path c) (first_paths cs) = None"
    by (simp add: position_eq_None)
  moreover have "map (file_total (cs @ [c])) (first_paths cs) = map (file_total cs) (first_paths cs)"
    using False by (auto simp: file_total_snoc)
  moreover have "filter (\<lambda>d. fc_path d = fc_path c) cs = []"
    unfolding filter_empty_conv using False by (metis image_eqI set_map)
  ultimately show ?thesis
    using acc c False
    by (auto simp: accumulates_def edit_add_change_def first_paths_snoc Let_def position_snoc
        file_total_def split: option.splits)
next
  case True
  then obtain i where i: "position (\<lambda>q. q = fc_path c) (first_paths cs) = Some i"
    using position_eq_None [of "fc_path c" "first_paths cs"] by auto
  from position_Some [OF i] have il: "i < length (first_paths cs)" "first_paths cs ! i = fc_path c" by auto
  have "map (file_total (cs @ [c])) (first_paths cs) =
      (map (file_total cs) (first_paths cs))[i := file_total (cs @ [c]) (fc_path c)]"
    using il distinct_first_paths [of cs]
    by (intro nth_equalityI) (auto simp: nth_list_update file_total_snoc nth_eq_iff_index_eq)
  with acc c True i il show ?thesis
    by (auto simp: accumulates_def edit_add_change_def first_paths_snoc Let_def file_total_snoc)
qed

lemma accumulates_changes:
  "accumulates acc cs \<Longrightarrow>
   accumulates (foldl edit_add_change acc ds) (cs @ filter (\<lambda>c. trim (fc_path c) \<noteq> []) ds)"
proof (induction ds arbitrary: acc cs)
  case Nil
  then show ?case by simp
next
  case (Cons d ds)
  show ?case
  proof (cases "trim (fc_path d) = []")
    case True
    with Cons show ?thesis by (simp add: edit_add_change_def)
  next
    case False
    with Cons.IH [OF accumulates_change [OF Cons.prems]] show ?thesis by simp
  qed
qed

lemma accumulates_activities:
  "accumulates acc cs \<Longrightarrow> accumulates (foldl edit_add acc acts) (cs @ counted_changes acts)"
proof (induction acts arbitrary: acc cs)
  case Nil
  then show ?case by (simp add: counted_changes_def)
next
  case (Cons a acts)
  show ?case
  proof (cases "is_recorded_edit a")
    case False
    with Cons show ?thesis by (simp add: edit_add_def counted_changes_def)
  next
    case True
    have "accumulates (edit_add acc a) (cs @ filter (\<lambda>c. trim (fc_path c) \<noteq> []) (a_file_changes a))"
      using accumulates_changes [OF Cons.prems, of "a_file_changes a"] True
      by (simp add: accumulates_def edit_add_def Let_def)
    from Cons.IH [OF this] True show ?thesis by (simp add: counted_changes_def)
  qed
qed

lemma accumulates_default: "accumulates edit_accumulator_default []"
  by (simp add: accumulates_def edit_accumulator_default_def first_paths_def)

lemma edit_add_change_ids [simp]:
  "re_activity_ids (ea_result (edit_add_change acc c)) = re_activity_ids (ea_result acc)"
  by (simp add: edit_add_change_def Let_def split: option.split)

lemma edit_add_changes_ids [simp]:
  "re_activity_ids (ea_result (foldl edit_add_change acc cs)) = re_activity_ids (ea_result acc)"
  by (induction cs arbitrary: acc) simp_all

lemma edit_adds_ids:
  "re_activity_ids (ea_result (foldl edit_add acc acts)) =
     re_activity_ids (ea_result acc) @ map a_id (filter is_recorded_edit acts)"
  by (induction acts arbitrary: acc) (simp_all add: edit_add_def Let_def)

lemma exact_sum_cong_all:
  "exact_sum (map (\<lambda>p. exact_sum (map g (filter (\<lambda>c. fc_path c = p) cs))) (first_paths cs)) =
   exact_sum (map g cs)"
proof -
  have "exact_sum (map (\<lambda>p. exact_sum (f p)) ps) = exact_sum (concat (map f ps))"
    for f and ps :: "rstring list"
  proof (induction ps rule: rev_induct)
    case Nil
    then show ?case by simp
  next
    case (snoc p ps)
    then show ?case by (simp add: add_counts_exact [symmetric] exact_sum_append)
  qed
  then have "exact_sum (map (\<lambda>p. exact_sum (map g (filter (\<lambda>c. fc_path c = p) cs))) (first_paths cs)) =
      exact_sum (concat (map (\<lambda>p. map g (filter (\<lambda>c. fc_path c = p) cs)) (first_paths cs)))" by simp
  also have "\<dots> = exact_sum (map g cs)"
  proof (rule exact_sum_perm)
    have part: "(\<Sum>p\<leftarrow>ps. mset (map g (filter (\<lambda>c. fc_path c = p) cs))) =
        mset (map g (filter (\<lambda>c. fc_path c \<in> set ps) cs))" if "distinct ps" for ps
      using that
    proof (induction ps)
      case (Cons p ps)
      have "mset (map g (filter (\<lambda>c. fc_path c \<in> set (p # ps)) ds)) =
          mset (map g (filter (\<lambda>c. fc_path c = p) ds)) + mset (map g (filter (\<lambda>c. fc_path c \<in> set ps) ds))"
        for ds using Cons.prems by (induction ds) auto
      with Cons show ?case by simp
    qed simp
    have "mset (concat (map (\<lambda>p. map g (filter (\<lambda>c. fc_path c = p) cs)) (first_paths cs))) =
        (\<Sum>p\<leftarrow>first_paths cs. mset (map g (filter (\<lambda>c. fc_path c = p) cs)))"
      by (simp add: mset_concat comp_def)
    also have "\<dots> = mset (map g (filter (\<lambda>c. fc_path c \<in> set (first_paths cs)) cs))"
      by (rule part [OF distinct_first_paths])
    also have "filter (\<lambda>c. fc_path c \<in> set (first_paths cs)) cs = cs"
      by (simp add: filter_id_conv)
    finally show "mset (concat (map (\<lambda>p. map g (filter (\<lambda>c. fc_path c = p) cs)) (first_paths cs))) =
        mset (map g cs)" .
  qed
  finally show ?thesis .
qed

definition turn_activities :: "agent_session \<Rightarrow> agent_turn \<Rightarrow> activity_item list" where
  "turn_activities s t = concat (map b_activities
     (filter (\<lambda>block. b_turn_id block = Some (t_id t)) (s_transcript_blocks s)))"

text \<open>
  The recorded edits of a turn are exactly its completed, successful file edits: every path
  once in the order of the first report, with the exact sum of its reported counts, the exact
  sums over all of them as the totals, and the activities in transcript order. A sum with a
  missing count or beyond 64 bits is unknown rather than wrapped.
\<close>

theorem recorded_turn_edits_exact:
  "recorded_turn_edits_of s t =
     (let acts = turn_activities s t; cs = counted_changes acts in
      \<lparr>re_files = map (file_total cs) (first_paths cs),
       re_additions = exact_sum (map fc_additions cs),
       re_deletions = exact_sum (map fc_deletions cs),
       re_activity_ids = map a_id (filter is_recorded_edit acts)\<rparr>)"
proof -
  let ?acts = "turn_activities s t"
  let ?acc = "foldl edit_add edit_accumulator_default ?acts"
  have "accumulates ?acc (counted_changes ?acts)"
    using accumulates_activities [OF accumulates_default, of ?acts] by simp
  then have "re_files (ea_result ?acc) =
      map (file_total (counted_changes ?acts)) (first_paths (counted_changes ?acts))"
    by (simp add: accumulates_def)
  moreover have "re_activity_ids (ea_result ?acc) = map a_id (filter is_recorded_edit ?acts)"
    by (simp add: edit_adds_ids edit_accumulator_default_def)
  ultimately show ?thesis
    unfolding recorded_turn_edits_of_def turn_activities_def [symmetric] edit_finish_def Let_def
    by (simp add: try_sum_exact comp_def file_total_def exact_sum_cong_all)
qed

section \<open>One pass for every turn\<close>

lemma edit_add_unrecorded: "\<not> is_recorded_edit a \<Longrightarrow> edit_add acc a = acc"
  by (simp add: edit_add_def)

lemma by_turn_activities:
  "foldl (by_turn_activity i) M acts j =
     (if j = i \<and> list_ex is_recorded_edit acts
      then Some (foldl edit_add (unwrap_or (M i) edit_accumulator_default) acts) else M j)"
proof (induction acts arbitrary: M)
  case Nil
  then show ?case by simp
next
  case (Cons a acts)
  have none: "\<not> list_ex is_recorded_edit acts \<Longrightarrow> foldl edit_add acc acts = acc" for acc
    by (induction acts) (auto simp: edit_add_unrecorded)
  from Cons show ?case
    by (auto simp: by_turn_activity_def edit_add_unrecorded none)
qed

lemma by_turn_blocks:
  "foldl by_turn_block M bs j =
     (let acts = concat (map b_activities (filter (\<lambda>b. b_turn_id b = Some j) bs)) in
      if list_ex is_recorded_edit acts
      then Some (foldl edit_add (unwrap_or (M j) edit_accumulator_default) acts) else M j)"
proof (induction bs arbitrary: M)
  case Nil
  then show ?case by simp
next
  case (Cons b bs)
  have none: "\<not> list_ex is_recorded_edit acts \<Longrightarrow> foldl edit_add acc acts = acc" for acc acts
    by (induction acts) (auto simp: edit_add_unrecorded)
  show ?case
  proof (cases "b_turn_id b = Some j")
    case True
    then have "by_turn_block M b j = (if list_ex is_recorded_edit (b_activities b)
        then Some (foldl edit_add (unwrap_or (M j) edit_accumulator_default) (b_activities b)) else M j)"
      by (simp add: by_turn_block_def by_turn_activities)
    with True Cons show ?thesis by (auto simp: Let_def none)
  next
    case False
    then have "by_turn_block M b j = M j"
      by (auto simp: by_turn_block_def by_turn_activities split: option.split)
    with False Cons show ?thesis by (simp add: Let_def)
  qed
qed

text \<open>
  The single pass over the transcript gives for every turn what the pass for that turn
  alone gives, and has no entry exactly for the turns without a recorded edit.
\<close>

theorem recorded_edits_by_turn_agrees:
  "recorded_edits_by_turn s (t_id t) =
     (if list_ex is_recorded_edit (turn_activities s t) then Some (recorded_turn_edits_of s t) else None)"
  by (simp add: recorded_edits_by_turn_def recorded_turn_edits_of_def turn_activities_def
      by_turn_blocks Let_def)

end
