(* ===== verification/Snapshot_Properties.thy ===== *)
theory Snapshot_Properties
  imports Snapshot_Merge Reducer_Invariant
begin

text \<open>
  Further properties of the merge of a client's snapshot: saving twice is saving once, projects,
  and the event that announces an accepted prompt.
\<close>

section \<open>Saving twice\<close>

lemma compare_u64_refl [simp]: "compare_u64 a a = Same"
  by (simp add: compare_u64_def)

lemma compare_u64_Advances: "compare_u64 a b = Advances \<longleftrightarrow> b < a"
  by (auto simp: compare_u64_def)

lemma stale_updated_at:
  "s_updated_at (merge_stale_session_metadata e i) = max (s_updated_at e) (s_updated_at i)"
  by (rule merge_appended_cases [of e i])
    (simp_all add: merge_stale_session_metadata_def merge_stale_metadata_fields_def max_def)

text \<open>A stale merge never makes the same snapshot look newer.\<close>

lemma stale_order:
  assumes "session_projection_order e i r \<noteq> Advances" "s_updated_at j = s_updated_at i"
  shows "session_projection_order (merge_stale_session_metadata e j) i r \<noteq> Advances"
proof -
  let ?m = "merge_stale_session_metadata e j"
  have le: "compare_u64 (s_updated_at i) (s_updated_at ?m) \<noteq> Advances"
    by (simp add: compare_u64_Advances stale_updated_at assms(2))
  have cur: "s_runtime_event_cursor ?m = s_runtime_event_cursor e" by (rule merge_stale_parts)
  show ?thesis
    using assms(1) le unfolding session_projection_order_def Let_def cur
    by (auto split: option.splits if_splits)
qed

lemma lineage_append:
  assumes "has_turn_message_prefix e i" "\<not> preserves_transcript_lineage e i"
    and "s_transcript_blocks m = s_transcript_blocks e @ bs"
  shows "\<not> preserves_transcript_lineage m i"
  using assms by (auto simp: preserves_transcript_lineage_def zip_all_nth nth_append)

lemma list_ex_queued: "list_ex (\<lambda>c. q_id c = i) queue \<longleftrightarrow> i \<in> q_id ` set queue"
  by (metis (mono_tags, lifting) image_iff list_ex_iff)

lemma push_queued_known:
  "q_id ` set qs \<subseteq> q_id ` set queue \<Longrightarrow> foldl push_queued queue qs = queue"
proof (induction qs)
  case (Cons q qs)
  then have "list_ex (\<lambda>c. q_id c = q_id q) queue" by (simp add: list_ex_queued)
  with Cons show ?case by (simp add: push_queued_def)
qed simp

lemma push_queued_ids: "q_id ` set qs \<subseteq> q_id ` set (foldl push_queued queue qs)"
proof -
  have mono: "q_id ` set queue \<subseteq> q_id ` set (foldl push_queued queue qs)" for queue qs
    by (rule foldl_inv) (auto simp: push_queued_def)
  show ?thesis
  proof (induction qs arbitrary: queue)
    case (Cons q qs)
    have "q_id q \<in> q_id ` set (push_queued queue q)"
      by (simp add: push_queued_def list_ex_queued)
    with mono [of "push_queued queue q" qs] Cons show ?case by auto
  qed simp
qed

lemma fields_idem: "merge_stale_metadata_fields (merge_stale_metadata_fields e i) i =
    merge_stale_metadata_fields e i"
  by (auto simp: merge_stale_metadata_fields_def opt_or_def split: option.split)


lemma fields_queue: "merge_stale_metadata_fields (e\<lparr>s_queued_messages := q\<rparr>) i =
    (merge_stale_metadata_fields e i)\<lparr>s_queued_messages := q\<rparr>"
  by (simp add: merge_stale_metadata_fields_def)

lemma appended_frame:
  assumes "s_turns m = s_turns e" "s_messages m = s_messages e"
  shows "snd (merge_appended_client_turns m i) = snd (merge_appended_client_turns e i)"
proof -
  have if4: "snd (if a then (x, False) else if b then (x, False) else if c then (x, False)
      else if d then (x, False) else (y, True)) =
    snd (if a then (x', False) else if b then (x', False) else if c then (x', False)
      else if d then (x', False) else (y', True))" for a b c d and x y x' y' :: agent_session
    by simp
  show ?thesis
    unfolding merge_appended_client_turns_def has_turn_message_prefix_def Let_def assms by (rule if4)
qed

lemma appended_False: "\<not> snd (merge_appended_client_turns e i) \<Longrightarrow> merge_appended_client_turns e i = (e, False)"
proof (rule merge_appended_cases [of e i])
  fix ts ms bs
  assume "\<not> snd (merge_appended_client_turns e i)"
    and "merge_appended_client_turns e i =
      (e\<lparr>s_messages := s_messages e @ ms, s_turns := s_turns e @ ts,
         s_transcript_blocks := s_transcript_blocks e @ bs\<rparr>, True)"
  then show ?thesis by (metis snd_conv)
qed

lemma appended_twice:
  assumes "s_turns m = s_turns (fst (merge_appended_client_turns e i))"
    "s_messages m = s_messages (fst (merge_appended_client_turns e i))"
  shows "merge_appended_client_turns m i = (m, False)"
proof (rule appended_False, rule merge_appended_cases [of e i])
  assume "merge_appended_client_turns e i = (e, False)"
  with assms appended_frame [of m e i] show "\<not> snd (merge_appended_client_turns m i)" by simp
next
  fix ts ms bs assume a: "merge_appended_client_turns e i =
      (e\<lparr>s_messages := s_messages e @ ms, s_turns := s_turns e @ ts,
         s_transcript_blocks := s_transcript_blocks e @ bs\<rparr>, True)"
    "ts = drop (length (s_turns e)) (s_turns i)"
  then have "length (s_turns i) \<le> length (s_turns m)" using assms(1) by simp
  then show "\<not> snd (merge_appended_client_turns m i)"
    by (simp add: merge_appended_client_turns_def Let_def)
qed

lemma stale_twice:
  "merge_stale_session_metadata (merge_stale_session_metadata e i) i = merge_stale_session_metadata e i"
proof -
  obtain f app where f: "merge_appended_client_turns e i = (f, app)" by fastforce
  let ?g = "if app then f\<lparr>s_status := s_status i\<rparr> else f"
  let ?q = "foldl push_queued (s_queued_messages ?g) (s_queued_messages i)"
  let ?m = "(merge_stale_metadata_fields ?g i)\<lparr>s_queued_messages := ?q\<rparr>"
  have m: "merge_stale_session_metadata e i = ?m"
    by (simp add: merge_stale_session_metadata_def f)
  have "merge_appended_client_turns ?m i = (?m, False)"
    by (rule appended_twice [where e = e]) (auto simp: f)
  moreover have "merge_stale_metadata_fields ?m i = ?m"
    by (simp only: fields_queue fields_idem)
  moreover have "foldl push_queued ?q (s_queued_messages i) = ?q"
    by (rule push_queued_known [OF push_queued_ids])
  ultimately show ?thesis unfolding m merge_stale_session_metadata_def [of ?m] by simp
qed

lemma order_self:
  assumes "s_runtime_event_cursor m = s_runtime_event_cursor i" "s_updated_at m = s_updated_at i"
  shows "session_projection_order m i r \<noteq> Advances"
  using assms by (auto simp: session_projection_order_def Let_def split: option.splits)

lemma stale_self:
  assumes "s_turns m = ts" "length ts = length (s_turns i)"
    and "m = i\<lparr>s_turns := ts\<rparr>"
  shows "merge_stale_session_metadata m i = m"
proof -
  have a: "merge_appended_client_turns m i = (m, False)"
    using assms by (simp add: merge_appended_client_turns_def Let_def)
  have b: "merge_stale_metadata_fields m i = m"
    unfolding assms(3) by (simp add: merge_stale_metadata_fields_def opt_or_def split: option.split)
  have c: "foldl push_queued (s_queued_messages m) (s_queued_messages i) = s_queued_messages m"
    by (rule push_queued_known) (simp add: assms(3))
  show ?thesis by (simp add: merge_stale_session_metadata_def a b c)
qed

lemma merge_saved_stale:
  assumes "\<not> (session_projection_order e i r = Advances \<and> preserves_transcript_lineage e i)"
  shows "merge_saved_session e i r =
    merge_stale_session_metadata e (i\<lparr>s_archived_at := s_archived_at e\<rparr>)"
proof -
  have "session_projection_order e i r \<noteq> Advances \<or>
      \<not> preserves_transcript_lineage e (i\<lparr>s_archived_at := s_archived_at e\<rparr>)"
    using assms by simp
  then show ?thesis unfolding merge_saved_session_def Let_def by (rule if_P)
qed

text \<open>
  Saving the same snapshot again changes nothing: a retried save is harmless whichever way
  the first one was merged.
\<close>

theorem merge_saved_session_idempotent:
  "merge_saved_session (merge_saved_session e i r) i r = merge_saved_session e i r"
proof (cases "session_projection_order e i r = Advances \<and> preserves_transcript_lineage e i")
  case True
  let ?i = "i\<lparr>s_archived_at := s_archived_at e\<rparr>"
  let ?m = "preserve_daemon_checkpoints e ?i"
  have m: "merge_saved_session e i r = ?m" using True by (simp add: merge_saved_session_def)
  have arch: "s_archived_at ?m = s_archived_at e" by (simp add: preserve_daemon_checkpoints_def)
  have "session_projection_order ?m i r \<noteq> Advances"
    by (rule order_self) (simp_all add: preserve_daemon_checkpoints_def)
  then have "merge_saved_session ?m i r = merge_stale_session_metadata ?m ?i"
    by (simp add: merge_saved_session_def arch Let_def)
  also have "\<dots> = ?m"
    by (rule stale_self [OF refl]) (simp_all add: preserve_daemon_checkpoints_def)
  finally show ?thesis by (simp add: m)
next
  case False
  let ?i = "i\<lparr>s_archived_at := s_archived_at e\<rparr>"
  let ?m = "merge_stale_session_metadata e ?i"
  have m: "merge_saved_session e i r = ?m" using False by (auto simp: merge_saved_session_def)
  have "\<not> (session_projection_order ?m i r = Advances \<and> preserves_transcript_lineage ?m i)"
  proof (cases "session_projection_order e i r = Advances")
    case False
    then show ?thesis using stale_order [of e i r ?i] by simp
  next
    case True
    with \<open>\<not> _\<close> have nl: "\<not> preserves_transcript_lineage e i" by simp
    show ?thesis
    proof (rule merge_appended_cases [of e ?i])
      assume a: "merge_appended_client_turns e ?i = (e, False)"
      then have "preserves_transcript_lineage ?m i = preserves_transcript_lineage e i"
        by (simp add: preserves_transcript_lineage_def has_turn_message_prefix_def merge_stale_parts)
      with nl show ?thesis by simp
    next
      fix ts ms bs assume a: "merge_appended_client_turns e ?i =
      (e\<lparr>s_messages := s_messages e @ ms, s_turns := s_turns e @ ts,
         s_transcript_blocks := s_transcript_blocks e @ bs\<rparr>, True)" "has_turn_message_prefix e ?i"
      have "s_transcript_blocks ?m = s_transcript_blocks e @ bs" by (simp add: merge_stale_parts a(1))
      moreover have "has_turn_message_prefix e i" using a(2) by simp
      ultimately have "\<not> preserves_transcript_lineage ?m i"
        using lineage_append nl by blast
      then show ?thesis by simp
    qed
  qed
  then have "merge_saved_session ?m i r = merge_stale_session_metadata ?m (i\<lparr>s_archived_at := s_archived_at ?m\<rparr>)"
    by (rule merge_saved_stale)
  then show ?thesis by (simp add: m merge_stale_parts stale_twice)
qed

section \<open>Projects\<close>

text \<open>
  Folding a client's projects into the daemon's keeps every project in place, adds each new
  one once and never brings back one that was removed.
\<close>

theorem merge_saved_projects_keys:
  "prefix (map p_id ps) (map p_id (merge_saved_projects ps qs removed)) \<and>
   set (map p_id (merge_saved_projects ps qs removed)) =
     set (map p_id ps) \<union> (set (map p_id qs) - removed) \<and>
   (distinct (map p_id ps) \<longrightarrow> distinct (map p_id (merge_saved_projects ps qs removed)))"
proof -
  have eq: "merge_saved_projects ps qs removed =
      foldl put_project ps (filter (\<lambda>p. p_id p \<notin> removed) qs)"
    unfolding merge_saved_projects_def by (induction qs arbitrary: ps) auto
  show ?thesis
    unfolding eq
    using pv.keys_puts_prefix [of ps] pv.set_keys_puts [of ps] pv.distinct_puts [of ps] by auto
qed

theorem merge_saved_projects_keys_witness:
  "distinct (map p_id (merge_saved_projects [] [project_from_path 1 2 (lit ''/a'')] {1}))"
  using merge_saved_projects_keys [of "[]"] by simp

section \<open>Prompts\<close>

text \<open>
  Accepting a prompt never panics; on a session without a running turn it begins one whose
  only message is the prompt, and every client that has not seen that turn may admit the
  resulting event.
\<close>

theorem accept_prompt_turn_ok:
  assumes "active_turn_id s = None" "tid \<notin> set (turn_ids s)" "\<forall>m\<in>set (s_messages s). m_turn_id m \<noteq> Some tid"
    and "active_turn_id c = None"
  shows "\<exists>s' turn m. accept_prompt_turn tid mid now mnow prompt sub s = Some (s', TurnAccepted sub turn [m]) \<and>
    t_id turn = tid \<and> is_running turn \<and> m_role m = User \<and> m_content m = prompt \<and>
    s_turns s' = s_turns s @ [turn] \<and> s_messages s' = s_messages s @ [m] \<and>
    accept_ok sub turn [m] c"
proof -
  let ?u = "set_title_from_prompt (case first_opt (s_messages s) of
            Some m \<Rightarrow> message_visible_content m | None \<Rightarrow> prompt) s"
  have u: "s_turns ?u = s_turns s" "s_messages ?u = s_messages s" "active_turn_id ?u = None"
    using assms(1) by (simp_all add: set_title_from_prompt_def active_turn_id_def)
  let ?t = "\<lparr>t_id = tid, t_turn_count = length (s_turns s) + 1, t_status = Running,
              t_provider_turn_started = False, t_provider_resume_at = None, t_started_at = now,
              t_completed_at = None, t_checkpoint = None\<rparr>"
  have find: "List.find (\<lambda>t. t_id t = tid) (s_turns s @ [?t]) = Some ?t"
    using assms(2) unfolding find_Some_iff turn_ids_def
    by (intro exI [of _ "length (s_turns s)"]) (auto simp: nth_append)
  have filt: "filter (\<lambda>m. m_turn_id m = Some tid) (s_messages s) = []"
    using assms(3) by (simp add: filter_empty_conv)
  show ?thesis
    using u find filt assms(4)
    by (simp add: accept_prompt_turn_def begin_turn_def begin_turn_with_presentation_def Let_def
        message_with_presentation_def message_new_for_turn_def message_new_def is_running_def
        accept_ok_def)
qed

theorem accept_prompt_turn_ok_witness:
  "\<exists>s' turn m. accept_prompt_turn 10 20 5 5 (lit ''do'') 30 (session_new 1 5 2 Claude) =
      Some (s', TurnAccepted 30 turn [m]) \<and> t_id turn = 10"
  using accept_prompt_turn_ok [of "session_new 1 5 2 Claude" 10 "session_new 1 5 2 Claude" 20 5 5 "lit ''do''" 30]
  by (auto simp: session_new_def active_turn_id_def turn_ids_def)

end
