(* ===== verification/Hub_Properties.thy ===== *)
theory Hub_Properties
  imports Replay_Hub
begin

text \<open>
  The two other duties of the hub: a client that repeats a request is given the response it
  already earned, and the clients hear of a change of the catalog another client saved.
\<close>

section \<open>Cached responses\<close>

lemma find_map_append: "find_map f (xs @ ys) = (case find_map f xs of Some y \<Rightarrow> Some y | None \<Rightarrow> find_map f ys)"
  by (induction xs) (auto split: option.splits)

lemma drop_push:
  assumes "length xs \<le> M" "1 \<le> M"
  shows "drop (length (drop (length xs + 1 - M) (xs @ [r])) + length ys - M)
      (drop (length xs + 1 - M) (xs @ [r]) @ ys) = drop (length xs + length (r # ys) - M) (xs @ r # ys)"
proof -
  have "drop (length xs + 1 - M) (xs @ [r]) @ ys = drop (length xs + 1 - M) (xs @ r # ys)"
    using assms by simp
  moreover have "length (drop (length xs + 1 - M) (xs @ [r])) + length ys - M + (length xs + 1 - M) =
      length xs + length (r # ys) - M" using assms by simp
  ultimately show ?thesis by (simp only: drop_drop)
qed

lemma responses_after:
  "length (h_responses hub) \<le> MAX_CACHED_RESPONSES \<Longrightarrow>
   h_responses (foldl (\<lambda>h (i, outcome). cache_response i outcome h) hub later) =
     drop (length (h_responses hub) + length later - MAX_CACHED_RESPONSES) (h_responses hub @ later)"
proof (induction later arbitrary: hub)
  case Nil
  then show ?case by simp
next
  case (Cons r later)
  obtain i outcome where r: "r = (i, outcome)" by fastforce
  let ?hub = "cache_response i outcome hub" and ?M = MAX_CACHED_RESPONSES
  have h: "h_responses ?hub = drop (length (h_responses hub) + 1 - ?M) (h_responses hub @ [r])"
    by (simp add: cache_response_def Let_def r)
  then have "length (h_responses ?hub) \<le> ?M" using Cons.prems by auto
  from Cons.IH [OF this] have "h_responses (foldl (\<lambda>h (i, outcome). cache_response i outcome h) hub (r # later)) =
      drop (length (h_responses ?hub) + length later - ?M) (h_responses ?hub @ later)" by (simp add: r)
  also have "\<dots> = drop (length (h_responses hub) + length (r # later) - ?M) (h_responses hub @ r # later)"
    unfolding h by (rule drop_push) (use Cons.prems in \<open>simp_all add: MAX_CACHED_RESPONSES_def\<close>)
  finally show ?case .
qed

text \<open>
  Once the response of a request is cached, the cache answers the request with it, whatever
  is cached for other requests, until 2048 newer responses have displaced it.
\<close>

theorem response_stays_cached:
  assumes "length (h_responses hub) \<le> MAX_CACHED_RESPONSES"
    and "length later < MAX_CACHED_RESPONSES" "q \<notin> fst ` set later"
  shows "cached_response q (foldl (\<lambda>h (i, outcome). cache_response i outcome h)
    (cache_response q outcome hub) later) = Some outcome"
proof -
  let ?M = MAX_CACHED_RESPONSES and ?hub = "cache_response q outcome hub"
  have h: "h_responses ?hub = drop (length (h_responses hub) + 1 - ?M) (h_responses hub @ [(q, outcome)])"
    by (simp add: cache_response_def Let_def)
  then obtain old where old: "h_responses ?hub = old @ [(q, outcome)]"
    using assms(1,2) by (auto intro!: exI [of _ "drop (length (h_responses hub) + 1 - ?M) (h_responses hub)"])
  have len: "length (h_responses ?hub) \<le> ?M" using h by auto
  let ?d = "length (h_responses ?hub) + length later - ?M"
  have d: "?d \<le> length old" using len old assms(2) by auto
  have "h_responses (foldl (\<lambda>h (i, outcome). cache_response i outcome h) ?hub later) =
      drop ?d old @ (q, outcome) # later"
    using responses_after [OF len, of later] d by (simp add: old)
  moreover have "find_map (\<lambda>(i, r). if i = q then Some r else None) (rev later) = None"
    using assms(3) by (force simp: find_map_None)
  ultimately show ?thesis by (simp add: cached_response_def find_map_append)
qed

theorem response_stays_cached_witness:
  "cached_response 1 (cache_response 2 (Outcome_Ok (Pay_Started False))
     (cache_response 1 (Outcome_Ok Pay_Ack) (hub_new 7 3))) = Some (Outcome_Ok Pay_Ack)"
  using response_stays_cached [of "hub_new 7 3" "[(2, Outcome_Ok (Pay_Started False))]" 1 "Outcome_Ok Pay_Ack"]
  by (simp add: hub_new_def MAX_CACHED_RESPONSES_def)

section \<open>Saved catalogs\<close>

lemma catalog_insert_simp:
  "catalog_insert (m, changed) (k, v) = (m(k \<mapsto> v), changed \<or> m k \<noteq> Some v)"
  by (simp add: catalog_insert_def)

lemma map_add_insert: "m(k \<mapsto> v) ++ map_of (rev es) = m ++ map_of (rev ((k, v) # es))"
  by (auto simp: map_add_def fun_eq_iff split: option.splits)

lemma catalog_inserts_fst:
  "fst (foldl catalog_insert (m, changed) es) = m ++ map_of (rev es)"
proof (induction es arbitrary: m changed)
  case Nil
  then show ?case by simp
next
  case (Cons e es)
  obtain k v where e: "e = (k, v)" by fastforce
  show ?case
    unfolding e foldl_Cons catalog_insert_simp Cons.IH by (rule map_add_insert)
qed

lemma catalog_inserts_snd:
  "\<not> snd (foldl catalog_insert (m, changed) es) \<Longrightarrow> \<not> changed \<and> m ++ map_of (rev es) = m"
proof (induction es arbitrary: m changed)
  case Nil
  then show ?case by simp
next
  case (Cons e es)
  obtain k v where e: "e = (k, v)" by fastforce
  from Cons.prems have "\<not> snd (foldl catalog_insert (m(k \<mapsto> v), changed \<or> m k \<noteq> Some v) es)"
    by (simp only: e foldl_Cons catalog_insert_simp not_False_eq_True)
  from Cons.IH [OF this] have 1: "\<not> changed" "m k = Some v"
    "m(k \<mapsto> v) ++ map_of (rev es) = m(k \<mapsto> v)" by (simp_all del: fun_upd_apply)
  moreover from 1(2) have "m(k \<mapsto> v) = m" by (rule map_upd_triv)
  ultimately show ?case unfolding e by (metis map_add_insert)
qed

lemma task_state_saved_facts:
  fixes i projects sessions hub
  defines "hub' \<equiv> task_state_saved i projects sessions hub"
  assumes "h_subscribers hub j = Some sub" "sub_open sub"
  shows "h_catalog_projects hub' = h_catalog_projects hub ++
      map_of (rev (map (\<lambda>p. (p_id p, project_catalog_entry_from p)) projects))"
    and "h_catalog_sessions hub' = h_catalog_sessions hub ++
      map_of (rev (map (\<lambda>s. (s_id s, session_catalog_entry_from s)) sessions))"
    and "h_catalog_projects hub' \<noteq> h_catalog_projects hub \<or> h_catalog_sessions hub' \<noteq> h_catalog_sessions hub \<Longrightarrow>
      h_subscribers hub' j = Some (if j = i then sub else
        sub\<lparr>sub_received := sub_received sub @
          [Msg_TaskStateChanged (saturating_add_u64 (h_task_state_revision hub) 1)]\<rparr>)"
proof -
  let ?ps = "map (\<lambda>p. (p_id p, project_catalog_entry_from p)) projects"
  let ?ss = "map (\<lambda>s. (s_id s, session_catalog_entry_from s)) sessions"
  obtain ps b where 1: "foldl catalog_insert (h_catalog_projects hub, False) ?ps = (ps, b)" by fastforce
  obtain ss b' where 2: "foldl catalog_insert (h_catalog_sessions hub, b) ?ss = (ss, b')" by fastforce
  let ?hub = "hub\<lparr>h_catalog_projects := ps, h_catalog_sessions := ss\<rparr>"
  have hub': "hub' = (if b' then broadcast_task_state_changed (Some i) ?hub else ?hub)"
    by (simp add: hub'_def task_state_saved_def 1 2)
  show p: "h_catalog_projects hub' = h_catalog_projects hub ++ map_of (rev ?ps)"
    using catalog_inserts_fst [of "h_catalog_projects hub" False ?ps]
    by (simp add: hub' 1 broadcast_task_state_changed_def Let_def)
  show s: "h_catalog_sessions hub' = h_catalog_sessions hub ++ map_of (rev ?ss)"
    using catalog_inserts_fst [of "h_catalog_sessions hub" b ?ss]
    by (simp add: hub' 2 broadcast_task_state_changed_def Let_def)
  assume "h_catalog_projects hub' \<noteq> h_catalog_projects hub \<or> h_catalog_sessions hub' \<noteq> h_catalog_sessions hub"
  then have b'
    using catalog_inserts_snd [of "h_catalog_projects hub" False ?ps]
      catalog_inserts_snd [of "h_catalog_sessions hub" b ?ss] by (auto simp: p s 1 2)
  with assms(2,3) show "h_subscribers hub' j = Some (if j = i then sub else
      sub\<lparr>sub_received := sub_received sub @
        [Msg_TaskStateChanged (saturating_add_u64 (h_task_state_revision hub) 1)]\<rparr>)"
    by (auto simp: hub' broadcast_task_state_changed_def Let_def send_to_def)
qed

text \<open>
  After a client saved projects and sessions, the daemon's catalog holds for every one of
  them what was saved last and what it held for the others; if that changed the catalog, every
  other client still there has been sent the next revision, and the client that saved has not.
\<close>

theorem saved_catalog_announced:
  assumes "h_subscribers hub j = Some sub" "sub_open sub"
    and "hub' = task_state_saved i projects sessions hub"
  shows "h_catalog_projects hub' = h_catalog_projects hub ++
      map_of (rev (map (\<lambda>p. (p_id p, project_catalog_entry_from p)) projects)) \<and>
    h_catalog_sessions hub' = h_catalog_sessions hub ++
      map_of (rev (map (\<lambda>s. (s_id s, session_catalog_entry_from s)) sessions)) \<and>
    (h_catalog_projects hub' \<noteq> h_catalog_projects hub \<or> h_catalog_sessions hub' \<noteq> h_catalog_sessions hub \<longrightarrow>
      h_subscribers hub' j = Some (if j = i then sub else
        sub\<lparr>sub_received := sub_received sub @
          [Msg_TaskStateChanged (saturating_add_u64 (h_task_state_revision hub) 1)]\<rparr>))"
  unfolding assms(3) using task_state_saved_facts [OF assms(1,2)] by blast

theorem saved_catalog_announced_witness:
  "h_subscribers (task_state_saved 1 [\<lparr>p_id = 5, p_name = [], p_path = [], p_created_at = 0,
      p_workspace_default = Default_Local\<rparr>] []
      ((hub_new 7 3)\<lparr>h_subscribers := [0 \<mapsto> \<lparr>sub_received = [], sub_open = True\<rparr>]\<rparr>)) 0 =
    Some \<lparr>sub_received = [Msg_TaskStateChanged 1], sub_open = True\<rparr>"
proof -
  let ?p = "\<lparr>p_id = 5, p_name = [], p_path = [], p_created_at = 0,
      p_workspace_default = Default_Local\<rparr>"
  let ?hub = "(hub_new 7 3)\<lparr>h_subscribers := [0 \<mapsto> \<lparr>sub_received = [], sub_open = True\<rparr>]\<rparr>"
  have "h_subscribers ?hub 0 = Some \<lparr>sub_received = [], sub_open = True\<rparr>"
    "sub_open \<lparr>sub_received = [], sub_open = True\<rparr>" by simp_all
  note t = saved_catalog_announced [OF this refl, of 1 "[?p]" "[]"]
  from t have "h_catalog_projects (task_state_saved 1 [?p] [] ?hub) \<noteq> h_catalog_projects ?hub"
    by (auto simp: hub_new_def fun_eq_iff)
  with t show ?thesis by (simp add: hub_new_def saturating_add_u64_def)
qed

end
