(* ===== verification/Hub_Stream.thy ===== *)
theory Hub_Stream
  imports Replay_Hub
begin

text \<open>
  The hub as a concurrent system. \<open>emit\<close> holds the lock of its runtime over two critical
  sections, one that numbers and journals the event and one that tells the subscribers, so any
  other operation of the hub may come between the two: the event is then in flight. A step is
  one critical section. What was ever numbered for a runtime and the cursors each subscriber
  came with are recorded beside the hub.
\<close>

section \<open>Steps\<close>

record hub_config =
  hc_hub :: hub_state
  hc_in_flight :: "runtime_key \<rightharpoonup> sequenced_event"
  hc_log :: "runtime_key \<Rightarrow> sequenced_event list"
  hc_resume :: "u64 \<Rightarrow> replay_cursor list"

definition hub_start :: "uuid \<Rightarrow> nat \<Rightarrow> hub_config" where
  "hub_start epoch limit = \<lparr>hc_hub = hub_new epoch limit, hc_in_flight = Map.empty,
     hc_log = (\<lambda>_. []), hc_resume = (\<lambda>_. [])\<rparr>"

text \<open>
  \<open>replayable\<close> says which runtimes are journalled (a provider's are, a terminal's are not). A
  runtime id is not used twice, a client asks to resume only after events it was sent, the
  64-bit counters do not saturate.
\<close>

inductive hub_step :: "(runtime_key \<Rightarrow> bool) \<Rightarrow> hub_config \<Rightarrow> hub_config \<Rightarrow> bool"
  for replayable :: "runtime_key \<Rightarrow> bool" where
  Sequence: "hc_in_flight c (s, r) = None \<Longrightarrow> length (hc_log c (s, r)) < 2 ^ 64 - 2 \<Longrightarrow>
    emit_sequence s r event (replayable (s, r)) (hc_hub c) = Some (hub, ev) \<Longrightarrow>
    hub_step replayable c (c\<lparr>hc_hub := hub, hc_in_flight := (hc_in_flight c)((s, r) \<mapsto> ev),
      hc_log := (hc_log c)((s, r) := hc_log c (s, r) @ [ev])\<rparr>)"
| Deliver: "hc_in_flight c k = Some ev \<Longrightarrow>
    hub = broadcast (Msg_Event ev) (hc_hub c) \<Longrightarrow>
    hub_step replayable c (c\<lparr>hc_hub := if changed then broadcast_task_state_changed None hub else hub,
      hc_in_flight := (hc_in_flight c)(k := None)\<rparr>)"
| Subscribe: "distinct order \<Longrightarrow> set order = dom (h_journal (hc_hub c)) \<Longrightarrow>
    (\<And>k. unat (resume_sequence (h_epoch (hc_hub c)) cursors k) \<le> length (hc_log c k)) \<Longrightarrow>
    hub_subscribe order cursors (hc_hub c) = (hub, i) \<Longrightarrow>
    hub_step replayable c (c\<lparr>hc_hub := hub, hc_resume := (hc_resume c)(i := cursors)\<rparr>)"
| Unsubscribe: "hub_step replayable c (c\<lparr>hc_hub := hub_unsubscribe i (hc_hub c)\<rparr>)"
| Disconnect: "h_subscribers (hc_hub c) i = Some s \<Longrightarrow>
    hub_step replayable c (c\<lparr>hc_hub := (hc_hub c)\<lparr>h_subscribers :=
      (h_subscribers (hc_hub c))(i \<mapsto> s\<lparr>sub_open := False\<rparr>)\<rparr>\<rparr>)"
| Respond: "h_subscribers (hc_hub c) i = Some s \<Longrightarrow> send_to (Msg_Response q outcome) s = Some s' \<Longrightarrow>
    hub_step replayable c (c\<lparr>hc_hub := (cache_response q outcome (hc_hub c))\<lparr>h_subscribers :=
      (h_subscribers (hc_hub c))(i \<mapsto> s')\<rparr>\<rparr>)"
| Begin: "hc_log c (s, r) = [] \<Longrightarrow>
    hub_step replayable c (c\<lparr>hc_hub := begin_runtime s r (hc_hub c)\<rparr>)"
| End: "hub_step replayable c (c\<lparr>hc_hub := end_runtime s r (hc_hub c)\<rparr>)"
| Changed: "hub_step replayable c (c\<lparr>hc_hub := task_state_changed i (hc_hub c)\<rparr>)"
| Saved: "hub_step replayable c (c\<lparr>hc_hub := task_state_saved i projects sessions (hc_hub c)\<rparr>)"
| Replaced: "hub_step replayable c (c\<lparr>hc_hub := replace_task_catalog projects sessions (hc_hub c)\<rparr>)"

inductive_cases hub_stepE: "hub_step replayable c c'"

definition hub_reachable :: "(runtime_key \<Rightarrow> bool) \<Rightarrow> uuid \<Rightarrow> nat \<Rightarrow> hub_config \<Rightarrow> bool" where
  "hub_reachable replayable epoch limit c = (hub_step replayable)\<^sup>*\<^sup>* (hub_start epoch limit) c"

section \<open>What a client keeps of a stream\<close>

text \<open>The events of a runtime among the messages, and the gaps announced for it.\<close>

fun event_of :: "runtime_key \<Rightarrow> server_message \<Rightarrow> sequenced_event option" where
  "event_of k (Msg_Event ev) =
     (if (se_session_id ev, se_runtime_id ev) = k then Some ev else None)"
| "event_of k _ = None"

definition events_of :: "runtime_key \<Rightarrow> server_message list \<Rightarrow> sequenced_event list" where
  "events_of k ms = List.map_filter (event_of k) ms"

lemma events_of_simps [simp]:
  "events_of k [] = []" "events_of k (ms @ ms') = events_of k ms @ events_of k ms'"
  "events_of k (m # ms) = (case event_of k m of Some ev \<Rightarrow> [ev] | None \<Rightarrow> []) @ events_of k ms"
  by (simp_all add: events_of_def map_filter_def split: option.splits)

lemma events_of_concat: "events_of k (concat mss) = concat (map (events_of k) mss)"
  by (induction mss) simp_all

text \<open>Dropping, after sequence \<open>c\<close>, every event that is not newer than those before it.\<close>

fun unseen :: "nat \<Rightarrow> sequenced_event list \<Rightarrow> sequenced_event list" where
  "unseen c [] = []"
| "unseen c (ev # evs) = (if c < unat (se_sequence ev)
     then ev # unseen (unat (se_sequence ev)) evs else unseen c evs)"

definition newest :: "nat \<Rightarrow> sequenced_event list \<Rightarrow> nat" where
  "newest c evs = foldl max c (map (unat \<circ> se_sequence) evs)"

lemma newest_simps [simp]:
  "newest c [] = c" "newest c (ev # evs) = newest (max c (unat (se_sequence ev))) evs"
  by (simp_all add: newest_def)

lemma unseen_append: "unseen c (xs @ ys) = unseen c xs @ unseen (newest c xs) ys"
  by (induction xs arbitrary: c) (auto simp: max_def)

lemma newest_unseen: "newest c (unseen c evs) = newest c evs"
  by (induction evs arbitrary: c) (auto simp: max_def)

lemma newest_append: "newest c (xs @ ys) = newest (newest c xs) ys"
  by (simp add: newest_def)

lemma newest_ge: "c \<le> newest c evs"
  by (induction evs arbitrary: c) (auto, meson max.bounded_iff order_refl order_trans)

lemma newest_bound: "c \<le> b \<Longrightarrow> (\<And>ev. ev \<in> set evs \<Longrightarrow> unat (se_sequence ev) \<le> b) \<Longrightarrow> newest c evs \<le> b"
  by (induction evs arbitrary: c) auto

lemma unseen_sorted:
  "sequenced_as e key k evs \<Longrightarrow> c \<le> k \<Longrightarrow> unseen c evs = evs"
proof (induction evs arbitrary: c k)
  case Nil
  then show ?case by simp
next
  case (Cons ev evs)
  from Cons.prems(1) have "unat (se_sequence ev) = k + 1"
    by (auto simp: sequenced_as_def dest!: spec [of _ 0])
  moreover have "sequenced_as e key (k + 1) evs"
    using sequenced_as_drop [OF Cons.prems(1), of 1] by simp
  ultimately show ?case using Cons.prems(2) Cons.IH [of "k + 1" "k + 1"] by simp
qed

lemma newest_sequenced:
  "sequenced_as e key k evs \<Longrightarrow> c \<le> k \<Longrightarrow> evs \<noteq> [] \<Longrightarrow> newest c evs = k + length evs"
proof (induction evs rule: rev_induct)
  case Nil
  then show ?case by simp
next
  case (snoc ev evs)
  then have "sequenced_as e key k evs" and "unat (se_sequence ev) = k + length evs + 1"
    by (auto simp: sequenced_as_snoc)
  with snoc show ?case by (cases "evs = []") (auto simp: newest_append)
qed

lemma filter_newer:
  "sequenced_as e key k evs \<Longrightarrow> filter (\<lambda>ev. c < se_sequence ev) evs = drop (unat c - k) evs"
proof (induction evs arbitrary: k)
  case Nil
  then show ?case by simp
next
  case (Cons ev evs)
  from Cons.prems have ev: "unat (se_sequence ev) = k + 1"
    by (auto simp: sequenced_as_def dest!: spec [of _ 0])
  have IH: "filter (\<lambda>ev. c < se_sequence ev) evs = drop (unat c - (k + 1)) evs"
    using Cons.IH [of "k + 1"] sequenced_as_drop [OF Cons.prems, of 1] by simp
  show ?case
  proof (cases "unat c \<le> k")
    case True
    with ev IH show ?thesis by (simp add: word_less_nat_alt)
  next
    case False
    then obtain d where "unat c - k = Suc d" "unat c - (k + 1) = d"
      by (metis Suc_diff_Suc Suc_eq_plus1 not_le)
    with False ev IH show ?thesis by (simp add: word_less_nat_alt)
  qed
qed

section \<open>The invariant\<close>

definition hub_key_ok :: "(runtime_key \<Rightarrow> bool) \<Rightarrow> hub_config \<Rightarrow> runtime_key \<Rightarrow> bool" where
  "hub_key_ok replayable c k \<longleftrightarrow>
     (let hub = hc_hub c; log = hc_log c k; n = length log in
      sequenced_as (h_epoch hub) k 0 log \<and> n < 2 ^ 64 - 1 \<and>
      (\<forall>ev. hc_in_flight c k = Some ev \<longrightarrow> log \<noteq> [] \<and> ev = last log) \<and>
      (if h_active_runtimes hub (fst k) = Some (snd k)
       then unat (unwrap_or (h_next_sequences hub k) 0) = n \<and>
         h_journal hub k = (if replayable k \<and> n > 0 then Some (drop (n - h_replay_limit hub) log) else None)
       else h_next_sequences hub k = None \<and> h_journal hub k = None))"

text \<open>
  What a subscriber that came with cursor \<open>c\<close> was sent of a log: after \<open>g\<close> (a gap announced
  when that is not \<open>c\<close>) everything up to \<open>e\<close>, once the events seen before are dropped.
\<close>

definition stream_upto ::
    "sequenced_event list \<Rightarrow> nat \<Rightarrow> nat \<Rightarrow> nat \<Rightarrow> sequenced_event list \<Rightarrow> bool" where
  "stream_upto log c g e evs \<longleftrightarrow>
     c \<le> g \<and> g \<le> e \<and> e \<le> length log \<and> (g = c \<or> g < e) \<and> unseen c evs = drop g (take e log)"

definition gap_announced :: "uuid \<Rightarrow> runtime_key \<Rightarrow> nat \<Rightarrow> server_message list \<Rightarrow> bool" where
  "gap_announced epoch k g ms \<longleftrightarrow>
     (\<exists>first. Msg_ReplayGap (fst k) (snd k) epoch first \<in> set ms \<and> unat first = g + 1)"

definition hub_stream_ok :: "hub_config \<Rightarrow> subscriber \<Rightarrow> nat \<Rightarrow> runtime_key \<Rightarrow> bool" where
  "hub_stream_ok c s cursor k \<longleftrightarrow>
     (\<exists>g e. stream_upto (hc_log c k) cursor g e (events_of k (sub_received s)) \<and>
        (if hc_in_flight c k = None then e = length (hc_log c k) else length (hc_log c k) \<le> e + 1) \<and>
        (g = cursor \<or> gap_announced (h_epoch (hc_hub c)) k g (sub_received s)))"

definition hub_sub_ok :: "(runtime_key \<Rightarrow> bool) \<Rightarrow> hub_config \<Rightarrow> u64 \<Rightarrow> subscriber \<Rightarrow> runtime_key \<Rightarrow> bool" where
  "hub_sub_ok replayable c i s k \<longleftrightarrow>
     (let cursor = unat (resume_sequence (h_epoch (hc_hub c)) (hc_resume c i) k) in
      cursor \<le> length (hc_log c k) \<and>
      set (events_of k (sub_received s)) \<subseteq> set (hc_log c k) \<and>
      (sub_open s \<and> replayable k \<and>
        (h_active_runtimes (hc_hub c) (fst k) = Some (snd k) \<or> hc_log c k = []) \<longrightarrow>
        hub_stream_ok c s cursor k))"

definition hub_inv :: "(runtime_key \<Rightarrow> bool) \<Rightarrow> hub_config \<Rightarrow> bool" where
  "hub_inv replayable c \<longleftrightarrow>
     h_replay_limit (hc_hub c) \<ge> 1 \<and>
     (\<forall>k. hub_key_ok replayable c k) \<and>
     (\<forall>i s. h_subscribers (hc_hub c) i = Some s \<longrightarrow>
        (\<forall>k. hub_sub_ok replayable c i s k))"

lemma hub_invD:
  assumes "hub_inv replayable c"
  shows "1 \<le> h_replay_limit (hc_hub c)" "hub_key_ok replayable c k"
    "h_subscribers (hc_hub c) i = Some s \<Longrightarrow> hub_sub_ok replayable c i s k"
  using assms unfolding hub_inv_def by blast+

text \<open>Steps that send no event and leave runtimes and journals alone.\<close>

definition hub_core where
  "hub_core hub = (h_epoch hub, h_replay_limit hub, h_active_runtimes hub, h_next_sequences hub,
     h_journal hub)"

definition sent_no_event :: "hub_state \<Rightarrow> hub_state \<Rightarrow> bool" where
  "sent_no_event hub hub' \<longleftrightarrow> hub_core hub' = hub_core hub \<and>
     (\<forall>i s'. h_subscribers hub' i = Some s' \<longrightarrow>
       (\<exists>s extra. h_subscribers hub i = Some s \<and> sub_received s' = sub_received s @ extra \<and>
          (\<forall>k. events_of k extra = []) \<and> (sub_open s' \<longrightarrow> sub_open s)))"

lemma sent_no_event_refl: "sent_no_event hub hub"
  unfolding sent_no_event_def by (auto intro: exI [of _ "[]"])

lemma sent_no_event_same:
  "hub_core hub' = hub_core hub \<Longrightarrow> h_subscribers hub' = h_subscribers hub \<Longrightarrow> sent_no_event hub hub'"
  unfolding sent_no_event_def by (auto intro: exI [of _ "[]"])

lemma sent_no_event_trans:
  assumes "sent_no_event hub hub'" "sent_no_event hub' hub''"
  shows "sent_no_event hub hub''"
proof -
  have "\<exists>s extra. h_subscribers hub i = Some s \<and> sub_received s'' = sub_received s @ extra \<and>
      (\<forall>k. events_of k extra = []) \<and> (sub_open s'' \<longrightarrow> sub_open s)"
    if "h_subscribers hub'' i = Some s''" for i s''
  proof -
    from that assms(2) obtain s' x where 1: "h_subscribers hub' i = Some s'"
      "sub_received s'' = sub_received s' @ x" "\<forall>k. events_of k x = []" "sub_open s'' \<longrightarrow> sub_open s'"
      unfolding sent_no_event_def by blast
    from 1(1) assms(1) obtain s y where "h_subscribers hub i = Some s"
      "sub_received s' = sub_received s @ y" "\<forall>k. events_of k y = []" "sub_open s' \<longrightarrow> sub_open s"
      unfolding sent_no_event_def by blast
    with 1 show ?thesis by (intro exI [of _ s] exI [of _ "y @ x"]) simp
  qed
  with assms show ?thesis unfolding sent_no_event_def by simp
qed

lemma sent_no_event_one:
  assumes "hub_core hub' = hub_core hub"
    and "\<And>i s'. h_subscribers hub' i = Some s' \<Longrightarrow> \<exists>s. h_subscribers hub i = Some s \<and>
      (s' = s \<or> (\<exists>m. send_to m s = Some s' \<and> (\<forall>k. event_of k m = None)) \<or>
       s' = s\<lparr>sub_open := False\<rparr>)"
  shows "sent_no_event hub hub'"
  unfolding sent_no_event_def
proof (intro conjI allI impI)
  fix i s' assume "h_subscribers hub' i = Some s'"
  from assms(2) [OF this] obtain s where s: "h_subscribers hub i = Some s"
    "s' = s \<or> (\<exists>m. send_to m s = Some s' \<and> (\<forall>k. event_of k m = None)) \<or> s' = s\<lparr>sub_open := False\<rparr>"
    by blast
  from s(2) have "\<exists>extra. sub_received s' = sub_received s @ extra \<and> (\<forall>k. events_of k extra = []) \<and>
      (sub_open s' \<longrightarrow> sub_open s)"
  proof (elim disjE exE conjE)
    fix m assume "send_to m s = Some s'" "\<forall>k. event_of k m = None"
    then show ?thesis by (intro exI [of _ "[m]"]) (auto simp: send_to_def split: if_splits)
  qed (auto intro: exI [of _ "[]"])
  with s(1) show "\<exists>s extra. h_subscribers hub i = Some s \<and> sub_received s' = sub_received s @ extra \<and>
      (\<forall>k. events_of k extra = []) \<and> (sub_open s' \<longrightarrow> sub_open s)" by blast
qed (rule assms(1))

lemma sent_no_event_changed: "sent_no_event hub (broadcast_task_state_changed source hub)"
  by (rule sent_no_event_one)
    (auto simp: broadcast_task_state_changed_def hub_core_def Let_def split: if_splits bind_splits)

lemma sent_no_event_saved: "sent_no_event hub (task_state_saved i projects sessions hub)"
proof -
  obtain ps b where 1: "foldl catalog_insert (h_catalog_projects hub, False)
      (map (\<lambda>p. (p_id p, project_catalog_entry_from p)) projects) = (ps, b)" by fastforce
  obtain ss b' where 2: "foldl catalog_insert (h_catalog_sessions hub, b)
      (map (\<lambda>s. (s_id s, session_catalog_entry_from s)) sessions) = (ss, b')" by fastforce
  let ?hub = "hub\<lparr>h_catalog_projects := ps, h_catalog_sessions := ss\<rparr>"
  have "sent_no_event hub ?hub" by (rule sent_no_event_same) (simp_all add: hub_core_def)
  then have "sent_no_event hub (broadcast_task_state_changed (Some i) ?hub)"
    by (rule sent_no_event_trans) (rule sent_no_event_changed)
  with \<open>sent_no_event hub ?hub\<close> show ?thesis
    by (cases b') (simp_all add: task_state_saved_def 1 2)
qed

lemma sent_no_event_unsubscribe: "sent_no_event hub (hub_unsubscribe i hub)"
  by (rule sent_no_event_one) (auto simp: hub_unsubscribe_def hub_core_def split: if_splits)

lemma sent_no_event_replace: "sent_no_event hub (replace_task_catalog projects sessions hub)"
  by (rule sent_no_event_same) (simp_all add: replace_task_catalog_def hub_core_def)

lemma sent_no_event_disconnect:
  "h_subscribers hub i = Some s \<Longrightarrow>
   sent_no_event hub (hub\<lparr>h_subscribers := (h_subscribers hub)(i \<mapsto> s\<lparr>sub_open := False\<rparr>)\<rparr>)"
  by (rule sent_no_event_one) (auto simp: hub_core_def split: if_splits)

lemma sent_no_event_respond:
  "h_subscribers hub i = Some s \<Longrightarrow> send_to (Msg_Response q outcome) s = Some s' \<Longrightarrow>
   sent_no_event hub ((cache_response q outcome hub)\<lparr>h_subscribers := (h_subscribers hub)(i \<mapsto> s')\<rparr>)"
proof (rule sent_no_event_one)
  fix j t assume "h_subscribers hub i = Some s" "send_to (Msg_Response q outcome) s = Some s'"
    "h_subscribers ((cache_response q outcome hub)\<lparr>h_subscribers := (h_subscribers hub)(i \<mapsto> s')\<rparr>) j = Some t"
  then show "\<exists>s. h_subscribers hub j = Some s \<and> (t = s \<or>
      (\<exists>m. send_to m s = Some t \<and> (\<forall>k. event_of k m = None)) \<or> t = s\<lparr>sub_open := False\<rparr>)"
    by (cases "j = i") (auto intro!: exI [of _ "Msg_Response q outcome"])
qed (simp add: cache_response_def hub_core_def Let_def)

lemma hub_stream_ok_cong:
  "hc_log c' k = hc_log c k \<Longrightarrow> hc_in_flight c' k = hc_in_flight c k \<Longrightarrow>
   h_epoch (hc_hub c') = h_epoch (hc_hub c) \<Longrightarrow>
   hub_stream_ok c' s cursor k = hub_stream_ok c s cursor k"
  by (simp only: hub_stream_ok_def)

lemma hub_stream_ok_frame:
  assumes "hub_stream_ok c s cursor k"
    and "hc_log c' = hc_log c" "hc_in_flight c' = hc_in_flight c"
    and "h_epoch (hc_hub c') = h_epoch (hc_hub c)"
    and "sub_received s' = sub_received s @ extra" "events_of k extra = []"
  shows "hub_stream_ok c' s' cursor k"
  using assms unfolding hub_stream_ok_def gap_announced_def by (auto 4 4)

lemma hub_sub_ok_frame:
  assumes "hub_sub_ok replayable c i s k"
    and "hc_log c' = hc_log c" "hc_in_flight c' = hc_in_flight c" "hc_resume c' = hc_resume c"
    and "hub_core (hc_hub c') = hub_core (hc_hub c)"
    and "sub_received s' = sub_received s @ extra" "events_of k extra = []" "sub_open s' \<longrightarrow> sub_open s"
  shows "hub_sub_ok replayable c' i s' k"
proof -
  have "hub_stream_ok c s cur k \<Longrightarrow> hub_stream_ok c' s' cur k" for cur
    by (erule hub_stream_ok_frame) (use assms in \<open>simp_all add: hub_core_def\<close>)
  with assms show ?thesis by (auto simp: hub_sub_ok_def Let_def hub_core_def)
qed

lemma hub_inv_frame:
  assumes "hub_inv replayable c" "sent_no_event (hc_hub c) hub"
  shows "hub_inv replayable (c\<lparr>hc_hub := hub\<rparr>)"
  unfolding hub_inv_def
proof (intro conjI allI impI)
  let ?c = "c\<lparr>hc_hub := hub\<rparr>"
  from assms(2) have core: "hub_core hub = hub_core (hc_hub c)" by (simp add: sent_no_event_def)
  with assms(1) show "1 \<le> h_replay_limit (hc_hub ?c)" by (simp add: hub_inv_def hub_core_def)
  fix k
  from assms(1) have "hub_key_ok replayable c k" by (rule hub_invD)
  with core show "hub_key_ok replayable ?c k"
    by (simp only: hub_key_ok_def Let_def hub_core_def prod.inject) simp
next
  let ?c = "c\<lparr>hc_hub := hub\<rparr>"
  fix i s' k assume "h_subscribers (hc_hub ?c) i = Some s'"
  then have "h_subscribers hub i = Some s'" by simp
  with assms(2) obtain s extra where "h_subscribers (hc_hub c) i = Some s"
    "sub_received s' = sub_received s @ extra" "events_of k extra = []" "sub_open s' \<longrightarrow> sub_open s"
    unfolding sent_no_event_def by blast
  moreover from assms(1) this(1) have "hub_sub_ok replayable c i s k" by (rule hub_invD)
  ultimately show "hub_sub_ok replayable ?c i s' k"
    using assms(2) by (elim hub_sub_ok_frame) (simp_all add: sent_no_event_def)
qed

section \<open>Delivery\<close>

lemma sequenced_as_last:
  "sequenced_as e key k evs \<Longrightarrow> evs \<noteq> [] \<Longrightarrow>
   unat (se_sequence (last evs)) = k + length evs \<and> se_session_id (last evs) = fst key \<and>
   se_runtime_id (last evs) = snd key"
  by (cases evs rule: rev_cases) (auto simp: sequenced_as_snoc)

lemma sequenced_as_drop0: "sequenced_as e key 0 evs \<Longrightarrow> sequenced_as e key d (drop d evs)"
  using sequenced_as_drop [of e key 0 evs d] by simp

lemma sequenced_as_take: "sequenced_as e key k evs \<Longrightarrow> sequenced_as e key k (take n evs)"
  by (auto simp: sequenced_as_def)

text \<open>The newest event a client knows after a stream that ends at \<open>e\<close> is \<open>e\<close>.\<close>

lemma stream_newest:
  assumes "sequenced_as ep key 0 log" "stream_upto log c g e evs"
  shows "newest c evs = e"
proof -
  from assms(2) have s: "c \<le> g" "g \<le> e" "e \<le> length log" "g = c \<or> g < e"
    "unseen c evs = drop g (take e log)" by (simp_all add: stream_upto_def)
  have "sequenced_as ep key g (drop g (take e log))"
    by (rule sequenced_as_drop0, rule sequenced_as_take, rule assms(1))
  then have "newest c (drop g (take e log)) = e"
    using s newest_sequenced [of ep key g "drop g (take e log)" c] by (cases "g < e") auto
  then show ?thesis by (simp add: newest_unseen flip: s(5))
qed

text \<open>Telling a subscriber the last event: new after all before it, or already known.\<close>

lemma stream_deliver:
  assumes log: "sequenced_as ep key 0 log" "log \<noteq> []"
    and s: "stream_upto log c g e evs" "length log \<le> e + 1"
  shows "stream_upto log c g (length log) (evs @ [last log])"
proof -
  have n: "newest c evs = e" using log(1) s(1) by (rule stream_newest)
  have l: "unat (se_sequence (last log)) = length log" using sequenced_as_last [OF log] by simp
  from s(1) have b: "c \<le> g" "g \<le> e" "e \<le> length log" "g = c \<or> g < e"
    "unseen c evs = drop g (take e log)" by (simp_all add: stream_upto_def)
  show ?thesis
  proof (cases "e = length log")
    case True
    with b n l show ?thesis by (simp add: stream_upto_def unseen_append)
  next
    case False
    with b(3) s(2) have e: "length log = e + 1" by simp
    then have "log = take e log @ [last log]"
      using log(2) by (metis add_diff_cancel_right' append_butlast_last_id butlast_conv_take)
    then have "drop g log = drop g (take e log) @ [last log]"
      using b(2,3) by (metis drop_append length_take min.absorb2 diff_is_0_eq drop0)
    with b n l e show ?thesis by (auto simp: stream_upto_def unseen_append)
  qed
qed

lemma event_of_last:
  assumes "sequenced_as ep key 0 log" "log \<noteq> []"
  shows "event_of k (Msg_Event (last log)) = (if k = key then Some (last log) else None)"
  using sequenced_as_last [OF assms] by (cases k; cases key) auto

lemma hub_inv_deliver:
  assumes inv: "hub_inv replayable c" and fl: "hc_in_flight c k = Some ev"
  shows "hub_inv replayable (c\<lparr>hc_hub := broadcast (Msg_Event ev) (hc_hub c),
    hc_in_flight := (hc_in_flight c)(k := None)\<rparr>)" (is "hub_inv replayable ?c")
  unfolding hub_inv_def
proof (intro conjI allI impI)
  show "1 \<le> h_replay_limit (hc_hub ?c)" using hub_invD(1) [OF inv] by (simp add: broadcast_def)
next
  fix key
  show "hub_key_ok replayable ?c key"
    using hub_invD(2) [OF inv, of key] by (auto simp: hub_key_ok_def Let_def broadcast_def)
next
  fix i s' key
  assume "h_subscribers (hc_hub ?c) i = Some s'"
  then obtain s where s: "h_subscribers (hc_hub c) i = Some s" and st: "send_to (Msg_Event ev) s = Some s'"
    by (auto simp: broadcast_def split: bind_splits)
  from st have r: "sub_received s' = sub_received s @ [Msg_Event ev]" "sub_open s"
    by (auto simp: send_to_def split: if_splits)
  have ok: "hub_sub_ok replayable c i s key" using inv s by (rule hub_invD)
  from hub_invD(2) [OF inv, of k] fl have k: "sequenced_as (h_epoch (hc_hub c)) k 0 (hc_log c k)"
    "hc_log c k \<noteq> []" "ev = last (hc_log c k)" by (auto simp: hub_key_ok_def Let_def)
  show "hub_sub_ok replayable ?c i s' key"
  proof (cases "key = k")
    case False
    with event_of_last [OF k(1,2), of key] k(3)
    have e: "events_of key (sub_received s') = events_of key (sub_received s)" using r by auto
    have "hub_stream_ok ?c s' cursor key" if "hub_stream_ok c s cursor key" for cursor
    proof -
      from that obtain g n where "stream_upto (hc_log c key) cursor g n (events_of key (sub_received s'))"
        "if hc_in_flight c key = None then n = length (hc_log c key) else length (hc_log c key) \<le> n + 1"
        "g = cursor \<or> gap_announced (h_epoch (hc_hub c)) key g (sub_received s)"
        unfolding hub_stream_ok_def e by blast
      with False r(1) show ?thesis unfolding hub_stream_ok_def
        by (intro exI [of _ g] exI [of _ n]) (auto simp: gap_announced_def broadcast_def)
    qed
    with ok r(2) e show ?thesis
      by (auto simp: hub_sub_ok_def Let_def broadcast_def simp del: events_of_simps)
  next
    case True
    with event_of_last [OF k(1,2), of key] k(3)
    have e: "events_of key (sub_received s') = events_of key (sub_received s) @ [ev]" using r by auto
    have "hub_stream_ok ?c s' cursor key" if "hub_stream_ok c s cursor key" for cursor
    proof -
      from that True fl obtain g e where g: "stream_upto (hc_log c k) cursor g e (events_of k (sub_received s))"
        "length (hc_log c k) \<le> e + 1"
        "g = cursor \<or> gap_announced (h_epoch (hc_hub c)) k g (sub_received s)"
        by (auto simp: hub_stream_ok_def)
      from stream_deliver [OF k(1,2) g(1,2)] g(3) True e r k(3) show ?thesis
        unfolding hub_stream_ok_def
        by (intro exI [of _ g] exI [of _ "length (hc_log c k)"])
          (auto simp: gap_announced_def broadcast_def simp del: events_of_simps)
    qed
    with ok True e r(2) k show ?thesis
      by (auto simp: hub_sub_ok_def Let_def broadcast_def simp del: events_of_simps)
  qed
qed

section \<open>Numbering\<close>

lemma journal_push:
  assumes "1 \<le> L"
  shows "drop (length (drop (length log - L) log @ [x]) - L) (drop (length log - L) log @ [x]) =
    drop (length log + 1 - L) (log @ [x])"
proof (cases "length log < L")
  case True
  then show ?thesis by simp
next
  case False
  with assms have "length log + 1 - L = Suc (length log - L)" "length log - L < length log" by auto
  with False show ?thesis by (simp add: drop_Suc flip: drop_drop) (simp add: drop_Suc tl_drop)
qed

lemma emit_sequence_Some:
  assumes "emit_sequence s r event rep hub = Some (hub', ev)"
  shows "h_active_runtimes hub s = Some r" "h_active_runtimes hub' = h_active_runtimes hub"
    "h_epoch hub' = h_epoch hub" "h_replay_limit hub' = h_replay_limit hub"
    "h_subscribers hub' = h_subscribers hub"
    "se_session_id ev = s" "se_runtime_id ev = r" "se_epoch ev = h_epoch hub"
    "se_sequence ev = saturating_add_u64 (unwrap_or (h_next_sequences hub (s, r)) 0) 1"
    "h_next_sequences hub' = (h_next_sequences hub)((s, r) \<mapsto> se_sequence ev)"
    "h_journal hub' = (if rep then (h_journal hub)((s, r) \<mapsto>
       drop (length (unwrap_or (h_journal hub (s, r)) [] @ [ev]) - h_replay_limit hub)
         (unwrap_or (h_journal hub (s, r)) [] @ [ev])) else h_journal hub)"
  using assms by (auto simp: emit_sequence_def Let_def split: if_splits)

lemma stream_grow: "stream_upto log c g e evs \<Longrightarrow> stream_upto (log @ [ev]) c g e evs"
  by (auto simp: stream_upto_def)

lemma hub_inv_sequence:
  assumes inv: "hub_inv replayable c" and fl: "hc_in_flight c (s, r) = None"
    and bound: "length (hc_log c (s, r)) < 2 ^ 64 - 2"
    and emit: "emit_sequence s r event (replayable (s, r)) (hc_hub c) = Some (hub, ev)"
  shows "hub_inv replayable (c\<lparr>hc_hub := hub, hc_in_flight := (hc_in_flight c)((s, r) \<mapsto> ev),
    hc_log := (hc_log c)((s, r) := hc_log c (s, r) @ [ev])\<rparr>)" (is "hub_inv replayable ?c")
  unfolding hub_inv_def
proof (intro conjI allI impI)
  note e = emit_sequence_Some [OF emit]
  let ?log = "hc_log c (s, r)"
  show L: "1 \<le> h_replay_limit (hc_hub ?c)" using hub_invD(1) [OF inv] e(4) by simp
  from hub_invD(2) [OF inv, of "(s, r)"] e(1) have k: "sequenced_as (h_epoch (hc_hub c)) (s, r) 0 ?log"
    "unat (unwrap_or (h_next_sequences (hc_hub c) (s, r)) 0) = length ?log"
    "h_journal (hc_hub c) (s, r) = (if replayable (s, r) \<and> length ?log > 0
       then Some (drop (length ?log - h_replay_limit (hc_hub c)) ?log) else None)"
    unfolding hub_key_ok_def Let_def by (simp_all only: fst_conv snd_conv if_True simp_thms)
  have sq: "unat (se_sequence ev) = length ?log + 1"
    using k(2) bound by (simp add: e(9) unat_saturating_add_u64)
  have j: "unwrap_or (h_journal (hc_hub c) (s, r)) [] = drop (length ?log - h_replay_limit (hc_hub c)) ?log"
    if "replayable (s, r)" using that k(3) by (cases "?log = []") auto
  have j': "h_journal hub (s, r) = Some (drop (length (?log @ [ev]) - h_replay_limit (hc_hub c)) (?log @ [ev]))"
    if "replayable (s, r)"
    using that j [OF that] journal_push [of "h_replay_limit (hc_hub c)" ?log ev] L e(4,11) by simp
  fix key
  show "hub_key_ok replayable ?c key"
  proof (cases "key = (s, r)")
    case True
    have "sequenced_as (h_epoch hub) (s, r) 0 (?log @ [ev])" using k(1) sq e by (simp add: sequenced_as_snoc)
    moreover have "\<not> replayable (s, r) \<Longrightarrow> h_journal hub (s, r) = None" using k(3) e(11) by simp
    ultimately show ?thesis
      using True e(1,2,4,10) sq j' bound unfolding hub_key_ok_def Let_def by simp
  next
    case False
    with hub_invD(2) [OF inv, of key] e(2-4,10,11) show ?thesis
      unfolding hub_key_ok_def Let_def by (simp add: fun_upd_def)
  qed
next
  note e = emit_sequence_Some [OF emit]
  fix i t key assume "h_subscribers (hc_hub ?c) i = Some t"
  then have "h_subscribers (hc_hub c) i = Some t" using e(5) by simp
  with inv have ok: "hub_sub_ok replayable c i t key" by (rule hub_invD)
  show "hub_sub_ok replayable ?c i t key"
  proof (cases "key = (s, r)")
    case True
    have "hub_stream_ok ?c t cursor key" if "hub_stream_ok c t cursor key" for cursor
    proof -
      from that True fl obtain g n where "stream_upto (hc_log c (s, r)) cursor g n (events_of key (sub_received t))"
        "n = length (hc_log c (s, r))"
        "g = cursor \<or> gap_announced (h_epoch (hc_hub c)) key g (sub_received t)"
        unfolding hub_stream_ok_def by auto
      with True e(3) show ?thesis unfolding hub_stream_ok_def
        by (intro exI [of _ g] exI [of _ n]) (simp add: stream_grow)
    qed
    with ok True e(1-3) show ?thesis by (auto simp: hub_sub_ok_def Let_def)
  next
    case False
    have "hub_stream_ok ?c t cursor key" if "hub_stream_ok c t cursor key" for cursor
      by (subst hub_stream_ok_cong [of _ _ c]) (use that False e(3) in simp_all)
    with ok False e(1-3) show ?thesis by (auto simp: hub_sub_ok_def Let_def)
  qed
qed

section \<open>Subscribing\<close>

lemma events_of_replay:
  assumes "sequenced_as ep key k evs"
  shows "events_of key' (replay_messages ep cursors key evs) =
    (if key' = key then filter (\<lambda>ev. resume_sequence ep cursors key < se_sequence ev) evs else [])"
proof -
  have "\<forall>ev\<in>set evs. (se_session_id ev, se_runtime_id ev) = key"
    using assms by (auto simp: sequenced_as_def in_set_conv_nth)
  then have "events_of key' (map Msg_Event (filter (\<lambda>ev. c < se_sequence ev) evs)) =
      (if key' = key then filter (\<lambda>ev. c < se_sequence ev) evs else [])" for c
    by (induction evs) auto
  then show ?thesis by (auto simp: replay_messages_def Let_def split: option.splits)
qed

lemma concat_single:
  "distinct ks \<Longrightarrow> (\<And>k'. k' \<in> set ks \<Longrightarrow> k' \<noteq> k \<Longrightarrow> f k' = []) \<Longrightarrow>
   concat (map f ks) = (if k \<in> set ks then f k else [])"
proof (induction ks)
  case Nil
  then show ?case by simp
next
  case (Cons a ks)
  then have "concat (map f ks) = (if k \<in> set ks then f k else [])" by simp
  with Cons.prems show ?case by (cases "a = k") auto
qed

lemma replay_stream:
  assumes log: "sequenced_as ep key 0 log" "length log < 2 ^ 64 - 1" "log \<noteq> []"
    and L: "1 \<le> L" and c: "unat (resume_sequence ep cursors key) \<le> length log"
  defines "ms \<equiv> replay_messages ep cursors key (drop (length log - L) log)"
    and "g \<equiv> max (unat (resume_sequence ep cursors key)) (length log - L)"
  shows "stream_upto log (unat (resume_sequence ep cursors key)) g (length log) (events_of key ms)"
    and "g = unat (resume_sequence ep cursors key) \<or> gap_announced ep key g ms"
proof -
  let ?c = "resume_sequence ep cursors key" and ?d = "length log - L"
  have J: "sequenced_as ep key ?d (drop ?d log)" by (rule sequenced_as_drop0) (rule log(1))
  have "events_of key ms = drop (unat ?c - ?d) (drop ?d log)"
    using events_of_replay [OF J, of key cursors] filter_newer [OF J, of ?c] by (simp add: ms_def)
  also have "\<dots> = drop g log" by (simp add: g_def max_def)
  finally have ev: "events_of key ms = drop g log" .
  have "sequenced_as ep key g (drop g log)" by (rule sequenced_as_drop0) (rule log(1))
  then have "unseen (unat ?c) (drop g log) = drop g log"
    by (rule unseen_sorted) (simp add: g_def)
  with c L log(3) ev show "stream_upto log (unat ?c) g (length log) (events_of key ms)"
    by (auto simp: stream_upto_def g_def)
  show "g = unat ?c \<or> gap_announced ep key g ms"
  proof (cases "unat ?c < ?d")
    case False
    then show ?thesis by (simp add: g_def)
  next
    case True
    with L log(3) obtain f fs where f: "drop ?d log = f # fs"
      by (cases "drop ?d log") auto
    from J have "unat (se_sequence f) = ?d + 1"
      unfolding f by (auto simp: sequenced_as_def dest!: spec [of _ 0])
    moreover have "unat (?c + 1) = unat ?c + 1"
      using c log(2) by (simp add: unat_word_ariths)
    ultimately show ?thesis
      using True f by (auto simp: gap_announced_def ms_def replay_messages_def Let_def first_opt_def
        g_def max_def word_less_nat_alt)
  qed
qed

lemma gap_announced_mono: "gap_announced ep k g ms \<Longrightarrow> set ms \<subseteq> set ms' \<Longrightarrow> gap_announced ep k g ms'"
  by (auto simp: gap_announced_def)

lemma hub_inv_subscribe:
  assumes inv: "hub_inv replayable c"
    and order: "distinct order" "set order = dom (h_journal (hc_hub c))"
    and cur: "\<And>k. unat (resume_sequence (h_epoch (hc_hub c)) cursors k) \<le> length (hc_log c k)"
    and sub: "hub_subscribe order cursors (hc_hub c) = (hub, i)"
  shows "hub_inv replayable (c\<lparr>hc_hub := hub, hc_resume := (hc_resume c)(i := cursors)\<rparr>)"
    (is "hub_inv replayable ?c")
  unfolding hub_inv_def
proof (intro conjI allI impI)
  let ?ep = "h_epoch (hc_hub c)"
  let ?ms = "concat (map (\<lambda>k. replay_messages ?ep cursors k (unwrap_or (h_journal (hc_hub c) k) [])) order)"
  from sub have core: "hub_core hub = hub_core (hc_hub c)"
    and subs: "h_subscribers hub = (h_subscribers (hc_hub c))(i \<mapsto> \<lparr>sub_received = ?ms, sub_open = True\<rparr>)"
    by (auto simp: hub_subscribe_def hub_core_def Let_def)
  show "1 \<le> h_replay_limit (hc_hub ?c)" using hub_invD(1) [OF inv] core by (simp add: hub_core_def)
  fix k
  show "hub_key_ok replayable ?c k"
    using hub_invD(2) [OF inv, of k] core by (simp only: hub_key_ok_def Let_def hub_core_def prod.inject) simp
next
  let ?ep = "h_epoch (hc_hub c)"
  let ?msg = "\<lambda>k. replay_messages ?ep cursors k (unwrap_or (h_journal (hc_hub c) k) [])"
  let ?ms = "concat (map ?msg order)"
  from sub have core: "hub_core hub = hub_core (hc_hub c)"
    and subs: "h_subscribers hub = (h_subscribers (hc_hub c))(i \<mapsto> \<lparr>sub_received = ?ms, sub_open = True\<rparr>)"
    by (auto simp: hub_subscribe_def hub_core_def Let_def)
  fix j t key assume t: "h_subscribers (hc_hub ?c) j = Some t"
  show "hub_sub_ok replayable ?c j t key"
  proof (cases "j = i")
    case False
    with t subs have "h_subscribers (hc_hub c) j = Some t" by simp
    with inv have "hub_sub_ok replayable c j t key" by (rule hub_invD)
    moreover have "hub_stream_ok ?c t cursor key = hub_stream_ok c t cursor key" for cursor
      by (rule hub_stream_ok_cong) (use core in \<open>simp_all add: hub_core_def\<close>)
    ultimately show ?thesis using False core by (simp add: hub_sub_ok_def Let_def hub_core_def)
  next
    case True
    with t subs have t: "t = \<lparr>sub_received = ?ms, sub_open = True\<rparr>" by simp
    let ?log = "hc_log c key" and ?L = "h_replay_limit (hc_hub c)"
    note k = hub_invD(2) [OF inv, unfolded hub_key_ok_def Let_def]
    have J: "h_journal (hc_hub c) k' = Some (drop (length (hc_log c k') - ?L) (hc_log c k')) \<and>
        sequenced_as ?ep k' (length (hc_log c k') - ?L) (drop (length (hc_log c k') - ?L) (hc_log c k')) \<and>
        hc_log c k' \<noteq> []"
      if "k' \<in> set order" for k'
      using that k [of k'] order(2) by (auto split: if_splits intro: sequenced_as_drop0)
    have "events_of key (?msg k') = []" if "k' \<in> set order" "k' \<noteq> key" for k'
      using J [OF that(1)] events_of_replay [of ?ep k' _ _ key cursors] that(2) by auto
    then have ev: "events_of key ?ms = (if key \<in> set order then events_of key (?msg key) else [])"
      using concat_single [OF order(1), of key "\<lambda>k. events_of key (?msg k)"]
      by (simp add: events_of_concat comp_def)
    have sub_ms: "set (?msg key) \<subseteq> set ?ms" if "key \<in> set order" using that by auto
    let ?cur = "unat (resume_sequence ?ep cursors key)"
    have str: "hub_stream_ok ?c t ?cur key"
      if "replayable key" "h_active_runtimes (hc_hub c) (fst key) = Some (snd key) \<or> ?log = []"
    proof (cases "?log = []")
      case True
      with J [of key] have "key \<notin> set order" by blast
      with True cur [of key] ev t show ?thesis by (auto simp: hub_stream_ok_def stream_upto_def)
    next
      case False
      with that k [of key] have j: "h_journal (hc_hub c) key = Some (drop (length ?log - ?L) ?log)"
        and log: "sequenced_as ?ep key 0 ?log" "length ?log < 2 ^ 64 - 1" by auto
      from j order(2) have o: "key \<in> set order" by auto
      note r = replay_stream [OF log False hub_invD(1) [OF inv] cur [of key]]
      let ?g = "max ?cur (length ?log - ?L)"
      have "stream_upto ?log ?cur ?g (length ?log) (events_of key ?ms)"
        using r(1) ev o j by simp
      moreover have "?g = ?cur \<or> gap_announced ?ep key ?g ?ms"
      proof -
        from j have "?msg key = replay_messages ?ep cursors key (drop (length ?log - ?L) ?log)" by simp
        with r(2) have "?g = ?cur \<or> gap_announced ?ep key ?g (?msg key)" by (simp only:)
        with gap_announced_mono [OF _ sub_ms [OF o], of ?ep key ?g] show ?thesis by blast
      qed
      ultimately show ?thesis
        using t core unfolding hub_stream_ok_def
        by (intro exI [of _ ?g] exI [of _ "length ?log"]) (simp add: hub_core_def)
    qed
    have "set (events_of key ?ms) \<subseteq> set ?log"
    proof (cases "key \<in> set order")
      case True
      from J [OF True] events_of_replay [of ?ep key _ _ key cursors]
      have "set (events_of key (?msg key)) \<subseteq> set (drop (length ?log - ?L) ?log)" by auto
      with ev True set_drop_subset [of "length ?log - ?L" ?log] show ?thesis by auto
    next
      case False
      with ev show ?thesis by simp
    qed
    with str cur [of key] True t core show ?thesis
      by (auto simp: hub_sub_ok_def Let_def hub_core_def)
  qed
qed

section \<open>Beginning and ending a runtime\<close>

text \<open>
  Both replace the session's active runtime and forget the session's sequences and journals;
  an active runtime of the new state either was one or has no event yet.
\<close>

lemma hub_inv_runtimes:
  assumes inv: "hub_inv replayable c"
    and hub: "hub = (hc_hub c)\<lparr>h_active_runtimes := (h_active_runtimes (hc_hub c))(s := a),
      h_next_sequences := forget_session s (h_next_sequences (hc_hub c)),
      h_journal := forget_session s (h_journal (hc_hub c))\<rparr>"
    and a: "\<And>r. a = Some r \<Longrightarrow> hc_log c (s, r) = []"
  shows "hub_inv replayable (c\<lparr>hc_hub := hub\<rparr>)" (is "hub_inv replayable ?c")
  unfolding hub_inv_def
proof (intro conjI allI impI)
  show "1 \<le> h_replay_limit (hc_hub ?c)" using hub_invD(1) [OF inv] hub by simp
  fix k
  show "hub_key_ok replayable ?c k"
  proof (cases "fst k = s")
    case True
    then show ?thesis using hub_invD(2) [OF inv, of k] a hub
      by (cases k) (auto simp: hub_key_ok_def Let_def forget_session_def)
  next
    case False
    then show ?thesis using hub_invD(2) [OF inv, of k] hub
      unfolding hub_key_ok_def Let_def by (simp add: forget_session_def)
  qed
next
  fix i t key assume "h_subscribers (hc_hub ?c) i = Some t"
  then have "h_subscribers (hc_hub c) i = Some t" using hub by simp
  with inv have ok: "hub_sub_ok replayable c i t key" by (rule hub_invD)
  have "hub_stream_ok c t cursor key \<Longrightarrow> hub_stream_ok ?c t cursor key" for cursor
    by (subst hub_stream_ok_cong [of _ _ c]) (simp_all add: hub)
  with ok a hub show "hub_sub_ok replayable ?c i t key"
    by (cases key) (auto simp: hub_sub_ok_def Let_def split: if_splits)
qed

lemma hub_inv_begin:
  "hub_inv replayable c \<Longrightarrow> hc_log c (s, r) = [] \<Longrightarrow>
   hub_inv replayable (c\<lparr>hc_hub := begin_runtime s r (hc_hub c)\<rparr>)"
  by (rule hub_inv_runtimes [of _ _ _ s "Some r"]) (auto simp: begin_runtime_def)

lemma hub_inv_end:
  assumes "hub_inv replayable c"
  shows "hub_inv replayable (c\<lparr>hc_hub := end_runtime s r (hc_hub c)\<rparr>)"
proof (cases "case r of None \<Rightarrow> True | Some r \<Rightarrow> h_active_runtimes (hc_hub c) s = Some r")
  case True
  then show ?thesis
    by (intro hub_inv_runtimes [OF assms, of _ s None]) (auto simp: end_runtime_def)
next
  case False
  then have "end_runtime s r (hc_hub c) = hc_hub c" by (simp add: end_runtime_def)
  with assms show ?thesis by simp
qed

section \<open>Every reachable state\<close>

lemma hub_inv_start: "hub_inv replayable (hub_start epoch limit)"
  by (simp add: hub_inv_def hub_start_def hub_new_def hub_key_ok_def sequenced_as_def Let_def)

lemma hub_inv_step: "hub_step replayable c c' \<Longrightarrow> hub_inv replayable c \<Longrightarrow> hub_inv replayable c'"
proof (induction rule: hub_step.induct)
  case (Sequence c s r event hub ev)
  then show ?case by (intro hub_inv_sequence)
next
  case (Deliver c k ev hub changed)
  let ?c = "c\<lparr>hc_hub := hub, hc_in_flight := (hc_in_flight c)(k := None)\<rparr>"
  from Deliver have "hub_inv replayable ?c" by (simp add: hub_inv_deliver)
  moreover have "hub_inv replayable (?c\<lparr>hc_hub := broadcast_task_state_changed None (hc_hub ?c)\<rparr>)"
    by (rule hub_inv_frame) (rule calculation, rule sent_no_event_changed)
  moreover have "?c\<lparr>hc_hub := broadcast_task_state_changed None (hc_hub ?c)\<rparr> =
      c\<lparr>hc_hub := broadcast_task_state_changed None hub, hc_in_flight := (hc_in_flight c)(k := None)\<rparr>"
    by simp
  ultimately show ?case by (cases changed) (simp_all only: if_True if_False)
next
  case (Subscribe order c cursors hub i)
  then show ?case by (intro hub_inv_subscribe)
next
  case (Begin c s r)
  then show ?case by (intro hub_inv_begin)
next
  case (End c s r)
  then show ?case by (intro hub_inv_end)
qed (rule hub_inv_frame, assumption, simp add: sent_no_event_unsubscribe sent_no_event_disconnect
  sent_no_event_respond sent_no_event_changed sent_no_event_saved sent_no_event_replace
  task_state_changed_def)+

lemma hub_inv_reachable: "hub_reachable replayable epoch limit c \<Longrightarrow> hub_inv replayable c"
  unfolding hub_reachable_def
  by (induction rule: rtranclp_induct) (auto intro: hub_inv_start hub_inv_step)

lemma hub_const_reachable:
  "hub_reachable replayable epoch limit c \<Longrightarrow>
   h_epoch (hc_hub c) = epoch \<and> h_replay_limit (hc_hub c) = max limit 1"
  unfolding hub_reachable_def
proof (induction rule: rtranclp_induct)
  case base
  then show ?case by (simp add: hub_start_def hub_new_def)
next
  case (step c c')
  from step.hyps(2) have "h_epoch (hc_hub c') = h_epoch (hc_hub c) \<and>
      h_replay_limit (hc_hub c') = h_replay_limit (hc_hub c)"
  proof (induction rule: hub_step.induct)
    case (Sequence c s r event hub ev)
    then show ?case using emit_sequence_Some(3,4) by simp
  next
    case (Saved c i projects sessions)
    then show ?case using sent_no_event_saved [of "hc_hub c" i projects sessions]
      by (simp add: sent_no_event_def hub_core_def)
  qed (auto simp: broadcast_def broadcast_task_state_changed_def hub_subscribe_def hub_unsubscribe_def
    begin_runtime_def end_runtime_def task_state_changed_def replace_task_catalog_def
    cache_response_def Let_def)
  with step.IH show ?case by simp
qed

section \<open>Properties\<close>

lemma word_of_nat_seq: "unat (x :: u64) = n \<Longrightarrow> x = of_nat n"
  by auto

text \<open>
  C6: in every reachable state of the hub, the journal of an active provider runtime is the end
  of what was ever numbered for it, the newest events up to the replay limit, numbered without
  a hole up to the last sequence handed out; the journal of a runtime that is not active is gone.
\<close>

theorem journal_contiguous:
  assumes "hub_reachable replayable epoch limit c"
  shows "h_journal (hc_hub c) (s, r) =
      (if h_active_runtimes (hc_hub c) s = Some r \<and> replayable (s, r) \<and> hc_log c (s, r) \<noteq> []
       then Some (drop (length (hc_log c (s, r)) - max limit 1) (hc_log c (s, r))) else None) \<and>
    map se_sequence (hc_log c (s, r)) = map (\<lambda>i. of_nat (i + 1)) [0..<length (hc_log c (s, r))]"
proof -
  from hub_inv_reachable [OF assms] have k: "hub_key_ok replayable c (s, r)" by (rule hub_invD)
  moreover have "map se_sequence (hc_log c (s, r)) = map (\<lambda>i. of_nat (i + 1)) [0..<length (hc_log c (s, r))]"
  proof (rule nth_equalityI)
    fix i assume "i < length (map se_sequence (hc_log c (s, r)))"
    with k have "unat (se_sequence (hc_log c (s, r) ! i)) = i + 1" "i < length (hc_log c (s, r))"
      by (auto simp: hub_key_ok_def Let_def sequenced_as_def)
    from word_of_nat_seq [OF this(1)] this(2)
    show "map se_sequence (hc_log c (s, r)) ! i =
        map (\<lambda>i. of_nat (i + 1)) [0..<length (hc_log c (s, r))] ! i" by simp
  qed simp
  ultimately show ?thesis
    using hub_const_reachable [OF assms]
    by (cases "h_active_runtimes (hc_hub c) s = Some r") (simp_all add: hub_key_ok_def Let_def)
qed

text \<open>
  A subscriber of an active provider runtime that came with a cursor has been sent, once
  duplicates are dropped the way the client drops them, exactly the numbered events after its
  cursor, in order and each once, up to the newest event that is not in flight; events are
  missing only at the start, and then a replay gap that names the first of them sent was sent.
\<close>

theorem delivered_exactly_once:
  assumes "hub_reachable replayable epoch limit c"
    and "h_subscribers (hc_hub c) i = Some sub" "sub_open sub"
    and "h_active_runtimes (hc_hub c) s = Some r" "replayable (s, r)"
  defines "log \<equiv> hc_log c (s, r)"
    and "cursor \<equiv> unat (resume_sequence epoch (hc_resume c i) (s, r))"
  shows "\<exists>g e. cursor \<le> g \<and> g \<le> e \<and>
      (if hc_in_flight c (s, r) = None then e = length log else e \<in> {length log - 1, length log}) \<and>
      unseen cursor (events_of (s, r) (sub_received sub)) = drop g (take e log) \<and>
      (g = cursor \<or> Msg_ReplayGap s r epoch (of_nat (g + 1)) \<in> set (sub_received sub))"
proof -
  from hub_inv_reachable [OF assms(1)] assms(2) have "hub_sub_ok replayable c i sub (s, r)"
    by (rule hub_invD)
  with assms hub_const_reachable [OF assms(1)] have "hub_stream_ok c sub cursor (s, r)"
    by (simp add: hub_sub_ok_def Let_def)
  then obtain g e where ge: "stream_upto log cursor g e (events_of (s, r) (sub_received sub))"
    "if hc_in_flight c (s, r) = None then e = length log else length log \<le> e + 1"
    "g = cursor \<or> gap_announced (h_epoch (hc_hub c)) (s, r) g (sub_received sub)"
    unfolding hub_stream_ok_def log_def by blast
  have "g = cursor \<or> Msg_ReplayGap s r epoch (of_nat (g + 1)) \<in> set (sub_received sub)"
    using ge(3) hub_const_reachable [OF assms(1)] by (auto simp: gap_announced_def dest!: word_of_nat_seq)
  moreover have "if hc_in_flight c (s, r) = None then e = length log
      else e \<in> {length log - 1, length log}"
    using ge(1,2) by (auto simp: stream_upto_def)
  ultimately show ?thesis using ge(1) unfolding stream_upto_def by blast
qed

text \<open>A run: a runtime begins, a client subscribes, an event is numbered and delivered.\<close>

definition demo_wire_event :: wire_driver_event where
  "demo_wire_event = \<lparr>we_kind = lit ''textDelta'', we_payload = JNull\<rparr>"

definition demo_sequenced :: sequenced_event where
  "demo_sequenced = \<lparr>se_session_id = 1, se_runtime_id = 2, se_epoch = 7, se_sequence = 1,
     se_event = demo_wire_event\<rparr>"

definition demo_hub :: "subscriber option \<Rightarrow> sequenced_event list \<Rightarrow> hub_state" where
  "demo_hub sub evs =
     \<lparr>h_epoch = 7, h_replay_limit = 3, h_next_subscriber_id = (if sub = None then 0 else 1),
      h_task_state_revision = 0,
      h_subscribers = (case sub of None \<Rightarrow> Map.empty | Some s \<Rightarrow> [0 \<mapsto> s]), h_active_runtimes = [1 \<mapsto> 2],
      h_next_sequences = (if evs = [] then Map.empty else [(1, 2) \<mapsto> 1]),
      h_journal = (if evs = [] then Map.empty else [(1, 2) \<mapsto> evs]), h_responses = [],
      h_catalog_projects = Map.empty, h_catalog_sessions = Map.empty\<rparr>"

definition demo_hub_config :: "hub_state \<Rightarrow> sequenced_event option \<Rightarrow> sequenced_event list \<Rightarrow> hub_config" where
  "demo_hub_config hub flight evs = \<lparr>hc_hub = hub, hc_in_flight = Map.empty((1, 2) := flight),
     hc_log = (\<lambda>_. [])((1, 2) := evs), hc_resume = (\<lambda>_. [])\<rparr>"

definition demo_run :: hub_config where
  "demo_run = demo_hub_config
     (demo_hub (Some \<lparr>sub_received = [Msg_Event demo_sequenced], sub_open = True\<rparr>) [demo_sequenced])
     None [demo_sequenced]"

lemma demo_run_reachable: "hub_reachable (\<lambda>_. True) 7 3 demo_run"
proof -
  let ?step = "hub_step (\<lambda>_. True)"
  let ?sub = "\<lparr>sub_received = [], sub_open = True\<rparr>"
  let ?c1 = "demo_hub_config (demo_hub None []) None []"
  let ?c2 = "demo_hub_config (demo_hub (Some ?sub) []) None []"
  let ?c3 = "demo_hub_config (demo_hub (Some ?sub) [demo_sequenced]) (Some demo_sequenced) [demo_sequenced]"
  have "begin_runtime 1 2 (hub_new 7 3) = demo_hub None []"
    by (simp add: begin_runtime_def hub_new_def demo_hub_def forget_session_def)
  then have c1: "?c1 = (hub_start 7 3)\<lparr>hc_hub := begin_runtime 1 2 (hc_hub (hub_start 7 3))\<rparr>"
    by (simp add: hub_start_def demo_hub_config_def fun_eq_iff)
  have 1: "?step (hub_start 7 3) ?c1" unfolding c1 by (rule hub_step.Begin) (simp add: hub_start_def)
  have s: "hub_subscribe [] [] (demo_hub None []) = (demo_hub (Some ?sub) [], 0)"
    by (simp add: hub_subscribe_def demo_hub_def saturating_add_u64_def)
  have c2: "?c2 = ?c1\<lparr>hc_hub := demo_hub (Some ?sub) [], hc_resume := (hc_resume ?c1)(0 := [])\<rparr>"
    by (simp add: demo_hub_config_def fun_eq_iff)
  have 2: "?step ?c1 ?c2" unfolding c2
    by (rule hub_step.Subscribe [of "[]"])
      (use s in \<open>simp_all add: demo_hub_config_def demo_hub_def resume_sequence_def\<close>)
  have e: "emit_sequence 1 2 demo_wire_event True (demo_hub (Some ?sub) []) =
      Some (demo_hub (Some ?sub) [demo_sequenced], demo_sequenced)"
    by (simp add: emit_sequence_def demo_hub_def Let_def saturating_add_u64_def demo_sequenced_def)
  have c3: "?c3 = ?c2\<lparr>hc_hub := demo_hub (Some ?sub) [demo_sequenced],
      hc_in_flight := (hc_in_flight ?c2)((1, 2) \<mapsto> demo_sequenced),
      hc_log := (hc_log ?c2)((1, 2) := hc_log ?c2 (1, 2) @ [demo_sequenced])\<rparr>"
    by (simp add: demo_hub_config_def)
  have 3: "?step ?c2 ?c3" unfolding c3
    by (rule hub_step.Sequence) (use e in \<open>simp_all add: demo_hub_config_def\<close>)
  have b: "broadcast (Msg_Event demo_sequenced) (demo_hub (Some ?sub) [demo_sequenced]) =
      hc_hub demo_run"
    by (auto simp: broadcast_def demo_hub_def demo_run_def demo_hub_config_def send_to_def)
  have c4: "demo_run = ?c3\<lparr>hc_hub := if False then broadcast_task_state_changed None (hc_hub demo_run)
      else hc_hub demo_run, hc_in_flight := (hc_in_flight ?c3)((1, 2) := None)\<rparr>"
    by (simp add: demo_hub_config_def demo_run_def)
  have 4: "?step ?c3 demo_run"
    by (subst c4, rule hub_step.Deliver) (simp_all add: demo_hub_config_def flip: b)
  from 1 2 3 4 show ?thesis
    unfolding hub_reachable_def by (meson rtranclp.rtrancl_into_rtrancl rtranclp.rtrancl_refl)
qed

theorem journal_contiguous_witness:
  "h_journal (hc_hub demo_run) (1, 2) = Some [demo_sequenced]"
  using journal_contiguous [OF demo_run_reachable, of 1 2]
  by (simp add: demo_run_def demo_hub_config_def demo_hub_def)

theorem delivered_exactly_once_witness:
  "\<exists>g e. g \<le> e \<and> e = 1 \<and>
     unseen 0 (events_of (1, 2) [Msg_Event demo_sequenced]) = drop g (take e [demo_sequenced])"
proof -
  let ?sub = "\<lparr>sub_received = [Msg_Event demo_sequenced], sub_open = True\<rparr>"
  have "h_subscribers (hc_hub demo_run) 0 = Some ?sub" "sub_open ?sub"
    "h_active_runtimes (hc_hub demo_run) 1 = Some 2"
    "unat (resume_sequence 7 (hc_resume demo_run 0) (1, 2)) = 0"
    "hc_in_flight demo_run (1, 2) = None" "hc_log demo_run (1, 2) = [demo_sequenced]"
    by (simp_all add: demo_run_def demo_hub_config_def demo_hub_def resume_sequence_def)
  with delivered_exactly_once [OF demo_run_reachable this(1-3)] show ?thesis
    by (auto simp del: events_of_simps unseen.simps)
qed

end
