(* ===== verification/Client_Stream.thy ===== *)
theory Client_Stream
  imports Hub_Stream
begin

text \<open>
  The client's end of the connection (\<open>crates/shidou-client/src/client.rs\<close>): requests that wait
  for a response, the runtimes it is attached to, the events buffered for runtimes it is not
  attached to yet, the interactions nobody answered yet and the last sequence seen of every
  runtime. A channel is the list of what was sent into it.
\<close>

section \<open>State\<close>

definition MAX_BUFFERED_EVENTS_PER_RUNTIME :: nat where
  "MAX_BUFFERED_EVENTS_PER_RUNTIME = 4096"

record runtime_event_sink =
  sink_subscription_id :: uuid
  sink_events :: "sequenced_event list"

record last_sequence =
  ls_epoch :: uuid
  ls_sequence :: u64

text \<open>\<open>c_pending\<close> are the requests a thread waits on, \<open>c_results\<close> what was sent to them.\<close>

record client_inner =
  c_outgoing :: "client_message list"
  c_pending :: "uuid set"
  c_results :: "(uuid \<times> (rpc_error + response_payload)) list"
  c_sessions :: "runtime_key \<rightharpoonup> runtime_event_sink"
  c_pending_events :: "runtime_key \<rightharpoonup> sequenced_event list"
  c_pending_interactions :: "runtime_key \<rightharpoonup> sequenced_event"
  c_task_state_subscribers :: "(bool \<times> u64 list) list"
  c_last_sequences :: "runtime_key \<rightharpoonup> last_sequence"
  c_disconnected :: bool

definition cursor_entry :: "replay_cursor \<Rightarrow> runtime_key \<times> last_sequence" where
  "cursor_entry cursor = ((rp_session_id cursor, rp_runtime_id cursor),
     \<lparr>ls_epoch = rp_epoch cursor, ls_sequence = rp_sequence cursor\<rparr>)"

text \<open>A later cursor of the same runtime replaces an earlier one in the collected map.\<close>

definition connect_with_resume :: "replay_cursor list \<Rightarrow> client_inner" where
  "connect_with_resume resume_from =
     \<lparr>c_outgoing = [], c_pending = {}, c_results = [], c_sessions = Map.empty,
      c_pending_events = Map.empty, c_pending_interactions = Map.empty,
      c_task_state_subscribers = [],
      c_last_sequences = map_of (rev (map cursor_entry resume_from)), c_disconnected = False\<rparr>"

section \<open>Interactions that wait for an answer\<close>

definition interaction_request_id :: "sequenced_event \<Rightarrow> rstring option" where
  "interaction_request_id event =
     Option.bind (value_get (we_payload (se_event event)) ''requestId'') as_str"

definition clear_matching_interaction ::
    "runtime_key \<Rightarrow> rstring \<Rightarrow> (runtime_key \<rightharpoonup> sequenced_event) \<Rightarrow> (runtime_key \<rightharpoonup> sequenced_event)" where
  "clear_matching_interaction key request_id pending =
     (if Option.bind (pending key) interaction_request_id = Some request_id
      then pending(key := None) else pending)"

definition track_pending_interaction ::
    "runtime_key \<Rightarrow> sequenced_event \<Rightarrow> (runtime_key \<rightharpoonup> sequenced_event) \<Rightarrow> (runtime_key \<rightharpoonup> sequenced_event)" where
  "track_pending_interaction key event pending =
     (let kind = we_kind (se_event event) in
      if kind \<in> {lit ''permission'', lit ''userInputRequested''} then pending(key \<mapsto> event)
      else if kind = lit ''interactionResolved'' then
        (case interaction_request_id event of
           Some request_id \<Rightarrow> clear_matching_interaction key request_id pending
         | None \<Rightarrow> pending)
      else if kind \<in> {lit ''turnFinished'', lit ''processExited'', lit ''error''} then pending(key := None)
      else pending)"

section \<open>Receiving\<close>

text \<open>The sequence filter of \<open>run_client\<close>: the new map and whether to deliver the event.\<close>

definition filter_sequence ::
    "sequenced_event \<Rightarrow> (runtime_key \<rightharpoonup> last_sequence) \<Rightarrow> (runtime_key \<rightharpoonup> last_sequence) \<times> bool" where
  "filter_sequence event sequences =
     (let key = (se_session_id event, se_runtime_id event);
          previous = unwrap_or (sequences key) \<lparr>ls_epoch = se_epoch event, ls_sequence = 0\<rparr> in
      if ls_epoch previous = se_epoch event \<and> se_sequence event \<le> ls_sequence previous
      then (sequences(key \<mapsto> previous), False)
      else (sequences(key \<mapsto> \<lparr>ls_epoch = se_epoch event, ls_sequence = se_sequence event\<rparr>), True))"

definition deliver_event :: "sequenced_event \<Rightarrow> client_inner \<Rightarrow> client_inner" where
  "deliver_event event inner =
     (let key = (se_session_id event, se_runtime_id event);
          inner = inner\<lparr>c_pending_interactions :=
            track_pending_interaction key event (c_pending_interactions inner)\<rparr> in
      case c_sessions inner key of
        Some sink \<Rightarrow> inner\<lparr>c_sessions := (c_sessions inner)
          (key \<mapsto> sink\<lparr>sink_events := sink_events sink @ [event]\<rparr>)\<rparr>
      | None \<Rightarrow>
          let buffered = unwrap_or (c_pending_events inner key) [] @ [event] in
          inner\<lparr>c_pending_events := (c_pending_events inner)
            (key \<mapsto> drop (length buffered - MAX_BUFFERED_EVENTS_PER_RUNTIME) buffered)\<rparr>)"

definition receive_event :: "sequenced_event \<Rightarrow> client_inner \<Rightarrow> client_inner" where
  "receive_event event inner =
     (case filter_sequence event (c_last_sequences inner) of
        (sequences, should_deliver) \<Rightarrow>
          let inner = inner\<lparr>c_last_sequences := sequences\<rparr> in
          if should_deliver then deliver_event event inner else inner)"

fun outcome_result :: "response_outcome \<Rightarrow> rpc_error + response_payload" where
  "outcome_result (Outcome_Ok payload) = Inr payload"
| "outcome_result (Outcome_Error error) = Inl error"

text \<open>One message of the socket; the flag is whether the connection loop goes on.\<close>

fun receive_message :: "server_message \<Rightarrow> client_inner \<Rightarrow> client_inner \<times> bool" where
  "receive_message (Msg_Response request_id outcome) inner =
     (if request_id \<in> c_pending inner
      then inner\<lparr>c_pending := c_pending inner - {request_id},
        c_results := c_results inner @ [(request_id, outcome_result outcome)]\<rparr>
      else inner, True)"
| "receive_message (Msg_Event event) inner = (receive_event event inner, True)"
| "receive_message (Msg_TaskStateChanged revision) inner =
     (inner\<lparr>c_task_state_subscribers := map (\<lambda>(alive, sent). (alive, sent @ [revision]))
        (filter fst (c_task_state_subscribers inner))\<rparr>, True)"
| "receive_message Msg_ShuttingDown inner = (inner, False)"
| "receive_message (Msg_ReplayGap _ _ _ _) inner = (inner, True)"
| "receive_message (Msg_Hello _ _) inner = (inner, True)"
| "receive_message (Msg_Rejected _) inner = (inner, True)"

text \<open>
  What \<open>run_client\<close> does when its loop has ended: every waiting request fails, every attached
  runtime is told its process exited, at the last sequence seen so that the cursor stays.
\<close>

definition exited_event :: "client_inner \<Rightarrow> runtime_key \<Rightarrow> sequenced_event" where
  "exited_event inner key =
     (let (epoch, sequence) = (case c_last_sequences inner key of
            Some cursor \<Rightarrow> (ls_epoch cursor, ls_sequence cursor) | None \<Rightarrow> (0, 0)) in
      \<lparr>se_session_id = fst key, se_runtime_id = snd key, se_epoch = epoch, se_sequence = sequence,
       se_event = \<lparr>we_kind = lit ''processExited'', we_payload = JNull\<rparr>\<rparr>)"

text \<open>\<open>waiting\<close> is the iteration order of the map of waiting requests.\<close>

definition client_disconnect ::
    "uuid list \<Rightarrow> client_inner \<Rightarrow> client_inner \<times> (runtime_key \<rightharpoonup> sequenced_event list)" where
  "client_disconnect waiting inner =
     (inner\<lparr>c_disconnected := True, c_pending := {},
        c_results := c_results inner @ map (\<lambda>request_id. (request_id,
          Inl \<lparr>re_message = lit ''Shidou daemon disconnected'', re_kind = None\<rparr>)) waiting,
        c_sessions := Map.empty, c_task_state_subscribers := []\<rparr>,
      (\<lambda>key. map_option (\<lambda>sink. sink_events sink @ [exited_event inner key]) (c_sessions inner key)))"

section \<open>Attaching\<close>

definition subscribe_runtime ::
    "uuid \<Rightarrow> runtime_key \<Rightarrow> client_inner \<Rightarrow> client_inner \<times> sequenced_event option" where
  "subscribe_runtime subscription_id key inner =
     (inner\<lparr>c_sessions := (c_sessions inner)(key \<mapsto>
         \<lparr>sink_subscription_id = subscription_id,
          sink_events = unwrap_or (c_pending_events inner key) []\<rparr>),
        c_pending_events := (c_pending_events inner)(key := None)\<rparr>,
      c_pending_interactions inner key)"

definition unsubscribe_runtime :: "runtime_key \<Rightarrow> uuid \<Rightarrow> client_inner \<Rightarrow> client_inner" where
  "unsubscribe_runtime key subscription_id inner =
     (if map_option sink_subscription_id (c_sessions inner key) = Some subscription_id
      then inner\<lparr>c_sessions := (c_sessions inner)(key := None)\<rparr> else inner)"

definition subscribe_task_state :: "client_inner \<Rightarrow> client_inner" where
  "subscribe_task_state inner =
     inner\<lparr>c_task_state_subscribers := c_task_state_subscribers inner @ [(True, [])]\<rparr>"

section \<open>Sending\<close>

text \<open>Up to the wait for the response; \<open>None\<close> is a client that has disconnected.\<close>

definition client_request ::
    "uuid \<Rightarrow> runtime_key \<Rightarrow> command \<Rightarrow> client_inner \<Rightarrow> client_inner option" where
  "client_request request_id key cmd inner =
     (if c_disconnected inner then None
      else Some (inner\<lparr>c_pending := insert request_id (c_pending inner),
        c_outgoing := c_outgoing inner @ [Client_Request
          \<lparr>q_request_id = request_id, q_session_id = fst key, q_runtime_id = snd key,
           q_command = cmd\<rparr>]\<rparr>))"

definition client_request_timeout :: "uuid \<Rightarrow> client_inner \<Rightarrow> client_inner" where
  "client_request_timeout request_id inner = inner\<lparr>c_pending := c_pending inner - {request_id}\<rparr>"

definition client_notify :: "runtime_key \<Rightarrow> command \<Rightarrow> client_inner \<Rightarrow> client_inner option" where
  "client_notify key cmd inner =
     (if c_disconnected inner then None
      else
        let resolved_request_id = resolved_interaction cmd;
            clears_all_interactions = (cmd = Cmd_Cancel \<or> cmd = Cmd_CloseSession);
            pending = c_pending_interactions inner in
        Some (inner\<lparr>c_outgoing := c_outgoing inner @ [Client_Request
            \<lparr>q_request_id = 0, q_session_id = fst key, q_runtime_id = snd key, q_command = cmd\<rparr>],
          c_pending_interactions :=
            (if clears_all_interactions then pending(key := None)
             else case resolved_request_id of
                 Some request_id \<Rightarrow> clear_matching_interaction key request_id pending
               | None \<Rightarrow> pending)\<rparr>))"

text \<open>The cursors to resume from, in the iteration order \<open>keys\<close> of the map.\<close>

definition last_sequences :: "runtime_key list \<Rightarrow> client_inner \<Rightarrow> replay_cursor list" where
  "last_sequences keys inner = map (\<lambda>key. let cursor = the (c_last_sequences inner key) in
     \<lparr>rp_session_id = fst key, rp_runtime_id = snd key, rp_epoch = ls_epoch cursor,
      rp_sequence = ls_sequence cursor\<rparr>) keys"

section \<open>What an attached runtime receives\<close>

definition client_cursor :: "uuid \<Rightarrow> runtime_key \<Rightarrow> client_inner \<Rightarrow> nat" where
  "client_cursor epoch key inner = (case c_last_sequences inner key of
       Some l \<Rightarrow> if ls_epoch l = epoch then unat (ls_sequence l) else 0 | None \<Rightarrow> 0)"

definition client_run :: "server_message list \<Rightarrow> client_inner \<Rightarrow> client_inner" where
  "client_run ms inner = foldl (\<lambda>inner m. fst (receive_message m inner)) inner ms"

lemma client_run_simps [simp]:
  "client_run [] inner = inner"
  "client_run (m # ms) inner = client_run ms (fst (receive_message m inner))"
  "client_run (ms @ ms') inner = client_run ms' (client_run ms inner)"
  by (simp_all add: client_run_def)

text \<open>The newest \<open>n\<close> elements.\<close>

definition newest_of :: "nat \<Rightarrow> 'a list \<Rightarrow> 'a list" where
  "newest_of n xs = drop (length xs - n) xs"

lemma newest_of_append: "newest_of n (newest_of n xs @ ys) = newest_of n (xs @ ys)"
proof (cases "length xs \<le> n")
  case True
  then show ?thesis by (simp add: newest_of_def)
next
  case False
  then show ?thesis by (cases "length ys \<le> n") (simp_all add: newest_of_def add.commute)
qed

definition buffered :: "runtime_key \<Rightarrow> client_inner \<Rightarrow> sequenced_event list" where
  "buffered key inner = unwrap_or (c_pending_events inner key) []"

definition attached :: "runtime_key \<Rightarrow> client_inner \<Rightarrow> sequenced_event list option" where
  "attached key inner = map_option sink_events (c_sessions inner key)"

definition runtime_of :: "sequenced_event \<Rightarrow> runtime_key" where
  "runtime_of ev = (se_session_id ev, se_runtime_id ev)"

lemma receive_event_cases:
  "receive_event ev inner =
     (if se_epoch ev = ls_epoch (unwrap_or (c_last_sequences inner (runtime_of ev)) \<lparr>ls_epoch = se_epoch ev, ls_sequence = 0\<rparr>) \<and>
         se_sequence ev \<le> ls_sequence (unwrap_or (c_last_sequences inner (runtime_of ev)) \<lparr>ls_epoch = se_epoch ev, ls_sequence = 0\<rparr>)
      then inner\<lparr>c_last_sequences := (c_last_sequences inner)(runtime_of ev \<mapsto>
        unwrap_or (c_last_sequences inner (runtime_of ev)) \<lparr>ls_epoch = se_epoch ev, ls_sequence = 0\<rparr>)\<rparr>
      else deliver_event ev (inner\<lparr>c_last_sequences := (c_last_sequences inner)
        (runtime_of ev \<mapsto> \<lparr>ls_epoch = se_epoch ev, ls_sequence = se_sequence ev\<rparr>)\<rparr>))"
  by (simp add: receive_event_def filter_sequence_def runtime_of_def Let_def eq_commute [of "se_epoch ev"])

lemma delivered_iff:
  assumes "0 < se_sequence ev" "runtime_of ev = key" "se_epoch ev = epoch"
  shows "\<not> (se_epoch ev = ls_epoch (unwrap_or (c_last_sequences inner key) \<lparr>ls_epoch = se_epoch ev, ls_sequence = 0\<rparr>) \<and>
         se_sequence ev \<le> ls_sequence (unwrap_or (c_last_sequences inner key) \<lparr>ls_epoch = se_epoch ev, ls_sequence = 0\<rparr>))
    \<longleftrightarrow> client_cursor epoch key inner < unat (se_sequence ev)"
proof (cases "c_last_sequences inner key")
  case None
  with assms(1,3) show ?thesis by (simp add: client_cursor_def word_less_nat_alt word_le_nat_alt)
next
  case (Some l)
  with assms(1,3) show ?thesis
    by (auto simp: client_cursor_def word_less_nat_alt word_le_nat_alt)
qed

lemma deliver_event_fields:
  "c_last_sequences (deliver_event ev inner) = c_last_sequences inner"
  "attached key (deliver_event ev inner) = (if key = runtime_of ev
     then map_option (\<lambda>evs. evs @ [ev]) (attached key inner) else attached key inner)"
  "buffered key (deliver_event ev inner) = (if key = runtime_of ev \<and> attached key inner = None
     then newest_of MAX_BUFFERED_EVENTS_PER_RUNTIME (buffered key inner @ [ev]) else buffered key inner)"
  by (cases "c_sessions inner (runtime_of ev)";
    auto simp: deliver_event_def Let_def attached_def buffered_def runtime_of_def newest_of_def
      split: option.splits)+

text \<open>One event of the runtime: delivered when it is newer than the cursor.\<close>

lemma receive_event_new:
  assumes "client_cursor (se_epoch ev) (runtime_of ev) inner < unat (se_sequence ev)"
  shows "receive_event ev inner = deliver_event ev (inner\<lparr>c_last_sequences := (c_last_sequences inner)
    (runtime_of ev \<mapsto> \<lparr>ls_epoch = se_epoch ev, ls_sequence = se_sequence ev\<rparr>)\<rparr>)"
proof -
  from assms have "0 < se_sequence ev" by (metis gr_implies_not0 unat_0 word_gt_0)
  from delivered_iff [OF this refl refl, of inner] assms show ?thesis
    by (simp only: receive_event_cases if_False simp_thms)
qed

lemma receive_event_old:
  assumes "\<not> client_cursor (se_epoch ev) (runtime_of ev) inner < unat (se_sequence ev)" "0 < se_sequence ev"
  shows "receive_event ev inner = inner\<lparr>c_last_sequences := (c_last_sequences inner)
    (runtime_of ev \<mapsto> unwrap_or (c_last_sequences inner (runtime_of ev)) \<lparr>ls_epoch = se_epoch ev, ls_sequence = 0\<rparr>)\<rparr>"
  using delivered_iff [OF assms(2) refl refl, of inner] assms(1)
  by (simp only: receive_event_cases if_True simp_thms)

lemma last_sequences_frame:
  "attached key (inner\<lparr>c_last_sequences := m\<rparr>) = attached key inner"
  "buffered key (inner\<lparr>c_last_sequences := m\<rparr>) = buffered key inner"
  by (simp_all add: attached_def buffered_def)

lemma client_cursor_deliver: "client_cursor epoch key (deliver_event ev inner) = client_cursor epoch key inner"
  by (simp add: client_cursor_def deliver_event_fields)

lemma receive_event_here:
  assumes "runtime_of ev = key" "se_epoch ev = epoch" "0 < se_sequence ev"
  shows "client_cursor epoch key (receive_event ev inner) = newest (client_cursor epoch key inner) [ev] \<and>
    attached key (receive_event ev inner) =
      map_option (\<lambda>evs. evs @ unseen (client_cursor epoch key inner) [ev]) (attached key inner) \<and>
    (attached key inner = None \<and> length (buffered key inner) \<le> MAX_BUFFERED_EVENTS_PER_RUNTIME \<longrightarrow>
      buffered key (receive_event ev inner) = newest_of MAX_BUFFERED_EVENTS_PER_RUNTIME
        (buffered key inner @ unseen (client_cursor epoch key inner) [ev]))"
proof (cases "client_cursor (se_epoch ev) (runtime_of ev) inner < unat (se_sequence ev)")
  case True
  note e = receive_event_new [OF True]
  have "client_cursor epoch key (receive_event ev inner) = unat (se_sequence ev)"
    unfolding e client_cursor_deliver using assms by (simp add: client_cursor_def)
  with True assms show ?thesis
    by (simp add: e deliver_event_fields last_sequences_frame max_def)
next
  case False
  note e = receive_event_old [OF False assms(3)]
  have "client_cursor epoch key (receive_event ev inner) = client_cursor epoch key inner"
    unfolding e using assms by (cases "c_last_sequences inner key") (simp_all add: client_cursor_def)
  with False assms show ?thesis
    by (simp add: e last_sequences_frame max_def newest_of_def option.map_ident)
qed

lemma receive_event_elsewhere:
  assumes "runtime_of ev \<noteq> key"
  shows "client_cursor epoch key (receive_event ev inner) = client_cursor epoch key inner \<and>
    attached key (receive_event ev inner) = attached key inner \<and>
    buffered key (receive_event ev inner) = buffered key inner"
proof -
  have f: "client_cursor epoch key (inner\<lparr>c_last_sequences := (c_last_sequences inner)(runtime_of ev \<mapsto> l)\<rparr>) =
      client_cursor epoch key inner" for l
    using assms by (simp add: client_cursor_def)
  have "\<exists>l. receive_event ev inner \<in>
      {inner\<lparr>c_last_sequences := (c_last_sequences inner)(runtime_of ev \<mapsto> l)\<rparr>,
       deliver_event ev (inner\<lparr>c_last_sequences := (c_last_sequences inner)(runtime_of ev \<mapsto> l)\<rparr>)}"
    unfolding receive_event_cases by (metis insert_iff)
  then obtain l where "receive_event ev inner \<in>
      {inner\<lparr>c_last_sequences := (c_last_sequences inner)(runtime_of ev \<mapsto> l)\<rparr>,
       deliver_event ev (inner\<lparr>c_last_sequences := (c_last_sequences inner)(runtime_of ev \<mapsto> l)\<rparr>)}" ..
  with assms f [of l] show ?thesis
    by (auto simp: deliver_event_fields last_sequences_frame client_cursor_deliver)
qed

section \<open>A run of messages\<close>

definition events_sound :: "uuid \<Rightarrow> runtime_key \<Rightarrow> server_message list \<Rightarrow> bool" where
  "events_sound epoch key ms \<longleftrightarrow> (\<forall>ev\<in>set (events_of key ms). se_epoch ev = epoch \<and> 0 < se_sequence ev)"

lemma event_of_Some: "event_of key m = Some ev \<longleftrightarrow> m = Msg_Event ev \<and> runtime_of ev = key"
  by (cases m) (auto simp: runtime_of_def)

lemma receive_message_runtime:
  assumes "events_sound epoch key [m]"
  shows "client_cursor epoch key (fst (receive_message m inner)) =
      newest (client_cursor epoch key inner) (events_of key [m]) \<and>
    attached key (fst (receive_message m inner)) =
      map_option (\<lambda>evs. evs @ unseen (client_cursor epoch key inner) (events_of key [m])) (attached key inner) \<and>
    (attached key inner = None \<and> length (buffered key inner) \<le> MAX_BUFFERED_EVENTS_PER_RUNTIME \<longrightarrow>
      buffered key (fst (receive_message m inner)) = newest_of MAX_BUFFERED_EVENTS_PER_RUNTIME
        (buffered key inner @ unseen (client_cursor epoch key inner) (events_of key [m])))"
proof (cases "event_of key m")
  case (Some ev)
  then have "m = Msg_Event ev" "runtime_of ev = key" by (simp_all add: event_of_Some)
  moreover from assms Some have "se_epoch ev = epoch" "0 < se_sequence ev"
    by (simp_all add: events_sound_def)
  ultimately show ?thesis
    using receive_event_here [of ev key epoch inner] Some by simp
next
  case None
  have "client_cursor epoch key (fst (receive_message m inner)) = client_cursor epoch key inner \<and>
      attached key (fst (receive_message m inner)) = attached key inner \<and>
      buffered key (fst (receive_message m inner)) = buffered key inner"
  proof (cases m)
    case (Msg_Event ev)
    with None have "runtime_of ev \<noteq> key" by (auto simp: runtime_of_def)
    with Msg_Event show ?thesis by (simp add: receive_event_elsewhere)
  qed (simp_all add: client_cursor_def attached_def buffered_def)
  with None show ?thesis by (simp add: newest_of_def option.map_ident)
qed

lemma client_run_cursor:
  "events_sound epoch key ms \<Longrightarrow>
   client_cursor epoch key (client_run ms inner) = newest (client_cursor epoch key inner) (events_of key ms)"
proof (induction ms arbitrary: inner)
  case Nil
  then show ?case by simp
next
  case (Cons m ms)
  then have "events_sound epoch key [m]" "events_sound epoch key ms" by (auto simp: events_sound_def)
  with Cons.IH receive_message_runtime [OF this(1), of inner] show ?case
    by (simp only: client_run_simps) (metis append_Cons append_Nil events_of_simps(2) newest_append)
qed

lemma client_run_attached:
  "events_sound epoch key ms \<Longrightarrow> attached key inner = Some evs \<Longrightarrow>
   attached key (client_run ms inner) =
     Some (evs @ unseen (client_cursor epoch key inner) (events_of key ms))"
proof (induction ms arbitrary: inner evs)
  case Nil
  then show ?case by simp
next
  case (Cons m ms)
  then have s: "events_sound epoch key [m]" "events_sound epoch key ms" by (auto simp: events_sound_def)
  note r = receive_message_runtime [OF s(1), of inner]
  from r Cons.prems(2) have "attached key (fst (receive_message m inner)) =
      Some (evs @ unseen (client_cursor epoch key inner) (events_of key [m]))" by simp
  from Cons.IH [OF s(2) this] r show ?case
    by (simp only: client_run_simps)
      (metis append.assoc append_Cons append_Nil events_of_simps(2) unseen_append)
qed

lemma client_run_buffered:
  "events_sound epoch key ms \<Longrightarrow> attached key inner = None \<Longrightarrow>
   length (buffered key inner) \<le> MAX_BUFFERED_EVENTS_PER_RUNTIME \<Longrightarrow>
   attached key (client_run ms inner) = None \<and>
   buffered key (client_run ms inner) = newest_of MAX_BUFFERED_EVENTS_PER_RUNTIME
     (buffered key inner @ unseen (client_cursor epoch key inner) (events_of key ms))"
proof (induction ms arbitrary: inner)
  case Nil
  then show ?case by (simp add: newest_of_def)
next
  case (Cons m ms)
  then have s: "events_sound epoch key [m]" "events_sound epoch key ms" by (auto simp: events_sound_def)
  let ?inner = "fst (receive_message m inner)"
  note r = receive_message_runtime [OF s(1), of inner]
  from r Cons.prems have "attached key ?inner = None"
    "buffered key ?inner = newest_of MAX_BUFFERED_EVENTS_PER_RUNTIME
      (buffered key inner @ unseen (client_cursor epoch key inner) (events_of key [m]))" by simp_all
  moreover from this(2) have "length (buffered key ?inner) \<le> MAX_BUFFERED_EVENTS_PER_RUNTIME"
    by (simp add: newest_of_def)
  ultimately have "attached key (client_run ms ?inner) = None \<and>
      buffered key (client_run ms ?inner) = newest_of MAX_BUFFERED_EVENTS_PER_RUNTIME
        (buffered key inner @ unseen (client_cursor epoch key inner) (events_of key [m]) @
         unseen (newest (client_cursor epoch key inner) (events_of key [m])) (events_of key ms))"
    using Cons.IH [OF s(2)] r by (simp add: newest_of_append)
  then show ?case
    by (simp only: client_run_simps)
      (metis append_Cons append_Nil events_of_simps(2) unseen_append)
qed

lemma resume_client_cursor:
  assumes "distinct (map (fst \<circ> cursor_entry) cursors)"
  shows "client_cursor epoch key (connect_with_resume cursors) = unat (resume_sequence epoch cursors key)"
proof -
  let ?P = "\<lambda>cursor. rp_session_id cursor = fst key \<and> rp_runtime_id cursor = snd key"
  have m: "map_of (rev (map cursor_entry cursors)) = map_of (map cursor_entry cursors)"
    using assms by (intro map_of_inject_set [THEN iffD2]) (simp_all add: rev_map [symmetric] distinct_map comp_assoc)
  have "(case map_of (map cursor_entry cursors) key of None \<Rightarrow> 0
      | Some l \<Rightarrow> if ls_epoch l = epoch then unat (ls_sequence l) else 0) =
    unat (resume_sequence epoch cursors key)"
    using assms
  proof (induction cursors)
    case Nil
    then show ?case by (simp add: resume_sequence_def)
  next
    case (Cons x cursors)
    show ?case
    proof (cases "?P x")
      case False
      then have "fst (cursor_entry x) \<noteq> key" by (auto simp: cursor_entry_def)
      with False Cons show ?thesis by (cases "cursor_entry x") (auto simp: resume_sequence_def)
    next
      case True
      then have x: "fst (cursor_entry x) = key" by (auto simp: cursor_entry_def)
      with Cons.prems have "key \<notin> set (map (fst \<circ> cursor_entry) cursors)" by auto
      then have "List.find (\<lambda>cursor. ?P cursor \<and> rp_epoch cursor = epoch) cursors = None"
        by (force simp: find_None_iff cursor_entry_def)
      with True show ?thesis by (auto simp: resume_sequence_def cursor_entry_def)
    qed
  qed
  then show ?thesis by (simp add: client_cursor_def connect_with_resume_def m)
qed

lemma subscribe_runtime_attached:
  "attached key (fst (subscribe_runtime i key inner)) = Some (buffered key inner)"
  "client_cursor epoch key (fst (subscribe_runtime i key inner)) = client_cursor epoch key inner"
  by (simp_all add: subscribe_runtime_def attached_def buffered_def client_cursor_def)

section \<open>Properties\<close>

text \<open>
  A client that attaches to a runtime after some messages receives the newest 4096 of the
  runtime's events that came before, then those that came after, in order, each once and none
  older than its cursor; attaching loses nothing and lets no event overtake another.
\<close>

theorem attached_runtime_stream:
  assumes "events_sound epoch key (early @ late)"
    and "c_sessions inner key = None" "c_pending_events inner key = None"
    and "cursor = client_cursor epoch key inner"
  shows "map_option sink_events
      (c_sessions (client_run late (fst (subscribe_runtime i key (client_run early inner)))) key) =
    Some (newest_of MAX_BUFFERED_EVENTS_PER_RUNTIME (unseen cursor (events_of key early)) @
      unseen (newest cursor (events_of key early)) (events_of key late))"
proof -
  from assms(1) have s: "events_sound epoch key early" "events_sound epoch key late"
    by (auto simp: events_sound_def)
  have "attached key inner = None" "buffered key inner = []"
    using assms(2,3) by (simp_all add: attached_def buffered_def)
  with client_run_buffered [OF s(1), of inner]
  have b: "buffered key (client_run early inner) =
      newest_of MAX_BUFFERED_EVENTS_PER_RUNTIME (unseen cursor (events_of key early))"
    by (simp add: assms(4))
  let ?mid = "fst (subscribe_runtime i key (client_run early inner))"
  have "attached key ?mid = Some (buffered key (client_run early inner))"
    by (rule subscribe_runtime_attached)
  from client_run_attached [OF s(2) this] show ?thesis
    using b by (simp add: attached_def [symmetric] subscribe_runtime_attached
      client_run_cursor [OF s(1)] assms(4))
qed

text \<open>
  C2: end to end. A client connects with cursors to a daemon in any reachable state, attaches to
  an active provider runtime and handles all it was sent: what it received of the runtime is
  the events numbered after its cursor, in order and each once, up to the newest that is not in
  flight, with events missing only at the start and only after an announced replay gap.
\<close>

theorem client_follows_daemon:
  assumes "hub_reachable replayable epoch limit c"
    and "h_subscribers (hc_hub c) i = Some sub" "sub_open sub"
    and "h_active_runtimes (hc_hub c) s = Some r" "replayable (s, r)"
    and "distinct (map (fst \<circ> cursor_entry) (hc_resume c i))"
    and "client = client_run (sub_received sub)
      (fst (subscribe_runtime sid (s, r) (connect_with_resume (hc_resume c i))))"
    and "log = hc_log c (s, r)" "cursor = unat (resume_sequence epoch (hc_resume c i) (s, r))"
  shows "\<exists>g e. cursor \<le> g \<and> g \<le> e \<and>
      (if hc_in_flight c (s, r) = None then e = length log else e \<in> {length log - 1, length log}) \<and>
      map_option sink_events (c_sessions client (s, r)) = Some (drop g (take e log)) \<and>
      (g = cursor \<or> gap_announced epoch (s, r) g (sub_received sub))"
proof -
  note inv = hub_inv_reachable [OF assms(1)] and const = hub_const_reachable [OF assms(1)]
  from inv assms(2) have so: "hub_sub_ok replayable c i sub (s, r)" by (rule hub_invD)
  with assms(3-5,9) const have "hub_stream_ok c sub cursor (s, r)"
    by (simp add: hub_sub_ok_def Let_def)
  then obtain g e where ge: "stream_upto log cursor g e (events_of (s, r) (sub_received sub))"
    "if hc_in_flight c (s, r) = None then e = length log else length log \<le> e + 1"
    "g = cursor \<or> gap_announced (h_epoch (hc_hub c)) (s, r) g (sub_received sub)"
    unfolding hub_stream_ok_def assms(8) by blast
  from inv have "hub_key_ok replayable c (s, r)" by (rule hub_invD)
  then have "\<forall>ev\<in>set log. se_epoch ev = epoch \<and> 0 < se_sequence ev"
    using const by (auto simp: hub_key_ok_def Let_def sequenced_as_def in_set_conv_nth assms(8)
      word_less_nat_alt)
  then have snd: "events_sound epoch (s, r) (sub_received sub)"
    using so by (auto simp: hub_sub_ok_def Let_def events_sound_def assms(8))
  let ?mid = "fst (subscribe_runtime sid (s, r) (connect_with_resume (hc_resume c i)))"
  have "attached (s, r) ?mid = Some []" "client_cursor epoch (s, r) ?mid = cursor"
    using resume_client_cursor [OF assms(6)]
    by (simp_all add: subscribe_runtime_attached assms(9)) (simp add: buffered_def connect_with_resume_def)
  with client_run_attached [OF snd this(1)]
  have "map_option sink_events (c_sessions client (s, r)) =
      Some (unseen cursor (events_of (s, r) (sub_received sub)))"
    by (simp add: attached_def assms(7))
  moreover have "if hc_in_flight c (s, r) = None then e = length log else e \<in> {length log - 1, length log}"
    using ge(1,2) by (auto simp: stream_upto_def)
  ultimately show ?thesis
    using ge(1,3) const unfolding stream_upto_def by (intro exI [of _ g] exI [of _ e]) simp
qed

theorem attached_runtime_stream_witness:
  "map_option sink_events (c_sessions (client_run [Msg_Event demo_sequenced]
      (fst (subscribe_runtime 9 (1, 2) (client_run [Msg_Event demo_sequenced] (connect_with_resume []))))) (1, 2)) =
    Some [demo_sequenced]"
proof -
  have "events_sound 7 (1, 2) ([Msg_Event demo_sequenced] @ [Msg_Event demo_sequenced])"
    "c_sessions (connect_with_resume []) (1, 2) = None"
    "c_pending_events (connect_with_resume []) (1, 2) = None"
    "0 = client_cursor 7 (1, 2) (connect_with_resume [])"
    by (simp_all add: events_sound_def demo_sequenced_def connect_with_resume_def client_cursor_def)
  from attached_runtime_stream [OF this, of 9] show ?thesis
    by (simp add: demo_sequenced_def newest_of_def MAX_BUFFERED_EVENTS_PER_RUNTIME_def)
qed

theorem client_follows_daemon_witness:
  "\<exists>g e. g \<le> e \<and> e = 1 \<and> map_option sink_events (c_sessions (client_run [Msg_Event demo_sequenced]
      (fst (subscribe_runtime 9 (1, 2) (connect_with_resume [])))) (1, 2)) = Some (drop g (take e [demo_sequenced]))"
proof -
  let ?sub = "\<lparr>sub_received = [Msg_Event demo_sequenced], sub_open = True\<rparr>"
  have d: "h_subscribers (hc_hub demo_run) 0 = Some ?sub" "sub_open ?sub"
    "h_active_runtimes (hc_hub demo_run) 1 = Some 2"
    "unat (resume_sequence 7 (hc_resume demo_run 0) (1, 2)) = 0" "hc_resume demo_run 0 = []"
    "hc_in_flight demo_run (1, 2) = None" "hc_log demo_run (1, 2) = [demo_sequenced]"
    by (simp_all add: demo_run_def demo_hub_config_def demo_hub_def resume_sequence_def)
  from client_follows_daemon [OF demo_run_reachable d(1-3) _ _ refl refl refl, of 9] d(4-7)
  show ?thesis by (simp del: client_run_simps) blast
qed

end
