(* ===== verification/Driver_Support.thy ===== *)
theory Driver_Support
  imports Activity Driver_Wire "HOL-Library.AList"
begin

text \<open>
  What the provider drivers share (\<open>driver/support.rs\<close> and \<open>driver/activity.rs\<close> in
  \<open>crates/shidou-core/src\<close>): reading a provider's JSON, the context a call used, the error in a
  provider's diagnostics, and the activity item of a tool call. The Computer Use configuration of
  \<open>support.rs\<close> is not modelled.
\<close>

section \<open>Reading JSON\<close>

text \<open>
  \<open>Value::pointer\<close>; the tokens the source uses are names, which no array answers.
  \<open>get(a).or_else(|| get(b))\<close> is the first key that is there, whatever its value.
\<close>

fun value_pointer :: "string list \<Rightarrow> json \<Rightarrow> json option" where
  "value_pointer [] v = Some v"
| "value_pointer (k # ks) v = Option.bind (value_get v k) (value_pointer ks)"

definition first_key :: "string list list \<Rightarrow> json \<Rightarrow> json option" where
  "first_key paths v = find_map (\<lambda>path. value_pointer path v) paths"

definition str_at :: "string list \<Rightarrow> json \<Rightarrow> rstring option" where
  "str_at path v = Option.bind (value_pointer path v) as_str"

definition array_at :: "string list \<Rightarrow> json \<Rightarrow> json list option" where
  "array_at path v = Option.bind (value_pointer path v) as_array"

definition bool_at :: "string list \<Rightarrow> json \<Rightarrow> bool option" where
  "bool_at path v = Option.bind (value_pointer path v) as_bool"

definition nonempty_str_at :: "string list \<Rightarrow> json \<Rightarrow> rstring option" where
  "nonempty_str_at path v = opt_filter (\<lambda>s. s \<noteq> []) (str_at path v)"

definition has_type :: "string \<Rightarrow> json \<Rightarrow> bool" where
  "has_type name v \<longleftrightarrow> str_at [''type''] v = Some (lit name)"

text \<open>\<open>value[key] = new\<close> on an object.\<close>

definition set_key :: "string \<Rightarrow> json \<Rightarrow> json \<Rightarrow> json" where
  "set_key key new v = (case v of JObject m \<Rightarrow> JObject (AList.update (lit key) new m) | _ \<Rightarrow> v)"

lemma inj_lit: "inj lit"
  by (auto simp: lit_def inj_def dest!: map_injective [OF _ inj_of_char])

lemma value_get_set_key:
  "value_get (set_key k new v) k' =
     (if as_object v = None then value_get v k' else if k' = k then Some new else value_get v k')"
proof (cases v)
  case (JObject m)
  then show ?thesis by (simp add: set_key_def value_get_def obj_get_def update_conv' inj_eq [OF inj_lit])
qed (simp_all add: set_key_def value_get_def)

section \<open>Tokens and diagnostics\<close>

text \<open>The sum is of machine integers: it wraps as the release build does.\<close>

definition call_of :: "json \<Rightarrow> json" where
  "call_of usage = unwrap_or (Option.bind (array_at [''iterations''] usage) last_opt) usage"

definition token_field :: "json \<Rightarrow> string \<Rightarrow> u64" where
  "token_field usage name = unwrap_or (Option.bind (value_get (call_of usage) name) as_u64) 0"

definition claude_context_tokens :: "json \<Rightarrow> u64 option" where
  "claude_context_tokens usage =
     (let total = token_field usage ''input_tokens'' + token_field usage ''cache_read_input_tokens'' +
        token_field usage ''cache_creation_input_tokens'' + token_field usage ''output_tokens'' in
      if 0 < total then Some total else None)"

definition truncate_error :: "rstring \<Rightarrow> nat \<Rightarrow> rstring" where
  "truncate_error message max_chars =
     (if length message \<le> max_chars then message else take max_chars message @ [ellipsis])"

definition mentions_error :: "rstring \<Rightarrow> bool" where
  "mentions_error line \<longleftrightarrow> contains_str (lit ''error'') (to_ascii_lowercase line)"

text \<open>The loop over at most six lines, left once the message is long enough.\<close>

fun collect_diagnostic :: "rstring \<Rightarrow> rstring list \<Rightarrow> rstring" where
  "collect_diagnostic message [] = message"
| "collect_diagnostic message (line # rest) =
     (let line = trim line; message' = (if message = [] then line else message @ 10 # line) in
      if line = [] then collect_diagnostic message rest
      else if 800 \<le> length message' then message'
      else collect_diagnostic message' rest)"

definition provider_stderr_error :: "rstring list \<Rightarrow> rstring option" where
  "provider_stderr_error stderr =
     (case List.find mentions_error stderr of
        None \<Rightarrow> None
      | Some line \<Rightarrow>
          let first_error = trim line in
          if starts_with (lit ''error:'') (to_ascii_lowercase first_error)
          then Some (truncate_error first_error 400)
          else
            let first_error_index = unwrap_or (position (\<lambda>l. trim l = first_error) stderr) 0 in
            Some (truncate_error (collect_diagnostic [] (take 6 (drop first_error_index stderr))) 800))"

definition classify_tool :: "rstring \<Rightarrow> activity_kind" where
  "classify_tool name = activity_kind_from_tool_name name"

section \<open>Activities\<close>

definition max_activity_chars :: nat where "max_activity_chars = 16000"

definition non_empty_text :: "lib \<Rightarrow> rstring \<Rightarrow> rstring option" where
  "non_empty_text L v =
     (let v = trim v in
      if v = [] then None
      else if length v \<le> max_activity_chars then Some v
      else Some (take max_activity_chars v @ tr L ''activity.output_truncated''))"

definition format_json :: "lib \<Rightarrow> json \<Rightarrow> rstring option" where
  "format_json L v = Option.bind (lib_pretty L v) (non_empty_text L)"

definition is_image_item :: "json \<Rightarrow> bool" where
  "is_image_item v =
     (let item_type = str_at [''type''] v;
          mime = Option.bind (first_key [[''mime''], [''mimeType''], [''mime_type''],
            [''source'', ''media_type'']] v) as_str in
      item_type = Some (lit ''image'') \<or> item_type = Some (lit ''inputImage'') \<or>
      item_type = Some (lit ''file'') \<and>
        (case mime of Some mime \<Rightarrow> starts_with (lit ''image/'') mime | None \<Rightarrow> False))"

definition output_item_text :: "lib \<Rightarrow> json \<Rightarrow> rstring option" where
  "output_item_text L item =
     opt_or (as_str item)
       (opt_or (if has_type ''text'' item then str_at [''text''] item else None) (format_json L item))"

definition not_null :: "json option \<Rightarrow> json option" where
  "not_null v = opt_filter (\<lambda>v. v \<noteq> JNull) v"

lemma value_get_size: "value_get v k = Some w \<Longrightarrow> size w < size v"
  by (cases v) (auto simp: value_get_def dest: obj_get_size)

lemma not_null_Some: "not_null x = Some v \<longleftrightarrow> x = Some v \<and> v \<noteq> JNull"
  by (simp add: not_null_def opt_filter_eq_Some)

function format_output :: "lib \<Rightarrow> json \<Rightarrow> rstring option" where
  "format_output L v =
     (case as_str v of
        Some text \<Rightarrow> non_empty_text L text
      | None \<Rightarrow> (case not_null (value_get v ''structuredContent'') of
          Some structured \<Rightarrow> format_json L structured
        | None \<Rightarrow> (case not_null (value_get v ''content'') of
            Some content \<Rightarrow> format_output L content
          | None \<Rightarrow> (case as_array v of
              Some items \<Rightarrow> non_empty_text L (join [10, 10]
                (List.map_filter (output_item_text L) (filter (\<lambda>i. \<not> is_image_item i) items)))
            | None \<Rightarrow> format_json L v))))"
  by pat_completeness auto
termination
  by (relation "measure (\<lambda>(L, v). size v)") (auto simp: not_null_Some dest: value_get_size)

declare format_output.simps [simp del]

definition data_url :: "rstring \<Rightarrow> rstring \<Rightarrow> rstring" where
  "data_url mime payload = lit ''data:'' @ mime @ lit '';base64,'' @ payload"

definition default_mime :: "json option \<Rightarrow> rstring" where
  "default_mime v = unwrap_or (Option.bind v as_str) (lit ''image/png'')"

definition own_image_url :: "json \<Rightarrow> rstring option" where
  "own_image_url v =
     (case Option.bind (first_key [[''imageUrl''], [''image_url''], [''url'']] v) as_str of
        Some url \<Rightarrow> Some url
      | None \<Rightarrow> (case str_at [''data''] v of
          Some payload \<Rightarrow> Some (data_url (default_mime (first_key [[''mime''], [''mimeType''], [''mime_type''],
            [''source'', ''media_type'']] v)) payload)
        | None \<Rightarrow> map_option (data_url (default_mime (value_pointer [''source'', ''media_type''] v)))
            (str_at [''source'', ''data''] v)))"

function collect_image_urls :: "json \<Rightarrow> rstring list" where
  "collect_image_urls v =
     (case v of
        JArray items \<Rightarrow> concat (map collect_image_urls items)
      | JObject entries \<Rightarrow>
          (if is_image_item v then case own_image_url v of Some url \<Rightarrow> [url] | None \<Rightarrow> [] else []) @
          concat (map (\<lambda>key. case value_get v key of Some nested \<Rightarrow> collect_image_urls nested | None \<Rightarrow> [])
            [''content'', ''attachments'', ''files'', ''result''])
      | _ \<Rightarrow> [])"
  by pat_completeness auto
termination
proof (relation "measure size", goal_cases)
  case 1
  then show ?case by simp
next
  case (2 v items x)
  then have "size x < Suc (size_list size items)" by (simp add: less_Suc_eq_le size_list_estimation')
  with 2 show ?case by simp
next
  case 3
  then show ?case by (auto dest: value_get_size)
qed

declare collect_image_urls.simps [simp del]

text \<open>\<open>retain(|url| seen.insert(url.clone()))\<close>: each url once, where it came first.\<close>

definition keep_first :: "'a list \<Rightarrow> 'a list" where
  "keep_first xs = rev (remdups (rev xs))"

definition first_line :: "rstring \<Rightarrow> rstring option" where
  "first_line text = List.find (\<lambda>l. l \<noteq> []) (map trim (lines text))"

definition tool_activity ::
    "lib \<Rightarrow> uuid \<Rightarrow> rstring option \<Rightarrow> activity_kind \<Rightarrow> rstring \<Rightarrow> json option \<Rightarrow> json option \<Rightarrow>
     json option \<Rightarrow> bool \<Rightarrow> bool \<Rightarrow> activity_item" where
  "tool_activity L aid source_id kind title arguments output image_source failed complete =
     (let formatted_output = Option.bind (not_null output) (format_output L);
          urls = (\<lambda>v. case v of Some v \<Rightarrow> collect_image_urls v | None \<Rightarrow> []);
          image_urls = keep_first (urls output @ urls image_source);
          detail = (if failed then Option.bind formatted_output first_line else None) in
      with_failed failed (with_image_urls image_urls (with_output L formatted_output
        (with_activity_source L arguments (with_arguments L (Option.bind (not_null arguments) (format_json L))
          (activity_new L aid source_id kind title detail complete))))))"

definition trimmed_str :: "rstring option \<Rightarrow> rstring option" where
  "trimmed_str s = opt_filter (\<lambda>t. t \<noteq> []) (map_option trim s)"

definition input_title :: "json option \<Rightarrow> rstring option" where
  "input_title v = Option.bind v (\<lambda>v. trimmed_str (Option.bind (first_key [[''title''],
     [''arguments'', ''title''], [''input'', ''title''], [''tool_input'', ''title'']] v) as_str))"


section \<open>What drivers say\<close>

text \<open>
  \<open>dt_tr\<close> is \<open>tr!\<close> with arguments. A reader meets a line with the ids and the clock of its
  time.
\<close>

record driver_texts =
  dt_lib :: lib
  dt_tr :: "rstring \<Rightarrow> (rstring \<times> rstring) list \<Rightarrow> rstring"

definition trp :: "driver_texts \<Rightarrow> string \<Rightarrow> (string \<times> rstring) list \<Rightarrow> rstring" where
  "trp T key arguments = dt_tr T (lit key) (map (\<lambda>(k, v). (lit k, v)) arguments)"

record driver_line =
  dl_text :: rstring
  dl_ids :: "nat \<Rightarrow> uuid"
  dl_now :: u64

definition text_content :: "rstring \<Rightarrow> json" where
  "text_content s = JObject [(lit ''role'', JString (lit ''user'')), (lit ''content'',
     JArray [JObject [(lit ''type'', JString (lit ''text'')), (lit ''text'', JString s)]])]"

end
