(* ===== verification/Driver_Threads.thy ===== *)
theory Driver_Threads
  imports Driver_Support Daemon_State
begin

text \<open>
  The threads of a streaming provider driver (\<open>amp.rs\<close> and \<open>claude.rs\<close> in
  \<open>crates/shidou-core/src/driver\<close>): a reader of the provider's output, a writer of its input, one
  for its diagnostics, one that waits for the process, and the look-ups of a generated title
  (\<open>title_refresh.rs\<close>). Reader and writer share the flag \<open>turn_active\<close> behind a lock. What a thread
  does with one message is a list of actions; every action is one step, so the events of the
  threads interleave as they do in the program.
\<close>

section \<open>Actions and threads\<close>

text \<open>
  \<open>Take as\<close> is \<open>std::mem::take\<close> on the flag, followed by \<open>as\<close> if the turn was active; \<open>If_Turn\<close>
  only looks at it. \<open>Queue\<close> sends a command to the writer, \<open>Refresh n\<close> starts a title look-up with
  \<open>n\<close> attempts, and \<open>Stop\<close> ends the writer.
\<close>

datatype ('c, 's) act =
    Send driver_event
  | Queue 'c
  | Write_Line json
  | Arm
  | Take "('c, 's) act list"
  | If_Turn "('c, 's) act list" "('c, 's) act list"
  | Refresh nat
  | Local "'s \<Rightarrow> 's"
  | Stop

datatype title_refresh = Title_Idle | Title_Running nat | Title_Resolved

record ('c, 's) threads =
  th_turn :: bool
  th_state :: 's
  th_queue :: "'c list"
  th_reader :: "('c, 's) act list"
  th_writer :: "('c, 's) act list"
  th_reader_ended :: bool
  th_writer_stopped :: bool
  th_stderr_ended :: bool
  th_stderr_error :: bool
  th_exited :: bool
  th_title :: title_refresh
  th_sent :: "driver_event list"
  th_written :: "json list"

definition threads_start :: "'s \<Rightarrow> driver_event list \<Rightarrow> ('c, 's) threads" where
  "threads_start s events =
     \<lparr>th_turn = False, th_state = s, th_queue = [], th_reader = [], th_writer = [],
      th_reader_ended = False, th_writer_stopped = False, th_stderr_ended = False,
      th_stderr_error = False, th_exited = False,
      th_title = Title_Idle, th_sent = events, th_written = []\<rparr>"

text \<open>A look-up that runs or has found its title is not started again.\<close>

definition refresh_start :: "nat \<Rightarrow> title_refresh \<Rightarrow> title_refresh" where
  "refresh_start attempts t = (if t = Title_Idle then Title_Running attempts else t)"

text \<open>One attempt: the title it found, or how many are left.\<close>

definition refresh_attempt :: "rstring option \<Rightarrow> nat \<Rightarrow> title_refresh \<times> rstring option" where
  "refresh_attempt found attempts = (case trimmed_str found of
       Some title \<Rightarrow> (Title_Resolved, Some title)
     | None \<Rightarrow> (if attempts \<le> 1 then Title_Idle else Title_Running (attempts - 1), None))"

text \<open>The actions that come next and the state after one action.\<close>

fun run_act :: "('c, 's) act \<Rightarrow> ('c, 's) threads \<Rightarrow> ('c, 's) act list \<times> ('c, 's) threads" where
  "run_act (Send e) th = ([], th\<lparr>th_sent := th_sent th @ [e]\<rparr>)"
| "run_act (Queue c) th = ([], th\<lparr>th_queue := th_queue th @ [c]\<rparr>)"
| "run_act (Write_Line j) th = ([], th\<lparr>th_written := th_written th @ [j]\<rparr>)"
| "run_act Arm th = ([], th\<lparr>th_turn := True\<rparr>)"
| "run_act (Take acts) th = (if th_turn th then acts else [], th\<lparr>th_turn := False\<rparr>)"
| "run_act (If_Turn acts acts') th = (if th_turn th then acts else acts', th)"
| "run_act (Refresh n) th = ([], th\<lparr>th_title := refresh_start n (th_title th)\<rparr>)"
| "run_act (Local f) th = ([], th\<lparr>th_state := f (th_state th)\<rparr>)"
| "run_act Stop th = ([], th\<lparr>th_writer_stopped := True\<rparr>)"

text \<open>
  \<open>read i\<close> is what the reader does with one line, \<open>feed failure c\<close> what the writer does with the
  command \<open>c\<close> when writing a line fails as \<open>failure\<close> says, and \<open>call u\<close> what a call of the
  driver's interface by its owner sends to the writer. The process is only reported as gone when the reader and the
  diagnostics have ended; a diagnostic that was shown takes the place of the exit status.
\<close>

definition option_list :: "'a option \<Rightarrow> 'a list" where
  "option_list x = (case x of None \<Rightarrow> [] | Some x \<Rightarrow> [x])"

inductive driver_step ::
    "('i \<Rightarrow> 's \<Rightarrow> ('c, 's) act list \<times> 's) \<Rightarrow> (rstring option \<Rightarrow> 'c \<Rightarrow> 's \<Rightarrow> ('c, 's) act list \<times> 's) \<Rightarrow>
     ('u \<Rightarrow> 's \<Rightarrow> 'c list \<times> 's) \<Rightarrow> ('c, 's) threads \<Rightarrow> ('c, 's) threads \<Rightarrow> bool"
  for read :: "'i \<Rightarrow> 's \<Rightarrow> ('c, 's) act list \<times> 's"
    and feed :: "rstring option \<Rightarrow> 'c \<Rightarrow> 's \<Rightarrow> ('c, 's) act list \<times> 's"
    and call :: "'u \<Rightarrow> 's \<Rightarrow> 'c list \<times> 's"
  where
  calls: "call u (th_state th) = (commands, s) \<Longrightarrow>
     driver_step read feed call th (th\<lparr>th_state := s, th_queue := th_queue th @ commands\<rparr>)"
| reader_takes: "th_reader th = [] \<Longrightarrow> \<not> th_reader_ended th \<Longrightarrow> read i (th_state th) = (acts, s) \<Longrightarrow>
     driver_step read feed call th (th\<lparr>th_state := s, th_reader := acts\<rparr>)"
| reader_acts: "th_reader th = a # rest \<Longrightarrow> run_act a th = (cont, th') \<Longrightarrow>
     driver_step read feed call th (th'\<lparr>th_reader := cont @ rest\<rparr>)"
| reader_ends: "th_reader th = [] \<Longrightarrow> driver_step read feed call th (th\<lparr>th_reader_ended := True\<rparr>)"
| writer_takes: "th_writer th = [] \<Longrightarrow> \<not> th_writer_stopped th \<Longrightarrow> th_queue th = c # queue \<Longrightarrow>
     feed failure c (th_state th) = (acts, s) \<Longrightarrow>
     driver_step read feed call th (th\<lparr>th_state := s, th_queue := queue, th_writer := acts\<rparr>)"
| writer_acts: "th_writer th = a # rest \<Longrightarrow> run_act a th = (cont, th') \<Longrightarrow>
     driver_step read feed call th (th'\<lparr>th_writer := cont @ rest\<rparr>)"
| stderr_ends: "\<not> th_stderr_ended th \<Longrightarrow> driver_step read feed call th
     (th\<lparr>th_stderr_ended := True, th_stderr_error := message \<noteq> None,
        th_sent := th_sent th @ map Error (option_list message)\<rparr>)"
| exits: "th_reader_ended th \<Longrightarrow> th_stderr_ended th \<Longrightarrow> \<not> th_exited th \<Longrightarrow>
     (th_stderr_error th \<longrightarrow> message = None) \<Longrightarrow> driver_step read feed call th
     (th\<lparr>th_exited := True, th_sent := th_sent th @ map Error (option_list message) @ [ProcessExited]\<rparr>)"
| title_looked_up: "th_title th = Title_Running n \<Longrightarrow> refresh_attempt found n = (t, title) \<Longrightarrow>
     driver_step read feed call th
     (th\<lparr>th_title := t, th_sent := th_sent th @ map (\<lambda>t. AutoTitleUpdated (Some t)) (option_list title)\<rparr>)"

section \<open>The shape of what a thread does\<close>

fun starts_turn :: "driver_event \<Rightarrow> bool" where
  "starts_turn TurnStarted = True"
| "starts_turn _ = False"

fun finishes_turn :: "driver_event \<Rightarrow> bool" where
  "finishes_turn (TurnFinished _ _) = True"
| "finishes_turn _ = False"

fun exit_event :: "driver_event \<Rightarrow> bool" where
  "exit_event ProcessExited = True"
| "exit_event _ = False"

definition ordinary :: "driver_event \<Rightarrow> bool" where
  "ordinary e \<longleftrightarrow> \<not> starts_turn e \<and> \<not> finishes_turn e \<and> \<not> exit_event e"

fun quiet_act :: "('c, 's) act \<Rightarrow> bool" where
  "quiet_act (Send e) = ordinary e"
| "quiet_act Arm = False"
| "quiet_act (Take _) = False"
| "quiet_act (If_Turn _ _) = False"
| "quiet_act _ = True"

fun sends_finish :: "('c, 's) act \<Rightarrow> bool" where
  "sends_finish (Send e) = finishes_turn e"
| "sends_finish _ = False"

text \<open>What follows a \<open>Take\<close> of an active turn: its end is reported once, beside quiet_act actions.\<close>

fun settles :: "('c, 's) act list \<Rightarrow> bool" where
  "settles [] = False"
| "settles (a # acts) = (if sends_finish a then list_all quiet_act acts else quiet_act a \<and> settles acts)"

fun reader_act :: "('c, 's) act \<Rightarrow> bool" where
  "reader_act (Take acts) = settles acts"
| "reader_act a = quiet_act a"

text \<open>
  A writer arms the flag and then reports the start of the turn, with nothing but quiet_act actions in
  between: \<open>writer_shape True\<close> is a writer that has armed it and not yet reported.
\<close>

fun writer_shape :: "bool \<Rightarrow> ('c, 's) act list \<Rightarrow> bool" where
  "writer_shape p [] = (\<not> p)"
| "writer_shape p (Arm # rest) = (\<not> p \<and> writer_shape True rest)"
| "writer_shape p (Send e # rest) =
     (if starts_turn e then p \<and> writer_shape False rest else ordinary e \<and> writer_shape p rest)"
| "writer_shape p (Take acts # rest) = (settles acts \<and> \<not> p \<and> writer_shape p rest)"
| "writer_shape p (If_Turn acts acts' # rest) =
     (\<not> p \<and> writer_shape False acts \<and> writer_shape False acts' \<and> writer_shape False rest)"
| "writer_shape p (a # rest) = writer_shape p rest"


section \<open>Turns are accounted for\<close>

text \<open>A thread that is in the middle of settling a turn still has to report its end.\<close>

definition in_settlement :: "bool \<Rightarrow> (('c, 's) act list \<Rightarrow> bool) \<Rightarrow> ('c, 's) act list \<Rightarrow> bool" where
  "in_settlement f P acts \<longleftrightarrow>
     (if f then \<exists>first rest. acts = first @ rest \<and> settles first \<and> P rest else P acts)"

lemma in_settlement_simps [simp]:
  "in_settlement False P acts = P acts"
  "settles first \<Longrightarrow> P rest \<Longrightarrow> in_settlement True P (first @ rest)"
  by (auto simp: in_settlement_def)

definition started :: "driver_event list \<Rightarrow> nat" where
  "started events = length (filter starts_turn events)"

definition finished :: "driver_event list \<Rightarrow> nat" where
  "finished events = length (filter finishes_turn events)"

definition exits_sent :: "driver_event list \<Rightarrow> nat" where
  "exits_sent events = length (filter exit_event events)"

definition accounts :: "bool \<Rightarrow> bool \<Rightarrow> bool \<Rightarrow> ('c, 's) threads \<Rightarrow> bool" where
  "accounts f f' p th \<longleftrightarrow>
     in_settlement f (list_all reader_act) (th_reader th) \<and>
     in_settlement f' (writer_shape p) (th_writer th) \<and> (f' \<longrightarrow> \<not> p) \<and>
     finished (th_sent th) + of_bool f + of_bool f' + of_bool (th_turn th) \<le> started (th_sent th) + of_bool p \<and>
     exits_sent (th_sent th) = of_bool (th_exited th)"

definition turns_accounted :: "('c, 's) threads \<Rightarrow> bool" where
  "turns_accounted th \<longleftrightarrow> (\<exists>f f' p. accounts f f' p th)"

lemma event_counts [simp]:
  "started [] = 0" "finished [] = 0" "exits_sent [] = 0"
  "started (es @ es') = started es + started es'"
  "finished (es @ es') = finished es + finished es'"
  "exits_sent (es @ es') = exits_sent es + exits_sent es'"
  "started (e # es) = of_bool (starts_turn e) + started es"
  "finished (e # es) = of_bool (finishes_turn e) + finished es"
  "exits_sent (e # es) = of_bool (exit_event e) + exits_sent es"
  by (simp_all add: started_def finished_def exits_sent_def)

lemma ordinary_counts: "list_all ordinary es \<Longrightarrow> started es = 0 \<and> finished es = 0 \<and> exits_sent es = 0"
  by (induction es) (auto simp: ordinary_def)

lemma writer_shape_append:
  "writer_shape p acts \<Longrightarrow> writer_shape False rest \<Longrightarrow> writer_shape p (acts @ rest)"
  by (induction p acts rule: writer_shape.induct) (auto split: if_splits)

lemma writer_shape_Cons_quiet: "quiet_act a \<Longrightarrow> writer_shape p (a # rest) \<longleftrightarrow> writer_shape p rest"
  by (cases a) (auto simp: ordinary_def)


lemma run_act_frame:
  assumes "run_act a th = (cont, th')"
  shows "th_reader th' = th_reader th" "th_writer th' = th_writer th" "th_exited th' = th_exited th"
    "th_reader_ended th' = th_reader_ended th" "th_stderr_ended th' = th_stderr_ended th"
  using assms by (cases a; auto)+

text \<open>The books of one action: what it adds to the ends is covered by what it adds to the starts.\<close>

definition balanced :: "bool \<Rightarrow> bool \<Rightarrow> ('c, 's) threads \<Rightarrow> bool \<Rightarrow> bool \<Rightarrow> ('c, 's) threads \<Rightarrow> bool" where
  "balanced f p th f' p' th' \<longleftrightarrow>
     finished (th_sent th') + of_bool f' + of_bool (th_turn th') + started (th_sent th) + of_bool p \<le>
     finished (th_sent th) + of_bool f + of_bool (th_turn th) + started (th_sent th') + of_bool p' \<and>
     exits_sent (th_sent th') = exits_sent (th_sent th)"

lemma quiet_balanced:
  "quiet_act a \<Longrightarrow> run_act a th = (cont, th') \<Longrightarrow> cont = [] \<and> balanced f p th f p th'"
  by (cases a) (auto simp: balanced_def ordinary_def)

lemma quiet_reader: "list_all quiet_act acts \<Longrightarrow> list_all reader_act acts"
proof (induction acts)
  case (Cons a acts)
  then show ?case by (cases a) auto
qed simp

lemma quiet_writer: "list_all quiet_act acts \<Longrightarrow> writer_shape p (acts @ rest) = writer_shape p rest"
  by (induction acts) (auto simp: writer_shape_Cons_quiet)

lemma settle_balanced:
  assumes "settles (a # acts)" "run_act a th = (cont, th')"
  shows "cont = [] \<and> (if sends_finish a then balanced True p th False p th' \<and> list_all quiet_act acts
    else balanced True p th True p th' \<and> settles acts)"
proof (cases "sends_finish a")
  case True
  then obtain e where "a = Send e" "finishes_turn e" by (cases a) auto
  moreover then have "\<not> starts_turn e \<and> \<not> exit_event e" by (cases e) auto
  ultimately show ?thesis using assms True by (auto simp: balanced_def)
next
  case False
  with assms quiet_balanced [OF _ assms(2), of True p] show ?thesis by simp
qed

lemma reader_run:
  assumes "in_settlement f (list_all reader_act) (a # rest)" "run_act a th = (cont, th')"
  shows "\<exists>f'. in_settlement f' (list_all reader_act) (cont @ rest) \<and> balanced f p th f' p th'"
proof (cases f)
  case True
  with assms obtain first more where *: "a # rest = first @ more" "settles first" "list_all reader_act more"
    by (auto simp: in_settlement_def)
  then obtain first' where first: "first = a # first'" "rest = first' @ more"
    by (cases first) auto
  have "in_settlement (\<not> sends_finish a) (list_all reader_act) (cont @ rest) \<and>
      balanced f p th (\<not> sends_finish a) p th'"
    using settle_balanced [OF *(2) [unfolded first] assms(2), of p] *(3) first True
    by (auto simp: quiet_reader split: if_splits)
  then show ?thesis by blast
next
  case False
  with assms(1) have "reader_act a" "list_all reader_act rest" by (auto simp: in_settlement_def)
  then show ?thesis
  proof (cases a)
    case (Take acts)
    with \<open>reader_act a\<close> \<open>list_all reader_act rest\<close> assms(2) False
    have "in_settlement (th_turn th) (list_all reader_act) (cont @ rest) \<and> balanced f p th (th_turn th) p th'"
      by (cases "th_turn th") (auto simp: balanced_def)
    then show ?thesis by blast
  qed (use quiet_balanced [OF _ assms(2), of False p] False \<open>list_all reader_act rest\<close> in
    \<open>auto simp: in_settlement_def intro!: exI [of _ False]\<close>)
qed

lemma writer_run:
  assumes "in_settlement f (writer_shape p) (a # rest)" "f \<longrightarrow> \<not> p" "run_act a th = (cont, th')"
  shows "\<exists>f' p'. in_settlement f' (writer_shape p') (cont @ rest) \<and> (f' \<longrightarrow> \<not> p') \<and> balanced f p th f' p' th'"
proof (cases f)
  case True
  with assms obtain first more where *: "a # rest = first @ more" "settles first" "writer_shape False more"
    by (auto simp: in_settlement_def)
  then obtain first' where first: "first = a # first'" "rest = first' @ more"
    by (cases first) auto
  have "in_settlement (\<not> sends_finish a) (writer_shape False) (cont @ rest) \<and>
      balanced f p th (\<not> sends_finish a) False th'"
    using settle_balanced [OF *(2) [unfolded first] assms(3), of False] *(3) first True assms(2)
    by (auto simp: quiet_writer split: if_splits)
  then show ?thesis by blast
next
  case False
  with assms(1) have shape: "writer_shape p (a # rest)" by (simp add: in_settlement_def)
  show ?thesis
  proof (cases "quiet_act a")
    case True
    with quiet_balanced [OF True assms(3), of False p] shape False
    have "in_settlement False (writer_shape p) (cont @ rest) \<and> balanced f p th False p th'"
      by (simp add: in_settlement_def writer_shape_Cons_quiet)
    then show ?thesis by blast
  next
    case not_quiet: False
    show ?thesis
    proof (cases a)
      case (Send e)
      with shape not_quiet have "e = TurnStarted" "p" "writer_shape False rest"
        by (cases e; auto simp: ordinary_def split: if_splits)+
      with Send assms(3) False have "in_settlement False (writer_shape False) (cont @ rest) \<and> balanced f p th False False th'"
        by (auto simp: in_settlement_def balanced_def)
      then show ?thesis by blast
    next
      case Arm
      with shape assms(3) False have "in_settlement False (writer_shape True) (cont @ rest) \<and> balanced f p th False True th'"
        by (auto simp: in_settlement_def balanced_def)
      then show ?thesis by blast
    next
      case (Take acts)
      with shape assms(3) False
      have "in_settlement (th_turn th) (writer_shape False) (cont @ rest) \<and> balanced f p th (th_turn th) False th'"
        by (cases "th_turn th") (auto simp: balanced_def)
      then show ?thesis by blast
    next
      case (If_Turn acts acts')
      with shape assms(3) False
      have "in_settlement False (writer_shape False) (cont @ rest) \<and> balanced f p th False False th'"
        by (auto simp: in_settlement_def balanced_def writer_shape_append)
      then show ?thesis by blast
    qed (use not_quiet in auto)
  qed
qed


section \<open>What readers share\<close>

text \<open>The loop over the blocks of a message.\<close>

fun over_blocks :: "(uuid \<Rightarrow> json \<Rightarrow> 's \<Rightarrow> driver_event list \<times> 's) \<Rightarrow> (nat \<Rightarrow> uuid) \<Rightarrow> nat \<Rightarrow> json list \<Rightarrow> 's \<Rightarrow>
    driver_event list \<times> 's" where
  "over_blocks f ids n [] s = ([], s)"
| "over_blocks f ids n (block # blocks) s =
     (let (events, s) = f (ids n) block s; (more_events, s) = over_blocks f ids (Suc n) blocks s in
      (events @ more_events, s))"

lemma ordinary_simps [simp]:
  "ordinary (TextDelta t)" "ordinary (ReasoningDelta t)" "ordinary (RichActivity a)" "ordinary (Connected c)"
  "ordinary (UsageUpdated u w)" "ordinary (Error m)" "ordinary (SteerAccepted m)" "ordinary (SteerRejected m r)"
  "ordinary (AutoTitleUpdated title)" "ordinary (AvailableCommands cs)" "ordinary (BackgroundWork work)"
  "ordinary (Permission p1 p2 p3 p4)" "ordinary (UserInputRequested i qs)"
  by (simp_all add: ordinary_def)

lemma over_blocks_ordinary:
  assumes "over_blocks f ids n blocks s = (es, s')"
    and "\<And>i b s es s'. f i b s = (es, s') \<Longrightarrow> list_all ordinary es"
  shows "list_all ordinary es"
  using assms(1)
proof (induction blocks arbitrary: n s es s')
  case (Cons block blocks)
  then show ?case by (auto simp: Let_def split: prod.splits dest: assms(2))
qed simp

lemma option_list_all [simp]: "list_all P (option_list x) \<longleftrightarrow> (\<forall>y. x = Some y \<longrightarrow> P y)"
  by (cases x) (simp_all add: option_list_def)

lemma sends_ordinary [simp]: "list_all ordinary es \<Longrightarrow> list_all reader_act (map Send es)"
  by (induction es) auto

section \<open>What a driver promises\<close>

text \<open>
  The contract between a driver's code and its threads: the reader reports no start of a turn and
  ends one only after it has taken the flag; the writer reports a start exactly when it has armed
  the flag.
\<close>

definition fresh_threads :: "('c, 's) threads \<Rightarrow> bool" where
  "fresh_threads th \<longleftrightarrow> (\<exists>s events. th = threads_start s events \<and> list_all ordinary events)"

lemma fresh_threads_start: "list_all ordinary events \<Longrightarrow> fresh_threads (threads_start s events)"
  by (auto simp: fresh_threads_def)

locale turn_driver =
  fixes read :: "'i \<Rightarrow> 's \<Rightarrow> ('c, 's) act list \<times> 's"
    and feed :: "rstring option \<Rightarrow> 'c \<Rightarrow> 's \<Rightarrow> ('c, 's) act list \<times> 's"
    and call :: "'u \<Rightarrow> 's \<Rightarrow> 'c list \<times> 's"
  assumes read_shape: "list_all reader_act (fst (read i s))"
    and write_shape: "writer_shape False (fst (feed failure c s))"
begin

abbreviation step :: "('c, 's) threads \<Rightarrow> ('c, 's) threads \<Rightarrow> bool" where
  "step \<equiv> driver_step read feed call"

lemma accounted_start: "fresh_threads th \<Longrightarrow> turns_accounted th"
  unfolding turns_accounted_def
  by (rule exI [of _ False])+ (auto simp: fresh_threads_def accounts_def threads_start_def ordinary_counts)

text \<open>A step of a thread that sends only ordinary events and leaves reader, writer and flag alone.\<close>

lemma accounted_send:
  assumes "turns_accounted th" "th_reader th' = th_reader th" "th_writer th' = th_writer th"
    "th_turn th' = th_turn th" "th_sent th' = th_sent th @ es" "started es = 0" "finished es = 0"
    "exits_sent es + of_bool (th_exited th) = of_bool (th_exited th')"
  shows "turns_accounted th'"
proof -
  from assms(1) obtain f f' p where "accounts f f' p th" by (auto simp: turns_accounted_def)
  with assms(2-) have "accounts f f' p th'" by (simp add: accounts_def)
  then show ?thesis by (auto simp: turns_accounted_def)
qed

lemma accounted_step: "step th th' \<Longrightarrow> turns_accounted th \<Longrightarrow> turns_accounted th'"
proof (induction rule: driver_step.induct)
  case (calls u th commands s)
  show ?case by (rule accounted_send [OF calls.prems, of _ "[]"])
      (use calls.hyps in \<open>simp_all\<close>)
next
  case (reader_takes th i acts s)
  then obtain f f' p where *: "accounts f f' p th" by (auto simp: turns_accounted_def)
  with reader_takes.hyps have "\<not> f" by (auto simp: accounts_def in_settlement_def)
  with * reader_takes.hyps read_shape [of i "th_state th"]
  have "accounts False f' p (th\<lparr>th_state := s, th_reader := acts\<rparr>)" by (simp add: accounts_def)
  then show ?case by (auto simp: turns_accounted_def)
next
  case (reader_acts th a rest cont th')
  then obtain f f' p where *: "accounts f f' p th" by (auto simp: turns_accounted_def)
  with reader_acts.hyps have "in_settlement f (list_all reader_act) (a # rest)" by (simp add: accounts_def)
  from reader_run [OF this reader_acts.hyps(2), of p] obtain f2 where
    "in_settlement f2 (list_all reader_act) (cont @ rest)" "balanced f p th f2 p th'" by blast
  with * run_act_frame [OF reader_acts.hyps(2)] have "accounts f2 f' p (th'\<lparr>th_reader := cont @ rest\<rparr>)"
    by (simp add: accounts_def balanced_def)
  then show ?case by (auto simp: turns_accounted_def)
next
  case (reader_ends th)
  show ?case by (rule accounted_send [OF reader_ends.prems, of _ "[]"])
      (use reader_ends.hyps in \<open>simp_all\<close>)
next
  case (writer_takes th c queue failure acts s)
  then obtain f f' p where *: "accounts f f' p th" by (auto simp: turns_accounted_def)
  with writer_takes.hyps have "\<not> f'" "\<not> p" by (auto simp: accounts_def in_settlement_def split: if_splits)
  with * writer_takes.hyps write_shape [of failure c "th_state th"]
  have "accounts f False False (th\<lparr>th_state := s, th_queue := queue, th_writer := acts\<rparr>)" by (simp add: accounts_def)
  then show ?case by (auto simp: turns_accounted_def)
next
  case (writer_acts th a rest cont th')
  then obtain f f' p where *: "accounts f f' p th" by (auto simp: turns_accounted_def)
  with writer_acts.hyps have "in_settlement f' (writer_shape p) (a # rest)" "f' \<longrightarrow> \<not> p" by (simp_all add: accounts_def)
  from writer_run [OF this writer_acts.hyps(2)] obtain f2 p2 where
    "in_settlement f2 (writer_shape p2) (cont @ rest)" "f2 \<longrightarrow> \<not> p2" "balanced f' p th f2 p2 th'" by blast
  with * run_act_frame [OF writer_acts.hyps(2)] have "accounts f f2 p2 (th'\<lparr>th_writer := cont @ rest\<rparr>)"
    by (simp add: accounts_def balanced_def)
  then show ?case by (auto simp: turns_accounted_def)
next
  case (stderr_ends th message)
  show ?case by (rule accounted_send [OF stderr_ends.prems, of _ "map Error (option_list message)"])
      (use stderr_ends.hyps in \<open>simp_all add: option_list_def split: option.splits\<close>)
next
  case (exits th message)
  show ?case by (rule accounted_send [OF exits.prems, of _ "map Error (option_list message) @ [ProcessExited]"])
      (use exits.hyps in \<open>simp_all add: option_list_def split: option.splits\<close>)
next
  case (title_looked_up th n found t title)
  show ?case by (rule accounted_send [OF title_looked_up.prems, of _ "map (\<lambda>t. AutoTitleUpdated (Some t)) (option_list title)"])
      (use title_looked_up.hyps in \<open>simp_all add: option_list_def split: option.splits\<close>)
qed

lemma accounted: "step\<^sup>*\<^sup>* th th' \<Longrightarrow> fresh_threads th \<Longrightarrow> turns_accounted th'"
  by (induction rule: rtranclp_induct) (auto intro: accounted_start accounted_step)

text \<open>
  A turn is finished at most as often as it was started; a report of its start may still be on its
  way only while the writer is busy. The end of the process is reported once.
\<close>

theorem turns_end_once:
  assumes "step\<^sup>*\<^sup>* th th'" "fresh_threads th"
  shows "finished (th_sent th') \<le> started (th_sent th') + of_bool (th_writer th' \<noteq> [])"
    "exits_sent (th_sent th') = of_bool (th_exited th')"
proof -
  from accounted [OF assms] obtain f f' p where *: "accounts f f' p th'" by (auto simp: turns_accounted_def)
  then have "p \<longrightarrow> th_writer th' \<noteq> []" by (auto simp: accounts_def in_settlement_def split: if_splits)
  with * show "finished (th_sent th') \<le> started (th_sent th') + of_bool (th_writer th' \<noteq> [])"
    by (cases p) (auto simp: accounts_def)
  from * show "exits_sent (th_sent th') = of_bool (th_exited th')" by (simp add: accounts_def)
qed

end


section \<open>What may be queued and written\<close>

text \<open>\<open>P\<close> of the commands an action queues, \<open>Q\<close> of the lines it writes.\<close>

fun confined_act :: "('c \<Rightarrow> bool) \<Rightarrow> (json \<Rightarrow> bool) \<Rightarrow> ('c, 's) act \<Rightarrow> bool" where
  "confined_act P Q (Queue c) = P c"
| "confined_act P Q (Write_Line j) = Q j"
| "confined_act P Q (Take acts) = list_all (confined_act P Q) acts"
| "confined_act P Q (If_Turn acts acts') = (list_all (confined_act P Q) acts \<and> list_all (confined_act P Q) acts')"
| "confined_act P Q _ = True"

definition all_confined :: "('c \<Rightarrow> bool) \<Rightarrow> (json \<Rightarrow> bool) \<Rightarrow> ('c, 's) threads \<Rightarrow> bool" where
  "all_confined P Q th \<longleftrightarrow> list_all (confined_act P Q) (th_reader th) \<and> list_all (confined_act P Q) (th_writer th) \<and>
     list_all P (th_queue th) \<and> list_all Q (th_written th)"

lemma run_act_confined:
  "run_act a th = (cont, th') \<Longrightarrow> confined_act P Q a \<Longrightarrow> list_all P (th_queue th) \<Longrightarrow> list_all Q (th_written th) \<Longrightarrow>
     list_all (confined_act P Q) cont \<and> list_all P (th_queue th') \<and> list_all Q (th_written th')"
  by (cases a) (auto split: if_splits)

locale confined_driver =
  fixes read :: "'i \<Rightarrow> 's \<Rightarrow> ('c, 's) act list \<times> 's"
    and feed :: "rstring option \<Rightarrow> 'c \<Rightarrow> 's \<Rightarrow> ('c, 's) act list \<times> 's"
    and call :: "'u \<Rightarrow> 's \<Rightarrow> 'c list \<times> 's"
    and P :: "'c \<Rightarrow> bool" and Q :: "json \<Rightarrow> bool"
  assumes read_confined: "list_all (confined_act P Q) (fst (read i s))"
    and write_confined: "P c \<Longrightarrow> list_all (confined_act P Q) (fst (feed failure c s))"
    and call_confined: "list_all P (fst (call u s))"
begin

lemma confined_step: "driver_step read feed call th th' \<Longrightarrow> all_confined P Q th \<Longrightarrow> all_confined P Q th'"
proof (induction rule: driver_step.induct)
  case (calls u th commands s)
  then show ?case using call_confined [of u "th_state th"] by (simp add: all_confined_def)
next
  case (reader_takes th i acts s)
  then show ?case using read_confined [of i "th_state th"] by (simp add: all_confined_def)
next
  case (reader_acts th a rest cont th')
  then show ?case using run_act_frame [OF reader_acts.hyps(2)] run_act_confined [OF reader_acts.hyps(2), of P Q]
    by (simp add: all_confined_def)
next
  case (writer_takes th c queue failure acts s)
  then show ?case using write_confined [of c failure "th_state th"] by (simp add: all_confined_def)
next
  case (writer_acts th a rest cont th')
  then show ?case using run_act_frame [OF writer_acts.hyps(2)] run_act_confined [OF writer_acts.hyps(2), of P Q]
    by (simp add: all_confined_def)
qed (simp_all add: all_confined_def)

lemma written_confined:
  assumes "(driver_step read feed call)\<^sup>*\<^sup>* th th'" "fresh_threads th" "j \<in> set (th_written th')"
  shows "Q j"
proof -
  from assms(2) have "all_confined P Q th" by (auto simp: fresh_threads_def threads_start_def all_confined_def)
  with assms(1) have "all_confined P Q th'" by (induction rule: rtranclp_induct) (auto intro: confined_step)
  with assms(3) show ?thesis by (auto simp: all_confined_def list_all_iff)
qed

end

section \<open>For concrete runs\<close>

definition demo_texts :: driver_texts where
  "demo_texts = \<lparr>dt_lib = plain_lib, dt_tr = (\<lambda>k _. k)\<rparr>"

definition demo_options :: "provider_resume_cursor option \<Rightarrow> runtime_mode \<Rightarrow> start_options" where
  "demo_options cursor mode =
     \<lparr>do_binary = [], do_cwd = [], do_mode = mode, do_interaction_mode = Interaction_Build, do_model = None,
      do_reasoning_effort = None, do_service_tier = None, do_context_window = None, do_agent_preset = None,
      do_computer_use_enabled = False, do_provider_cursor = cursor, do_task_credential = None\<rparr>"

text \<open>The owner sends one command and the writer takes it up.\<close>

lemma command_taken_up:
  assumes "call u s = ([c], s)" "feed failure c s = (acts, s')"
  shows "(driver_step read feed call)\<^sup>*\<^sup>* (threads_start s events)
    ((threads_start s' events)\<lparr>th_writer := acts\<rparr>)"
proof -
  let ?th = "threads_start s events"
  have "driver_step read feed call ?th (?th\<lparr>th_state := s, th_queue := th_queue ?th @ [c]\<rparr>)"
    using assms(1) by (intro driver_step.calls [where u = u]) (simp add: threads_start_def)
  moreover have "driver_step read feed call (?th\<lparr>th_state := s, th_queue := th_queue ?th @ [c]\<rparr>)
      ((threads_start s' events)\<lparr>th_writer := acts\<rparr>)"
    using driver_step.writer_takes [where th = "?th\<lparr>th_state := s, th_queue := th_queue ?th @ [c]\<rparr>" and
        c = c and queue = "[]" and failure = failure and feed = feed and acts = acts and s = s'] assms(2)
    by (simp add: threads_start_def)
  ultimately show ?thesis by simp
qed

text \<open>The writer performs its next action.\<close>

lemma writer_next:
  assumes "(driver_step read feed call)\<^sup>*\<^sup>* th (th'\<lparr>th_writer := a # rest\<rparr>)"
    "run_act a (th'\<lparr>th_writer := a # rest\<rparr>) = (cont, th'')"
  shows "(driver_step read feed call)\<^sup>*\<^sup>* th (th''\<lparr>th_writer := cont @ rest\<rparr>)"
  using assms(1) by (rule rtranclp.rtrancl_into_rtrancl) (rule driver_step.writer_acts [OF _ assms(2)], simp)

end
