(* ===== verification/Amp_Session.thy ===== *)
theory Amp_Session
  imports Driver_Support Task_Store Task_Titles
begin

text \<open>
  Branches of Amp conversations (\<open>crates/shidou-core/src/amp_session.rs\<close>). Amp cannot fork a
  thread, so a branch is a new thread whose first prompt carries the history it continues: the
  envelope of that prompt, how it is read back when the branch itself is exported, and the turns a
  fork keeps. Running the \<open>amp\<close> command is outside; what it printed is an argument.
\<close>

section \<open>The envelope of a branch's first prompt\<close>

definition context_prefix :: rstring where "context_prefix = lit ''SHIDOU_AMP_BRANCH_CONTEXT_V1 ''"

definition context_guidance :: rstring where
  "context_guidance = 10 # lit ''SHIDOU_AMP_BRANCH_INSTRUCTIONS_V1'' @ 10 #
     lit ''Treat the preceding JSON array as the complete prior Amp message history for this branch. '' @
     lit ''Continue from that history without mentioning this envelope, and answer only the current prompt below.'' @ [10]"

definition prompt_prefix :: rstring where "prompt_prefix = lit ''SHIDOU_AMP_CURRENT_PROMPT_V1 ''"

text \<open>\<open>str::len\<close> counts bytes; \<open>split_bytes\<close> is \<open>split_at\<close>, which needs a character boundary.\<close>

definition byte_len :: "rstring \<Rightarrow> nat" where
  "byte_len s = length (utf8 s)"

fun split_bytes :: "nat \<Rightarrow> rstring \<Rightarrow> (rstring \<times> rstring) option" where
  "split_bytes 0 s = Some ([], s)"
| "split_bytes n [] = None"
| "split_bytes n (c # s) = (let k = length (utf8_char c) in
     if k \<le> n then map_option (\<lambda>(a, b). (c # a, b)) (split_bytes (n - k) s) else None)"

definition prompt_with_fork_context :: "rstring \<Rightarrow> rstring \<Rightarrow> rstring" where
  "prompt_with_fork_context ctx prompt =
     context_prefix @ dec (byte_len ctx) @ 10 # ctx @ context_guidance @
     prompt_prefix @ dec (byte_len prompt) @ 10 # prompt"

definition decode_seeded_prompt :: "rstring \<Rightarrow> rstring + (rstring \<times> rstring) option" where
  "decode_seeded_prompt s =
    (case strip_prefix context_prefix s of
       None \<Rightarrow> Inr None
     | Some rest \<Rightarrow> (case split_once_char 10 rest of
         None \<Rightarrow> Inl (lit ''an Amp branch prompt has an invalid context header'')
       | Some (context_len, rest) \<Rightarrow> (case parse_usize context_len of
           None \<Rightarrow> Inl (lit ''an Amp branch prompt has an invalid context length'')
         | Some context_len \<Rightarrow> (case split_bytes context_len rest of
             None \<Rightarrow> Inl (lit ''an Amp branch prompt contains truncated context'')
           | Some (ctx, rest) \<Rightarrow> (case strip_prefix context_guidance rest of
               None \<Rightarrow> Inl (lit ''an Amp branch prompt is missing its context instructions'')
             | Some rest \<Rightarrow> (case strip_prefix prompt_prefix rest of
                 None \<Rightarrow> Inl (lit ''an Amp branch prompt is missing its current-prompt header'')
               | Some rest \<Rightarrow> (case split_once_char 10 rest of
                   None \<Rightarrow> Inl (lit ''an Amp branch prompt has an invalid current-prompt header'')
                 | Some (prompt_len, prompt) \<Rightarrow> (case parse_usize prompt_len of
                     None \<Rightarrow> Inl (lit ''an Amp branch prompt has an invalid current-prompt length'')
                   | Some prompt_len \<Rightarrow>
                       if byte_len prompt \<noteq> prompt_len
                       then Inl (lit ''an Amp branch prompt contains truncated current-prompt text'')
                       else Inr (Some (ctx, prompt))))))))))"

section \<open>Messages of a thread\<close>

definition is_user_prompt :: "json \<Rightarrow> bool" where
  "is_user_prompt message \<longleftrightarrow> str_at [''role''] message = Some (lit ''user'') \<and>
     (case array_at [''content''] message of
        None \<Rightarrow> False
      | Some content \<Rightarrow> list_ex (\<lambda>part. str_at [''type''] part \<noteq> None \<and>
          str_at [''type''] part \<noteq> Some (lit ''tool_result'')) content)"

definition text_of_part :: "json \<Rightarrow> rstring option" where
  "text_of_part part = (if has_type ''text'' part then str_at [''text''] part else None)"

definition user_prompt_text :: "json \<Rightarrow> rstring option" where
  "user_prompt_text message =
     (if is_user_prompt message
      then Option.bind (array_at [''content''] message) (find_map text_of_part) else None)"

definition replace_first_text :: "json \<Rightarrow> rstring \<Rightarrow> rstring + json" where
  "replace_first_text message s =
     (case array_at [''content''] message of
        Some content \<Rightarrow>
          if list_ex (has_type ''text'') content
          then Inr (set_key ''content''
            (JArray (update_first (has_type ''text'') (set_key ''text'' (JString s)) content)) message)
          else Inl (lit ''the seeded Amp prompt omitted its text content'')
      | None \<Rightarrow> Inl (lit ''the seeded Amp prompt omitted its text content''))"

definition parse_messages :: "lib \<Rightarrow> rstring \<Rightarrow> json list option" where
  "parse_messages L s = Option.bind (lib_from_str L s) as_array"

text \<open>
  A branch of a branch carries a history that itself starts with an envelope, so reading a thread
  recurses into what its texts encode. Not returning is \<open>None\<close>.
\<close>

partial_function (option) expand_seeded_messages :: "lib \<Rightarrow> json list \<Rightarrow> (rstring + json list) option" where
  "expand_seeded_messages L messages =
     (case messages of
        [] \<Rightarrow> Some (Inr [])
      | message # rest \<Rightarrow>
          Option.bind
            (case user_prompt_text message of
               None \<Rightarrow> Some (Inr [message])
             | Some s \<Rightarrow> (case decode_seeded_prompt s of
                 Inl error \<Rightarrow> Some (Inl error)
               | Inr None \<Rightarrow> Some (Inr [message])
               | Inr (Some (ctx, prompt)) \<Rightarrow> (case parse_messages L ctx of
                   None \<Rightarrow> Some (Inl (lit ''an Amp branch contains invalid exported context''))
                 | Some nested \<Rightarrow> Option.bind (expand_seeded_messages L nested) (\<lambda>nested. case nested of
                     Inl error \<Rightarrow> Some (Inl error)
                   | Inr nested \<Rightarrow> (case replace_first_text message prompt of
                       Inl error \<Rightarrow> Some (Inl error)
                     | Inr current \<Rightarrow> Some (Inr (nested @ [current])))))))
            (\<lambda>first. case first of
               Inl error \<Rightarrow> Some (Inl error)
             | Inr first \<Rightarrow> Option.bind (expand_seeded_messages L rest) (\<lambda>rest. case rest of
                 Inl error \<Rightarrow> Some (Inl error)
               | Inr rest \<Rightarrow> Some (Inr (first @ rest)))))"

definition logical_messages :: "lib \<Rightarrow> json \<Rightarrow> rstring option \<Rightarrow> (rstring + json list) option" where
  "logical_messages L export pending_context =
     (case array_at [''messages''] export of
        None \<Rightarrow> Some (Inl (lit ''Amp's thread export omitted its messages''))
      | Some [] \<Rightarrow> (case pending_context of
          None \<Rightarrow> Some (Inr [])
        | Some ctx \<Rightarrow> (case parse_messages L ctx of
            None \<Rightarrow> Some (Inl (lit ''the pending Amp branch context is no longer readable''))
          | Some messages \<Rightarrow> Some (Inr messages)))
      | Some exported \<Rightarrow> expand_seeded_messages L exported)"

section \<open>Forking\<close>

text \<open>The loop over the messages: \<open>turns\<close> prompts were kept so far.\<close>

fun retain_from :: "nat \<Rightarrow> nat \<Rightarrow> json list \<Rightarrow> nat \<times> json list" where
  "retain_from retained_turns turns [] = (turns, [])"
| "retain_from retained_turns turns (message # rest) =
     (if is_user_prompt message \<and> turns = retained_turns then (turns, [])
      else map_prod id (Cons message)
        (retain_from retained_turns (if is_user_prompt message then Suc turns else turns) rest))"

definition retain_through_turn :: "json list \<Rightarrow> nat \<Rightarrow> rstring + json list" where
  "retain_through_turn messages retained_turns =
     (case retain_from retained_turns 0 messages of
        (turns, retained) \<Rightarrow>
          if turns < retained_turns
          then Inl (lit ''Amp has only '' @ dec turns @ lit '' native turns, but Shidou needs '' @ dec retained_turns)
          else Inr retained)"

text \<open>The id \<open>amp threads new\<close> printed.\<close>

definition branch_thread_id :: "rstring \<Rightarrow> rstring option" where
  "branch_thread_id stdout =
     List.find (\<lambda>l. starts_with (lit ''T-'') l \<and> \<not> list_ex is_whitespace l) (map trim (lines stdout))"

definition fork_session_at_turn ::
    "lib \<Rightarrow> (rstring + json) \<Rightarrow> (rstring + rstring) \<Rightarrow> rstring option \<Rightarrow> nat \<Rightarrow>
     (rstring + provider_resume_cursor) option" where
  "fork_session_at_turn L export created pending_context retained_turns =
     (case export of
        Inl error \<Rightarrow> Some (Inl error)
      | Inr export \<Rightarrow> Option.bind (logical_messages L export pending_context) (\<lambda>messages. case messages of
          Inl error \<Rightarrow> Some (Inl error)
        | Inr messages \<Rightarrow> (case retain_through_turn messages retained_turns of
            Inl error \<Rightarrow> Some (Inl error)
          | Inr retained \<Rightarrow> (case created of
              Inl error \<Rightarrow> Some (Inl error)
            | Inr stdout \<Rightarrow> (case branch_thread_id stdout of
                None \<Rightarrow> Some (Inl (lit ''Amp returned no branch thread ID''))
              | Some thread_id \<Rightarrow> Some (Inr (Amp_Cursor thread_id
                  (if retained = [] then None else Some (lib_display L (JArray retained))))))))))"

definition title_from_thread_list :: "json \<Rightarrow> rstring \<Rightarrow> rstring option" where
  "title_from_thread_list threads thread_id =
     Option.bind (as_array threads) (find_map (\<lambda>thread.
       if str_at [''id''] thread = Some thread_id then trimmed_str (str_at [''title''] thread) else None))"

section \<open>Reading an envelope back\<close>

lemma byte_len_simps [simp]: "byte_len [] = 0" "byte_len (c # s) = length (utf8_char c) + byte_len s"
  by (simp_all add: byte_len_def utf8_def)

lemma utf8_char_nonempty: "0 < length (utf8_char c)"
  by (simp add: utf8_char_def)

lemma split_bytes_append: "split_bytes (byte_len a) (a @ b) = Some (a, b)"
proof (induction a)
  case (Cons c a)
  obtain n where n: "byte_len (c # a) = Suc n" using utf8_char_nonempty [of c] by (cases "byte_len (c # a)") auto
  with Cons show ?case unfolding n append_Cons split_bytes.simps Let_def by (simp flip: n)
qed simp

lemma split_once_dec: "split_once_char 10 (dec n @ 10 # s) = Some (dec n, s)"
proof -
  have "\<forall>c\<in>set (dec n). c \<noteq> 10" by (auto dest: dec_digits simp: is_ascii_digit_def)
  then show ?thesis by (simp add: split_once_char_def takeWhile_append dropWhile_append)
qed

lemma decode_prompt_with_fork_context:
  assumes "byte_len ctx < usize_limit" "byte_len prompt < usize_limit"
  shows "decode_seeded_prompt (prompt_with_fork_context ctx prompt) = Inr (Some (ctx, prompt))"
proof -
  have 1: "strip_prefix context_prefix (prompt_with_fork_context ctx prompt) =
      Some (dec (byte_len ctx) @ 10 # ctx @ context_guidance @ prompt_prefix @ dec (byte_len prompt) @ 10 # prompt)"
    by (simp add: prompt_with_fork_context_def)
  show ?thesis
    using assms by (simp add: decode_seeded_prompt_def 1 split_once_dec parse_dec split_bytes_append)
qed

text \<open>A message whose text is no envelope stands for itself.\<close>

definition unseeded :: "json \<Rightarrow> bool" where
  "unseeded message \<longleftrightarrow> (case user_prompt_text message of
     None \<Rightarrow> True | Some s \<Rightarrow> decode_seeded_prompt s = Inr None)"

lemma expand_unseeded:
  "list_all unseeded messages \<Longrightarrow> expand_seeded_messages L messages = Some (Inr messages)"
proof (induction messages)
  case Nil
  then show ?case by (simp add: expand_seeded_messages.simps)
next
  case (Cons message rest)
  then have "unseeded message" by simp
  with Cons show ?case
    by (subst expand_seeded_messages.simps)
      (auto simp: unseeded_def split: option.splits sum.splits)
qed

lemma retain_from_Some:
  "retain_from n k messages = (turns, retained) \<Longrightarrow> k \<le> n \<Longrightarrow>
     prefix retained messages \<and> turns = k + length (filter is_user_prompt retained) \<and> turns \<le> n"
proof (induction messages arbitrary: k turns retained)
  case (Cons m ms)
  then show ?case
    by (cases "is_user_prompt m \<and> k = n")
      (auto simp: map_prod_def split: prod.splits if_splits dest!: Cons.IH)
qed simp

lemma retain_through_turn_Inr:
  "retain_through_turn messages n = Inr retained \<Longrightarrow>
     prefix retained messages \<and> length (filter is_user_prompt retained) = n"
  by (auto simp: retain_through_turn_def split: prod.splits if_splits dest!: retain_from_Some)

lemma prefix_list_all: "prefix xs ys \<Longrightarrow> list_all P ys \<Longrightarrow> list_all P xs"
  by (auto simp: prefix_def)

text \<open>Putting the prompt in the place of its envelope.\<close>

lemma set_text_type: "str_at [''type''] (set_key ''text'' new v) = str_at [''type''] v"
  by (simp add: str_at_def value_get_set_key)

lemma has_type_object: "has_type name v \<Longrightarrow> as_object v \<noteq> None"
  by (auto simp: has_type_def str_at_def value_get_def split: option.splits bind_splits)

lemma types_after_update:
  "map (str_at [''type'']) (update_first P (set_key ''text'' new) parts) = map (str_at [''type'']) parts"
  by (induction parts) (simp_all add: set_text_type)

lemma list_ex_map_eq: "map f xs = map f ys \<Longrightarrow> list_ex (\<lambda>x. P (f x)) xs = list_ex (\<lambda>x. P (f x)) ys"
  using list_ex_iff by (metis (mono_tags, lifting) list.pred_map list_ex_length length_map nth_map)

lemma text_after_update:
  "list_ex (has_type ''text'') parts \<Longrightarrow>
     find_map text_of_part (update_first (has_type ''text'') (set_key ''text'' (JString s)) parts) = Some s"
proof (induction parts)
  case (Cons v parts)
  show ?case
  proof (cases "has_type ''text'' v")
    case True
    from has_type_object [OF True] True have "text_of_part (set_key ''text'' (JString s) v) = Some s"
      by (auto simp: text_of_part_def has_type_def str_at_def value_get_set_key)
    with True show ?thesis by simp
  next
    case False
    with Cons show ?thesis by (simp add: text_of_part_def)
  qed
qed simp

lemma find_map_text: "find_map text_of_part parts = Some s \<Longrightarrow> list_ex (has_type ''text'') parts"
  by (induction parts) (auto simp: text_of_part_def split: option.splits if_splits)

lemma replace_prompt:
  assumes "user_prompt_text message = Some s"
  shows "\<exists>current. replace_first_text message prompt = Inr current \<and> user_prompt_text current = Some prompt"
proof -
  from assms have m: "is_user_prompt message" and "Option.bind (array_at [''content''] message) (find_map text_of_part) = Some s"
    by (simp_all add: user_prompt_text_def split: if_splits)
  then obtain parts where parts: "array_at [''content''] message = Some parts" "find_map text_of_part parts = Some s"
    by (auto split: bind_splits)
  let ?parts = "update_first (has_type ''text'') (set_key ''text'' (JString prompt)) parts"
  let ?current = "set_key ''content'' (JArray ?parts) message"
  have some_text: "list_ex (has_type ''text'') parts" using find_map_text [OF parts(2)] .
  have "as_object message \<noteq> None" using parts(1) by (auto simp: array_at_def value_get_def split: bind_splits)
  then have get: "array_at [''content''] ?current = Some ?parts" "str_at [''role''] ?current = str_at [''role''] message"
    by (auto simp: array_at_def str_at_def value_get_set_key)
  have "is_user_prompt ?current"
    using m list_ex_map_eq [OF types_after_update, of "\<lambda>t. t \<noteq> None \<and> t \<noteq> Some (lit ''tool_result'')"
        "has_type ''text''" "JString prompt" parts]
    by (simp add: is_user_prompt_def get parts(1))
  then have "user_prompt_text ?current = Some prompt"
    by (simp add: user_prompt_text_def get text_after_update [OF some_text])
  moreover have "replace_first_text message prompt = Inr ?current"
    using some_text by (simp add: replace_first_text_def parts(1))
  ultimately show ?thesis by blast
qed

lemma expand_seeded_Cons:
  assumes "user_prompt_text message = Some s" "decode_seeded_prompt s = Inr (Some (ctx, prompt))"
    "parse_messages L ctx = Some nested" "expand_seeded_messages L nested = Some (Inr history)"
    "replace_first_text message prompt = Inr current" "expand_seeded_messages L rest = Some (Inr rest')"
  shows "expand_seeded_messages L (message # rest) = Some (Inr (history @ current # rest'))"
  by (subst expand_seeded_messages.simps) (simp add: assms)


definition demo_amp_message :: "rstring \<Rightarrow> rstring \<Rightarrow> json" where
  "demo_amp_message role s = JObject [(lit ''role'', JString role),
     (lit ''content'', JArray [JObject [(lit ''type'', JString (lit ''text'')), (lit ''text'', JString s)]])]"

text \<open>A thread of one message; its JSON text is abbreviated.\<close>

definition demo_amp_lib :: lib where
  "demo_amp_lib = plain_lib\<lparr>
     lib_display := (\<lambda>v. if v = JArray [] then lit ''[]'' else lit ''[m]''),
     lib_from_str := (\<lambda>s. Some (JArray (if s = lit ''[]'' then [] else [demo_amp_message (lit ''user'') (lit ''one'')])))\<rparr>"


end
