(* ===== verification/Amp_Driver.thy ===== *)
theory Amp_Driver
  imports Driver_Threads Amp_Session Orchestration Daemon_State
begin

text \<open>
  The driver of Amp (\<open>crates/shidou-core/src/driver/amp.rs\<close>): how its process is started, what its
  reader makes of one line and its writer of one command. The child process, its pipes and the
  signal of \<open>cancel\<close> are outside.
\<close>

section \<open>Start\<close>

datatype amp_command = Amp_Prompt rstring | Amp_Steer rstring | Amp_Shutdown

text \<open>The reader's tools and thread, the writer's history to replay, the caller's preamble.\<close>

record amp_state =
  am_tools :: "rstring \<rightharpoonup> activity_kind \<times> rstring"
  am_thread_id :: "rstring option"
  am_fork_context :: "rstring option"
  am_preamble :: "rstring option"

definition amp_args ::
    "rstring option \<Rightarrow> rstring option \<Rightarrow> rstring option \<Rightarrow> rstring option \<Rightarrow> rstring list" where
  "amp_args mode reasoning_effort service_tier thread_id =
     (case thread_id of Some thread_id \<Rightarrow> [lit ''threads'', lit ''continue'', thread_id] | None \<Rightarrow> []) @
     [lit ''--execute'', lit ''--stream-json-thinking'', lit ''--stream-json-input'',
      lit ''--dangerously-allow-all''] @
     (case mode of Some mode \<Rightarrow> [lit ''--mode'', mode] | None \<Rightarrow> []) @
     (case reasoning_effort of Some effort \<Rightarrow> [lit ''--effort'', effort] | None \<Rightarrow> []) @
     (if service_tier = Some (lit ''fast'') then [lit ''--fast''] else [])"

definition amp_resume ::
    "provider_resume_cursor option \<Rightarrow> rstring + rstring option \<times> rstring option" where
  "amp_resume cursor = (case cursor of
       None \<Rightarrow> Inr (None, None)
     | Some (Amp_Cursor thread_id fork_context) \<Rightarrow>
         Inr (if thread_id = [] then None else Some thread_id, fork_context)
     | Some cursor \<Rightarrow> Inl (lit ''cannot resume Amp from a '' @
         provider_display_name (cursor_provider cursor) @ lit '' cursor''))"

text \<open>The arguments of the process and its threads as they begin.\<close>

definition amp_start ::
    "rstring option \<Rightarrow> (uuid \<Rightarrow> rstring) \<Rightarrow> start_options \<Rightarrow>
     rstring + rstring list \<times> (amp_command, amp_state) threads" where
  "amp_start cli uuid_text options =
     (if do_mode options \<noteq> FullAccess \<or> do_interaction_mode options \<noteq> Interaction_Build
      then Inl (lit ''Amp currently supports Build with Full access only'')
      else case amp_resume (do_provider_cursor options) of
        Inl error \<Rightarrow> Inl error
      | Inr (thread_id, fork_context) \<Rightarrow>
          Inr (amp_args (do_model options) (do_reasoning_effort options) (do_service_tier options) thread_id,
            threads_start
              \<lparr>am_tools = Map.empty, am_thread_id = thread_id, am_fork_context = fork_context,
               am_preamble = first_prompt_preamble_new cli uuid_text (do_task_credential options) False\<rparr>
              (case thread_id of
                 Some thread_id \<Rightarrow> [Connected (Some (Amp_Cursor thread_id fork_context))]
               | None \<Rightarrow> [])))"

section \<open>The owner's calls\<close>

text \<open>\<open>None\<close> is the drop of the driver.\<close>

fun amp_call :: "driver_call option \<Rightarrow> amp_state \<Rightarrow> amp_command list \<times> amp_state" where
  "amp_call (Some (Call_Prompt prompt)) s =
     (case first_prompt_preamble_apply prompt (am_preamble s) of
        (prompt, pending) \<Rightarrow> ([Amp_Prompt prompt], s\<lparr>am_preamble := pending\<rparr>))"
| "amp_call (Some (Call_Steer prompt)) s = ([Amp_Steer prompt], s)"
| "amp_call None s = ([Amp_Shutdown], s)"
| "amp_call _ s = ([], s)"

section \<open>The writer\<close>

definition amp_transport_failed ::
    "driver_texts \<Rightarrow> driver_event list \<Rightarrow> rstring \<Rightarrow> (amp_command, amp_state) act list" where
  "amp_transport_failed T events summary =
     map Send events @ [Take [Send (TurnFinished False (Some summary))], Stop]"

definition amp_prompt_acts ::
    "driver_texts \<Rightarrow> rstring option \<Rightarrow> rstring \<Rightarrow> (amp_command, amp_state) act list" where
  "amp_prompt_acts T failure s =
     [Arm, Send TurnStarted] @
     (case failure of
        None \<Rightarrow> [Write_Line (JObject [(lit ''type'', JString (lit ''user'')), (lit ''message'', text_content s)])]
      | Some error \<Rightarrow> amp_transport_failed T
          [Error (trp T ''errors.provider_transport_write'' [(''provider'', lit ''Amp''), (''error'', error)])]
          (trp T ''errors.provider_receive_prompt'' [(''provider'', lit ''Amp'')]))"

definition amp_steer_acts ::
    "driver_texts \<Rightarrow> rstring option \<Rightarrow> rstring \<Rightarrow> (amp_command, amp_state) act list" where
  "amp_steer_acts T failure s =
     [If_Turn
       (case failure of
          None \<Rightarrow> [Write_Line (JObject [(lit ''type'', JString (lit ''user'')), (lit ''steer'', JBool True),
            (lit ''message'', text_content s)]), Send (SteerAccepted s)]
        | Some error \<Rightarrow> amp_transport_failed T
            [SteerRejected s (trp T ''errors.provider_transport_write''
               [(''provider'', lit ''Amp''), (''error'', error)]),
             Error (trp T ''errors.provider_transport_write_short'' [(''provider'', lit ''Amp'')])]
            (trp T ''errors.provider_stopped_receiving'' [(''provider'', lit ''Amp'')]))
       [Send (SteerRejected s (trp T ''errors.provider_no_active_turn'' [(''provider'', lit ''Amp'')]))]]"

fun amp_write ::
    "driver_texts \<Rightarrow> rstring option \<Rightarrow> amp_command \<Rightarrow> amp_state \<Rightarrow>
     (amp_command, amp_state) act list \<times> amp_state" where
  "amp_write T failure (Amp_Prompt s) st =
     (amp_prompt_acts T failure (case am_fork_context st of
          Some ctx \<Rightarrow> prompt_with_fork_context ctx s | None \<Rightarrow> s),
      st\<lparr>am_fork_context := None\<rparr>)"
| "amp_write T failure (Amp_Steer s) st = (amp_steer_acts T failure s, st)"
| "amp_write T failure Amp_Shutdown st = ([Stop], st)"

section \<open>The reader\<close>

text \<open>One block of an assistant's message: what it sends and the tools that are running.\<close>

definition amp_tool_title :: "driver_texts \<Rightarrow> json \<Rightarrow> rstring" where
  "amp_tool_title T block = unwrap_or (str_at [''name''] block) (tr (dt_lib T) ''activity.tool'')"

definition amp_assistant_block ::
    "driver_texts \<Rightarrow> uuid \<Rightarrow> json \<Rightarrow> amp_state \<Rightarrow> driver_event list \<times> amp_state" where
  "amp_assistant_block T aid block st =
     (if has_type ''text'' block then (map TextDelta (option_list (nonempty_str_at [''text''] block)), st)
      else if has_type ''thinking'' block
      then (map ReasoningDelta (option_list (nonempty_str_at [''thinking''] block)), st)
      else if has_type ''tool_use'' block then
        let tool = str_at [''id''] block;
            wire_title = amp_tool_title T block;
            kind = classify_tool wire_title;
            input = value_get block ''input'';
            title = unwrap_or (input_title input) wire_title in
        ([RichActivity (tool_activity (dt_lib T) aid tool kind title input None None False False)],
         case tool of Some i \<Rightarrow> st\<lparr>am_tools := (am_tools st)(i \<mapsto> (kind, title))\<rparr> | None \<Rightarrow> st)
      else ([], st))"

definition amp_tool_result ::
    "driver_texts \<Rightarrow> uuid \<Rightarrow> json \<Rightarrow> amp_state \<Rightarrow> driver_event list \<times> amp_state" where
  "amp_tool_result T aid block st =
     (if \<not> has_type ''tool_result'' block then ([], st)
      else
        let tool = str_at [''tool_use_id''] block;
            (kind, title) = unwrap_or (Option.bind tool (am_tools st)) (Tool, lit ''Tool'');
            failed = (bool_at [''is_error''] block = Some True);
            content = value_get block ''content'' in
        ([RichActivity (tool_activity (dt_lib T) aid tool kind title None content content failed True)],
         case tool of Some i \<Rightarrow> st\<lparr>am_tools := (am_tools st)(i := None)\<rparr> | None \<Rightarrow> st))"

definition amp_usage :: "json \<Rightarrow> driver_event list" where
  "amp_usage v =
     (if unwrap_or (value_get v ''parent_tool_use_id'') JNull \<noteq> JNull then []
      else map (\<lambda>tokens. UsageUpdated (Some tokens) None)
        (option_list (Option.bind (value_pointer [''message'', ''usage''] v) claude_context_tokens)))"

definition amp_handle_message ::
    "driver_texts \<Rightarrow> (nat \<Rightarrow> uuid) \<Rightarrow> json \<Rightarrow> amp_state \<Rightarrow> (amp_command, amp_state) act list \<times> amp_state" where
  "amp_handle_message T ids v st =
     (if has_type ''system'' v \<and> str_at [''subtype''] v = Some (lit ''init'') then
        (case str_at [''session_id''] v of
           Some i \<Rightarrow> ([Send (Connected (Some (Amp_Cursor i None)))], st\<lparr>am_thread_id := Some i\<rparr>)
         | None \<Rightarrow> ([], st))
      else if has_type ''assistant'' v then
        let (events, st) = over_blocks (amp_assistant_block T) ids 0
              (unwrap_or (array_at [''message'', ''content''] v) []) st in
        (map Send (amp_usage v @ events) @
         (if str_at [''message'', ''stop_reason''] v = Some (lit ''end_turn'')
          then [Take (Send (TurnFinished True None) #
            (if am_thread_id st \<noteq> None then [Refresh 2] else []))] else []), st)
      else if has_type ''user'' v then
        let (events, st) = over_blocks (amp_tool_result T) ids 0
              (unwrap_or (array_at [''message'', ''content''] v) []) st in
        (map Send events, st)
      else if has_type ''result'' v \<and> bool_at [''is_error''] v = Some True then
        ([Send (Error (unwrap_or (str_at [''error''] v) (lit ''Amp reported an error'')))], st)
      else if has_type ''system'' v then (map (Send \<circ> Error) (option_list (str_at [''error''] v)), st)
      else ([], st))"

definition amp_read ::
    "driver_texts \<Rightarrow> driver_line \<Rightarrow> amp_state \<Rightarrow> (amp_command, amp_state) act list \<times> amp_state" where
  "amp_read T line st =
     (if trim (dl_text line) = [] then ([], st)
      else case lib_from_str (dt_lib T) (dl_text line) of
        None \<Rightarrow> ([], st)
      | Some v \<Rightarrow> amp_handle_message T (dl_ids line) v st)"


section \<open>Turns\<close>

lemma amp_blocks_ordinary:
  "amp_assistant_block T i b s = (es, s') \<Longrightarrow> list_all ordinary es"
  "amp_tool_result T i b s = (es, s') \<Longrightarrow> list_all ordinary es"
  by (auto simp: amp_assistant_block_def amp_tool_result_def list.pred_map Let_def split: prod.splits if_splits)

lemma amp_handle_message_shape: "list_all reader_act (fst (amp_handle_message T ids v st))"
proof -
  have "over_blocks (amp_assistant_block T) ids 0 blocks st = (es, st') \<Longrightarrow> list_all ordinary es"
    "over_blocks (amp_tool_result T) ids 0 blocks st = (es, st') \<Longrightarrow> list_all ordinary es" for blocks es st'
    by (erule over_blocks_ordinary, erule amp_blocks_ordinary)+
  then show ?thesis
    unfolding amp_handle_message_def by (simp add: amp_usage_def list.pred_map comp_def split: prod.split option.split)
qed

lemma amp_read_shape: "list_all reader_act (fst (amp_read T line st))"
  using amp_handle_message_shape by (simp add: amp_read_def split: option.splits)

lemma amp_write_shape: "writer_shape False (fst (amp_write T failure c st))"
  by (cases c) (auto simp: amp_prompt_acts_def amp_steer_acts_def amp_transport_failed_def split: option.splits)

interpretation amp: turn_driver "amp_read T" "amp_write T" amp_call for T
  by unfold_locales (rule amp_read_shape amp_write_shape)+

lemma amp_start_fresh: "amp_start cli uuid_text options = Inr (args, th) \<Longrightarrow> fresh_threads th"
  by (auto simp: amp_start_def split: sum.splits if_splits option.splits intro!: fresh_threads_start)


text \<open>
  C27: an Amp driver ends every turn at most once. However its reader, its writer, its process and its
  owner interleave, and whatever Amp prints, the ends of turns it has reported are at most the
  starts, but for a start the writer is about to report; and it reports the end of the process once,
  when the process is gone.
\<close>

theorem amp_turns_end_once:
  assumes "amp_start cli uuid_text options = Inr (args, th)"
    and "(driver_step (amp_read T) (amp_write T) amp_call)\<^sup>*\<^sup>* th th'"
  shows "finished (th_sent th') \<le> started (th_sent th') + of_bool (th_writer th' \<noteq> []) \<and>
    exits_sent (th_sent th') = of_bool (th_exited th')"
  using amp.turns_end_once [OF assms(2) amp_start_fresh [OF assms(1)]] by simp


definition demo_amp_state :: amp_state where
  "demo_amp_state = \<lparr>am_tools = Map.empty, am_thread_id = Some (lit ''T-1''), am_fork_context = Some (lit ''[]''),
     am_preamble = None\<rparr>"

definition demo_amp_threads :: "(amp_command, amp_state) threads" where
  "demo_amp_threads = threads_start demo_amp_state [Connected (Some (Amp_Cursor (lit ''T-1'') (Some (lit ''[]''))))]"

theorem amp_turns_end_once_witness:
  "\<exists>th. (driver_step (amp_read demo_texts) (amp_write demo_texts) amp_call)\<^sup>*\<^sup>* demo_amp_threads th \<and>
    th_sent th = [Connected (Some (Amp_Cursor (lit ''T-1'') (Some (lit ''[]'')))), TurnStarted] \<and>
    finished (th_sent th) \<le> started (th_sent th) + of_bool (th_writer th \<noteq> [])"
proof -
  let ?events = "[Connected (Some (Amp_Cursor (lit ''T-1'') (Some (lit ''[]''))))]"
  have start: "amp_start None (\<lambda>_. []) (demo_options (Some (Amp_Cursor (lit ''T-1'') (Some (lit ''[]'')))) FullAccess) =
      Inr (amp_args None None None (Some (lit ''T-1'')), threads_start demo_amp_state ?events)"
    by (simp add: amp_start_def amp_resume_def demo_options_def demo_amp_state_def first_prompt_preamble_new_def)
      (simp add: lit_def)
  have "(driver_step (amp_read demo_texts) (amp_write demo_texts) amp_call)\<^sup>*\<^sup>* (threads_start demo_amp_state ?events)
      ((threads_start (demo_amp_state\<lparr>am_fork_context := None\<rparr>) ?events)\<lparr>th_writer := amp_prompt_acts demo_texts None
        (prompt_with_fork_context (lit ''[]'') (lit ''hi''))\<rparr>)"
    by (rule command_taken_up [where u = "Some (Call_Prompt (lit ''hi''))" and c = "Amp_Prompt (lit ''hi'')" and failure = None])
      (simp_all add: demo_amp_state_def first_prompt_preamble_apply_def)
  note 1 = writer_next [OF this [unfolded amp_prompt_acts_def append_Cons append_Nil], OF run_act.simps(4)]
  note 2 = writer_next [OF 1 [simplified], OF run_act.simps(1)]
  from amp_turns_end_once [OF start 2] 2 show ?thesis
    unfolding demo_amp_threads_def by (intro exI conjI) (assumption, simp_all add: threads_start_def)
qed

end
