(* ===== verification/Claude_Driver.thy ===== *)
theory Claude_Driver
  imports Driver_Threads Orchestration Daemon_State
begin

text \<open>
  The driver of Claude Code (\<open>crates/shidou-core/src/driver/claude.rs\<close>): the start of its process,
  the control requests it answers, background tasks, subagents and the stream of a turn. The
  threads that tail the output files of background commands and the transcript file behind
  \<open>session_metadata\<close> are outside; which tails run is part of the state.
\<close>

section \<open>Start\<close>

record user_input_answer =
  ua_question_id :: rstring
  ua_answers :: "rstring list"

datatype claude_command =
    Cl_Prompt rstring
  | Cl_Steer rstring
  | Cl_Cancel
  | Cl_Respond rstring rstring
  | Cl_Respond_User_Input rstring json "user_input_answer list"
  | Cl_Options session_options
  | Cl_Stop_Work background_work_key rstring
  | Cl_Shutdown

text \<open>
  \<open>ClaudeStreamState\<close> of the reader, the two maps it shares with the writer and the owner, what the
  writer counts, and what the owner was started with.
\<close>

record claude_state =
  cl_native_session_id :: rstring
  cl_saw_text_delta :: bool
  cl_saw_reasoning_delta :: bool
  cl_tools :: "rstring \<rightharpoonup> activity_kind \<times> rstring \<times> rstring \<times> rstring option"
  cl_task_kinds :: "rstring \<rightharpoonup> background_work_kind"
  cl_subagent_tasks :: "rstring \<rightharpoonup> rstring"
  cl_descriptions :: "rstring \<rightharpoonup> rstring"
  cl_streamed_output :: "rstring set"
  cl_output_tails :: "rstring set"
  cl_pending_stops :: "rstring \<rightharpoonup> background_work_key"
  cl_pending_inputs :: "rstring \<rightharpoonup> json"
  cl_last_model :: "rstring option"
  cl_last_auto_title :: "rstring option"
  cl_next_request_id :: u64
  cl_current_model :: "rstring option"
  cl_mode :: runtime_mode
  cl_interaction_mode :: interaction_mode

type_synonym claude_act = "(claude_command, claude_state) act"

definition permission_mode :: "runtime_mode \<Rightarrow> interaction_mode \<Rightarrow> rstring" where
  "permission_mode mode interaction_mode =
     (if interaction_mode = Interaction_Plan \<or> mode = Mode_Plan then lit ''plan''
      else case mode of
        Ask \<Rightarrow> lit ''default''
      | AutoAcceptEdits \<Rightarrow> lit ''acceptEdits''
      | Auto \<Rightarrow> lit ''auto''
      | _ \<Rightarrow> lit ''bypassPermissions'')"

definition wire_model :: "rstring option \<Rightarrow> rstring option \<Rightarrow> rstring option" where
  "wire_model model context_window = map_option (\<lambda>model.
     if context_window = Some (lit ''1m'') \<and> strip_suffix (lit ''[1m]'') model = None
     then model @ lit ''[1m]'' else model) model"

definition stream_arguments :: "runtime_mode \<Rightarrow> interaction_mode \<Rightarrow> rstring list" where
  "stream_arguments mode interaction_mode =
     [lit ''-p'', lit ''--input-format'', lit ''stream-json'', lit ''--output-format'', lit ''stream-json'',
      lit ''--verbose'', lit ''--include-partial-messages'', lit ''--thinking-display'', lit ''summarized'',
      lit ''--replay-user-messages'', lit ''--permission-prompt-tool'', lit ''stdio'',
      lit ''--permission-mode'', permission_mode mode interaction_mode] @
     (if mode = FullAccess \<and> interaction_mode \<noteq> Interaction_Plan
      then [lit ''--dangerously-skip-permissions''] else [])"

definition claude_resume ::
    "provider_resume_cursor option \<Rightarrow> rstring + rstring option \<times> rstring option" where
  "claude_resume cursor = (case cursor of
       None \<Rightarrow> Inr (None, None)
     | Some (Claude_Cursor session_id resume_at) \<Rightarrow>
         Inr (if session_id = [] then None else Some session_id, resume_at)
     | Some cursor \<Rightarrow> Inl (lit ''cannot resume Claude Code from a '' @
         provider_display_name (cursor_provider cursor) @ lit '' cursor''))"

definition claude_state_new :: "rstring \<Rightarrow> rstring option \<Rightarrow> start_options \<Rightarrow> claude_state" where
  "claude_state_new session_id launch_model options =
     \<lparr>cl_native_session_id = session_id, cl_saw_text_delta = False, cl_saw_reasoning_delta = False,
      cl_tools = Map.empty, cl_task_kinds = Map.empty, cl_subagent_tasks = Map.empty,
      cl_descriptions = Map.empty, cl_streamed_output = {}, cl_output_tails = {},
      cl_pending_stops = Map.empty, cl_pending_inputs = Map.empty, cl_last_model = None,
      cl_last_auto_title = None, cl_next_request_id = 0, cl_current_model = launch_model,
      cl_mode = do_mode options, cl_interaction_mode = do_interaction_mode options\<rparr>"

text \<open>\<open>fresh\<close> is a new session id. The result is the process's arguments, its session and its threads.\<close>

definition claude_start ::
    "rstring option \<Rightarrow> (uuid \<Rightarrow> rstring) \<Rightarrow> rstring \<Rightarrow> start_options \<Rightarrow>
     rstring + rstring list \<times> rstring \<times> (claude_command, claude_state) threads" where
  "claude_start cli uuid_text fresh options =
     (case claude_resume (do_provider_cursor options) of
        Inl error \<Rightarrow> Inl error
      | Inr (resume_session_id, resume_at) \<Rightarrow>
          let session_id = unwrap_or resume_session_id fresh;
              launch_model = wire_model (do_model options) (do_context_window options);
              arguments = stream_arguments (do_mode options) (do_interaction_mode options) @
                (case launch_model of Some model \<Rightarrow> [lit ''--model'', model] | None \<Rightarrow> []) @
                (case do_reasoning_effort options of Some effort \<Rightarrow> [lit ''--effort'', effort] | None \<Rightarrow> []) @
                [if resume_session_id \<noteq> None then lit ''--resume'' else lit ''--session-id'', session_id] @
                (case do_task_credential options of
                   Some credential \<Rightarrow>
                     [lit ''--append-system-prompt'', agent_instructions cli uuid_text credential False]
                 | None \<Rightarrow> []) in
          Inr (arguments, session_id, threads_start (claude_state_new session_id launch_model options)
            [Connected (Some (Claude_Cursor session_id resume_at))]))"

definition auto_approves :: "start_options \<Rightarrow> bool" where
  "auto_approves options \<longleftrightarrow> do_mode options \<noteq> Ask"

section \<open>The owner's calls\<close>

text \<open>
  \<open>answers_of\<close> decodes the answers a client sent; \<open>None\<close> is the drop of the driver. An answer to
  a question the agent no longer waits for is discarded.
\<close>

definition claude_apply_options :: "session_options \<Rightarrow> claude_state \<Rightarrow> bool" where
  "claude_apply_options options s \<longleftrightarrow>
     so_mode options = cl_mode s \<and> so_interaction_mode options = cl_interaction_mode s"

fun claude_call ::
    "(json \<Rightarrow> user_input_answer list) \<Rightarrow> driver_call option \<Rightarrow> claude_state \<Rightarrow> claude_command list \<times> claude_state" where
  "claude_call answers_of (Some (Call_Prompt prompt)) s = ([Cl_Prompt prompt], s)"
| "claude_call answers_of (Some (Call_Steer prompt)) s = ([Cl_Steer prompt], s)"
| "claude_call answers_of (Some Call_Cancel) s = ([Cl_Cancel], s)"
| "claude_call answers_of (Some (Call_Stop_Background_Work key control_id)) s = ([Cl_Stop_Work key control_id], s)"
| "claude_call answers_of (Some (Call_Respond request_id option_id)) s = ([Cl_Respond request_id option_id], s)"
| "claude_call answers_of (Some (Call_Respond_User_Input request_id answers)) s =
     (case cl_pending_inputs s request_id of
        None \<Rightarrow> ([], s)
      | Some input \<Rightarrow> ([Cl_Respond_User_Input request_id input (answers_of answers)],
          s\<lparr>cl_pending_inputs := (cl_pending_inputs s)(request_id := None)\<rparr>))"
| "claude_call answers_of (Some (Call_Apply_Options options)) s =
     (if claude_apply_options options s then [Cl_Options options] else [], s)"
| "claude_call answers_of None s = ([Cl_Shutdown], s)"
| "claude_call answers_of _ s = ([], s)"

section \<open>The writer\<close>

definition user_message_payload :: "rstring \<Rightarrow> json" where
  "user_message_payload s = JObject [(lit ''type'', JString (lit ''user'')), (lit ''message'', text_content s),
     (lit ''parent_tool_use_id'', JNull)]"

definition shidou_request_id :: "u64 \<Rightarrow> rstring" where
  "shidou_request_id n = lit ''shidou-'' @ dec (unat n)"

definition control_request :: "u64 \<Rightarrow> (string \<times> rstring) list \<Rightarrow> json" where
  "control_request n entries = JObject [(lit ''type'', JString (lit ''control_request'')),
     (lit ''request_id'', JString (shidou_request_id n)),
     (lit ''request'', JObject (map (\<lambda>(k, v). (lit k, JString v)) entries))]"

definition stop_task_request :: "u64 \<Rightarrow> rstring \<Rightarrow> json" where
  "stop_task_request n task_id = control_request n [(''subtype'', lit ''stop_task''), (''task_id'', task_id)]"

definition control_response :: "rstring \<Rightarrow> json \<Rightarrow> json" where
  "control_response request_id answer = JObject [(lit ''type'', JString (lit ''control_response'')),
     (lit ''response'', JObject [(lit ''subtype'', JString (lit ''success'')),
       (lit ''request_id'', JString request_id), (lit ''response'', answer)])]"

definition permission_decision :: "rstring \<Rightarrow> json" where
  "permission_decision option_id =
     (if option_id = lit ''deny''
      then JObject [(lit ''behavior'', JString (lit ''deny'')),
        (lit ''message'', JString (lit ''The user denied this tool call.''))]
      else JObject [(lit ''behavior'', JString (lit ''allow''))])"

definition answer_value :: "json \<Rightarrow> user_input_answer \<Rightarrow> json" where
  "answer_value input answer =
     (let multi_select = unwrap_or (Option.bind (List.find (\<lambda>question.
            str_at [''question''] question = Some (ua_question_id answer))
            (unwrap_or (array_at [''questions''] input) [])) (bool_at [''multiSelect''])) False in
      if multi_select then JArray (map JString (ua_answers answer))
      else JString (unwrap_or (first_opt (ua_answers answer)) []))"

definition answers_json :: "json \<Rightarrow> user_input_answer list \<Rightarrow> json" where
  "answers_json input answers = JObject [(lit ''behavior'', JString (lit ''allow'')),
     (lit ''updatedInput'', JObject [
       (lit ''questions'', unwrap_or (value_get input ''questions'') (JArray [])),
       (lit ''answers'', JObject (foldl (\<lambda>m answer. AList.update (ua_question_id answer) (answer_value input answer) m)
          [] answers))])]"

text \<open>A line that could not be written ends the writer, and the turn nobody else will end.\<close>

definition claude_written :: "driver_texts \<Rightarrow> rstring option \<Rightarrow> json \<Rightarrow> claude_act list" where
  "claude_written T failure line = (case failure of
       None \<Rightarrow> [Write_Line line]
     | Some error \<Rightarrow> [Send (Error (trp T ''errors.provider_transport_write''
           [(''provider'', lit ''Claude''), (''error'', error)])),
         Take [Send (TurnFinished False (Some (trp T ''errors.provider_receive_prompt''
           [(''provider'', lit ''Claude'')])))],
         Stop])"

definition claude_steered :: "driver_texts \<Rightarrow> rstring option \<Rightarrow> rstring \<Rightarrow> claude_act list" where
  "claude_steered T failure s =
     (case failure of
        None \<Rightarrow> [Write_Line (user_message_payload s), Send (SteerAccepted s)]
      | Some error \<Rightarrow> Send (SteerRejected s (trp T ''errors.provider_transport_write''
            [(''provider'', lit ''Claude''), (''error'', error)])) #
          claude_written T failure (user_message_payload s))"

fun claude_write ::
    "driver_texts \<Rightarrow> rstring option \<Rightarrow> claude_command \<Rightarrow> claude_state \<Rightarrow> claude_act list \<times> claude_state" where
  "claude_write T failure (Cl_Prompt s) st =
     ([Arm, Refresh 2, Send TurnStarted] @ claude_written T failure (user_message_payload s), st)"
| "claude_write T failure (Cl_Steer s) st =
     ([If_Turn (claude_steered T failure s)
        [Send (SteerRejected s (trp T ''errors.provider_no_active_turn'' [(''provider'', lit ''Claude'')]))]], st)"
| "claude_write T failure Cl_Cancel st =
     (let n = cl_next_request_id st + 1 in
      (claude_written T failure (control_request n [(''subtype'', lit ''interrupt'')]),
       st\<lparr>cl_next_request_id := n\<rparr>))"
| "claude_write T failure (Cl_Respond request_id option_id) st =
     (claude_written T failure (control_response request_id (permission_decision option_id)), st)"
| "claude_write T failure (Cl_Respond_User_Input request_id input answers) st =
     (claude_written T failure (control_response request_id (answers_json input answers)), st)"
| "claude_write T failure (Cl_Options options) st =
     (let next_model = wire_model (so_model options) (so_context_window options) in
      if next_model = cl_current_model st then ([], st)
      else case next_model of
        None \<Rightarrow> ([], st\<lparr>cl_current_model := None\<rparr>)
      | Some model \<Rightarrow>
          let n = cl_next_request_id st + 1 in
          (claude_written T failure (control_request n [(''subtype'', lit ''set_model''), (''model'', model)]),
           st\<lparr>cl_current_model := Some model, cl_next_request_id := n\<rparr>))"
| "claude_write T failure (Cl_Stop_Work key control_id) st =
     (let n = cl_next_request_id st + 1 in
      (claude_written T failure (stop_task_request n control_id),
       st\<lparr>cl_next_request_id := n,
          cl_pending_stops := (cl_pending_stops st)(shidou_request_id n \<mapsto> key)\<rparr>))"
| "claude_write T failure Cl_Shutdown st = ([Stop], st)"

lemma claude_write_shape: "writer_shape False (fst (claude_write T failure c st))"
  by (cases c) (auto simp: claude_written_def claude_steered_def Let_def split: option.splits)


section \<open>Background tasks\<close>

definition claude_task_id :: "json \<Rightarrow> rstring option" where
  "claude_task_id v = Option.bind (first_key [[''task_id''], [''taskId''], [''task'', ''id'']] v) as_str"

definition claude_task_status :: "json \<Rightarrow> background_work_status" where
  "claude_task_status v =
     (let status = to_ascii_lowercase (unwrap_or (Option.bind
            (first_key [[''status''], [''task'', ''status''], [''patch'', ''status'']] v) as_str) (lit ''running'')) in
      if lits [''pending'', ''starting''] status then Starting
      else if lits [''completed'', ''complete'', ''succeeded'', ''success''] status then Work_Completed
      else if lits [''failed'', ''errored'', ''error''] status then Work_Failed
      else if lits [''killed'', ''cancelled'', ''canceled'', ''stopped'', ''interrupted''] status then Stopped
      else Work_Running)"

definition tool_use_id_of :: "json \<Rightarrow> rstring option" where
  "tool_use_id_of v = Option.bind (first_key [[''tool_use_id''], [''toolUseId'']] v) as_str"

definition claude_task_kind :: "json \<Rightarrow> claude_state \<Rightarrow> background_work_kind" where
  "claude_task_kind v st =
     (case Option.bind (claude_task_id v) (cl_task_kinds st) of
        Some kind \<Rightarrow> kind
      | None \<Rightarrow>
          let task_type = to_ascii_lowercase (unwrap_or (Option.bind (first_key [[''task_type''], [''taskType''],
                [''subagent_type''], [''subagentType''], [''agentType'']] v) as_str) []) in
          if task_type = lit ''monitor'' then Monitor
          else if contains_str (lit ''agent'') task_type \<or> contains_str (lit ''teammate'') task_type \<or>
            contains_str (lit ''workflow'') task_type \<or> task_type = lit ''remote'' then Subagent
          else case Option.bind (tool_use_id_of v) (cl_tools st) of
            Some (_, _, wire_name, _) \<Rightarrow>
              if eq_ignore_ascii_case wire_name (lit ''monitor'') then Monitor else Process
          | None \<Rightarrow> Process)"

definition one_line :: "rstring \<Rightarrow> rstring option" where
  "one_line s = map_option (\<lambda>line. if 160 < length line then take 160 line @ [ellipsis] else line) (first_line s)"

definition kind_label :: "lib \<Rightarrow> background_work_kind \<Rightarrow> rstring" where
  "kind_label L kind = (case kind of
       Subagent \<Rightarrow> tr L ''background.subagent''
     | Monitor \<Rightarrow> tr L ''background.monitor''
     | Process \<Rightarrow> tr L ''background.process'')"

definition wire_description :: "json \<Rightarrow> rstring option" where
  "wire_description v = opt_filter (\<lambda>s. s \<noteq> []) (Option.bind (first_key [[''description''], [''subject''],
     [''workflow_name''], [''workflowName''], [''task'', ''description'']] v) as_str)"

text \<open>Only the start names a task; an empty title keeps the stored one.\<close>

definition claude_task_title :: "lib \<Rightarrow> string \<Rightarrow> json \<Rightarrow> background_work_kind \<Rightarrow> rstring" where
  "claude_task_title L subtype v kind =
     (if subtype = ''task_started'' then unwrap_or (wire_description v) (kind_label L kind)
      else unwrap_or (nonempty_str_at [''patch'', ''description''] v) [])"

definition claude_task_command :: "json \<Rightarrow> claude_state \<Rightarrow> rstring option" where
  "claude_task_command v st =
     opt_or (trimmed_str (Option.bind (first_key [[''prompt''], [''command''], [''task'', ''command'']] v) as_str))
       (case Option.bind (tool_use_id_of v) (cl_tools st) of
          Some (_, _, _, command) \<Rightarrow> command | None \<Rightarrow> None)"

definition claude_progress_line :: "string \<Rightarrow> json \<Rightarrow> rstring \<Rightarrow> claude_state \<Rightarrow> rstring option" where
  "claude_progress_line subtype v task_id st =
     opt_or (if subtype \<noteq> ''task_notification'' then nonempty_str_at [''summary''] v else None)
       (if subtype \<noteq> ''task_started''
        then opt_filter (\<lambda>s. cl_descriptions st task_id \<noteq> Some s) (wire_description v) else None)"

definition claude_task_item ::
    "lib \<Rightarrow> u64 \<Rightarrow> string \<Rightarrow> json \<Rightarrow> claude_state \<Rightarrow> background_work_item option" where
  "claude_task_item L now subtype v st = map_option (\<lambda>task_id.
     let kind = claude_task_kind v st;
         status = claude_task_status v;
         status = (if status = Work_Running \<and> kind = Monitor then Monitoring else status);
         item = background_work_item_new now kind task_id (claude_task_title L subtype v kind) status in
     item\<lparr>bw_background := unwrap_or (Option.bind
            (first_key [[''is_backgrounded''], [''isBackgrounded'']] v) as_bool) False,
       bw_can_stop := work_is_live status,
       bw_origin_activity_id := tool_use_id_of v,
       bw_role := Option.bind (first_key [[''subagent_type''], [''subagentType''], [''agentType''],
         [''task_type''], [''taskType'']] v) as_str,
       bw_model := str_at [''model''] v,
       bw_command := claude_task_command v st,
       bw_output := (if subtype = ''task_notification'' \<and> kind = Subagent \<and> task_id \<notin> cl_streamed_output st
         then trimmed_str (str_at [''summary''] v) else None),
       bw_detail := Option.bind (opt_or (claude_progress_line subtype v task_id st)
         (Option.bind (first_key [[''last_tool_name''], [''lastToolName''], [''error''], [''patch'', ''error''],
           [''output_file''], [''outputFile'']] v) as_str)) one_line,
       bw_control_id := Some task_id,
       bw_duration_ms := Option.bind (first_key [[''usage'', ''duration_ms''], [''duration_ms'']] v) as_u64,
       bw_updated_at_ms := now\<rparr>) (claude_task_id v)"

text \<open>\<open>background_tasks_changed\<close>: the tasks that are live; a bare id is ignored until its kind is known.\<close>

definition live_task_item :: "lib \<Rightarrow> u64 \<Rightarrow> claude_state \<Rightarrow> json \<Rightarrow> background_work_item option" where
  "live_task_item L now st entry =
     Option.bind (opt_or (as_str entry) (claude_task_id entry)) (\<lambda>task_id.
       map_option (\<lambda>kind. (background_work_item_new now kind task_id (kind_label L kind)
           (if kind = Monitor then Monitoring else Work_Running))
         \<lparr>bw_background := True, bw_can_stop := True, bw_control_id := Some task_id\<rparr>)
         (opt_or (cl_task_kinds st task_id)
           (if as_str entry = None then Some (claude_task_kind entry st) else None)))"

definition task_subtypes :: "string list" where
  "task_subtypes = [''task_started'', ''task_progress'', ''task_updated'', ''task_notification'']"

text \<open>What the reader remembers of a task it reports.\<close>

definition remember_task :: "string \<Rightarrow> json \<Rightarrow> background_work_item \<Rightarrow> claude_state \<Rightarrow> claude_state" where
  "remember_task subtype v item st =
     (let task_id = bk_provider_id (bw_key item);
          st = st\<lparr>cl_task_kinds := (cl_task_kinds st)(task_id \<mapsto> bk_kind (bw_key item))\<rparr>;
          st = (case (subtype = ''task_started'', bw_origin_activity_id item) of
              (True, Some tool_use_id) \<Rightarrow>
                st\<lparr>cl_subagent_tasks := (cl_subagent_tasks st)(tool_use_id \<mapsto> task_id)\<rparr>
            | _ \<Rightarrow> st);
          st = (case nonempty_str_at (if subtype = ''task_started'' then [''description'']
                else [''patch'', ''description'']) v of
              Some description \<Rightarrow> st\<lparr>cl_descriptions := (cl_descriptions st)(task_id \<mapsto> description)\<rparr>
            | None \<Rightarrow> st) in
      if subtype = ''task_started'' \<and> bk_kind (bw_key item) = Process
      then st\<lparr>cl_output_tails := insert task_id (cl_output_tails st)\<rparr>
      else if \<not> work_is_live (bw_status item)
      then st\<lparr>cl_output_tails := cl_output_tails st - {task_id}\<rparr> else st)"

definition handle_claude_system ::
    "lib \<Rightarrow> u64 \<Rightarrow> json \<Rightarrow> claude_state \<Rightarrow> driver_event list \<times> claude_state" where
  "handle_claude_system L now v st =
     (if str_at [''subtype''] v = Some (lit ''background_tasks_changed'') then
        ([BackgroundWork (ReconcileLive (List.map_filter (live_task_item L now st) (unwrap_or
            (Option.bind (first_key [[''background_tasks''], [''backgroundTasks''], [''tasks'']] v) as_array) [])))], st)
      else case List.find (\<lambda>subtype. str_at [''subtype''] v = Some (lit subtype)) task_subtypes of
        None \<Rightarrow> ([], st)
      | Some subtype \<Rightarrow> (case claude_task_item L now subtype v st of
          None \<Rightarrow> ([], st)
        | Some item \<Rightarrow> ([BackgroundWork (Upsert item)], remember_task subtype v item st)))"

section \<open>Subagents\<close>

definition subagent_tool_line :: "json \<Rightarrow> rstring" where
  "subagent_tool_line block =
     (let name = unwrap_or (str_at [''name''] block) (lit ''tool'');
          input = value_get block ''input'';
          subject = opt_or (input_title input) (Option.bind input (\<lambda>input. Option.bind
            (find_map (\<lambda>key. str_at [key] input) [''command'', ''file_path'', ''path'', ''pattern'', ''query'',
              ''url'', ''description'']) one_line)) in
      [0x203A, 32] @ name @ (case subject of Some subject \<Rightarrow> [32, 0xB7, 32] @ subject | None \<Rightarrow> []) @ [10])"

definition subagent_block :: "json \<Rightarrow> rstring" where
  "subagent_block block =
     (if has_type ''text'' block
      then (case trimmed_str (str_at [''text''] block) of Some s \<Rightarrow> s @ [10, 10] | None \<Rightarrow> [])
      else if has_type ''tool_use'' block then subagent_tool_line block
      else [])"

definition forward_subagent_transcript ::
    "rstring \<Rightarrow> json \<Rightarrow> claude_state \<Rightarrow> driver_event list \<times> claude_state" where
  "forward_subagent_transcript parent_tool_use_id v st =
     (case (cl_subagent_tasks st parent_tool_use_id, array_at [''message'', ''content''] v) of
        (Some task_id, Some content) \<Rightarrow>
          let delta = concat (map subagent_block content);
              kind = unwrap_or (cl_task_kinds st task_id) Subagent in
          if delta = [] then ([], st)
          else ([BackgroundWork (OutputDelta \<lparr>bk_kind = kind, bk_provider_id = task_id\<rparr> delta)],
            st\<lparr>cl_streamed_output := insert task_id (cl_streamed_output st)\<rparr>)
      | _ \<Rightarrow> ([], st))"

section \<open>Control requests\<close>

definition ask_tool :: rstring where "ask_tool = lit ''AskUserQuestion''"

definition question_option :: "json \<Rightarrow> user_input_option option" where
  "question_option v = map_option (\<lambda>label. \<lparr>uo_label = label,
     uo_description = trimmed_str (str_at [''description''] v)\<rparr>) (trimmed_str (str_at [''label''] v))"

definition question_of :: "nat \<times> json \<Rightarrow> user_input_question option" where
  "question_of iq = (case iq of (i, question) \<Rightarrow> map_option (\<lambda>s.
     \<lparr>uq_id = s,
      uq_header = unwrap_or (opt_filter (\<lambda>header. trim header \<noteq> []) (str_at [''header''] question))
        (lit ''Question '' @ dec (i + 1)),
      uq_question = s,
      uq_options = List.map_filter question_option (unwrap_or (array_at [''options''] question) []),
      uq_multi_select = unwrap_or (bool_at [''multiSelect''] question) False\<rparr>)
     (trimmed_str (str_at [''question''] question)))"

definition request_user_input :: "json \<Rightarrow> claude_state \<Rightarrow> (claude_act list \<times> claude_state) option" where
  "request_user_input v st =
     (if str_at [''request'', ''tool_name''] v \<noteq> Some ask_tool then None
      else case str_at [''request_id''] v of
        None \<Rightarrow> Some ([], st)
      | Some request_id \<Rightarrow>
          let input = unwrap_or (value_pointer [''request'', ''input''] v) JNull;
              questions = List.map_filter question_of (enumerate 0 (unwrap_or (array_at [''questions''] input) [])) in
          if questions = [] then Some ([], st)
          else Some ([Send (UserInputRequested request_id questions)],
            st\<lparr>cl_pending_inputs := (cl_pending_inputs st)(request_id \<mapsto> input)\<rparr>))"

definition orchestrates :: "rstring option \<Rightarrow> json \<Rightarrow> bool" where
  "orchestrates cli v \<longleftrightarrow> str_at [''request'', ''tool_name''] v = Some (lit ''Bash'') \<and>
     (case str_at [''request'', ''input'', ''command''] v of Some c \<Rightarrow> is_cli_invocation cli c | None \<Rightarrow> False)"

definition permission_options :: "lib \<Rightarrow> permission_option list" where
  "permission_options L =
     [\<lparr>po_id = lit ''allow'', po_label = tr L ''permission.allow_once'', po_allow = True\<rparr>,
      \<lparr>po_id = lit ''deny'', po_label = tr L ''common.deny'', po_allow = False\<rparr>]"

definition request_permission ::
    "driver_texts \<Rightarrow> rstring option \<Rightarrow> bool \<Rightarrow> json \<Rightarrow> claude_act list" where
  "request_permission T cli auto_approve v =
     (case str_at [''request_id''] v of
        None \<Rightarrow> []
      | Some request_id \<Rightarrow>
          if auto_approve \<or> orchestrates cli v then [Queue (Cl_Respond request_id (lit ''allow''))]
          else
            let request = unwrap_or (value_get v ''request'') JNull;
                tool = unwrap_or (Option.bind (first_key [[''display_name''], [''tool_name'']] request) as_str)
                  (tr (dt_lib T) ''permission.a_tool'');
                detail = unwrap_or (opt_or (str_at [''description''] request)
                  (map_option (\<lambda>path. trp T ''permission.blocked_path'' [(''path'', path)])
                    (str_at [''blocked_path''] request)))
                  (trp T ''permission.agent_wants_to_run'' [(''tool'', tool)]);
                title = unwrap_or (input_title (value_get request ''input''))
                  (trp T ''permission.run_tool'' [(''tool'', tool)]) in
            [Send (Permission request_id title detail (permission_options (dt_lib T)))])"

text \<open>The answer to a request to stop a background task.\<close>

definition stop_refused :: "json \<Rightarrow> bool" where
  "stop_refused v \<longleftrightarrow> str_at [''response'', ''subtype''] v = Some (lit ''error'') \<or>
     (case Option.bind (first_key [[''response'', ''response'', ''status''], [''response'', ''status''],
         [''response'', ''response'']] v) as_str of
        Some status \<Rightarrow> lits [''not_found'', ''not_running''] status | None \<Rightarrow> False)"

definition handle_control_response ::
    "lib \<Rightarrow> u64 \<Rightarrow> json \<Rightarrow> claude_state \<Rightarrow> driver_event list \<times> claude_state" where
  "handle_control_response L now v st =
     (case Option.bind (first_key [[''response'', ''request_id''], [''request_id'']] v) as_str of
        None \<Rightarrow> ([], st)
      | Some request_id \<Rightarrow> (case cl_pending_stops st request_id of
          None \<Rightarrow> ([], st)
        | Some key \<Rightarrow>
            ([BackgroundWork (if stop_refused v
                then StopFailed key (unwrap_or (Option.bind (first_key [[''response'', ''error''],
                  [''response'', ''response'', ''message'']] v) as_str) (tr L ''background.stop_not_running''))
                else Upsert ((background_work_item_new now (bk_kind key) (bk_provider_id key) [] Stopped)
                  \<lparr>bw_key := key, bw_background := True\<rparr>))],
             st\<lparr>cl_pending_stops := (cl_pending_stops st)(request_id := None)\<rparr>)))"


section \<open>The reader\<close>

text \<open>
  A line of the process with what the reader meets beside it: new ids, the clock and, by session, the
  title and the last message of the native transcript.
\<close>

record claude_line = driver_line +
  cm_metadata :: "rstring \<Rightarrow> (rstring option \<times> rstring option) option"

definition refresh_native_session_id :: "json \<Rightarrow> claude_state \<Rightarrow> driver_event list \<times> claude_state" where
  "refresh_native_session_id v st =
     (case str_at [''session_id''] v of
        None \<Rightarrow> ([], st)
      | Some session_id \<Rightarrow>
          if session_id = cl_native_session_id st then ([], st)
          else ([Connected (Some (Claude_Cursor session_id None))], st\<lparr>cl_native_session_id := session_id\<rparr>))"

definition available_commands :: "json \<Rightarrow> driver_event list" where
  "available_commands v =
     (if str_at [''subtype''] v \<noteq> Some (lit ''init'') then []
      else case array_at [''slash_commands''] v of
        None \<Rightarrow> []
      | Some commands \<Rightarrow>
          let commands = map (\<lambda>name. \<lparr>cmd_name = name, cmd_description = []\<rparr>) (List.map_filter as_str commands) in
          if commands = [] then [] else [AvailableCommands commands])"

definition is_subagent_message :: "json \<Rightarrow> bool" where
  "is_subagent_message v \<longleftrightarrow> str_at [''parent_tool_use_id''] v \<noteq> None"

text \<open>A partial message; each new message re-arms the fallback to its completed text.\<close>

definition handle_stream_event :: "json \<Rightarrow> claude_state \<Rightarrow> driver_event list \<times> claude_state" where
  "handle_stream_event v st =
     (let event = unwrap_or (value_get v ''event'') JNull;
          st = (if has_type ''message_start'' event
            then st\<lparr>cl_saw_text_delta := False, cl_saw_reasoning_delta := False\<rparr> else st);
          delta = unwrap_or (value_get event ''delta'') JNull in
      if has_type ''text_delta'' delta then
        (case nonempty_str_at [''text''] delta of
           Some s \<Rightarrow> ([TextDelta s], st\<lparr>cl_saw_text_delta := True\<rparr>) | None \<Rightarrow> ([], st))
      else if has_type ''thinking_delta'' delta then
        (case nonempty_str_at [''thinking''] delta of
           Some s \<Rightarrow> ([ReasoningDelta s], st\<lparr>cl_saw_reasoning_delta := True\<rparr>) | None \<Rightarrow> ([], st))
      else ([], st))"

definition claude_usage :: "json \<Rightarrow> claude_state \<Rightarrow> driver_event list \<times> claude_state" where
  "claude_usage v st =
     (case value_pointer [''message'', ''usage''] v of
        None \<Rightarrow> ([], st)
      | Some usage \<Rightarrow>
          (map (\<lambda>tokens. UsageUpdated (Some tokens) None) (option_list (claude_context_tokens usage)),
           case str_at [''message'', ''model''] v of
             Some model \<Rightarrow> st\<lparr>cl_last_model := Some model\<rparr> | None \<Rightarrow> st))"

text \<open>The Agent tool names its work in its description.\<close>

definition claude_tool_title :: "json \<Rightarrow> rstring \<Rightarrow> rstring" where
  "claude_tool_title block wire_title =
     unwrap_or (opt_or (input_title (value_get block ''input''))
       (if eq_ignore_ascii_case wire_title (lit ''task'') \<or> eq_ignore_ascii_case wire_title (lit ''agent'')
        then trimmed_str (str_at [''input'', ''description''] block) else None)) wire_title"

definition claude_assistant_block ::
    "driver_texts \<Rightarrow> uuid \<Rightarrow> json \<Rightarrow> claude_state \<Rightarrow> driver_event list \<times> claude_state" where
  "claude_assistant_block T aid block st =
     (if has_type ''text'' block \<and> \<not> cl_saw_text_delta st
      then (map TextDelta (option_list (nonempty_str_at [''text''] block)), st)
      else if has_type ''thinking'' block \<and> \<not> cl_saw_reasoning_delta st
      then (map ReasoningDelta (option_list (nonempty_str_at [''thinking''] block)), st)
      else if has_type ''tool_use'' block then
        let tool = str_at [''id''] block;
            wire_title = unwrap_or (str_at [''name''] block) (tr (dt_lib T) ''activity.tool'');
            kind = classify_tool wire_title;
            title = claude_tool_title block wire_title in
        ([RichActivity (tool_activity (dt_lib T) aid tool kind title (value_get block ''input'') None None False False)],
         case tool of
           Some i \<Rightarrow> st\<lparr>cl_tools := (cl_tools st)(i \<mapsto>
             (kind, title, wire_title, trimmed_str (str_at [''input'', ''command''] block)))\<rparr>
         | None \<Rightarrow> st)
      else ([], st))"

definition claude_tool_result ::
    "driver_texts \<Rightarrow> json \<Rightarrow> uuid \<Rightarrow> json \<Rightarrow> claude_state \<Rightarrow> driver_event list \<times> claude_state" where
  "claude_tool_result T v aid block st =
     (if \<not> has_type ''tool_result'' block then ([], st)
      else
        let tool = str_at [''tool_use_id''] block;
            (kind, title, _) = unwrap_or (Option.bind tool (cl_tools st)) (Tool, lit ''Tool'', lit ''Tool'', None);
            failed = (bool_at [''is_error''] block = Some True);
            content = value_get block ''content'';
            patch = (if kind = FileChange then not_null (value_get v ''tool_use_result'') else None) in
        ([RichActivity (with_activity_source (dt_lib T) patch
            (tool_activity (dt_lib T) aid tool kind title None content content failed True))],
         case tool of Some i \<Rightarrow> st\<lparr>cl_tools := (cl_tools st)(i := None)\<rparr> | None \<Rightarrow> st))"

text \<open>The context window of the model that served the turn, or else the largest one reported.\<close>

definition window_of :: "json \<Rightarrow> u64 option" where
  "window_of entry = Option.bind (value_get entry ''contextWindow'') as_u64"

definition serves_model :: "rstring \<Rightarrow> rstring \<times> json \<Rightarrow> bool" where
  "serves_model model e \<longleftrightarrow> fst e = model \<or> str_at [''canonicalModel''] (snd e) = Some model"

fun max_window :: "u64 list \<Rightarrow> u64 option" where
  "max_window [] = None"
| "max_window (w # ws) = Some (fold max ws w)"

definition context_window_from_result :: "json \<Rightarrow> rstring option \<Rightarrow> u64 option" where
  "context_window_from_result v last_model =
     Option.bind (Option.bind (value_get v ''modelUsage'') as_object) (\<lambda>models.
       case Option.bind last_model (\<lambda>model. List.find (serves_model model) models) of
         Some (_, entry) \<Rightarrow> window_of entry
       | None \<Rightarrow> max_window (List.map_filter (\<lambda>(_, entry). window_of entry) models))"

text \<open>What follows when the turn was active: title and rewind point are sent ahead of its end.\<close>

definition claude_settlement :: "claude_line \<Rightarrow> bool \<Rightarrow> claude_state \<Rightarrow> claude_act list" where
  "claude_settlement line failed st =
     (case cm_metadata line (cl_native_session_id st) of
        None \<Rightarrow> []
      | Some (title, message_id) \<Rightarrow>
          (case title of
             Some t \<Rightarrow> if cl_last_auto_title st = Some t then []
               else [Local (\<lambda>st. st\<lparr>cl_last_auto_title := Some t\<rparr>), Send (AutoTitleUpdated (Some t))]
           | None \<Rightarrow> []) @
          (case message_id of
             Some m \<Rightarrow> [Send (Connected (Some (Claude_Cursor (cl_native_session_id st) (Some m))))]
           | None \<Rightarrow> [])) @
     [Send (TurnFinished (\<not> failed) None)]"

definition handle_result :: "claude_line \<Rightarrow> json \<Rightarrow> claude_state \<Rightarrow> claude_act list" where
  "handle_result line v st =
     (let failed = (bool_at [''is_error''] v = Some True) in
      (if failed then map (Send \<circ> Error) (option_list (str_at [''result''] v)) else []) @
      map (\<lambda>window. Send (UsageUpdated None (Some window)))
        (option_list (context_window_from_result v (cl_last_model st))) @
      [Take (claude_settlement line failed st)])"

definition claude_handle_typed ::
    "driver_texts \<Rightarrow> rstring option \<Rightarrow> bool \<Rightarrow> claude_line \<Rightarrow> json \<Rightarrow> claude_state \<Rightarrow> claude_act list \<times> claude_state" where
  "claude_handle_typed T cli auto_approve line v st =
     (if has_type ''system'' v then
        (case handle_claude_system (dt_lib T) (dl_now line) v st of
           (events, st) \<Rightarrow> (map Send (available_commands v @ events), st))
      else if has_type ''control_request'' v then
        (if str_at [''request'', ''subtype''] v \<noteq> Some (lit ''can_use_tool'') then ([], st)
         else case request_user_input v st of
           Some r \<Rightarrow> r
         | None \<Rightarrow> (request_permission T cli auto_approve v, st))
      else if has_type ''control_response'' v then
        apfst (map Send) (handle_control_response (dt_lib T) (dl_now line) v st)
      else if has_type ''stream_event'' v then
        (if is_subagent_message v then ([], st) else apfst (map Send) (handle_stream_event v st))
      else if has_type ''assistant'' v then
        (case str_at [''parent_tool_use_id''] v of
           Some parent \<Rightarrow> apfst (map Send) (forward_subagent_transcript parent v st)
         | None \<Rightarrow>
             let (usage, st) = claude_usage v st;
                 (events, st) = over_blocks (claude_assistant_block T) (dl_ids line) 0
                   (unwrap_or (array_at [''message'', ''content''] v) []) st in
             (map Send (usage @ events), st))
      else if has_type ''user'' v then
        (if is_subagent_message v \<or> bool_at [''isReplay''] v = Some True then ([], st)
         else apfst (map Send) (over_blocks (claude_tool_result T v) (dl_ids line) 0
           (unwrap_or (array_at [''message'', ''content''] v) []) st))
      else if has_type ''result'' v then (handle_result line v st, st)
      else ([], st))"

definition claude_handle_message ::
    "driver_texts \<Rightarrow> rstring option \<Rightarrow> rstring \<Rightarrow> bool \<Rightarrow> claude_line \<Rightarrow> json \<Rightarrow> claude_state \<Rightarrow>
     claude_act list \<times> claude_state" where
  "claude_handle_message T cli spawn_session_id auto_approve line v st =
     (let st = (if cl_native_session_id st = [] then st\<lparr>cl_native_session_id := spawn_session_id\<rparr> else st);
          (connected, st) =
            (if has_type ''result'' v \<or> has_type ''system'' v \<and> str_at [''subtype''] v = Some (lit ''init'')
             then refresh_native_session_id v st else ([], st));
          (acts, st) = claude_handle_typed T cli auto_approve line v st in
      (map Send connected @ acts, st))"

definition claude_read ::
    "driver_texts \<Rightarrow> rstring option \<Rightarrow> rstring \<Rightarrow> bool \<Rightarrow> claude_line \<Rightarrow> claude_state \<Rightarrow> claude_act list \<times> claude_state" where
  "claude_read T cli spawn_session_id auto_approve line st =
     (if trim (dl_text line) = [] then ([], st)
      else case lib_from_str (dt_lib T) (dl_text line) of
        None \<Rightarrow> ([], st)
      | Some v \<Rightarrow> claude_handle_message T cli spawn_session_id auto_approve line v st)"


section \<open>Turns\<close>

lemma refresh_native_session_id_ordinary: "list_all ordinary (fst (refresh_native_session_id v st))"
  by (simp add: refresh_native_session_id_def list.pred_map comp_def Let_def split: option.split prod.split)

lemma handle_claude_system_ordinary: "list_all ordinary (fst (handle_claude_system L now v st))"
  by (simp add: handle_claude_system_def list.pred_map comp_def Let_def split: option.split prod.split)

lemma handle_control_response_ordinary: "list_all ordinary (fst (handle_control_response L now v st))"
  by (simp add: handle_control_response_def list.pred_map comp_def Let_def split: option.split prod.split)

lemma handle_stream_event_ordinary: "list_all ordinary (fst (handle_stream_event v st))"
  by (simp add: handle_stream_event_def list.pred_map comp_def Let_def split: option.split prod.split)

lemma forward_subagent_transcript_ordinary: "list_all ordinary (fst (forward_subagent_transcript parent v st))"
  by (simp add: forward_subagent_transcript_def list.pred_map comp_def Let_def split: option.split prod.split)

lemma claude_usage_ordinary: "list_all ordinary (fst (claude_usage v st))"
  by (simp add: claude_usage_def list.pred_map comp_def Let_def split: option.split prod.split)

lemma claude_assistant_block_ordinary: "list_all ordinary (fst (claude_assistant_block T i b st))"
  by (simp add: claude_assistant_block_def list.pred_map comp_def Let_def split: option.split prod.split)

lemma claude_tool_result_ordinary: "list_all ordinary (fst (claude_tool_result T v i b st))"
  by (simp add: claude_tool_result_def list.pred_map comp_def Let_def split: option.split prod.split)

lemmas claude_fst_ordinary = refresh_native_session_id_ordinary handle_claude_system_ordinary handle_control_response_ordinary handle_stream_event_ordinary forward_subagent_transcript_ordinary claude_usage_ordinary claude_assistant_block_ordinary claude_tool_result_ordinary

lemma available_commands_ordinary [simp]: "list_all ordinary (available_commands v)"
  by (simp add: available_commands_def Let_def split: option.split)

lemma fst_over_blocks_ordinary:
  "(\<And>i b s. list_all ordinary (fst (f i b s))) \<Longrightarrow> list_all ordinary (fst (over_blocks f ids n blocks s))"
  using over_blocks_ordinary [of f ids n blocks s, OF prod.collapse [symmetric]] by (metis fst_conv)

lemmas claude_over_ordinary =
  fst_over_blocks_ordinary [of "claude_assistant_block T", OF claude_assistant_block_ordinary]
  fst_over_blocks_ordinary [of "claude_tool_result T v", OF claude_tool_result_ordinary]
  for T v

lemma claude_settlement_settles: "settles (claude_settlement line failed st)"
  by (simp add: claude_settlement_def split: option.split)

lemma claude_result_shape: "list_all reader_act (handle_result line v st)"
  by (simp add: handle_result_def claude_settlement_settles list.pred_map comp_def Let_def)

lemma claude_control_shape:
  "request_user_input v st = Some r \<Longrightarrow> list_all reader_act (fst r)"
  "list_all reader_act (request_permission T cli auto_approve v)"
  by (auto simp: request_user_input_def request_permission_def Let_def split: option.splits if_splits)

lemma fst_if:
  "(c \<Longrightarrow> list_all P (fst x)) \<Longrightarrow> (\<not> c \<Longrightarrow> list_all P (fst y)) \<Longrightarrow> list_all P (fst (if c then x else y))"
  by simp

lemma claude_typed_shape: "list_all reader_act (fst (claude_handle_typed T cli auto_approve line v st))"
proof -
  have 1: "list_all reader_act (fst (case request_user_input v st of Some r \<Rightarrow> r
      | None \<Rightarrow> (request_permission T cli auto_approve v, st)))"
    using claude_control_shape by (cases "request_user_input v st") auto
  have 2: "list_all reader_act (fst (case str_at [''parent_tool_use_id''] v of
         Some parent \<Rightarrow> apfst (map Send) (forward_subagent_transcript parent v st)
       | None \<Rightarrow>
           let (usage, st) = claude_usage v st;
               (events, st) = over_blocks (claude_assistant_block T) (dl_ids line) 0
                 (unwrap_or (array_at [''message'', ''content''] v) []) st in
           (map Send (usage @ events), st)))"
    using claude_over_ordinary(1) claude_fst_ordinary
    by (cases "str_at [''parent_tool_use_id''] v") (simp_all add: split_beta Let_def)
  show ?thesis
    unfolding claude_handle_typed_def
    by (intro fst_if 1 2) (simp_all add: claude_result_shape claude_fst_ordinary claude_over_ordinary split_beta)
qed

lemma claude_read_shape: "list_all reader_act (fst (claude_read T cli spawn_session_id auto_approve line st))"
  by (simp add: claude_read_def claude_handle_message_def claude_typed_shape claude_fst_ordinary split_beta Let_def
      split: option.split)

interpretation claude: turn_driver "claude_read T cli spawn_session_id auto_approve" "claude_write T" "claude_call answers_of"
  for T cli spawn_session_id auto_approve answers_of
  by unfold_locales (rule claude_read_shape claude_write_shape)+

lemma claude_start_fresh:
  "claude_start cli uuid_text fresh options = Inr (args, session_id, th) \<Longrightarrow> fresh_threads th"
  by (auto simp: claude_start_def Let_def split: sum.splits intro!: fresh_threads_start)

end
