(* ===== verification/Claude_Properties.thy ===== *)
theory Claude_Properties
  imports Claude_Driver
begin

text \<open>
  What the driver of Claude Code guarantees: turns end once, nothing is approved that the user was
  not asked about, a subagent's messages stay out of the task's transcript, and text that was
  streamed is not repeated.
\<close>

section \<open>Turns\<close>

text \<open>
  C12: a Claude driver ends every turn at most once. However its reader, its writer, its title
  look-ups, its process and its owner interleave, and whatever the process prints, the ends of turns
  it has reported are at most the starts, but for a start the writer is about to report; and it
  reports the end of the process once, when the process is gone.
\<close>

theorem claude_turns_end_once:
  assumes "claude_start cli uuid_text fresh options = Inr (args, session_id, th)"
    and "(driver_step (claude_read T cli session_id (auto_approves options)) (claude_write T)
      (claude_call answers_of))\<^sup>*\<^sup>* th th'"
  shows "finished (th_sent th') \<le> started (th_sent th') + of_bool (th_writer th' \<noteq> []) \<and>
    exits_sent (th_sent th') = of_bool (th_exited th')"
  using claude.turns_end_once [OF assms(2) claude_start_fresh [OF assms(1)]] by simp

lemma demo_claude_start:
  "claude_start None (\<lambda>_. []) (lit ''s1'') (demo_options None mode) =
     Inr (stream_arguments mode Interaction_Build @ [lit ''--session-id'', lit ''s1''], lit ''s1'',
       threads_start (claude_state_new (lit ''s1'') None (demo_options None mode))
         [Connected (Some (Claude_Cursor (lit ''s1'') None))])"
  by (simp add: claude_start_def claude_resume_def demo_options_def wire_model_def Let_def)

definition demo_claude_threads :: "runtime_mode \<Rightarrow> (claude_command, claude_state) threads" where
  "demo_claude_threads mode = threads_start (claude_state_new (lit ''s1'') None (demo_options None mode))
     [Connected (Some (Claude_Cursor (lit ''s1'') None))]"

theorem claude_turns_end_once_witness:
  "\<exists>th. (driver_step (claude_read demo_texts None (lit ''s1'') (auto_approves (demo_options None Ask)))
      (claude_write demo_texts) (claude_call (\<lambda>_. [])))\<^sup>*\<^sup>* (demo_claude_threads Ask) th \<and>
    th_sent th = [Connected (Some (Claude_Cursor (lit ''s1'') None)), TurnStarted] \<and>
    finished (th_sent th) \<le> started (th_sent th) + of_bool (th_writer th \<noteq> [])"
proof -
  let ?s = "claude_state_new (lit ''s1'') None (demo_options None Ask)"
  let ?events = "[Connected (Some (Claude_Cursor (lit ''s1'') None))]"
  let ?step = "driver_step (claude_read demo_texts None (lit ''s1'') (auto_approves (demo_options None Ask)))
    (claude_write demo_texts) (claude_call (\<lambda>_. []))"
  have "?step\<^sup>*\<^sup>* (threads_start ?s ?events) ((threads_start ?s ?events)\<lparr>th_writer :=
      [Arm, Refresh 2, Send TurnStarted, Write_Line (user_message_payload (lit ''hi''))]\<rparr>)"
    by (rule command_taken_up [where u = "Some (Call_Prompt (lit ''hi''))" and c = "Cl_Prompt (lit ''hi'')" and failure = None])
      (simp_all add: claude_written_def)
  note 1 = writer_next [OF this, OF run_act.simps(4)]
  note 2 = writer_next [OF 1 [simplified], OF run_act.simps(7)]
  note 3 = writer_next [OF 2 [simplified], OF run_act.simps(1)]
  from claude_turns_end_once [OF demo_claude_start 3] 3 show ?thesis
    unfolding demo_claude_threads_def by (intro exI conjI) (assumption, simp_all add: threads_start_def)
qed

section \<open>Approvals\<close>

text \<open>
  A line that asks for permission to run the program's own command line under the request id \<open>i\<close>,
  and a call of the owner that approves it.
\<close>

definition line_orchestrates :: "driver_texts \<Rightarrow> rstring option \<Rightarrow> rstring \<Rightarrow> claude_line \<Rightarrow> bool" where
  "line_orchestrates T cli i line \<longleftrightarrow> (case lib_from_str (dt_lib T) (dl_text line) of
     Some v \<Rightarrow> str_at [''request_id''] v = Some i \<and> orchestrates cli v | None \<Rightarrow> False)"

fun call_approves :: "rstring \<Rightarrow> driver_call option \<Rightarrow> bool" where
  "call_approves i (Some (Call_Respond request_id option_id)) = (request_id = i \<and> option_id \<noteq> lit ''deny'')"
| "call_approves i _ = False"

fun command_approves :: "rstring \<Rightarrow> claude_command \<Rightarrow> bool" where
  "command_approves i (Cl_Respond request_id option_id) = (request_id = i \<and> option_id \<noteq> lit ''deny'')"
| "command_approves i _ = False"

definition approval :: "rstring \<Rightarrow> json" where
  "approval i = control_response i (permission_decision (lit ''allow''))"

text \<open>The driver without those lines and calls.\<close>

definition read_without ::
    "driver_texts \<Rightarrow> rstring option \<Rightarrow> rstring \<Rightarrow> rstring \<Rightarrow> claude_line \<Rightarrow> claude_state \<Rightarrow> claude_act list \<times> claude_state" where
  "read_without T cli session_id i line st =
     (if line_orchestrates T cli i line then ([], st) else claude_read T cli session_id False line st)"

definition call_without ::
    "(json \<Rightarrow> user_input_answer list) \<Rightarrow> rstring \<Rightarrow> driver_call option \<Rightarrow> claude_state \<Rightarrow>
     claude_command list \<times> claude_state" where
  "call_without answers_of i u st = (if call_approves i u then ([], st) else claude_call answers_of u st)"

abbreviation cautious :: "rstring \<Rightarrow> claude_act \<Rightarrow> bool" where
  "cautious i \<equiv> confined_act (\<lambda>c. \<not> command_approves i c) (\<lambda>j. j \<noteq> approval i)"

lemma approval_neq [simp]:
  "user_message_payload s \<noteq> approval i" "control_request n entries \<noteq> approval i"
  "stop_task_request n t \<noteq> approval i" "control_response r (answers_json input answers) \<noteq> approval i"
  "control_response r (permission_decision d) = approval i \<longleftrightarrow> r = i \<and> d \<noteq> lit ''deny''"
  by (auto simp: approval_def user_message_payload_def control_request_def stop_task_request_def
      control_response_def answers_json_def permission_decision_def)

lemma written_cautious: "j \<noteq> approval i \<Longrightarrow> list_all (cautious i) (claude_written T failure j)"
  by (simp add: claude_written_def split: option.split)

lemma write_cautious:
  "\<not> command_approves i c \<Longrightarrow> list_all (cautious i) (fst (claude_write T failure c st))"
  by (cases c) (auto simp: written_cautious claude_steered_def Let_def split: option.split)

lemma call_cautious: "list_all (\<lambda>c. \<not> command_approves i c) (fst (call_without answers_of i u st))"
proof (cases u)
  case (Some c)
  then show ?thesis by (cases c) (simp_all add: call_without_def split: option.split)
qed (simp add: call_without_def)

lemma sends_confined [simp]: "list_all (confined_act P Q) (map Send es)"
  by (induction es) simp_all

lemma settlement_confined: "list_all (confined_act P Q) (claude_settlement line failed st)"
  by (simp add: claude_settlement_def split: option.split)

lemma result_confined: "list_all (confined_act P Q) (handle_result line v st)"
  by (simp add: handle_result_def settlement_confined list.pred_map comp_def Let_def)

lemma request_permission_cautious:
  "\<not> (str_at [''request_id''] v = Some i \<and> orchestrates cli v) \<Longrightarrow>
     list_all (cautious i) (request_permission T cli False v)"
  by (auto simp: request_permission_def Let_def split: option.split)

lemma user_input_confined: "request_user_input v st = Some r \<Longrightarrow> list_all (confined_act P Q) (fst r)"
  by (auto simp: request_user_input_def Let_def split: option.splits if_splits)

lemma typed_cautious:
  assumes "\<not> (str_at [''request_id''] v = Some i \<and> orchestrates cli v)"
  shows "list_all (cautious i) (fst (claude_handle_typed T cli False line v st))"
proof -
  have 1: "list_all (cautious i) (fst (case request_user_input v st of Some r \<Rightarrow> r
      | None \<Rightarrow> (request_permission T cli False v, st)))"
    using request_permission_cautious [OF assms] by (cases "request_user_input v st") (auto dest: user_input_confined)
  show ?thesis
    unfolding claude_handle_typed_def
    by (intro fst_if 1) (simp_all add: result_confined split_beta split: option.split)
qed

lemma read_cautious: "list_all (cautious i) (fst (read_without T cli session_id i line st))"
  unfolding read_without_def claude_read_def claude_handle_message_def
  by (simp add: line_orchestrates_def typed_cautious split_beta Let_def split: option.split)

interpretation cautious_owner: confined_driver
  "\<lambda>l. read_without T cli session_id i (inputs l)" "claude_write T" "\<lambda>u. call_without answers_of i (calls u)"
  "\<lambda>c. \<not> command_approves i c" "\<lambda>j. j \<noteq> approval i"
  for T cli session_id i inputs answers_of calls
  by unfold_locales (rule read_cautious write_cautious call_cautious | assumption)+

text \<open>
  C10: a supervised Claude runs no tool on its own say. Take a run of the driver in mode \<open>Ask\<close>, in any
  interleaving, in which the user never approves the request \<open>i\<close> and the agent never asks under \<open>i\<close>
  for a plain call of Shidou's own command line: no approval of \<open>i\<close> is ever written to the process,
  whatever the process printed, other requests were answered or questions were asked.
\<close>

theorem supervised_approvals:
  assumes "do_mode options = Ask" "claude_start cli uuid_text fresh options = Inr (args, session_id, th)"
    and "\<And>l. \<not> line_orchestrates T cli i (inputs l)" "\<And>u. \<not> call_approves i (calls u)"
    and "(driver_step (\<lambda>l. claude_read T cli session_id (auto_approves options) (inputs l)) (claude_write T)
      (\<lambda>u. claude_call answers_of (calls u)))\<^sup>*\<^sup>* th th'"
  shows "approval i \<notin> set (th_written th')"
proof -
  from assms(1,3,4) have "(\<lambda>l. claude_read T cli session_id (auto_approves options) (inputs l)) =
      (\<lambda>l. read_without T cli session_id i (inputs l))"
    "(\<lambda>u. claude_call answers_of (calls u)) = (\<lambda>u. call_without answers_of i (calls u))"
    by (auto simp: read_without_def call_without_def auto_approves_def fun_eq_iff)
  with assms(5) cautious_owner.written_confined [OF _ claude_start_fresh [OF assms(2)]] show ?thesis by metis
qed


text \<open>A request to write a file, under the id \<open>r1\<close>.\<close>

definition demo_permission :: json where
  "demo_permission = JObject [(lit ''type'', JString (lit ''control_request'')), (lit ''request_id'', JString (lit ''r1'')),
     (lit ''request'', JObject [(lit ''subtype'', JString (lit ''can_use_tool'')), (lit ''tool_name'', JString (lit ''Write''))])]"

definition asking_texts :: driver_texts where
  "asking_texts = demo_texts\<lparr>dt_lib := plain_lib\<lparr>lib_from_str := (\<lambda>_. Some demo_permission)\<rparr>\<rparr>"

theorem supervised_approvals_witness:
  "\<exists>th. (driver_step (\<lambda>l. claude_read asking_texts None (lit ''s1'') (auto_approves (demo_options None Ask)) l)
      (claude_write asking_texts) (\<lambda>d. claude_call (\<lambda>_. []) (Some (Call_Respond (lit ''r2'') d))))\<^sup>*\<^sup>*
      (demo_claude_threads Ask) th \<and>
    th_written th = [approval (lit ''r2'')] \<and> approval (lit ''r1'') \<notin> set (th_written th)"
proof -
  let ?s = "claude_state_new (lit ''s1'') None (demo_options None Ask)"
  let ?events = "[Connected (Some (Claude_Cursor (lit ''s1'') None))]"
  let ?step = "driver_step (\<lambda>l. claude_read asking_texts None (lit ''s1'') (auto_approves (demo_options None Ask)) l)
      (claude_write asking_texts) (\<lambda>d. claude_call (\<lambda>_. []) (Some (Call_Respond (lit ''r2'') d)))"
  have "?step\<^sup>*\<^sup>* (threads_start ?s ?events) ((threads_start ?s ?events)\<lparr>th_writer := [Write_Line (approval (lit ''r2''))]\<rparr>)"
    by (rule command_taken_up [where u = "lit ''allow''" and c = "Cl_Respond (lit ''r2'') (lit ''allow'')" and failure = None])
      (simp_all add: claude_written_def approval_def)
  note 1 = writer_next [OF this, OF run_act.simps(3)]
  have lines: "\<not> line_orchestrates asking_texts None (lit ''r1'') l" for l
    by (simp add: line_orchestrates_def asking_texts_def orchestrates_def demo_permission_def str_at_def value_get_def obj_get_def)
  have calls: "\<not> call_approves (lit ''r1'') (Some (Call_Respond (lit ''r2'') d))" for d by simp
  have never: "approval (lit ''r1'') \<notin> set (th_written th')" if "?step\<^sup>*\<^sup>* (threads_start ?s ?events) th'" for th'
    by (rule supervised_approvals [where inputs = "\<lambda>l. l" and calls = "\<lambda>d. Some (Call_Respond (lit ''r2'') d)",
          OF _ demo_claude_start lines calls that]) (simp add: demo_options_def)
  show ?thesis
    unfolding demo_claude_threads_def
    by (intro exI conjI, rule 1, simp add: threads_start_def, rule never [OF 1])
qed

section \<open>The other modes\<close>


text \<open>A request to run a command that deletes the user's files.\<close>

definition demo_bash_request :: json where
  "demo_bash_request = JObject [(lit ''type'', JString (lit ''control_request'')), (lit ''request_id'', JString (lit ''r1'')),
     (lit ''request'', JObject [(lit ''subtype'', JString (lit ''can_use_tool'')), (lit ''tool_name'', JString (lit ''Bash'')),
       (lit ''input'', JObject [(lit ''command'', JString (lit ''rm -rf ~''))])])]"

definition bash_texts :: driver_texts where
  "bash_texts = demo_texts\<lparr>dt_lib := plain_lib\<lparr>lib_from_str := (\<lambda>_. Some demo_bash_request)\<rparr>\<rparr>"

definition demo_claude_line :: claude_line where
  "demo_claude_line = \<lparr>dl_text = lit ''{}'', dl_ids = word_of_nat, dl_now = 0, cm_metadata = (\<lambda>_. None)\<rparr>"


section \<open>Subagents\<close>



definition demo_line :: claude_line where
  "demo_line = \<lparr>dl_text = [], dl_ids = of_nat, dl_now = 0, cm_metadata = (\<lambda>_. None)\<rparr>"

definition demo_subagent_message :: json where
  "demo_subagent_message = JObject [(lit ''type'', JString (lit ''assistant'')),
     (lit ''parent_tool_use_id'', JString (lit ''t1'')),
     (lit ''message'', JObject [(lit ''content'', JArray [JObject [(lit ''type'', JString (lit ''text'')),
       (lit ''text'', JString (lit ''found it''))]])])]"

definition demo_claude_state :: claude_state where
  "demo_claude_state = (claude_state_new (lit ''s1'') None (demo_options None Ask))
     \<lparr>cl_subagent_tasks := [lit ''t1'' \<mapsto> lit ''task-1'']\<rparr>"


section \<open>Text is delivered once\<close>

text \<open>What a run of messages lets the user read.\<close>

definition said :: "claude_act list \<Rightarrow> rstring" where
  "said acts = concat (List.map_filter (\<lambda>a. case a of Send (TextDelta s) \<Rightarrow> Some s | _ \<Rightarrow> None) acts)"

fun claude_stream ::
    "driver_texts \<Rightarrow> rstring option \<Rightarrow> rstring \<Rightarrow> bool \<Rightarrow> (claude_line \<times> json) list \<Rightarrow> claude_state \<Rightarrow> claude_act list \<times> claude_state" where
  "claude_stream T cli sid auto_approve [] st = ([], st)"
| "claude_stream T cli sid auto_approve ((line, v) # messages) st =
     (let (acts, st) = claude_handle_message T cli sid auto_approve line v st;
          (more_acts, st) = claude_stream T cli sid auto_approve messages st in (acts @ more_acts, st))"

text \<open>A partial message of the main conversation, whether it begins one, and the text it adds.\<close>

definition is_partial :: "json \<Rightarrow> bool" where
  "is_partial v \<longleftrightarrow> has_type ''stream_event'' v \<and> \<not> is_subagent_message v"

definition begins_message :: "json \<Rightarrow> bool" where
  "begins_message v \<longleftrightarrow> has_type ''message_start'' (unwrap_or (value_get v ''event'') JNull)"

definition partial_text :: "json \<Rightarrow> rstring" where
  "partial_text v = (let delta = unwrap_or (value_pointer [''event'', ''delta''] v) JNull in
     if has_type ''text_delta'' delta then unwrap_or (str_at [''text''] delta) [] else [])"

definition block_text :: "json \<Rightarrow> rstring" where
  "block_text block = (if has_type ''text'' block then unwrap_or (str_at [''text''] block) [] else [])"

lemma said_simps [simp]:
  "said [] = []" "said (acts @ acts') = said acts @ said acts'"
  "said (map Send (es @ es')) = said (map Send es) @ said (map Send es')"
  by (simp_all add: said_def map_filter_def)

lemma said_Send [simp]: "said (Send e # acts) = (case e of TextDelta s \<Rightarrow> s | _ \<Rightarrow> []) @ said acts"
  by (cases e) (simp_all add: said_def map_filter_def)

lemma nonempty_str:
  "nonempty_str_at path v = None \<Longrightarrow> unwrap_or (str_at path v) [] = []"
  "nonempty_str_at path v = Some s \<Longrightarrow> str_at path v = Some s \<and> s \<noteq> []"
proof -
  show "nonempty_str_at path v = None \<Longrightarrow> unwrap_or (str_at path v) [] = []"
    by (cases "str_at path v") (simp_all add: nonempty_str_at_def split: if_splits)
qed (simp add: nonempty_str_at_def opt_filter_eq_Some)

lemma partial_text_stream:
  assumes "handle_stream_event v st = (es, st')"
  shows "said (map Send es) = partial_text v \<and>
     (cl_saw_text_delta st' \<longleftrightarrow> cl_saw_text_delta st \<and> \<not> begins_message v \<or> partial_text v \<noteq> [])"
proof -
  define delta where "delta = unwrap_or (value_get (unwrap_or (value_get v ''event'') JNull) ''delta'') JNull"
  have delta: "unwrap_or (value_pointer [''event'', ''delta''] v) JNull = delta"
    by (cases "value_get v ''event''"; cases "value_get (unwrap_or (value_get v ''event'') JNull) ''delta''")
      (simp_all add: delta_def value_get_def)
  have other: "\<not> has_type ''text_delta'' delta" if "has_type ''thinking_delta'' delta" using that by (simp add: has_type_def)
  from assms show ?thesis
    unfolding handle_stream_event_def partial_text_def begins_message_def delta Let_def delta_def [symmetric]
    using nonempty_str [of "[''text'']" delta]
    by (cases "has_type ''text_delta'' delta"; cases "nonempty_str_at [''text''] delta")
      (auto split: option.splits if_splits dest: other)
qed

lemma partial_step:
  assumes "is_partial v" "claude_handle_message T cli sid auto_approve line v st = (acts, st')"
  shows "said acts = partial_text v \<and>
    (cl_saw_text_delta st' \<longleftrightarrow> cl_saw_text_delta st \<and> \<not> begins_message v \<or> partial_text v \<noteq> [])"
proof -
  from assms(1) have "has_type ''stream_event'' v" "\<not> has_type ''result'' v" "\<not> has_type ''system'' v"
    "\<not> has_type ''control_request'' v" "\<not> has_type ''control_response'' v" "\<not> is_subagent_message v"
    by (auto simp: is_partial_def has_type_def)
  with assms(2) obtain st1 es where "handle_stream_event v st1 = (es, st')" "acts = map Send es"
    "cl_saw_text_delta st1 = cl_saw_text_delta st"
    by (auto simp: claude_handle_message_def claude_handle_typed_def apfst_def map_prod_def Let_def
        split: if_splits prod.splits)
  with partial_text_stream [of v st1 es st'] show ?thesis by simp
qed

lemma partials_said:
  assumes "list_all (\<lambda>(_, v). is_partial v \<and> \<not> begins_message v) messages"
    and "claude_stream T cli sid auto_approve messages st = (acts, st')"
  shows "said acts = concat (map (partial_text \<circ> snd) messages) \<and>
    (cl_saw_text_delta st' \<longleftrightarrow> cl_saw_text_delta st \<or> concat (map (partial_text \<circ> snd) messages) \<noteq> [])"
  using assms
proof (induction messages arbitrary: st acts)
  case (Cons m messages)
  obtain line v where m: "m = (line, v)" by (cases m)
  obtain acts1 st1 where 1: "claude_handle_message T cli sid auto_approve line v st = (acts1, st1)" by fastforce
  obtain acts2 where 2: "claude_stream T cli sid auto_approve messages st1 = (acts2, st')" "acts = acts1 @ acts2"
    using Cons.prems(2) by (auto simp: m 1 split: prod.splits)
  from Cons.prems(1) have v: "is_partial v" "\<not> begins_message v" and rest: "list_all (\<lambda>(_, v). is_partial v \<and> \<not> begins_message v) messages"
    by (simp_all add: m)
  from Cons.IH [OF rest 2(1)] partial_step [OF v(1) 1] v(2) show ?case by (auto simp: 2(2) m)
qed simp

lemma block_said:
  "claude_assistant_block T i block st = (es, st') \<Longrightarrow>
     said (map Send es) = (if cl_saw_text_delta st then [] else block_text block) \<and>
     cl_saw_text_delta st' = cl_saw_text_delta st"
  by (auto simp: claude_assistant_block_def block_text_def has_type_def option_list_def Let_def
      split: if_splits option.splits dest: nonempty_str)

lemma blocks_said:
  "over_blocks (claude_assistant_block T) ids n blocks st = (es, st') \<Longrightarrow>
     said (map Send es) = (if cl_saw_text_delta st then [] else concat (map block_text blocks))"
proof (induction blocks arbitrary: n st es)
  case (Cons block blocks)
  then show ?case by (auto simp: Let_def split: prod.splits dest: block_said)
qed simp

lemma completed_said:
  assumes "has_type ''assistant'' v" "\<not> is_subagent_message v"
    and "claude_handle_message T cli sid auto_approve line v st = (acts, st')"
  shows "said acts = (if cl_saw_text_delta st then []
    else concat (map block_text (unwrap_or (array_at [''message'', ''content''] v) [])))"
proof -
  from assms(1) have "\<not> has_type ''result'' v" "\<not> has_type ''system'' v" "\<not> has_type ''stream_event'' v"
    "\<not> has_type ''control_request'' v" "\<not> has_type ''control_response'' v"
    by (auto simp: has_type_def)
  with assms obtain st1 usage st2 es where *: "claude_usage v st1 = (usage, st2)"
    "over_blocks (claude_assistant_block T) (dl_ids line) 0 (unwrap_or (array_at [''message'', ''content''] v) []) st2 = (es, st')"
    "acts = map Send (usage @ es)" "cl_saw_text_delta st1 = cl_saw_text_delta st"
    by (auto simp: claude_handle_message_def claude_handle_typed_def is_subagent_message_def Let_def
        split: if_splits prod.splits)
  have "cl_saw_text_delta st2 = cl_saw_text_delta st1" "said (map Send usage) = []"
    using *(1) by (auto simp: claude_usage_def option_list_def split: option.splits)
  with * blocks_said [OF *(2)] show ?thesis by simp
qed

text \<open>
  C20: the text of a message is delivered exactly once. When a message of the main conversation is
  streamed and then repeated in full, the user reads what was streamed and nothing twice; when
  nothing of its text was streamed, the user reads the full text.
\<close>

theorem text_delivered_once:
  assumes "is_partial start" "begins_message start"
    and "list_all (\<lambda>(_, v). is_partial v \<and> \<not> begins_message v) partials"
    and "has_type ''assistant'' full" "\<not> is_subagent_message full"
    and "streamed = concat (map (partial_text \<circ> snd) ((line, start) # partials))"
  shows "said (fst (claude_stream T cli sid auto_approve ((line, start) # partials @ [(line', full)]) st)) =
    (if streamed \<noteq> [] then streamed
     else concat (map block_text (unwrap_or (array_at [''message'', ''content''] full) [])))"
proof -
  obtain acts1 st1 where 1: "claude_handle_message T cli sid auto_approve line start st = (acts1, st1)" by fastforce
  obtain acts2 st2 where 2: "claude_stream T cli sid auto_approve partials st1 = (acts2, st2)" by fastforce
  obtain acts3 st3 where 3: "claude_handle_message T cli sid auto_approve line' full st2 = (acts3, st3)" by fastforce
  have "claude_stream T cli sid auto_approve (ms @ ms') st = (let (a, st) = claude_stream T cli sid auto_approve ms st;
      (a', st) = claude_stream T cli sid auto_approve ms' st in (a @ a', st))" for ms ms' st
    by (induction ms arbitrary: st) (auto simp: Let_def split: prod.splits)
  with 1 2 3 have "fst (claude_stream T cli sid auto_approve ((line, start) # partials @ [(line', full)]) st) = acts1 @ acts2 @ acts3"
    by simp
  with partial_step [OF assms(1) 1] partials_said [OF assms(3) 2] completed_said [OF assms(4,5) 3] assms(2,6)
  show ?thesis by auto
qed

definition demo_stream_event :: "string \<Rightarrow> json \<Rightarrow> json" where
  "demo_stream_event event delta = JObject [(lit ''type'', JString (lit ''stream_event'')),
     (lit ''event'', JObject [(lit ''type'', JString (lit event)), (lit ''delta'', delta)])]"

definition demo_text_delta :: "string \<Rightarrow> json" where
  "demo_text_delta s = JObject [(lit ''type'', JString (lit ''text_delta'')), (lit ''text'', JString (lit s))]"

definition demo_full_message :: json where
  "demo_full_message = JObject [(lit ''type'', JString (lit ''assistant'')),
     (lit ''message'', JObject [(lit ''content'', JArray [JObject [(lit ''type'', JString (lit ''text'')),
       (lit ''text'', JString (lit ''hello''))]])])]"

theorem text_delivered_once_witness:
  "said (fst (claude_stream demo_texts None (lit ''s1'') True
     [(demo_line, demo_stream_event ''message_start'' JNull),
      (demo_line, demo_stream_event ''content_block_delta'' (demo_text_delta ''hel'')),
      (demo_line, demo_stream_event ''content_block_delta'' (demo_text_delta ''lo'')),
      (demo_line, demo_full_message)] demo_claude_state)) = lit ''hello''"
proof -
  let ?partials = "[(demo_line, demo_stream_event ''content_block_delta'' (demo_text_delta ''hel'')),
    (demo_line, demo_stream_event ''content_block_delta'' (demo_text_delta ''lo''))]"
  note defs = demo_stream_event_def demo_text_delta_def demo_full_message_def is_partial_def begins_message_def
    partial_text_def is_subagent_message_def has_type_def str_at_def value_get_def obj_get_def Let_def
  have 1: "is_partial (demo_stream_event ''message_start'' JNull)" "begins_message (demo_stream_event ''message_start'' JNull)"
    "has_type ''assistant'' demo_full_message" "\<not> is_subagent_message demo_full_message"
    "partial_text (demo_stream_event ''message_start'' JNull) = []" by (simp_all add: defs)
  have 2: "is_partial (demo_stream_event ''content_block_delta'' (demo_text_delta s))"
    "\<not> begins_message (demo_stream_event ''content_block_delta'' (demo_text_delta s))"
    "partial_text (demo_stream_event ''content_block_delta'' (demo_text_delta s)) = lit s" for s by (simp_all add: defs)
  have "list_all (\<lambda>(_, v). is_partial v \<and> \<not> begins_message v) ?partials" by (simp add: 2)
  from text_delivered_once [OF 1(1,2) this 1(3,4) refl, where line = demo_line and line' = demo_line and T = demo_texts
      and cli = None and sid = "lit ''s1''" and auto_approve = True and st = demo_claude_state]
  show ?thesis by (simp add: 1 2) (simp add: lit_def)
qed

end
