(* ===== verification/Claude_Session.thy ===== *)
theory Claude_Session
  imports Driver_Support
begin

text \<open>
  The session files of Claude Code as the daemon reads and writes them
  (\<open>crates/shidou-core/src/claude_session.rs\<close>), and the fork of a native session from them. A line
  of a file names the entry before it, so a file is a tree; a fork copies the lines up to a
  message under new ids. The directory is a list of folders and files in the order \<open>read_dir\<close> has
  them, a file the list of its lines. The \<open>uuid\<close> crate and the clock are parameters.
\<close>

section \<open>Entries\<close>

definition transcript_types :: "string list" where
  "transcript_types = [''user'', ''assistant'', ''attachment'', ''system'', ''progress'']"

definition is_transcript_entry :: "json \<Rightarrow> bool" where
  "is_transcript_entry v \<longleftrightarrow>
     (case str_at [''type''] v of Some kind \<Rightarrow> lits transcript_types kind | None \<Rightarrow> False) \<and>
     str_at [''uuid''] v \<noteq> None \<and> bool_at [''isSidechain''] v \<noteq> Some True"

definition transcript_entries :: "json list \<Rightarrow> json list" where
  "transcript_entries entries = filter is_transcript_entry entries"

text \<open>\<open>expect("transcript entries have UUIDs")\<close>.\<close>

definition entry_uuid :: "json \<Rightarrow> rstring" where
  "entry_uuid v = unwrap_or (str_at [''uuid''] v) []"

text \<open>A \<open>HashMap\<close> collected from pairs keeps the last pair of a key.\<close>

definition collect_map :: "('k \<times> 'v) list \<Rightarrow> 'k \<rightharpoonup> 'v" where
  "collect_map pairs = map_of (rev pairs)"

definition by_uuid :: "json list \<Rightarrow> rstring \<rightharpoonup> json" where
  "by_uuid transcript = collect_map (map (\<lambda>e. (entry_uuid e, e)) transcript)"

definition parent_entry :: "(rstring \<rightharpoonup> json) \<Rightarrow> json \<Rightarrow> json option" where
  "parent_entry index e = Option.bind (str_at [''parentUuid''] e) index"

text \<open>The loop to the root, newest entry first; a file whose parents form a cycle keeps it busy for ever.\<close>

partial_function (option) climb :: "(rstring \<rightharpoonup> json) \<Rightarrow> json \<Rightarrow> json list option" where
  "climb index current =
     (case parent_entry index current of
        None \<Rightarrow> Some [current]
      | Some next \<Rightarrow> Option.bind (climb index next) (\<lambda>chain. Some (current # chain)))"

definition active_chain :: "json list \<Rightarrow> json list option" where
  "active_chain entries =
     (let transcript = transcript_entries entries in
      case last_opt transcript of
        None \<Rightarrow> Some []
      | Some current \<Rightarrow> map_option rev (climb (by_uuid transcript) current))"

definition is_native_prompt :: "json \<Rightarrow> bool" where
  "is_native_prompt e \<longleftrightarrow> bool_at [''isMeta''] e \<noteq> Some True \<and>
     (case value_pointer [''message'', ''content''] e of
        Some (JString _) \<Rightarrow> True
      | Some (JArray blocks) \<Rightarrow> blocks \<noteq> [] \<and> \<not> list_ex (has_type ''tool_result'') blocks
      | _ \<Rightarrow> False)"

definition is_message :: "json \<Rightarrow> bool" where
  "is_message e \<longleftrightarrow> has_type ''user'' e \<or> has_type ''assistant'' e"

text \<open>One turn of the loop over the chain: the last message of each turn so far.\<close>

definition turn_point_step :: "rstring list \<Rightarrow> json \<Rightarrow> rstring list" where
  "turn_point_step turn_points e =
     (if has_type ''user'' e \<and> is_native_prompt e then turn_points @ [entry_uuid e]
      else if turn_points \<noteq> [] \<and> is_message e then butlast turn_points @ [entry_uuid e]
      else turn_points)"

definition turn_points_of :: "json list \<Rightarrow> rstring list" where
  "turn_points_of chain = foldl turn_point_step [] chain"

section \<open>Files\<close>

record claude_world =
  cw_lib :: lib
  cw_parse_uuid :: "rstring \<Rightarrow> bool"
  cw_uuid :: "nat \<Rightarrow> rstring"
  cw_now :: rstring
  cw_directory :: rstring
  cw_opens :: "rstring \<Rightarrow> bool"
  cw_creates :: "rstring \<Rightarrow> bool"
  cw_write_fails :: "(nat \<times> rstring) option"

text \<open>\<open>None\<close> is a directory that cannot be read.\<close>

type_synonym claude_projects = "(rstring \<times> (rstring \<times> rstring list) list) list option"

definition session_filename :: "rstring \<Rightarrow> rstring" where
  "session_filename session_id = session_id @ lit ''.jsonl''"

definition has_session :: "rstring \<Rightarrow> rstring \<times> (rstring \<times> rstring list) list \<Rightarrow> bool" where
  "has_session filename folder \<longleftrightarrow>
     (case map_of (snd folder) filename of Some file \<Rightarrow> file \<noteq> [] | None \<Rightarrow> False)"

text \<open>The folder a session is in and the lines of its file.\<close>

definition find_session_file ::
    "claude_world \<Rightarrow> claude_projects \<Rightarrow> rstring \<Rightarrow> rstring + rstring \<times> rstring list" where
  "find_session_file W projects session_id =
     (if \<not> cw_parse_uuid W session_id then Inl (lit ''Claude returned an invalid session ID'')
      else case projects of
        None \<Rightarrow> Inl (lit ''could not read Claude's session directory at '' @ cw_directory W)
      | Some folders \<Rightarrow> (case List.find (has_session (session_filename session_id)) folders of
          None \<Rightarrow> Inl (lit ''Claude session '' @ session_id @ lit '' was not found on disk'')
        | Some (folder, files) \<Rightarrow>
            Inr (folder, unwrap_or (map_of files (session_filename session_id)) [])))"

definition session_path :: "rstring \<Rightarrow> rstring \<Rightarrow> rstring" where
  "session_path folder session_id = folder @ lit ''/'' @ session_filename session_id"

definition parse_entries :: "claude_world \<Rightarrow> rstring list \<Rightarrow> json list" where
  "parse_entries W file = List.map_filter (lib_from_str (cw_lib W)) file"

definition read_entries :: "claude_world \<Rightarrow> claude_projects \<Rightarrow> rstring \<Rightarrow> rstring + rstring \<times> json list" where
  "read_entries W projects session_id =
     (case find_session_file W projects session_id of
        Inl error \<Rightarrow> Inl error
      | Inr (folder, file) \<Rightarrow>
          if \<not> cw_opens W (session_path folder session_id)
          then Inl (lit ''could not open Claude session '' @ session_path folder session_id)
          else Inr (folder, parse_entries W file))"

section \<open>Metadata and checkpoints\<close>

definition claude_title :: "json \<Rightarrow> rstring option" where
  "claude_title e =
     (if has_type ''ai-title'' e then trimmed_str (str_at [''aiTitle''] e)
      else if has_type ''custom-title'' e then trimmed_str (str_at [''customTitle''] e)
      else None)"

definition session_metadata ::
    "claude_world \<Rightarrow> claude_projects \<Rightarrow> rstring \<Rightarrow> (rstring + rstring option \<times> rstring option) option" where
  "session_metadata W projects session_id =
     (case read_entries W projects session_id of
        Inl error \<Rightarrow> Some (Inl error)
      | Inr (_, entries) \<Rightarrow> map_option (\<lambda>chain.
          Inr (find_map (\<lambda>e. if is_message e then str_at [''uuid''] e else None) (rev chain),
               last_opt (List.map_filter claude_title entries)))
          (active_chain entries))"

definition message_id_for_turn ::
    "claude_world \<Rightarrow> claude_projects \<Rightarrow> rstring \<Rightarrow> nat \<Rightarrow> (rstring + rstring) option" where
  "message_id_for_turn W projects session_id provider_turn_count =
     (if provider_turn_count = 0 then Some (Inl (lit ''Claude has no native turn at that checkpoint''))
      else case read_entries W projects session_id of
        Inl error \<Rightarrow> Some (Inl error)
      | Inr (_, entries) \<Rightarrow> map_option (\<lambda>chain.
          case nth_opt (turn_points_of chain) (provider_turn_count - 1) of
            Some m \<Rightarrow> Inr m
          | None \<Rightarrow> Inl (lit ''Claude's message checkpoint for that turn was not found''))
          (active_chain entries))"

section \<open>Forking\<close>

definition replacements_of :: "rstring \<Rightarrow> json list \<Rightarrow> json list" where
  "replacements_of session_id entries = concat (map (\<lambda>e.
     if has_type ''content-replacement'' e \<and> str_at [''sessionId''] e = Some session_id
     then unwrap_or (array_at [''replacements''] e) [] else []) entries)"

definition is_progress :: "json \<Rightarrow> bool" where
  "is_progress e \<longleftrightarrow> has_type ''progress'' e"

text \<open>The loop that looks for the nearest ancestor that is written.\<close>

partial_function (option) new_parent ::
    "(rstring \<rightharpoonup> json) \<Rightarrow> (rstring \<rightharpoonup> rstring) \<Rightarrow> rstring option \<Rightarrow> rstring option option" where
  "new_parent index ids parent_id =
     (case parent_id of
        None \<Rightarrow> Some None
      | Some parent \<Rightarrow> (case index parent of
          None \<Rightarrow> Some None
        | Some e \<Rightarrow>
            if \<not> is_progress e then Some (ids parent)
            else new_parent index ids (str_at [''parentUuid''] e)))"

definition json_opt :: "rstring option \<Rightarrow> json" where
  "json_opt s = (case s of Some s \<Rightarrow> JString s | None \<Rightarrow> JNull)"

definition remove_key :: "string \<Rightarrow> json \<Rightarrow> json" where
  "remove_key key v = (case v of JObject m \<Rightarrow> JObject (AList.delete (lit key) m) | _ \<Rightarrow> v)"

definition dropped_keys :: "string list" where
  "dropped_keys = [''teamName'', ''agentName'', ''slug'', ''sourceToolAssistantUUID'']"

text \<open>One entry of the fork; \<open>final\<close> is the last one, which is dated now.\<close>

definition forked_entry ::
    "claude_world \<Rightarrow> (rstring \<rightharpoonup> rstring) \<Rightarrow> rstring \<Rightarrow> rstring \<Rightarrow> bool \<Rightarrow> json \<Rightarrow> rstring option \<Rightarrow> json" where
  "forked_entry W ids session_id forked_session_id final original parent =
     (let old_uuid = entry_uuid original;
          forked = set_key ''uuid'' (JString (unwrap_or (ids old_uuid) [])) original;
          forked = set_key ''parentUuid'' (json_opt parent) forked;
          forked = set_key ''logicalParentUuid''
            (json_opt (Option.bind (str_at [''logicalParentUuid''] original) ids)) forked;
          forked = set_key ''sessionId'' (JString forked_session_id) forked;
          forked = (if final \<or> value_get forked ''timestamp'' = None
            then set_key ''timestamp'' (JString (cw_now W)) forked else forked);
          forked = set_key ''isSidechain'' (JBool False) forked;
          forked = set_key ''forkedFrom'' (JObject [(lit ''messageUuid'', JString old_uuid),
            (lit ''sessionId'', JString session_id)]) forked in
      foldl (\<lambda>v key. remove_key key v) forked dropped_keys)"

text \<open>The entries in order; \<open>rest\<close> tells the last one. \<open>None\<close> is a parent loop that does not end.\<close>

fun forked_entries ::
    "claude_world \<Rightarrow> (rstring \<rightharpoonup> json) \<Rightarrow> (rstring \<rightharpoonup> rstring) \<Rightarrow> rstring \<Rightarrow> rstring \<Rightarrow> json list \<Rightarrow> json list option" where
  "forked_entries W index ids session_id forked_session_id [] = Some []"
| "forked_entries W index ids session_id forked_session_id (original # rest) =
     Option.bind (new_parent index ids (str_at [''parentUuid''] original)) (\<lambda>parent.
       Option.bind (forked_entries W index ids session_id forked_session_id rest) (\<lambda>rest'.
         Some (forked_entry W ids session_id forked_session_id (rest = []) original parent # rest')))"

definition replacement_entry :: "claude_world \<Rightarrow> rstring \<Rightarrow> json list \<Rightarrow> rstring \<Rightarrow> json" where
  "replacement_entry W forked_session_id replacements new_id =
     JObject [(lit ''replacements'', JArray replacements), (lit ''sessionId'', JString forked_session_id),
       (lit ''timestamp'', JString (cw_now W)), (lit ''type'', JString (lit ''content-replacement'')),
       (lit ''uuid'', JString new_id)]"

definition title_entry :: "claude_world \<Rightarrow> rstring \<Rightarrow> rstring \<Rightarrow> rstring \<Rightarrow> json" where
  "title_entry W forked_session_id title new_id =
     JObject [(lit ''customTitle'', JString (if trim title = [] then lit ''Shidou rewind'' else trim title)),
       (lit ''sessionId'', JString forked_session_id), (lit ''timestamp'', JString (cw_now W)),
       (lit ''type'', JString (lit ''custom-title'')), (lit ''uuid'', JString new_id)]"

text \<open>
  The new ids are taken in order: one for each entry of the transcript, the session's, then those
  of the two closing entries.
\<close>

definition fork_message_ids :: "claude_world \<Rightarrow> json list \<Rightarrow> rstring \<rightharpoonup> rstring" where
  "fork_message_ids W transcript = collect_map (map (\<lambda>(i, e). (entry_uuid e, cw_uuid W i)) (enumerate 0 transcript))"

definition closing_entries :: "claude_world \<Rightarrow> rstring \<Rightarrow> json list \<Rightarrow> rstring \<Rightarrow> nat \<Rightarrow> json list" where
  "closing_entries W forked_session_id replacements title used =
     (if replacements = [] then [title_entry W forked_session_id title (cw_uuid W used)]
      else [replacement_entry W forked_session_id replacements (cw_uuid W used),
        title_entry W forked_session_id title (cw_uuid W (Suc used))])"

text \<open>\<open>create_new\<close> and the lines that reached the file.\<close>

definition insert_file :: "rstring \<Rightarrow> rstring \<Rightarrow> rstring list \<Rightarrow> claude_projects \<Rightarrow> claude_projects" where
  "insert_file folder filename file projects = map_option (update_first (\<lambda>f. fst f = folder)
     (\<lambda>(folder, files). (folder, files @ [(filename, file)]))) projects"

definition file_exists :: "rstring \<Rightarrow> rstring \<Rightarrow> claude_projects \<Rightarrow> bool" where
  "file_exists folder filename projects \<longleftrightarrow> (case projects of
       None \<Rightarrow> False
     | Some folders \<Rightarrow> list_ex (\<lambda>(name, files). name = folder \<and> map_of files filename \<noteq> None) folders)"

definition write_fork ::
    "claude_world \<Rightarrow> rstring \<Rightarrow> rstring \<Rightarrow> json list \<Rightarrow> claude_projects \<Rightarrow> (rstring + unit) \<times> claude_projects" where
  "write_fork W folder forked_session_id entries projects =
     (let filename = session_filename forked_session_id;
          path = session_path folder forked_session_id;
          file = map (lib_display (cw_lib W)) entries in
      if file_exists folder filename projects \<or> \<not> cw_creates W path
      then (Inl (lit ''could not create Claude session fork '' @ path), projects)
      else case cw_write_fails W of
        None \<Rightarrow> (Inr (), insert_file folder filename file projects)
      | Some (written, error) \<Rightarrow> (Inl error, insert_file folder filename (take written file) projects))"

record forked_claude_session =
  fc_session_id :: rstring
  fc_message_ids :: "rstring \<rightharpoonup> rstring"

definition cut_transcript :: "rstring \<Rightarrow> json list \<Rightarrow> json list option" where
  "cut_transcript up_to_message_id transcript =
     map_option (\<lambda>cutoff. take (cutoff + 1) transcript)
       (position (\<lambda>e. str_at [''uuid''] e = Some up_to_message_id) transcript)"

definition fork_session_at ::
    "claude_world \<Rightarrow> rstring \<Rightarrow> rstring \<Rightarrow> rstring \<Rightarrow> claude_projects \<Rightarrow>
     ((rstring + forked_claude_session) \<times> claude_projects) option" where
  "fork_session_at W session_id up_to_message_id title projects =
     (if \<not> cw_parse_uuid W session_id
      then Some (Inl (lit ''Claude returned an invalid session ID''), projects)
      else if \<not> cw_parse_uuid W up_to_message_id
      then Some (Inl (lit ''Claude returned an invalid message checkpoint''), projects)
      else case read_entries W projects session_id of
        Inl error \<Rightarrow> Some (Inl error, projects)
      | Inr (folder, raw_entries) \<Rightarrow> (case cut_transcript up_to_message_id (transcript_entries raw_entries) of
          None \<Rightarrow> Some (Inl (lit ''Claude message checkpoint '' @ up_to_message_id @
            lit '' is missing from the session''), projects)
        | Some transcript \<Rightarrow>
            let ids = fork_message_ids W transcript;
                writable = filter (\<lambda>e. \<not> is_progress e) transcript;
                forked_session_id = cw_uuid W (length transcript) in
            if writable = []
            then Some (Inl (lit ''Claude session '' @ session_id @ lit '' has no messages to rewind''), projects)
            else Option.bind (forked_entries W (by_uuid transcript) ids session_id forked_session_id writable)
              (\<lambda>entries.
                let output = entries @ closing_entries W forked_session_id
                      (replacements_of session_id raw_entries) title (Suc (length transcript)) in
                Some (map_prod (map_sum id (\<lambda>_. \<lparr>fc_session_id = forked_session_id, fc_message_ids = ids\<rparr>)) id
                  (write_fork W folder forked_session_id output projects)))))"

text \<open>
  \<open>fork_provider_session\<close> of \<open>daemon.rs\<close> for a Claude session: the cursor of the fork, the ids of its
  messages and the message it was cut at.
\<close>

definition fork_claude_session ::
    "claude_world \<Rightarrow> rstring \<Rightarrow> rstring option \<Rightarrow> nat \<Rightarrow> rstring \<Rightarrow> claude_projects \<Rightarrow>
     ((rstring + provider_resume_cursor \<times> (rstring \<rightharpoonup> rstring) \<times> rstring) \<times> claude_projects) option" where
  "fork_claude_session W session_id resume_at turn_count title projects =
     Option.bind (case resume_at of Some m \<Rightarrow> Some (Inr m)
         | None \<Rightarrow> message_id_for_turn W projects session_id turn_count) (\<lambda>point.
       case point of
         Inl error \<Rightarrow> Some (Inl error, projects)
       | Inr source_resume_at \<Rightarrow>
           Option.bind (fork_session_at W session_id source_resume_at title projects) (\<lambda>(answer, projects).
             Some (case answer of
               Inl error \<Rightarrow> Inl error
             | Inr fork \<Rightarrow> (case fc_message_ids fork source_resume_at of
                 None \<Rightarrow> Inl (lit ''Claude fork did not include its target message'')
               | Some fork_resume_at \<Rightarrow> Inr (Claude_Cursor (fc_session_id fork) (Some fork_resume_at),
                   fc_message_ids fork, source_resume_at)), projects)))"

end
