(* ===== verification/Claude_Fork.thy ===== *)
theory Claude_Fork
  imports Claude_Session "HOL-Library.Countable"
begin

text \<open>
  What a fork of a Claude session keeps: its turns, their checkpoints, and the session it was
  made from. A log is \<open>ordered_log\<close> when no entry names itself or a later one as its parent, which
  is how a program that appends its entries writes them.
\<close>

section \<open>Chains\<close>

fun ordered_log :: "json list \<Rightarrow> bool" where
  "ordered_log [] = True"
| "ordered_log (e # rest) =
     ((case str_at [''parentUuid''] e of Some p \<Rightarrow> p \<notin> set (map entry_uuid (e # rest)) | None \<Rightarrow> True) \<and>
      ordered_log rest)"

lemma ordered_log_append: "ordered_log (ts @ ts') \<Longrightarrow> ordered_log ts \<and> ordered_log ts'"
  by (induction ts) (auto split: option.splits)

lemma ordered_log_parent:
  "ordered_log (ts @ e # ts') \<Longrightarrow> str_at [''parentUuid''] e = Some p \<Longrightarrow> p \<notin> set (map entry_uuid (e # ts'))"
  by (induction ts) auto

lemma by_uuid_append: "p \<notin> set (map entry_uuid ts') \<Longrightarrow> by_uuid (ts @ ts') p = by_uuid ts p"
  by (auto simp: by_uuid_def collect_map_def map_add_def split: option.split dest!: map_of_SomeD)

lemma by_uuid_Some: "by_uuid ts p = Some e \<Longrightarrow> e \<in> set ts \<and> entry_uuid e = p"
  by (auto simp: by_uuid_def collect_map_def dest!: map_of_SomeD)

lemma by_uuid_distinct: "distinct (map entry_uuid ts) \<Longrightarrow> e \<in> set ts \<Longrightarrow> by_uuid ts (entry_uuid e) = Some e"
  unfolding by_uuid_def collect_map_def
  by (intro map_of_is_SomeI) (auto simp: rev_map [symmetric] comp_def)

text \<open>In an ordered log the parent of an entry is found before it.\<close>

lemma parent_before:
  assumes "ordered_log (ts @ e # ts')"
  shows "parent_entry (by_uuid (ts @ e # ts')) e = parent_entry (by_uuid ts) e"
proof (cases "str_at [''parentUuid''] e")
  case (Some p)
  from ordered_log_parent [OF assms Some] have "by_uuid (ts @ e # ts') p = by_uuid ts p" by (rule by_uuid_append)
  with Some show ?thesis by (simp add: parent_entry_def)
qed (simp add: parent_entry_def)

lemma parent_in_prefix:
  assumes "ordered_log (ts @ ts')" "e \<in> set ts"
  shows "parent_entry (by_uuid (ts @ ts')) e = parent_entry (by_uuid ts) e"
proof -
  from split_list [OF assms(2)] obtain ys zs where ts: "ts = ys @ e # zs" by blast
  from assms(1) have "ordered_log (ys @ e # zs @ ts')" "ordered_log (ys @ e # zs)"
    using ordered_log_append [of ts ts'] by (simp_all add: ts)
  from this [THEN parent_before] show ?thesis by (simp add: ts)
qed

lemma parent_in_log: "parent_entry (by_uuid ts) e = Some p \<Longrightarrow> p \<in> set ts"
  by (auto simp: parent_entry_def bind_eq_Some_conv dest: by_uuid_Some)

text \<open>A climb stays in the log, and is the same in every log that answers alike on its entries.\<close>

lemma climb_Some:
  "climb i e = Some c \<longleftrightarrow> (\<exists>c'. c = e # c' \<and>
     (case parent_entry i e of None \<Rightarrow> c' = [] | Some p \<Rightarrow> climb i p = Some c'))"
  by (subst climb.simps) (auto split: option.split bind_split)

lemma climb_in_log: "climb (by_uuid ts) e = Some c \<Longrightarrow> e \<in> set ts \<Longrightarrow> set c \<subseteq> set ts"
proof (induction c arbitrary: e)
  case (Cons x c)
  from Cons.prems have x: "x = e" and "parent_entry (by_uuid ts) e = None \<and> c = [] \<or>
      (\<exists>p. parent_entry (by_uuid ts) e = Some p \<and> climb (by_uuid ts) p = Some c)"
    by (auto simp: climb_Some [of "by_uuid ts" e] split: option.splits)
  with Cons.IH Cons.prems(2) show ?case by (auto dest: parent_in_log)
qed simp

lemma climb_cong:
  "climb i e = Some c \<Longrightarrow> (\<And>x. x \<in> set c \<Longrightarrow> parent_entry j x = parent_entry i x) \<Longrightarrow> climb j e = Some c"
proof (induction c arbitrary: e)
  case Nil
  then show ?case by (simp add: climb_Some [of i e])
next
  case (Cons x c)
  from Cons.prems(1) have x: "x = e" by (simp add: climb_Some [of i e])
  from Cons.prems(2) [of x] have p: "parent_entry j e = parent_entry i e" by (simp add: x)
  show ?case
  proof (cases "parent_entry i e")
    case None
    with Cons.prems(1) p show ?thesis by (simp add: climb_Some [of _ e])
  next
    case (Some q)
    with Cons.prems(1) have "climb i q = Some c" by (simp add: climb_Some [of i e])
    from Cons.IH [OF this] Cons.prems(2) have "climb j q = Some c" by simp
    with Some p show ?thesis by (simp add: x climb_Some [of j e])
  qed
qed

lemma climb_prefix:
  assumes "ordered_log (ts @ ts')" "e \<in> set ts" "climb (by_uuid ts) e = Some c"
  shows "climb (by_uuid (ts @ ts')) e = Some c"
  using climb_in_log [OF assms(3,2)] parent_in_prefix [OF assms(1)] by (intro climb_cong [OF assms(3)]) auto

text \<open>In an ordered log every climb ends.\<close>

lemma climb_ends:
  assumes "ordered_log ts" "e \<in> set ts"
  shows "\<exists>c. climb (by_uuid ts) e = Some c"
  using assms
proof (induction "length ts" arbitrary: ts e rule: less_induct)
  case less
  from split_list [OF less.prems(2)] obtain ys zs where ts: "ts = ys @ e # zs" by blast
  note before = parent_before [of ys e zs, folded ts, OF less.prems(1)]
  show ?case
  proof (cases "parent_entry (by_uuid ys) e")
    case None
    with before show ?thesis by (simp add: climb_Some [of _ e])
  next
    case (Some p)
    note p = parent_in_log [OF Some]
    from less.prems(1) ordered_log_append [of ys] have "ordered_log ys" by (simp add: ts)
    from less.hyps [OF _ this p] obtain c where "climb (by_uuid ys) p = Some c" by (auto simp: ts)
    from climb_prefix [OF _ p this, of "e # zs"] less.prems(1) have "climb (by_uuid ts) p = Some c" by (simp add: ts)
    with Some before show ?thesis by (simp add: climb_Some [of _ e])
  qed
qed

lemma climb_hd: "climb i e = Some c \<Longrightarrow> \<exists>c'. c = e # c'"
  by (auto simp: climb_Some [of i e])

lemma climb_suffix: "climb i e = Some (xs @ q # ys) \<Longrightarrow> climb i q = Some (q # ys)"
proof (induction xs arbitrary: e)
  case Nil
  then show ?case using climb_hd [OF Nil] by simp
next
  case (Cons x xs)
  from Cons.prems obtain p where "climb i p = Some (xs @ q # ys)"
    by (auto simp: climb_Some [of i e] split: option.splits)
  then show ?case by (rule Cons.IH)
qed


section \<open>Copies\<close>

text \<open>
  What the copy \<open>f\<close> of an entry \<open>e\<close> shares with it; its parent is the copy of the nearest entry
  above \<open>e\<close> that is written.
\<close>

definition copies :: "(rstring \<rightharpoonup> json) \<Rightarrow> (rstring \<rightharpoonup> rstring) \<Rightarrow> json \<Rightarrow> json \<Rightarrow> bool" where
  "copies index ids e f \<longleftrightarrow>
     str_at [''type''] f = str_at [''type''] e \<and> value_get f ''message'' = value_get e ''message'' \<and>
     bool_at [''isMeta''] f = bool_at [''isMeta''] e \<and> bool_at [''isSidechain''] f = Some False \<and>
     str_at [''uuid''] f = Some (unwrap_or (ids (entry_uuid e)) []) \<and>
     new_parent index ids (str_at [''parentUuid''] e) = Some (str_at [''parentUuid''] f)"

lemma value_get_remove_key: "value_get (remove_key k v) k' = (if k' = k then None else value_get v k')"
proof (cases v)
  case (JObject m)
  then show ?thesis by (simp add: remove_key_def value_get_def obj_get_def AList.delete_conv' inj_eq [OF inj_lit])
qed (simp_all add: remove_key_def value_get_def)

lemma as_object_set_key: "as_object (set_key k new v) = None \<longleftrightarrow> as_object v = None"
  by (cases v) (simp_all add: set_key_def)

lemma transcript_entry_object: "is_transcript_entry e \<Longrightarrow> as_object e \<noteq> None"
  by (auto simp: is_transcript_entry_def str_at_def value_get_def split: option.splits bind_splits)

lemma as_str_json_opt [simp]: "as_str (json_opt s) = s"
  by (cases s) (simp_all add: json_opt_def)

lemma value_get_dated:
  "value_get (if b then set_key k t v else v) k' = (if k' = k \<and> b \<and> as_object v \<noteq> None then Some t else value_get v k')"
  "as_object (if b then set_key k t v else v) = None \<longleftrightarrow> as_object v = None"
  by (auto simp: value_get_set_key as_object_set_key)

lemma str_at_key: "str_at [k] v = Option.bind (value_get v k) as_str" "bool_at [k] v = Option.bind (value_get v k) as_bool"
  by (simp_all add: str_at_def bool_at_def)

lemma forked_entry_copies:
  assumes "is_transcript_entry e" "new_parent index ids (str_at [''parentUuid''] e) = Some parent"
  shows "copies index ids e (forked_entry W ids session_id sid final e parent)"
proof -
  have o: "as_object e \<noteq> None" using assms(1) by (rule transcript_entry_object)
  note get = value_get_remove_key value_get_set_key value_get_dated as_object_set_key
  show ?thesis
    unfolding copies_def forked_entry_def Let_def dropped_keys_def foldl.simps str_at_key assms(2)
    by (intro conjI) (simp_all only: get, simp_all add: o assms(2) [unfolded str_at_key])
qed

lemma forked_entries_copies:
  "forked_entries W index ids session_id sid es = Some fs \<Longrightarrow> list_all is_transcript_entry es \<Longrightarrow>
     list_all2 (copies index ids) es fs"
proof (induction es arbitrary: fs)
  case (Cons e es)
  from Cons.prems(1) obtain parent fs' where
    "new_parent index ids (str_at [''parentUuid''] e) = Some parent"
    "forked_entries W index ids session_id sid es = Some fs'"
    "fs = forked_entry W ids session_id sid (es = []) e parent # fs'"
    by (auto split: bind_splits)
  with Cons show ?case by (simp add: forked_entry_copies)
qed simp

text \<open>The search for a parent ends where the climb does, at the first entry that is written.\<close>

lemma new_parent_climb:
  "climb index e = Some (e # c) \<Longrightarrow> (\<And>p q. index p = Some q \<Longrightarrow> entry_uuid q = p) \<Longrightarrow>
     new_parent index ids (str_at [''parentUuid''] e) =
       Some (Option.bind (List.find (\<lambda>q. \<not> is_progress q) c) (\<lambda>q. ids (entry_uuid q)))"
proof (induction c arbitrary: e)
  case Nil
  then have "parent_entry index e = None" by (auto simp: climb_Some [of index e] split: option.splits dest: climb_hd)
  then show ?case
    by (cases "str_at [''parentUuid''] e"; subst new_parent.simps) (simp_all add: parent_entry_def)
next
  case (Cons q c)
  from Cons.prems(1) obtain q' where q': "parent_entry index e = Some q'" "climb index q' = Some (q # c)"
    by (auto simp: climb_Some [of index e] split: option.splits)
  with climb_hd [OF q'(2)] have q: "parent_entry index e = Some q" "climb index q = Some (q # c)" by auto
  from q(1) obtain p where p: "str_at [''parentUuid''] e = Some p" "index p = Some q"
    by (auto simp: parent_entry_def bind_eq_Some_conv)
  have step: "new_parent index ids (Some p) = (if \<not> is_progress q then Some (ids p)
      else new_parent index ids (str_at [''parentUuid''] q))"
    by (subst new_parent.simps) (simp add: p(2))
  show ?case
  proof (cases "is_progress q")
    case True
    with step p(1) Cons.IH [OF q(2) Cons.prems(2)] show ?thesis by simp
  next
    case False
    with step p(1) Cons.prems(2) [OF p(2)] show ?thesis by simp
  qed
qed

lemma forked_entries_total:
  assumes "ordered_log ts" "set es \<subseteq> set ts"
  shows "\<exists>fs. forked_entries W (by_uuid ts) ids session_id sid es = Some fs"
  using assms(2)
proof (induction es)
  case (Cons e es)
  from climb_ends [OF assms(1), of e] Cons.prems obtain c where "climb (by_uuid ts) e = Some c" by auto
  with climb_hd [OF this] obtain c' where "climb (by_uuid ts) e = Some (e # c')" by auto
  from new_parent_climb [OF this] by_uuid_Some Cons show ?case by fastforce
qed simp

section \<open>The fork's chain\<close>

lemma list_all2_right: "list_all2 P xs ys \<Longrightarrow> x \<in> set xs \<Longrightarrow> \<exists>y\<in>set ys. P x y"
  by (induction rule: list_all2_induct) auto

lemma find_split: "List.find P c = Some q \<Longrightarrow> \<exists>xs ys. c = xs @ q # ys \<and> list_all (\<lambda>x. \<not> P x) xs \<and> P q"
proof (induction c)
  case (Cons x c)
  show ?case
  proof (cases "P x")
    case True
    with Cons.prems show ?thesis by (intro exI [of _ "[]"] exI [of _ c]) simp
  next
    case False
    with Cons obtain xs ys where "c = xs @ q # ys \<and> list_all (\<lambda>x. \<not> P x) xs \<and> P q" by auto
    with False show ?thesis by (intro exI [of _ "x # xs"] exI [of _ ys]) simp
  qed
qed simp

lemma fork_climb:
  assumes "\<And>p q. index p = Some q \<Longrightarrow> entry_uuid q = p"
    and "\<And>q. \<not> is_progress q \<Longrightarrow> q \<in> nodes \<Longrightarrow> \<exists>g. copies index ids q g \<and> index' (entry_uuid g) = Some g"
    and "\<And>q. \<not> is_progress q \<Longrightarrow> q \<in> nodes \<Longrightarrow> ids (entry_uuid q) \<noteq> None"
    and "climb index e = Some c" "set c \<subseteq> nodes" "\<not> is_progress e" "copies index ids e f"
  shows "\<exists>c'. climb index' f = Some c' \<and> list_all2 (copies index ids) (filter (\<lambda>q. \<not> is_progress q) c) c'"
  using assms(4-7)
proof (induction "length c" arbitrary: c e f rule: less_induct)
  case less
  from climb_hd [OF less.prems(1)] obtain t where c: "c = e # t" by blast
  note parent = new_parent_climb [OF less.prems(1) [unfolded c] assms(1), of ids]
  show ?case
  proof (cases "List.find (\<lambda>q. \<not> is_progress q) t")
    case None
    with parent less.prems(4) have "str_at [''parentUuid''] f = None" by (simp add: copies_def)
    then have "climb index' f = Some [f]" by (simp add: climb_Some parent_entry_def)
    moreover from None have "filter (\<lambda>q. \<not> is_progress q) t = []" by (auto simp: find_None_iff filter_empty_conv)
    ultimately show ?thesis using less.prems(3,4) by (simp add: c)
  next
    case (Some q)
    from find_split [OF Some] obtain xs ys where t: "t = xs @ q # ys" "list_all is_progress xs" "\<not> is_progress q" by auto
    from climb_suffix [of index e "e # xs" q ys] less.prems(1) have q: "climb index q = Some (q # ys)" by (simp add: c t)
    have "q \<in> nodes" using less.prems(2) by (simp add: c t)
    with assms(2,3) t(3) obtain g where g: "copies index ids q g" "index' (entry_uuid g) = Some g" "ids (entry_uuid q) \<noteq> None"
      by blast
    from less.hyps [OF _ q _ t(3) g(1)] less.prems(2) obtain c' where
      c': "climb index' g = Some c'" "list_all2 (copies index ids) (filter (\<lambda>q. \<not> is_progress q) (q # ys)) c'"
      by (auto simp: c t)
    from parent Some less.prems(4) g(3) have "str_at [''parentUuid''] f = ids (entry_uuid q)" by (simp add: copies_def)
    moreover from g have "ids (entry_uuid q) = Some (entry_uuid g)" by (auto simp: copies_def entry_uuid_def)
    ultimately have "parent_entry index' f = Some g" using g(2) by (simp add: parent_entry_def)
    with c'(1) have "climb index' f = Some (f # c')" by (simp add: climb_Some [of _ f])
    moreover have "filter (\<lambda>q. \<not> is_progress q) c = e # filter (\<lambda>q. \<not> is_progress q) (q # ys)"
      using t(2) less.prems(3) by (simp add: c t(1) list_all_iff filter_empty_conv)
    ultimately show ?thesis using c'(2) less.prems(4) by simp
  qed
qed


section \<open>Turn points\<close>

lemma turn_points_without_progress:
  "turn_points_of (filter (\<lambda>q. \<not> is_progress q) c) = turn_points_of c"
proof -
  have "turn_point_step points e = points" if "is_progress e" for points e
    using that by (simp add: turn_point_step_def is_progress_def has_type_def is_message_def)
  then have "foldl turn_point_step points (filter (\<lambda>q. \<not> is_progress q) c) = foldl turn_point_step points c" for points
    by (induction c arbitrary: points) auto
  then show ?thesis by (simp add: turn_points_of_def)
qed

lemma copies_kind:
  assumes "copies index ids e f"
  shows "has_type k f = has_type k e" "is_native_prompt f = is_native_prompt e" "is_message f = is_message e"
    "entry_uuid f = unwrap_or (ids (entry_uuid e)) []"
  using assms by (simp_all add: copies_def has_type_def is_message_def is_native_prompt_def entry_uuid_def)

lemma turn_points_copies:
  assumes "list_all2 (copies index ids) c c'"
  shows "turn_points_of c' = map (\<lambda>u. unwrap_or (ids u) []) (turn_points_of c)"
proof -
  let ?h = "\<lambda>u. unwrap_or (ids u) []"
  have "turn_point_step (map ?h points) f = map ?h (turn_point_step points e)" if "copies index ids e f" for points e f
    using copies_kind [OF that] by (simp add: turn_point_step_def map_butlast)
  with assms have "foldl turn_point_step (map ?h points) c' = map ?h (foldl turn_point_step points c)" for points
    by (induction arbitrary: points rule: list_all2_induct) auto
  from this [of "[]"] show ?thesis by (simp add: turn_points_of_def)
qed

text \<open>The chain up to the last message of a turn has the turns so far.\<close>

lemma turn_points_prefix:
  "n < length (turn_points_of chain) \<Longrightarrow> \<exists>xs e ys. chain = xs @ e # ys \<and> is_message e \<and>
     entry_uuid e = turn_points_of chain ! n \<and> turn_points_of (xs @ [e]) = take (Suc n) (turn_points_of chain)"
proof (induction chain rule: rev_induct)
  case Nil
  then show ?case by (simp add: turn_points_of_def)
next
  case (snoc e chain)
  let ?points = "turn_points_of chain"
  have nxt: "turn_points_of (chain @ [e]) = turn_point_step ?points e" by (simp add: turn_points_of_def)
  have here: ?case if "n = length (turn_point_step ?points e) - 1" "is_message e"
    "last (turn_point_step ?points e) = entry_uuid e" "turn_point_step ?points e \<noteq> []"
  proof -
    have "chain @ [e] = chain @ e # [] \<and> is_message e \<and> entry_uuid e = turn_points_of (chain @ [e]) ! n \<and>
        turn_points_of (chain @ [e]) = take (Suc n) (turn_points_of (chain @ [e]))"
      using that by (simp add: nxt last_conv_nth)
    then show ?thesis by blast
  qed
  have before: ?case if "n < length ?points" "turn_point_step ?points e ! n = ?points ! n"
    "take (Suc n) (turn_point_step ?points e) = take (Suc n) ?points"
  proof -
    from snoc.IH that(1) obtain xs e' ys where "chain = xs @ e' # ys" "is_message e'" "entry_uuid e' = ?points ! n"
      "turn_points_of (xs @ [e']) = take (Suc n) ?points" by blast
    then have "chain @ [e] = xs @ e' # (ys @ [e]) \<and> is_message e' \<and> entry_uuid e' = turn_points_of (chain @ [e]) ! n \<and>
        turn_points_of (xs @ [e']) = take (Suc n) (turn_points_of (chain @ [e]))"
      using that(2,3) nxt by simp
    then show ?thesis by blast
  qed
  have "turn_point_step ?points e = ?points"
    if "\<not> (has_type ''user'' e \<and> is_native_prompt e)" "\<not> (?points \<noteq> [] \<and> is_message e)"
    by (simp only: turn_point_step_def that if_False)
  then consider "has_type ''user'' e \<and> is_native_prompt e" | "\<not> (has_type ''user'' e \<and> is_native_prompt e)"
      "?points \<noteq> []" "is_message e" | "turn_point_step ?points e = ?points"
    by blast
  then show ?case
  proof cases
    case 1
    then have "turn_point_step ?points e = ?points @ [entry_uuid e]" by (simp add: turn_point_step_def)
    with snoc.prems here before 1 show ?thesis
      by (cases "n < length ?points") (simp_all add: nxt nth_append is_message_def)
  next
    case 2
    then have step: "turn_point_step ?points e = butlast ?points @ [entry_uuid e]" by (auto simp: turn_point_step_def)
    show ?thesis
    proof (cases "n < length ?points - 1")
      case True
      then show ?thesis by (intro before) (auto simp: step nth_append nth_butlast take_butlast)
    next
      case False
      with snoc.prems 2 show ?thesis by (intro here) (auto simp: nxt step)
    qed
  next
    case 3
    with snoc.prems before show ?thesis by (simp add: nxt)
  qed
qed

section \<open>Files\<close>

lemma has_session_insert:
  "has_session name (folder, files @ [(name', file)]) = (if name' = name \<and> map_of files name = None then file \<noteq> []
     else has_session name (folder, files))"
  by (auto simp: has_session_def map_add_def split: option.splits)

lemma find_inserted:
  assumes "\<forall>f\<in>set folders. map_of (snd f) name = None" "folder \<in> fst ` set folders" "file \<noteq> []"
  shows "\<exists>files. List.find (has_session name) (update_first (\<lambda>f. fst f = folder)
      (\<lambda>(folder, files). (folder, files @ [(name, file)])) folders) = Some (folder, files) \<and> map_of files name = Some file"
  using assms
proof (induction folders)
  case (Cons f folders)
  then show ?case by (cases f) (auto simp: has_session_def map_add_def)
qed simp

lemma find_others:
  assumes "name' \<noteq> name"
  shows "map_option (\<lambda>f. (fst f, map_of (snd f) name)) (List.find (has_session name) (update_first (\<lambda>f. fst f = folder)
      (\<lambda>(folder, files). (folder, files @ [(name', file)])) folders)) =
    map_option (\<lambda>f. (fst f, map_of (snd f) name)) (List.find (has_session name) folders)"
  using assms
proof (induction folders)
  case (Cons f folders)
  then show ?case by (cases f) (auto simp: has_session_def map_add_def split: option.splits)
qed simp


section \<open>The whole fork\<close>

lemma fork_message_ids_nth:
  assumes "distinct (map entry_uuid ts)" "i < length ts"
  shows "fork_message_ids W ts (entry_uuid (ts ! i)) = Some (cw_uuid W i)"
proof -
  let ?pairs = "map (\<lambda>(i, e). (entry_uuid e, cw_uuid W i)) (enumerate 0 ts)"
  have "map fst ?pairs = map entry_uuid ts" by (auto intro!: nth_equalityI simp: nth_enumerate_eq)
  then have "distinct (map fst (rev ?pairs))" using assms(1) by (simp add: rev_map [symmetric])
  moreover have "(entry_uuid (ts ! i), cw_uuid W i) \<in> set (rev ?pairs)"
    using assms(2) by (force simp: in_set_conv_nth nth_enumerate_eq)
  ultimately show ?thesis unfolding fork_message_ids_def collect_map_def by (rule map_of_is_SomeI)
qed

lemma fork_message_ids_inj:
  assumes "distinct (map entry_uuid ts)" "inj (cw_uuid W)"
  shows "inj_on (\<lambda>e. unwrap_or (fork_message_ids W ts (entry_uuid e)) []) (set ts)"
    "e \<in> set ts \<Longrightarrow> fork_message_ids W ts (entry_uuid e) \<noteq> None"
proof -
  show "inj_on (\<lambda>e. unwrap_or (fork_message_ids W ts (entry_uuid e)) []) (set ts)"
  proof (rule inj_onI)
    fix x y assume "x \<in> set ts" "y \<in> set ts"
      and eq: "unwrap_or (fork_message_ids W ts (entry_uuid x)) [] = unwrap_or (fork_message_ids W ts (entry_uuid y)) []"
    then obtain i j where ij: "x = ts ! i" "i < length ts" "y = ts ! j" "j < length ts" by (auto simp: in_set_conv_nth)
    with eq fork_message_ids_nth [OF assms(1), of _ W] assms(2) show "x = y" by (simp add: inj_eq)
  qed
  show "e \<in> set ts \<Longrightarrow> fork_message_ids W ts (entry_uuid e) \<noteq> None"
    using fork_message_ids_nth [OF assms(1), of _ W] by (auto simp: in_set_conv_nth)
qed

lemma transcript_entry_uuid: "is_transcript_entry e \<Longrightarrow> str_at [''uuid''] e = Some (entry_uuid e)"
  by (auto simp: is_transcript_entry_def entry_uuid_def)

lemma copies_transcript: "copies index ids e f \<Longrightarrow> is_transcript_entry e \<Longrightarrow> is_transcript_entry f"
  by (simp add: copies_def is_transcript_entry_def)

lemma closing_no_transcript: "filter is_transcript_entry (closing_entries W sid replacements title used) = []"
  by (simp add: closing_entries_def replacement_entry_def title_entry_def is_transcript_entry_def transcript_types_def
      str_at_def value_get_def obj_get_def lits_def)

text \<open>The chain of a fork, for the entries up to the message \<open>e\<close> it is cut at.\<close>

lemma forked_chain:
  assumes log: "ordered_log ts" "distinct (map entry_uuid ts)" "list_all is_transcript_entry ts"
    and e: "e \<in> set ts" "last ts = e" "\<not> is_progress e" "climb (by_uuid ts) e = Some c"
    and new: "inj (cw_uuid W)"
    and ids: "ids = fork_message_ids W ts"
  shows "\<exists>fs c'. forked_entries W (by_uuid ts) ids session_id sid (filter (\<lambda>e. \<not> is_progress e) ts) = Some fs \<and>
    list_all is_transcript_entry fs \<and> active_chain (fs @ closing_entries W sid' replacements title used) = Some c' \<and>
    turn_points_of c' = map (\<lambda>u. unwrap_or (ids u) []) (turn_points_of (rev c))"
proof -
  let ?np = "\<lambda>e. \<not> is_progress e"
  let ?es = "filter ?np ts"
  obtain fs where fs: "forked_entries W (by_uuid ts) ids session_id sid ?es = Some fs"
    using forked_entries_total [OF log(1), of ?es W ids session_id sid] by auto
  have copies: "list_all2 (copies (by_uuid ts) ids) ?es fs"
    using forked_entries_copies [OF fs] log(3) by (simp add: list_all_iff)
  have tr: "list_all is_transcript_entry fs"
  proof -
    have "list_all is_transcript_entry ?es" using log(3) by (simp add: list_all_iff)
    with copies show ?thesis by (induction rule: list_all2_induct) (simp_all add: copies_transcript)
  qed
  have uuids: "map entry_uuid fs = map (\<lambda>e. unwrap_or (ids (entry_uuid e)) []) ?es"
    using copies by (induction rule: list_all2_induct) (simp_all add: copies_kind)
  have d: "distinct (map entry_uuid fs)"
    unfolding uuids distinct_map ids
    using log(2) inj_on_subset [OF fork_message_ids_inj(1) [OF log(2) new]] by (auto simp: distinct_map)
  have ends: "\<exists>xs. ts = xs @ [e]" using e(1,2) by (metis append_butlast_last_id empty_iff empty_set)
  then have es: "?es \<noteq> []" "last ?es = e" using e(3) by auto
  let ?f = "last fs"
  have "length fs = length ?es" using copies by (simp add: list_all2_lengthD)
  with es(1) have nonempty: "fs \<noteq> []" by auto
  have f: "copies (by_uuid ts) ids e ?f" "fs \<noteq> []"
    using copies es nonempty by (auto simp: list_all2_conv_all_nth last_conv_nth)
  have "\<exists>c'. climb (by_uuid fs) ?f = Some c' \<and> list_all2 (copies (by_uuid ts) ids) (filter ?np c) c'"
  proof (rule fork_climb [OF _ _ _ e(4) climb_in_log [OF e(4,1)] e(3) f(1)])
    show "\<exists>g. copies (by_uuid ts) ids q g \<and> by_uuid fs (entry_uuid g) = Some g" if "?np q" "q \<in> set ts" for q
      using list_all2_right [OF copies, of q] that by_uuid_distinct [OF d] by auto
  qed (use by_uuid_Some fork_message_ids_inj(2) [OF log(2) new] in \<open>auto simp: ids\<close>)
  then obtain c' where c': "climb (by_uuid fs) ?f = Some c'" "list_all2 (copies (by_uuid ts) ids) (filter ?np c) c'" by blast
  have "transcript_entries (fs @ closing_entries W sid' replacements title used) = fs"
    using tr by (simp add: transcript_entries_def closing_no_transcript list_all_iff)
  then have "active_chain (fs @ closing_entries W sid' replacements title used) = Some (rev c')"
    using f(2) c'(1) by (simp add: active_chain_def last_opt_def)
  moreover have "turn_points_of (rev c') = map (\<lambda>u. unwrap_or (ids u) []) (turn_points_of (rev c))"
  proof -
    from c'(2) have "list_all2 (copies (by_uuid ts) ids) (filter ?np (rev c)) (rev c')" by (simp add: rev_filter [symmetric])
    from turn_points_copies [OF this] show ?thesis by (simp add: turn_points_without_progress)
  qed
  ultimately show ?thesis using fs tr by blast
qed


lemma parse_display:
  "(\<And>v. lib_from_str (cw_lib W) (lib_display (cw_lib W) v) = Some v) \<Longrightarrow>
     parse_entries W (map (lib_display (cw_lib W)) vs) = vs"
  by (induction vs) (simp_all add: parse_entries_def List.map_filter_simps)

lemma read_entries_found:
  assumes "List.find (has_session (session_filename i)) folders = Some (folder, files)"
    "map_of files (session_filename i) = Some file" "cw_parse_uuid W i" "cw_opens W = (\<lambda>_. True)"
  shows "read_entries W (Some folders) i = Inr (folder, parse_entries W file)"
  using assms by (simp add: read_entries_def find_session_file_def)

lemma read_entries_cong:
  assumes "map_option (\<lambda>f. (fst f, map_of (snd f) (session_filename i))) (List.find (has_session (session_filename i)) folders) =
    map_option (\<lambda>f. (fst f, map_of (snd f) (session_filename i))) (List.find (has_session (session_filename i)) folders')"
  shows "read_entries W (Some folders) i = read_entries W (Some folders') i"
proof -
  have "find_session_file W (Some folders) i = find_session_file W (Some folders') i"
    using assms by (auto simp: find_session_file_def split: option.splits)
  then show ?thesis by (simp add: read_entries_def)
qed

lemma read_entries_Inr:
  assumes "read_entries W (Some folders) i = Inr (folder, entries)"
  shows "cw_parse_uuid W i \<and> folder \<in> fst ` set folders \<and>
     (\<exists>f\<in>set folders. map_of (snd f) (session_filename i) \<noteq> None)"
proof -
  from assms obtain f where f: "List.find (has_session (session_filename i)) folders = Some f" "cw_parse_uuid W i"
    "fst f = folder"
    by (auto simp: read_entries_def find_session_file_def split: if_splits option.splits)
  from find_split [OF f(1)] have "f \<in> set folders" "has_session (session_filename i) f" by auto
  with f show ?thesis by (auto simp: has_session_def split: option.splits)
qed

lemma message_id_for_turn_read:
  "read_entries W projects i = Inr (folder, entries) \<Longrightarrow> active_chain entries = Some chain \<Longrightarrow>
     message_id_for_turn W projects i k = Some (
       if k = 0 then Inl (lit ''Claude has no native turn at that checkpoint'')
       else case nth_opt (turn_points_of chain) (k - 1) of Some m \<Rightarrow> Inr m
         | None \<Rightarrow> Inl (lit ''Claude's message checkpoint for that turn was not found''))"
  by (simp add: message_id_for_turn_def)

text \<open>The checkpoint of a turn, and the transcript up to it.\<close>

lemma cut_at_turn:
  assumes log: "ordered_log ts" "distinct (map entry_uuid ts)" "list_all is_transcript_entry ts"
    and last: "last_opt ts = Some l" "climb (by_uuid ts) l = Some c" "n < length (turn_points_of (rev c))"
  shows "\<exists>T e c'. cut_transcript (turn_points_of (rev c) ! n) ts = Some T \<and> prefix T ts \<and> e \<in> set T \<and> last T = e \<and>
    \<not> is_progress e \<and> entry_uuid e = turn_points_of (rev c) ! n \<and> climb (by_uuid T) e = Some c' \<and>
    turn_points_of (rev c') = take (Suc n) (turn_points_of (rev c))"
proof -
  from turn_points_prefix [OF last(3)] obtain xs e ys where e: "rev c = xs @ e # ys" "is_message e"
    "entry_uuid e = turn_points_of (rev c) ! n" "turn_points_of (xs @ [e]) = take (Suc n) (turn_points_of (rev c))" by blast
  then have c: "c = rev ys @ e # rev xs" by (metis append.assoc append_Cons append_Nil rev.simps(2) rev_append rev_rev_ident)
  from last(1) have "l \<in> set ts" by (auto simp: last_opt_eq_Some)
  from climb_in_log [OF last(2) this] have "e \<in> set ts" by (auto simp: c)
  then obtain us vs where ts: "ts = us @ e # vs" by (meson split_list)
  let ?T = "us @ [e]"
  have uuid: "str_at [''uuid''] x = Some (entry_uuid x)" if "x \<in> set ts" for x
    using log(3) that by (simp add: list_all_iff transcript_entry_uuid)
  have "position (\<lambda>x. str_at [''uuid''] x = Some (entry_uuid e)) ts = Some (length us)"
    using log(2) uuid unfolding ts by (induction us) auto
  then have cut: "cut_transcript (turn_points_of (rev c) ! n) ts = Some ?T"
    by (simp add: cut_transcript_def e(3)) (simp add: ts)
  have o: "ordered_log (?T @ vs)" using log(1) by (simp add: ts)
  from ordered_log_append [OF o] climb_ends [of ?T e] obtain c' where c': "climb (by_uuid ?T) e = Some c'" by auto
  from climb_prefix [OF o _ c'] have "climb (by_uuid ts) e = Some c'" by (simp add: ts)
  with climb_suffix [OF last(2) [unfolded c]] have "c' = e # rev xs" by simp
  with e(4) have "turn_points_of (rev c') = take (Suc n) (turn_points_of (rev c))" by simp
  moreover have "\<not> is_progress e" using e(2) by (auto simp: is_message_def is_progress_def has_type_def)
  moreover have "prefix ?T ts" by (simp add: ts)
  moreover have "e \<in> set ?T" "last ?T = e" by simp_all
  ultimately show ?thesis using cut c' e(3) by blast
qed

lemma session_filename_inj [simp]: "session_filename i = session_filename j \<longleftrightarrow> i = j"
  by (simp add: session_filename_def)

text \<open>What a fork that was written leaves in the directory.\<close>

lemma read_written_fork:
  assumes "\<forall>f\<in>set folders. map_of (snd f) (session_filename sid) = None" "folder \<in> fst ` set folders"
    and "vs \<noteq> []" "cw_parse_uuid W sid" "cw_opens W = (\<lambda>_. True)" "cw_creates W = (\<lambda>_. True)" "cw_write_fails W = None"
    and "\<And>v. lib_from_str (cw_lib W) (lib_display (cw_lib W) v) = Some v"
  shows "\<exists>folders'. write_fork W folder sid vs (Some folders) = (Inr (), Some folders') \<and>
    read_entries W (Some folders') sid = Inr (folder, vs) \<and>
    (\<forall>i. i \<noteq> sid \<longrightarrow> read_entries W (Some folders') i = read_entries W (Some folders) i)"
proof -
  let ?file = "map (lib_display (cw_lib W)) vs"
  let ?folders = "update_first (\<lambda>f. fst f = folder) (\<lambda>(folder, files). (folder, files @ [(session_filename sid, ?file)])) folders"
  have "\<not> file_exists folder (session_filename sid) (Some folders)"
    using assms(1) by (auto simp: file_exists_def list_ex_iff)
  then have "write_fork W folder sid vs (Some folders) = (Inr (), Some ?folders)"
    using assms(6,7) by (simp add: write_fork_def insert_file_def)
  moreover from find_inserted [OF assms(1,2), of ?file] assms(3) obtain files where
    files: "List.find (has_session (session_filename sid)) ?folders = Some (folder, files)"
    "map_of files (session_filename sid) = Some ?file" by auto
  have "read_entries W (Some ?folders) sid = Inr (folder, vs)"
    using read_entries_found [OF files assms(4,5)] by (simp add: parse_display [OF assms(8)])
  moreover have "read_entries W (Some ?folders) i = read_entries W (Some folders) i" if "i \<noteq> sid" for i
    by (intro read_entries_cong find_others) (use that in simp)
  ultimately show ?thesis by blast
qed

text \<open>
  C18: a fork of a Claude session keeps its turns. Fork a session at turn \<open>n\<close>: the fork is written, it
  has exactly the turns \<open>1\<close> to \<open>n\<close>, and the checkpoint of each is the new id of the checkpoint the
  source has for it, so that a rewind in the fork lands where the same rewind in the source would;
  the cursor points at the last of them. The source and every other session read as before. Records of
  progress, subagents and abandoned branches in the file change nothing in this.
\<close>

theorem claude_fork_keeps_turns:
  assumes log: "read_entries W (Some folders) session_id = Inr (folder, entries)"
      "ordered_log (transcript_entries entries)" "distinct (map entry_uuid (transcript_entries entries))"
      "list_all (\<lambda>e. cw_parse_uuid W (entry_uuid e)) (transcript_entries entries)"
    and point: "message_id_for_turn W (Some folders) session_id n = Some (Inr m)"
    and new: "inj (cw_uuid W)" "\<And>i. cw_parse_uuid W (cw_uuid W i)"
      "\<And>i f. f \<in> set folders \<Longrightarrow> map_of (snd f) (session_filename (cw_uuid W i)) = None"
    and disk: "cw_opens W = (\<lambda>_. True)" "cw_creates W = (\<lambda>_. True)" "cw_write_fails W = None"
    and codec: "\<And>v. lib_from_str (cw_lib W) (lib_display (cw_lib W) v) = Some v"
  shows "\<exists>sid rm ids projects'.
    fork_claude_session W session_id None n title (Some folders) =
      Some (Inr (Claude_Cursor sid (Some rm), ids, m), projects') \<and> ids m = Some rm \<and>
    (\<forall>k. message_id_for_turn W projects' sid k =
       (if k \<le> n then map_option (map_sum id (\<lambda>u. unwrap_or (ids u) [])) (message_id_for_turn W (Some folders) session_id k)
        else Some (Inl (lit ''Claude's message checkpoint for that turn was not found'')))) \<and>
    (\<forall>i k. i \<noteq> sid \<longrightarrow> message_id_for_turn W projects' i k = message_id_for_turn W (Some folders) i k)"
proof -
  let ?ts = "transcript_entries entries"
  have tr: "list_all is_transcript_entry ?ts" by (simp add: transcript_entries_def list_all_iff)
  from point log(1) obtain chain where chain: "active_chain entries = Some chain"
    by (auto simp: message_id_for_turn_def split: if_splits)
  note source = message_id_for_turn_read [OF log(1) chain]
  from point have n: "0 < n" "n - 1 < length (turn_points_of chain)" "m = turn_points_of chain ! (n - 1)"
    by (auto simp: source nth_opt_def split: if_splits)
  from n(2) chain obtain l c where l: "last_opt ?ts = Some l" "climb (by_uuid ?ts) l = Some c" "chain = rev c"
    by (auto simp: active_chain_def Let_def turn_points_of_def split: option.splits)
  from cut_at_turn [OF log(2,3) tr l(1,2), of "n - 1"] n l(3) obtain T e c' where
    T: "cut_transcript m ?ts = Some T" "prefix T ?ts" "e \<in> set T" "last T = e" "\<not> is_progress e" "entry_uuid e = m"
      "climb (by_uuid T) e = Some c'" "turn_points_of (rev c') = take n (turn_points_of chain)" by auto
  from T(2) obtain vs where ts: "?ts = T @ vs" by (auto simp: prefix_def)
  with log(2,3) tr ordered_log_append [of T vs] have logT: "ordered_log T" "distinct (map entry_uuid T)"
    "list_all is_transcript_entry T" by auto
  let ?ids = "fork_message_ids W T"
  let ?sid = "cw_uuid W (length T)"
  let ?closing = "closing_entries W ?sid (replacements_of session_id entries) title (Suc (length T))"
  from forked_chain [OF logT T(3,4,5,7) new(1) refl] obtain fs chain' where
    fs: "forked_entries W (by_uuid T) ?ids session_id ?sid (filter (\<lambda>e. \<not> is_progress e) T) = Some fs"
      "active_chain (fs @ ?closing) = Some chain'"
      "turn_points_of chain' = map (\<lambda>u. unwrap_or (?ids u) []) (take n (turn_points_of chain))"
    unfolding T(8) by blast
  from fork_message_ids_inj(2) [OF logT(2) new(1) T(3)] T(6) obtain rm where rm: "?ids m = Some rm" by auto
  note r = read_entries_Inr [OF log(1)]
  have closing: "fs @ ?closing \<noteq> []" by (simp add: closing_entries_def)
  from read_written_fork [OF _ _ closing new(2) disk codec, where folders = folders and folder = folder] new(3) r obtain folders' where
    w: "write_fork W folder ?sid (fs @ ?closing) (Some folders) = (Inr (), Some folders')"
      "read_entries W (Some folders') ?sid = Inr (folder, fs @ ?closing)"
      "\<And>i. i \<noteq> ?sid \<Longrightarrow> read_entries W (Some folders') i = read_entries W (Some folders) i" by blast
  have "e \<in> set ?ts" using T(3) ts by simp
  with log(4) T(6) have "cw_parse_uuid W m" by (auto simp: list_all_iff)
  moreover have "filter (\<lambda>e. \<not> is_progress e) T \<noteq> []" using T(3,5) by (auto simp: filter_empty_conv)
  ultimately have "fork_session_at W session_id m title (Some folders) =
      Some (Inr \<lparr>fc_session_id = ?sid, fc_message_ids = ?ids\<rparr>, Some folders')"
    using r log(1) T(1) fs(1) w(1) by (simp add: fork_session_at_def Let_def)
  with point rm have "fork_claude_session W session_id None n title (Some folders) =
      Some (Inr (Claude_Cursor ?sid (Some rm), ?ids, m), Some folders')" by (simp add: fork_claude_session_def)
  moreover have "message_id_for_turn W (Some folders') ?sid k =
       (if k \<le> n then map_option (map_sum id (\<lambda>u. unwrap_or (?ids u) [])) (message_id_for_turn W (Some folders) session_id k)
        else Some (Inl (lit ''Claude's message checkpoint for that turn was not found'')))" for k
    unfolding message_id_for_turn_read [OF w(2) fs(2)] source fs(3) using n(1,2) by (auto simp: nth_opt_def)
  moreover have "message_id_for_turn W (Some folders') i k = message_id_for_turn W (Some folders) i k" if "i \<noteq> ?sid" for i k
    by (simp add: message_id_for_turn_def w(3) [OF that])
  ultimately show ?thesis using rm by blast
qed


text \<open>A session of one turn whose answer hangs below a record of progress; JSON texts are numbers.\<close>

instance word :: (len) countable
  by (rule countable_classI [of unat]) (simp add: word_unat_eq_iff)

instance json :: countable
  by countable_datatype

definition demo_entry :: "string \<Rightarrow> string \<Rightarrow> json \<Rightarrow> json \<Rightarrow> json" where
  "demo_entry kind i parent content = JObject [(lit ''type'', JString (lit kind)), (lit ''uuid'', JString (lit i)),
     (lit ''parentUuid'', parent), (lit ''message'', JObject [(lit ''content'', content)])]"

definition demo_log :: "json list" where
  "demo_log = [demo_entry ''user'' ''u'' JNull (JString (lit ''hi'')),
     demo_entry ''progress'' ''p'' (JString (lit ''u'')) JNull,
     demo_entry ''assistant'' ''a'' (JString (lit ''p'')) (JArray [])]"

definition demo_claude_world :: claude_world where
  "demo_claude_world = \<lparr>cw_lib = plain_lib\<lparr>lib_from_str := (\<lambda>s. case s of [n] \<Rightarrow> Some (from_nat n) | _ \<Rightarrow> None),
       lib_display := (\<lambda>v. [to_nat v])\<rparr>,
     cw_parse_uuid = (\<lambda>_. True), cw_uuid = (\<lambda>i. [0, i]), cw_now = [], cw_directory = [], cw_opens = (\<lambda>_. True),
     cw_creates = (\<lambda>_. True), cw_write_fails = None\<rparr>"

definition demo_folders :: "(rstring \<times> (rstring \<times> rstring list) list) list" where
  "demo_folders = [(lit ''project'', [(session_filename (lit ''s1''), map (lib_display (cw_lib demo_claude_world)) demo_log)])]"

lemma demo_log_codec: "lib_from_str (cw_lib demo_claude_world) (lib_display (cw_lib demo_claude_world) v) = Some v"
  by (simp add: demo_claude_world_def)

lemma demo_log_read:
  "read_entries demo_claude_world (Some demo_folders) (lit ''s1'') = Inr (lit ''project'', demo_log)"
  "transcript_entries demo_log = demo_log" "ordered_log demo_log" "distinct (map entry_uuid demo_log)"
  "active_chain demo_log = Some demo_log" "turn_points_of demo_log = [lit ''a'']"
proof -
  note defs = demo_log_def demo_entry_def str_at_def value_get_def obj_get_def
  have "read_entries demo_claude_world (Some demo_folders) (lit ''s1'') = Inr (lit ''project'',
      parse_entries demo_claude_world (map (lib_display (cw_lib demo_claude_world)) demo_log))"
    by (rule read_entries_found [where files = "[(session_filename (lit ''s1''),
        map (lib_display (cw_lib demo_claude_world)) demo_log)]"])
      (simp_all add: demo_folders_def has_session_def demo_log_def demo_claude_world_def)
  then show "read_entries demo_claude_world (Some demo_folders) (lit ''s1'') = Inr (lit ''project'', demo_log)"
    by (simp add: parse_display [OF demo_log_codec])
  show t: "transcript_entries demo_log = demo_log"
    by (simp add: defs transcript_entries_def is_transcript_entry_def transcript_types_def lits_def bool_at_def)
  show "ordered_log demo_log" "distinct (map entry_uuid demo_log)"
    by (simp_all add: defs entry_uuid_def)
  show "active_chain demo_log = Some demo_log"
    by (simp add: active_chain_def t) (simp add: defs last_opt_def climb_Some parent_entry_def by_uuid_def collect_map_def
        entry_uuid_def)
  show "turn_points_of demo_log = [lit ''a'']"
    by (simp add: defs turn_points_of_def turn_point_step_def has_type_def is_native_prompt_def bool_at_def is_message_def
        entry_uuid_def)
qed

theorem claude_fork_keeps_turns_witness:
  "\<exists>sid rm ids projects'.
    fork_claude_session demo_claude_world (lit ''s1'') None 1 [] (Some demo_folders) =
      Some (Inr (Claude_Cursor sid (Some rm), ids, lit ''a''), projects') \<and>
    message_id_for_turn demo_claude_world projects' sid 1 = Some (Inr rm) \<and>
    message_id_for_turn demo_claude_world projects' sid 2 =
      Some (Inl (lit ''Claude's message checkpoint for that turn was not found''))"
proof -
  note source = message_id_for_turn_read [OF demo_log_read(1,5), unfolded demo_log_read(6)]
  have point: "message_id_for_turn demo_claude_world (Some demo_folders) (lit ''s1'') 1 = Some (Inr (lit ''a''))"
    by (simp add: source nth_opt_def)
  have log: "ordered_log (transcript_entries demo_log)" "distinct (map entry_uuid (transcript_entries demo_log))"
    "list_all (\<lambda>e. cw_parse_uuid demo_claude_world (entry_uuid e)) (transcript_entries demo_log)"
    using demo_log_read by (simp_all add: demo_claude_world_def list_all_iff)
  have new: "map_of (snd f) (session_filename (cw_uuid demo_claude_world i)) = None" if "f \<in> set demo_folders" for i f
    using that by (auto simp: demo_folders_def demo_claude_world_def lit_def)
  have world: "inj (cw_uuid demo_claude_world)" "cw_parse_uuid demo_claude_world i" "cw_opens demo_claude_world = (\<lambda>_. True)"
    "cw_creates demo_claude_world = (\<lambda>_. True)" "cw_write_fails demo_claude_world = None" for i
    by (simp_all add: demo_claude_world_def inj_def)
  from claude_fork_keeps_turns [OF demo_log_read(1) log point world(1,2) new world(3-5) demo_log_codec, of "[]"] obtain sid rm ids projects' where
    "fork_claude_session demo_claude_world (lit ''s1'') None 1 [] (Some demo_folders) =
      Some (Inr (Claude_Cursor sid (Some rm), ids, lit ''a''), projects')" "ids (lit ''a'') = Some rm"
    "\<And>k. message_id_for_turn demo_claude_world projects' sid k = (if k \<le> 1
       then map_option (map_sum id (\<lambda>u. unwrap_or (ids u) [])) (message_id_for_turn demo_claude_world (Some demo_folders) (lit ''s1'') k)
       else Some (Inl (lit ''Claude's message checkpoint for that turn was not found'')))"
    by blast
  with point show ?thesis by (intro exI [of _ sid] exI [of _ rm] exI [of _ ids] exI [of _ projects']) simp
qed

end
