(* ===== verification/Driver_Bounds.thy ===== *)
theory Driver_Bounds
  imports Claude_Driver
begin

text \<open>
  What a provider can make the daemon store and send: its diagnostics, the output of a tool call and
  the line under a background task are cut to a fixed length, and the tokens it reports are added as
  machine integers.
\<close>

lemma truncate_error_length: "length (truncate_error m n) \<le> Suc n"
  by (simp add: truncate_error_def)

lemma truncate_error_nonempty: "m \<noteq> [] \<Longrightarrow> truncate_error m n \<noteq> []"
  by (simp add: truncate_error_def)

lemma collect_diagnostic_nonempty: "message \<noteq> [] \<Longrightarrow> collect_diagnostic message ls \<noteq> []"
  by (induction message ls rule: collect_diagnostic.induct) (auto simp: Let_def)

lemma find_str_in: "find_str n s = Some i \<Longrightarrow> set n \<subseteq> set s"
  using find_str_split [of n s i] by (auto dest: in_set_takeD) (metis UnCI set_append)

lemma to_lower_trim_nonempty:
  assumes "mentions_error line"
  shows "trim line \<noteq> []"
proof
  assume "trim line = []"
  then have ws: "\<forall>c\<in>set line. is_whitespace c" by (simp add: trim_empty_iff)
  from assms obtain i where "find_str (lit ''error'') (to_ascii_lowercase line) = Some i"
    by (auto simp: mentions_error_def contains_str_def)
  from find_str_in [OF this] have "114 \<in> set (to_ascii_lowercase line)" by (auto simp: lit_def)
  then obtain c where "c \<in> set line" "ascii_lower c = 114" by (auto simp: to_ascii_lowercase_def)
  with ws show False by (auto simp: ascii_lower_def is_ascii_uppercase_def is_whitespace_def split: if_splits)
qed

lemma position_found: "x \<in> set xs \<Longrightarrow> P x \<Longrightarrow> \<exists>i. position P xs = Some i \<and> i < length xs \<and> P (xs ! i)"
  by (induction xs) auto

lemma stderr_error_bounded:
  assumes "provider_stderr_error stderr = Some m"
  shows "m \<noteq> [] \<and> length m \<le> 801"
proof -
  from assms obtain line where line: "List.find mentions_error stderr = Some line"
    by (auto simp: provider_stderr_error_def split: option.splits)
  then have l: "line \<in> set stderr" "mentions_error line" by (auto simp: find_Some_iff)
  note ne = to_lower_trim_nonempty [OF l(2)]
  from position_found [OF l(1), of "\<lambda>l. trim l = trim line"] obtain i where
    i: "position (\<lambda>l. trim l = trim line) stderr = Some i" "i < length stderr" "trim (stderr ! i) = trim line" by auto
  have "collect_diagnostic [] (take 6 (drop i stderr)) \<noteq> []"
    using i(2,3) ne by (simp add: Cons_nth_drop_Suc [symmetric] Let_def collect_diagnostic_nonempty)
  with assms line ne i(1) truncate_error_length [of "trim line" 400] truncate_error_length [of _ 800] show ?thesis
    by (auto simp: provider_stderr_error_def Let_def truncate_error_nonempty split: if_splits intro: le_trans)
qed

lemma non_empty_text_bounded:
  "non_empty_text L s = Some t \<Longrightarrow> t \<noteq> [] \<and> length t \<le> max_activity_chars + length (tr L ''activity.output_truncated'')"
  by (auto simp: non_empty_text_def max_activity_chars_def Let_def split: if_splits)

lemma format_json_bounded:
  "format_json L v = Some t \<Longrightarrow> t \<noteq> [] \<and> length t \<le> max_activity_chars + length (tr L ''activity.output_truncated'')"
  by (auto simp: format_json_def split: bind_splits dest: non_empty_text_bounded)

lemma format_output_bounded:
  "format_output L v = Some t \<Longrightarrow> t \<noteq> [] \<and> length t \<le> max_activity_chars + length (tr L ''activity.output_truncated'')"
proof (induction L v rule: format_output.induct)
  case (1 L v)
  then show ?case
    by (auto simp: format_output.simps [of L v] split: option.splits dest: non_empty_text_bounded format_json_bounded)
qed

lemma set_trim: "set (trim s) \<subseteq> set s"
  unfolding trim_def trim_end_def trim_start_def by (auto dest!: set_dropWhileD)

lemma split_pred_length: "w \<in> set (split_pred P s) \<Longrightarrow> length w \<le> length s"
proof (induction s arbitrary: w)
  case (Cons c s)
  then show ?case by (auto split: if_splits list.splits) (fastforce simp: le_Suc_eq)+
qed simp

lemma lines_length: "l \<in> set (lines s) \<Longrightarrow> length l \<le> length s"
proof -
  have strip: "length (strip_cr w) \<le> length w" for w
  proof (cases "strip_suffix [13] w")
    case (Some r)
    then have "w = r @ [13]" by (simp add: strip_suffix_Some)
    with Some show ?thesis by (simp add: strip_cr_def)
  qed (simp add: strip_cr_def)
  have bl: "w \<in> set (split_char 10 s)" if "w \<in> set (butlast (split_char 10 s))" for w
    using that by (rule in_set_butlastD)
  have la: "last (split_char 10 s) \<in> set (split_char 10 s)"
    by (simp add: split_char_def split_pred_nonempty)
  assume "l \<in> set (lines s)"
  then have "l \<in> strip_cr ` set (butlast (split_char 10 s)) \<or> l = last (split_char 10 s)"
    by (auto simp: lines_def Let_def split: if_splits)
  then obtain w where "w \<in> set (split_char 10 s)" "length l \<le> length w"
  proof
    assume "l \<in> strip_cr ` set (butlast (split_char 10 s))"
    then obtain w where "w \<in> set (butlast (split_char 10 s))" "l = strip_cr w" by blast
    with bl [of w] strip [of w] that show ?thesis by simp
  next
    assume "l = last (split_char 10 s)"
    with la that [of l] show ?thesis by simp
  qed
  then show ?thesis using split_pred_length [of w "\<lambda>c. c = 10" s] by (simp add: split_char_def)
qed

lemma first_line_Some: "first_line s = Some t \<Longrightarrow> t \<noteq> [] \<and> length t \<le> length s \<and> 10 \<notin> set t"
proof -
  assume "first_line s = Some t"
  then have "t \<in> set (map trim (lines s))" "t \<noteq> []" by (auto simp: first_line_def find_Some_iff) 
  then obtain l where l: "l \<in> set (lines s)" "t = trim l" "t \<noteq> []" by auto
  from lines_no_newline [OF l(1)] set_trim [of l] l(2) have "10 \<notin> set t" by auto
  with lines_length [OF l(1)] length_trim [of l] l show ?thesis by auto
qed

lemma one_line_bounded:
  assumes "one_line s = Some t"
  shows "t \<noteq> [] \<and> length t \<le> 161 \<and> 10 \<notin> set t"
proof -
  from assms obtain l where l: "first_line s = Some l" "t = (if 160 < length l then take 160 l @ [ellipsis] else l)"
    by (auto simp: one_line_def)
  from first_line_Some [OF l(1)] l(2) show ?thesis by (auto simp: ellipsis_def dest: in_set_takeD)
qed

lemma same_item_source: "same_item (with_activity_source L v a) a"
  by (auto simp: with_activity_source_def refresh_activity_metadata_from_value_def Let_def same_item_def
      split: option.splits)

lemma tool_activity_detail:
  "a_detail (tool_activity L aid source_id kind title arguments out img failed complete) =
     (if failed then Option.bind (Option.bind (not_null out) (format_output L)) first_line else None)"
proof -
  have "a_detail (with_arguments L args self) = a_detail self" for args self
    using with_arguments_facts [of L args self] by (simp add: same_item_def)
  moreover have "a_detail (with_activity_source L v self) = a_detail self" for v self
    using same_item_source [of L v self] by (simp add: same_item_def)
  ultimately show ?thesis
    by (simp add: tool_activity_def Let_def with_failed_def with_image_urls_def with_output_def
        refresh_command_output_def activity_new_def)
qed


lemma context_tokens_value:
  "(case claude_context_tokens usage of Some t \<Rightarrow> unat t | None \<Rightarrow> 0) =
     (unat (token_field usage ''input_tokens'') + unat (token_field usage ''cache_read_input_tokens'') +
      unat (token_field usage ''cache_creation_input_tokens'') + unat (token_field usage ''output_tokens'')) mod 2 ^ 64"
proof -
  define total where "total = token_field usage ''input_tokens'' + token_field usage ''cache_read_input_tokens'' +
    token_field usage ''cache_creation_input_tokens'' + token_field usage ''output_tokens''"
  have "(case claude_context_tokens usage of Some t \<Rightarrow> unat t | None \<Rightarrow> 0) = unat total"
    by (simp add: claude_context_tokens_def total_def [symmetric] word_gt_0)
  then show ?thesis by (simp add: total_def unat_word_ariths mod_simps)
qed

end
