(* ===== verification/Spec2Isabelle.thy ===== *)
theory Spec2Isabelle
  imports Backend_Properties Backend_Errors Mailbox_Loop Reducer_Properties Turn_Edits Snapshot_Properties Hub_Properties Client_Stream Mailbox
    Orchestration Task_Load Amp_Driver Claude_Properties Claude_Fork Driver_Bounds
begin

text \<open>
  A verification library for the core of Shidou: a daemon that runs coding-agent command lines as
  tasks, and the clients that show and drive them. Everything below is about the Rust code under
  \<open>src/crates\<close>; the names of the definitions are the names of the code.

  \<^bold>\<open>The program.\<close> Clients speak a JSON protocol with the daemon over a socket. The socket loop of
  \<open>shidou-core/src/server.rs\<close> authorises a request, hands it to the mailbox of its task (one worker
  thread per task) and returns the response; the mailbox calls the backend of
  \<open>shidou-core/src/daemon.rs\<close>, which keeps the tasks, their runtimes (one provider process each) and
  the store of \<open>shidou-core/src/persistence.rs\<close>. A provider process reports driver events. Each is
  folded into the daemon's copy of the task by the reducer of \<open>shidou-protocol/src/reducer.rs\<close>, given a
  sequence number by the hub and sent to every client, and every client folds it into a copy of its
  own with the same reducer. A client that edits its copy (a queued message, a title) saves a
  snapshot, which the daemon merges into its own. Agents may create child tasks with a credential that
  reaches nothing but their own children (\<open>shidou-core/src/orchestration.rs\<close>).

  \<^bold>\<open>The theories.\<close> In the order they build on each other:

  \<^item> Prelude, Interfaces, Rust_Text, Json_Value: machine integers and identifiers, the operations of
    \<open>Vec\<close>, \<open>Option\<close> and \<open>str\<close> the code uses, the \<open>serde_json::Value\<close> it matches on. Interfaces has the
    two contracts components share: \<open>keyed_vector\<close>, a vector that is updated by key, and \<open>event_fold\<close>
    with its extension \<open>observed_fold\<close>, a fold that keeps an invariant and reports what it did.
  \<^item> Provider_Model, Session_Types, Patch_Diff, Activity, Session, Legacy_Migration:
    \<open>shidou-protocol/src/model.rs\<close>. Providers and projects, the session record and its parts, the file
    changes read out of a tool call, activities, the operations of \<open>AgentSession\<close>, and what becomes of
    a session an older version stored. Turn_Edits: \<open>shidou-protocol/src/turn_edits.rs\<close>.
  \<^item> Reducer: every handler of the reducer and \<open>reducer_apply\<close>, which picks one per event.
    Reducer_Invariant shows event by event that a session stays well formed; Reducer_Properties states
    what that means to a user.
  \<^item> Protocol: the messages, the classification of commands, and what a task credential may ask.
    Driver_Wire: \<open>event_to_wire\<close> and \<open>event_from_wire\<close>.
  \<^item> Replay_Hub, Hub_Stream, Hub_Properties: the hub. Replay_Hub has its operations; Hub_Stream the
    critical sections of several threads as the step relation \<open>hub_step\<close>, its reachable states and
    their invariants; Hub_Properties the response cache and the catalog.
  \<^item> Client_Stream: \<open>shidou-client/src/client.rs\<close>, and the composition of a client with the hub.
  \<^item> Mailbox, Mailbox_Loop: the handling of one request, the dispatcher and the workers as a step
    relation over the record \<open>backend\<close> of the four calls the server makes, and the loop of one worker.
  \<^item> Orchestration: credentials, the command lines an agent may run unasked, child access modes.
  \<^item> Task_Store, Task_Store_Properties, Task_Load: the store. The SQL tables are association lists;
    the statements of \<open>save\<close>, \<open>load\<close> and \<open>hydrate\<close> are functions on them.
  \<^item> Projectless, Checkpoints: private workspaces on a model of directories and symbolic links; the
    git references behind checkpoints.
  \<^item> Snapshot_Merge, Snapshot_Properties: how the daemon merges what a client saves.
  \<^item> Daemon_State, Task_Titles, Task_Rewind, Backend: the record \<open>daemon\<close> is \<open>ShidouBackend\<close>; every
    request handler is an operation that returns an error or a value beside the new state, as the
    \<open>?\<close> of the code does: what an operation changed before it failed stays changed. \<open>handle\<close>
    dispatches, \<open>handle_runtime_event\<close>, \<open>runtime_ended\<close>, \<open>listening\<close> and \<open>daemon_new\<close> are the other
    entry points, and \<open>shidou_backend\<close> is the instance of \<open>backend\<close> the mailboxes call.
  \<^item> Driver_Support: \<open>driver/support.rs\<close> and \<open>driver/activity.rs\<close>, the reading of a provider's JSON, its
    diagnostics and its tool calls. Driver_Threads: the threads every streaming driver has (reader,
    writer, diagnostics, process, title look-up) as the step relation \<open>driver_step\<close>, one step per action,
    with the locales \<open>turn_driver\<close> and \<open>confined_driver\<close>. Amp_Session and Amp_Driver: \<open>amp_session.rs\<close> and
    \<open>driver/amp.rs\<close>. Claude_Driver, Claude_Properties: \<open>driver/claude.rs\<close>. Claude_Session, Claude_Fork:
    \<open>claude_session.rs\<close>, the session files of Claude and their forks. Driver_Bounds: the sizes of what a
    provider's output becomes.
  \<^item> Daemon_Logic: the locale \<open>task_law\<close>, a property of single tasks together with the laws every
    change of a task must satisfy, and one lemma per handler that it keeps the property. The
    interpretations of Backend_Properties (any task; the archive mark) carry the properties of whole
    runs over \<open>daemon_reachable\<close>. Backend_Effects and Backend_Errors have the properties of single
    operations, Demo_Daemon the concrete daemon their witnesses run.

  \<^bold>\<open>What is shown.\<close> The reducer keeps every session well formed, never rewrites the transcript behind a
  turn, and settles a task when its turn or its process ends. The journal of a runtime is contiguous
  in every interleaving, and a client that attaches, loses its connection and resumes holds exactly
  the session the daemon holds. Requests of a task are handled once, in order, and none is left in
  a mailbox. A save that writes only what changed leaves the tables a full write would leave;
  loading gives back what was saved, but for the fields the theorem names. Ids of tasks stay unique, a
  removed task never returns, whatever snapshots clients still send; the archive mark belongs to its
  own request; no credential reaches beyond its children; no prompt reaches a provider before it
  is stored; a rewind the provider rejects gives the worktree back. A driver ends a turn at most
  once, a supervised Claude runs no tool the user did not approve, a subagent stays out of the
  transcript, a streamed text is delivered once, a branch of an Amp thread loses no history, and a
  fork of a Claude session keeps the turns it was cut behind, each with its checkpoint.
  Where the code does less than its comments promise, the theorem states what it does: a message
  replaced in the middle of a transcript, an archived task that needs attention, a stray workspace, a
  credential assignment that hides a second command, a mode that accepts more than edits.

  \<^bold>\<open>Bounds, loops and fuel.\<close> No definition uses fuel. Loops over vectors are structural recursions;
  the scanner of a diff, the search for a free workspace name and the mailbox worker are \<open>function\<close>s
  with a measure. The expansion of an Amp branch recurses into texts it decodes and is a partial
  function, for which the property shows that it returns, as are the climbs along the parents of a
  Claude session, which end when no entry names a later one. The counters of the hub and of the client are 64-bit words. The journal invariant
  asks for counters below \<open>2 ^ 64 - 2\<close>, which no run reaches, and \<open>hub_step\<close> for runtimes that
  are named by a fresh id, as the clients do with \<open>Uuid::new_v4\<close>. Sizes of a transcript (\<open>usize\<close>) are
  natural numbers.

  \<^bold>\<open>Parameters.\<close> What the code calls outside of itself is an argument: the line diff of the crate
  \<open>similar\<close>, time zones, \<open>Uuid::new_v4\<close> and the clock (\<open>env\<close>, \<open>wd_uuid\<close>, \<open>wd_now\<close>), the serde encoding of
  payloads, localised labels, what the backend asks of a provider driver and the forks of native sessions, the git
  commands of one checkpoint, and the failures of SQLite, of which any statement may be one. All of
  it is in the records \<open>lib\<close>, \<open>world\<close>, \<open>store_env\<close>, \<open>git_world\<close> and \<open>provider_world\<close>. The
  hypotheses on them: fresh ids are fresh, the codec decodes what it encodes, two different messages
  of a session have different fingerprints.

  \<^bold>\<open>Concurrency.\<close> The locks of the hub, of the mailbox registry and of the backend's state are
  modelled as steps. One call of the backend is one step: the handlers hold the lock of the
  tasks across their changes, except where \<open>rewind\<close> and \<open>fork\<close> call the provider in between,
  whose result is then applied to the task as it was found; those interleavings are not modelled. The
  actions of a driver's threads interleave one by one; the backend sees a driver only through the
  events it sends, so the two layers meet in \<open>driver_event\<close> and \<open>driver_call\<close>.

  \<^bold>\<open>Not modelled.\<close> Sockets, threads that panic and the poisoning of locks. The drivers of Codex, OpenCode,
  DeepSeek, Pi and the agents that speak ACP, the session files those agents keep
  (the other \<open>*_session.rs\<close>) and Computer Use: protocols and files of other programs. Of the Claude driver the
  threads that tail the output files of background commands. The git and file system commands of
  the workspace, skill discovery and usage, which run other programs. Message search, composer
  drafts, blobs and schema migrations of the store, which touch no task. The desktop application
  (\<open>src/src\<close>) and the command line, which are views and glue. The TypeScript and Swift clients are
  ports in other languages.
\<close>

end
